(* ===== verification/Prelude.thy ===== *)
theory Prelude
  imports Main
begin

text \<open>
  Shared vocabulary and automation of the development: the collections the component
  theories add to, facts on lists, options and association lists, the two interface
  locales every stateful component instantiates (a table of rows with a key, a status
  machine with terminal states), and the representation of Go values.

  Go's \<open>time.Time\<close> is an \<open>int\<close>: nanoseconds since Go's zero time (so \<open>IsZero\<close> is
  equality with 0). \<open>int\<close> and \<open>int64\<close> fields are \<open>int\<close>: the code stores and compares
  them; the few places that parse them from text write the 64-bit range out.
\<close>

named_theorems row_simps \<open>reading and updating rows of a table\<close>
named_theorems go_defs \<open>small Go helpers that proofs unfold on sight\<close>

type_synonym gotime = int

subsection \<open>Deduplication with a seen set, as the Go loops do it\<close>

fun dedup_on :: "('a \<Rightarrow> 'k) \<Rightarrow> 'k list \<Rightarrow> 'a list \<Rightarrow> 'a list" where
  "dedup_on key seen [] = []"
| "dedup_on key seen (x # xs) =
     (if key x \<in> set seen then dedup_on key seen xs
      else x # dedup_on key (key x # seen) xs)"

lemma dedup_on_keys:
  "key ` set (dedup_on key seen xs) = key ` set xs - set seen"
  by (induction key seen xs rule: dedup_on.induct) auto

lemma dedup_on_distinct: "distinct (map key (dedup_on key seen xs))"
  by (induction key seen xs rule: dedup_on.induct)
    (simp_all add: dedup_on_keys)

lemma dedup_on_subset: "set (dedup_on key seen xs) \<subseteq> set xs"
  by (induction key seen xs rule: dedup_on.induct) auto

lemma dedup_on_seen_disjoint: "x \<in> set (dedup_on key seen xs) \<Longrightarrow> key x \<notin> set seen"
  using dedup_on_keys [of key seen xs] by blast

lemma dedup_on_set:
  assumes "inj key"
  shows "set (dedup_on key [] xs) = set xs"
proof -
  have "key ` set (dedup_on key [] xs) = key ` set xs"
    by (simp add: dedup_on_keys)
  with assms show ?thesis by (simp add: inj_image_eq_iff)
qed

lemma dedup_on_id:
  "distinct (map key xs) \<Longrightarrow> set seen \<inter> key ` set xs = {} \<Longrightarrow> dedup_on key seen xs = xs"
  by (induction xs arbitrary: seen) auto

subsection \<open>The last element that satisfies a predicate\<close>

fun find_last :: "('a \<Rightarrow> bool) \<Rightarrow> 'a list \<Rightarrow> 'a option" where
  "find_last P [] = None"
| "find_last P (x # xs) =
     (case find_last P xs of Some y \<Rightarrow> Some y | None \<Rightarrow> if P x then Some x else None)"

lemma find_last_None: "find_last P xs = None \<longleftrightarrow> (\<forall>x \<in> set xs. \<not> P x)"
  by (induction xs) (auto split: option.splits)

lemma find_last_Some: "find_last P xs = Some x \<Longrightarrow> x \<in> set xs \<and> P x"
  by (induction xs) (auto split: option.splits if_splits)

lemma find_last_append:
  "find_last P (xs @ ys) = (case find_last P ys of Some y \<Rightarrow> Some y | None \<Rightarrow> find_last P xs)"
  by (induction xs) (auto split: option.splits)

lemma find_last_snoc: "P x \<Longrightarrow> find_last P (xs @ [x]) = Some x"
  by (simp add: find_last_append)

lemma find_Some_in: "find P xs = Some x \<Longrightarrow> x \<in> set xs \<and> P x"
  by (auto simp: find_Some_iff)

subsection \<open>Tables of rows\<close>

text \<open>
  A database table is the list of its rows in insertion order. \<open>row_get\<close> is the
  single-row \<open>SELECT\<close>, \<open>row_update\<close> an \<open>UPDATE ... WHERE\<close>, insertion appends.
\<close>

definition row_get :: "('r \<Rightarrow> 'k) \<Rightarrow> 'k \<Rightarrow> 'r list \<Rightarrow> 'r option" where
  "row_get key k rows = find (\<lambda>r. key r = k) rows"

definition row_update :: "('r \<Rightarrow> bool) \<Rightarrow> ('r \<Rightarrow> 'r) \<Rightarrow> 'r list \<Rightarrow> 'r list" where
  "row_update P f rows = map (\<lambda>r. if P r then f r else r) rows"

definition rows_affected :: "('r \<Rightarrow> bool) \<Rightarrow> 'r list \<Rightarrow> nat" where
  "rows_affected P rows = length (filter P rows)"

lemma row_update_Nil [row_simps]: "row_update P f [] = []"
  and row_update_Cons [row_simps]:
    "row_update P f (r # rows) = (if P r then f r else r) # row_update P f rows"
  and row_update_append [row_simps]:
    "row_update P f (rs @ rows) = row_update P f rs @ row_update P f rows"
  by (simp_all add: row_update_def)

lemma rows_affected_one:
  assumes "distinct rows" "c \<in> set rows" "\<And>r. r \<in> set rows \<Longrightarrow> P r = (r = c)"
  shows "rows_affected P rows = 1"
proof -
  have "set (filter P rows) = {c}" using assms(2,3) by auto
  then show ?thesis using assms(1)
    unfolding rows_affected_def by (metis One_nat_def card_1_singleton_iff distinct_card distinct_filter)
qed

lemma row_update_one:
  assumes "\<And>r. r \<in> set rows \<Longrightarrow> P r = (r = c)"
  shows "row_update P f rows = row_update (\<lambda>r. r = c) f rows"
  unfolding row_update_def using assms by (intro map_cong) auto

lemma set_row_update:
  "set (row_update P f rows) = f ` {r \<in> set rows. P r} \<union> {r \<in> set rows. \<not> P r}"
  by (auto simp: row_update_def)

lemma row_update_ball:
  assumes "\<forall>r \<in> set rows. Q r" and "\<And>r. r \<in> set rows \<Longrightarrow> Q r \<Longrightarrow> P r \<Longrightarrow> Q (f r)"
  shows "\<forall>r \<in> set (row_update P f rows). Q r"
  using assms by (auto simp: row_update_def)

lemma row_update_id: "(\<And>r. r \<in> set rows \<Longrightarrow> \<not> P r) \<Longrightarrow> row_update P f rows = rows"
  by (induction rows) (auto simp: row_update_def)

lemma row_get_Some: "row_get key k rows = Some r \<Longrightarrow> r \<in> set rows \<and> key r = k"
  by (auto simp: row_get_def find_Some_iff)

lemma row_get_None: "row_get key k rows = None \<longleftrightarrow> k \<notin> key ` set rows"
  by (auto simp: row_get_def find_None_iff)

text \<open>
  The interface the services rely on: rows have a primary key, and updates keep it.
\<close>

locale keyed_table =
  fixes key :: "'r \<Rightarrow> 'k"
    and get :: "'k \<Rightarrow> 'r list \<Rightarrow> 'r option"
    and upd :: "('r \<Rightarrow> bool) \<Rightarrow> ('r \<Rightarrow> 'r) \<Rightarrow> 'r list \<Rightarrow> 'r list"
  assumes get_row: "get k rows = find (\<lambda>r. key r = k) rows"
    and upd_row: "upd P f rows = map (\<lambda>r. if P r then f r else r) rows"
begin

lemma get_in: "get k rows = Some r \<Longrightarrow> r \<in> set rows \<and> key r = k"
  by (auto simp: get_row find_Some_iff)

lemma get_unique:
  assumes "distinct (map key rows)" and "r \<in> set rows"
  shows "get (key r) rows = Some r"
  using assms by (induction rows) (auto simp: get_row)

lemma get_append_new:
  assumes "get k rows = None"
  shows "get k (rows @ [r]) = (if key r = k then Some r else None)"
  using assms by (induction rows) (auto simp: get_row split: if_splits)

lemma upd_keys:
  assumes "\<And>r. r \<in> set rows \<Longrightarrow> P r \<Longrightarrow> key (f r) = key r"
  shows "map key (upd P f rows) = map key rows"
  using assms by (induction rows) (auto simp: upd_row)

lemma get_upd:
  assumes "\<And>r. key (f r) = key r"
  shows "get k (upd P f rows) = map_option (\<lambda>r. if P r then f r else r) (get k rows)"
  using assms by (induction rows) (auto simp: get_row upd_row)

lemma get_upd_other:
  assumes "\<And>r. key (f r) = key r" and "\<And>r. P r \<Longrightarrow> key r \<noteq> k"
  shows "get k (upd P f rows) = get k rows"
proof -
  have "map_option (\<lambda>r. if P r then f r else r) (get k rows) = get k rows"
  proof (cases "get k rows")
    case (Some r)
    then have "\<not> P r" using get_in assms(2) by blast
    with Some show ?thesis by simp
  qed simp
  with assms(1) show ?thesis by (simp add: get_upd)
qed

end

text \<open>
  The interface of a status machine: which moves are allowed, and which states are
  final. The law is that a final state is left by no allowed move.
\<close>

locale status_machine =
  fixes allowed :: "'s \<Rightarrow> 's \<Rightarrow> bool"
    and final :: "'s \<Rightarrow> bool"
  assumes final_stuck: "final s \<Longrightarrow> \<not> allowed s t"
begin

lemma path_from_final:
  assumes "allowed\<^sup>*\<^sup>* s t" and "final s"
  shows "t = s"
  using assms by (induction rule: converse_rtranclp_induct) (auto dest: final_stuck)

lemma path_step_not_final:
  assumes "allowed\<^sup>*\<^sup>* s t" and "t \<noteq> s"
  shows "\<not> final s"
  using assms path_from_final by blast

end

end
