(* ===== verification/Go_Strings.thy ===== *)
theory Go_Strings
  imports Prelude "HOL-Library.Char_ord" "HOL-Library.List_Lexorder"
    "HOL-Library.Product_Lexorder" "HOL-Library.Sublist"
begin

text \<open>
  The Go string operations the backend uses, on byte strings (a Go string is its bytes,
  here a \<open>char list\<close>). \<open>strings.TrimSpace\<close> trims the Unicode white space in its UTF-8
  encodings; \<open>strings.ToLower\<close> and \<open>strings.EqualFold\<close> are modelled on ASCII letters,
  other bytes unchanged. \<open>strconv.ParseInt(s, 10, 64)\<close> has its 64-bit range check,
  \<open>fmt\<close>'s \<open>%d\<close> prints decimal. Byte order on strings is the lexicographic order of the
  lists. The last part is the RFC 3339 time stamp the stores write.
\<close>

subsection \<open>Prefixes, suffixes, searching\<close>

fun hasPrefix :: "string \<Rightarrow> string \<Rightarrow> bool" where
  "hasPrefix s [] = True"
| "hasPrefix [] (p # ps) = False"
| "hasPrefix (c # cs) (p # ps) = (c = p \<and> hasPrefix cs ps)"

definition hasSuffix :: "string \<Rightarrow> string \<Rightarrow> bool" where
  "hasSuffix s p = hasPrefix (rev s) (rev p)"

definition trimPrefix :: "string \<Rightarrow> string \<Rightarrow> string" where
  "trimPrefix s p = (if hasPrefix s p then drop (length p) s else s)"

definition trimSuffix :: "string \<Rightarrow> string \<Rightarrow> string" where
  "trimSuffix s p = (if hasSuffix s p then take (length s - length p) s else s)"

fun indexOf :: "string \<Rightarrow> string \<Rightarrow> nat option" where
  "indexOf [] p = (if p = [] then Some 0 else None)"
| "indexOf (c # cs) p =
     (if hasPrefix (c # cs) p then Some 0 else map_option Suc (indexOf cs p))"

definition containsStr :: "string \<Rightarrow> string \<Rightarrow> bool" where
  "containsStr s p = (indexOf s p \<noteq> None)"

lemma hasPrefix_iff: "hasPrefix s p \<longleftrightarrow> (\<exists>t. s = p @ t)"
  by (induction s p rule: hasPrefix.induct) auto

lemma hasPrefix_append [simp]: "hasPrefix (p @ t) p"
  by (auto simp: hasPrefix_iff)

lemma hasPrefix_length: "hasPrefix s p \<Longrightarrow> length p \<le> length s"
  by (auto simp: hasPrefix_iff)

lemma hasSuffix_iff: "hasSuffix s p \<longleftrightarrow> (\<exists>t. s = t @ p)"
proof
  assume "hasSuffix s p"
  then obtain t where "rev s = rev p @ t"
    by (auto simp: hasSuffix_def hasPrefix_iff)
  then have "s = rev t @ p" by (metis rev_append rev_rev_ident)
  then show "\<exists>t. s = t @ p" by blast
qed (auto simp: hasSuffix_def hasPrefix_iff)

lemma indexOf_Some:
  "indexOf s p = Some i \<Longrightarrow> i + length p \<le> length s \<and> hasPrefix (drop i s) p"
proof (induction s arbitrary: i)
  case Nil
  then show ?case by (auto split: if_splits)
next
  case (Cons c cs)
  show ?case
  proof (cases "hasPrefix (c # cs) p")
    case True
    with Cons.prems have i: "i = 0" by simp
    from True have "length p \<le> length (c # cs)" by (rule hasPrefix_length)
    with i True show ?thesis by simp
  next
    case False
    with Cons obtain j where "indexOf cs p = Some j" and "i = Suc j" by auto
    with Cons.IH show ?thesis by auto
  qed
qed

lemma containsStr_iff: "containsStr s p \<longleftrightarrow> (\<exists>a b. s = a @ p @ b)"
proof
  assume "containsStr s p"
  then obtain i where "hasPrefix (drop i s) p"
    unfolding containsStr_def using indexOf_Some by blast
  then obtain b where "drop i s = p @ b" by (auto simp: hasPrefix_iff)
  then have "s = take i s @ p @ b" by (metis append_take_drop_id)
  then show "\<exists>a b. s = a @ p @ b" by blast
next
  assume "\<exists>a b. s = a @ p @ b"
  then obtain a b where s: "s = a @ p @ b" by blast
  have "indexOf (a @ p @ b) p \<noteq> None"
  proof (induction a)
    case Nil
    have "hasPrefix (p @ b) p" by simp
    then show ?case by (cases "p @ b") simp_all
  next
    case (Cons c cs)
    then show ?case by auto
  qed
  with s show "containsStr s p" by (simp add: containsStr_def)
qed

subsection \<open>White space\<close>

definition goSpaces :: "string list" where
  "goSpaces =
     [[CHR 0x20], [CHR 0x09], [CHR 0x0A], [CHR 0x0B], [CHR 0x0C], [CHR 0x0D],
      [CHR 0xC2, CHR 0x85], [CHR 0xC2, CHR 0xA0], [CHR 0xE1, CHR 0x9A, CHR 0x80],
      [CHR 0xE2, CHR 0x80, CHR 0x80], [CHR 0xE2, CHR 0x80, CHR 0x81],
      [CHR 0xE2, CHR 0x80, CHR 0x82], [CHR 0xE2, CHR 0x80, CHR 0x83],
      [CHR 0xE2, CHR 0x80, CHR 0x84], [CHR 0xE2, CHR 0x80, CHR 0x85],
      [CHR 0xE2, CHR 0x80, CHR 0x86], [CHR 0xE2, CHR 0x80, CHR 0x87],
      [CHR 0xE2, CHR 0x80, CHR 0x88], [CHR 0xE2, CHR 0x80, CHR 0x89],
      [CHR 0xE2, CHR 0x80, CHR 0x8A], [CHR 0xE2, CHR 0x80, CHR 0xA8],
      [CHR 0xE2, CHR 0x80, CHR 0xA9], [CHR 0xE2, CHR 0x80, CHR 0xAF],
      [CHR 0xE2, CHR 0x81, CHR 0x9F], [CHR 0xE3, CHR 0x80, CHR 0x80]]"

definition leadLen :: "string list \<Rightarrow> string \<Rightarrow> nat" where
  "leadLen encs s = (case find (hasPrefix s) encs of None \<Rightarrow> 0 | Some p \<Rightarrow> length p)"

lemma leadLen_le: "leadLen encs s \<le> length s"
  by (auto simp: leadLen_def find_Some_iff dest: hasPrefix_length split: option.splits)

function stripLead :: "string list \<Rightarrow> string \<Rightarrow> string" where
  "stripLead encs s =
     (if leadLen encs s = 0 then s else stripLead encs (drop (leadLen encs s) s))"
  by pat_completeness auto
termination
proof (relation "measure (\<lambda>(encs, s). length s)", goal_cases)
  case (2 encs s)
  then have "0 < leadLen encs s" and "leadLen encs s \<le> length s"
    by (simp_all add: leadLen_le)
  then show ?case by simp
qed simp

declare stripLead.simps [simp del]

definition trimLeftSpace :: "string \<Rightarrow> string" where
  "trimLeftSpace s = stripLead goSpaces s"

definition trimRightSpace :: "string \<Rightarrow> string" where
  "trimRightSpace s = rev (stripLead (map rev goSpaces) (rev s))"

definition trimSpace :: "string \<Rightarrow> string" where
  "trimSpace s = trimRightSpace (trimLeftSpace s)"

definition blank :: "string \<Rightarrow> bool" where
  "blank s = (trimSpace s = [])"

lemma stripLead_stop: "leadLen encs (stripLead encs s) = 0"
proof (induction encs s rule: stripLead.induct)
  case (1 encs s)
  then show ?case by (cases "leadLen encs s = 0") (simp_all add: stripLead.simps [of encs s])
qed

lemma stripLead_id: "leadLen encs s = 0 \<Longrightarrow> stripLead encs s = s"
  by (simp add: stripLead.simps)

lemma stripLead_suffix: "\<exists>t. s = t @ stripLead encs s"
proof (induction encs s rule: stripLead.induct)
  case (1 encs s)
  show ?case
  proof (cases "leadLen encs s = 0")
    case True
    then show ?thesis by (simp add: stripLead_id)
  next
    case False
    with 1 obtain t where "drop (leadLen encs s) s = t @ stripLead encs s"
      by (metis stripLead.simps)
    then have "s = (take (leadLen encs s) s @ t) @ stripLead encs s"
      by (metis append.assoc append_take_drop_id)
    then show ?thesis by blast
  qed
qed

lemma leadLen_0_prefix:
  assumes "leadLen encs (s @ t) = 0" and "[] \<notin> set encs"
  shows "leadLen encs s = 0"
proof -
  have "find (hasPrefix s) encs = None"
  proof (rule ccontr)
    assume "find (hasPrefix s) encs \<noteq> None"
    then obtain p where "p \<in> set encs" and "hasPrefix s p"
      by (auto simp: find_None_iff)
    then have "hasPrefix (s @ t) p" by (auto simp: hasPrefix_iff)
    with \<open>p \<in> set encs\<close> have "find (hasPrefix (s @ t)) encs \<noteq> None"
      by (auto simp: find_None_iff)
    then obtain q where "find (hasPrefix (s @ t)) encs = Some q" by auto
    then have "leadLen encs (s @ t) = length q" by (simp add: leadLen_def)
    moreover from \<open>find (hasPrefix (s @ t)) encs = Some q\<close> have "q \<in> set encs"
      by (auto simp: find_Some_iff)
    ultimately have "length q = 0" and "q \<in> set encs" using assms(1) by simp_all
    with assms(2) show False by auto
  qed
  then show ?thesis by (simp add: leadLen_def)
qed

lemma trimSpace_idem [simp]: "trimSpace (trimSpace s) = trimSpace s"
proof -
  let ?l = "stripLead goSpaces s" and ?encs = "map rev goSpaces"
  let ?t = "rev (stripLead ?encs (rev ?l))"
  obtain u where "rev ?l = u @ stripLead ?encs (rev ?l)"
    using stripLead_suffix by blast
  then have "?l = ?t @ rev u" by (metis rev_append rev_rev_ident)
  moreover have "leadLen goSpaces ?l = 0" by (rule stripLead_stop)
  moreover have "[] \<notin> set goSpaces" by (simp add: goSpaces_def)
  ultimately have "leadLen goSpaces ?t = 0" by (metis leadLen_0_prefix)
  then have "trimLeftSpace ?t = ?t" by (simp add: trimLeftSpace_def stripLead_id)
  moreover have "stripLead ?encs (rev ?t) = rev ?t"
    by (simp add: stripLead_id stripLead_stop)
  ultimately show ?thesis
    by (simp add: trimSpace_def trimRightSpace_def trimLeftSpace_def)
qed

lemma trimSpace_Nil [simp]: "trimSpace [] = []"
  by (simp add: trimSpace_def trimLeftSpace_def trimRightSpace_def stripLead.simps
      leadLen_def goSpaces_def)

lemma blank_trimSpace [simp]: "blank (trimSpace s) = blank s"
  by (simp add: blank_def)

lemma blank_Nil [simp]: "blank []"
  by (simp add: blank_def)

definition trimCutset :: "string \<Rightarrow> string \<Rightarrow> string" where
  "trimCutset cs s =
     rev (dropWhile (\<lambda>c. c \<in> set cs) (rev (dropWhile (\<lambda>c. c \<in> set cs) s)))"

definition trimLeftCut :: "string \<Rightarrow> string \<Rightarrow> string" where
  "trimLeftCut cs s = dropWhile (\<lambda>c. c \<in> set cs) s"

definition trimRightCut :: "string \<Rightarrow> string \<Rightarrow> string" where
  "trimRightCut cs s = rev (dropWhile (\<lambda>c. c \<in> set cs) (rev s))"

subsection \<open>Case, tokens, membership\<close>

definition asciiLower :: "char \<Rightarrow> char" where
  "asciiLower c =
     (case map_of (zip ''ABCDEFGHIJKLMNOPQRSTUVWXYZ'' ''abcdefghijklmnopqrstuvwxyz'') c of
        Some d \<Rightarrow> d | None \<Rightarrow> c)"

definition toLower :: "string \<Rightarrow> string" where
  "toLower s = map asciiLower s"

definition equalFold :: "string \<Rightarrow> string \<Rightarrow> bool" where
  "equalFold a b = (toLower a = toLower b)"

definition replaceChars :: "string \<Rightarrow> char \<Rightarrow> string \<Rightarrow> string" where
  "replaceChars olds new s = map (\<lambda>c. if c \<in> set olds then new else c) s"

definition oneOf :: "string \<Rightarrow> string list \<Rightarrow> bool" where
  "oneOf v choices = list_ex (\<lambda>c. v = c) choices"

lemma oneOf_iff [simp]: "oneOf v choices \<longleftrightarrow> v \<in> set choices"
  by (auto simp: oneOf_def list_ex_iff)

lemma asciiLower_range: "asciiLower c = c \<or> asciiLower c \<in> set ''abcdefghijklmnopqrstuvwxyz''"
proof (cases "map_of (zip ''ABCDEFGHIJKLMNOPQRSTUVWXYZ'' ''abcdefghijklmnopqrstuvwxyz'') c")
  case None
  then show ?thesis by (simp only: asciiLower_def option.case) blast
next
  case (Some d)
  then have "d \<in> set ''abcdefghijklmnopqrstuvwxyz''"
    by (rule map_of_SomeD [THEN set_zip_rightD])
  with Some show ?thesis by (simp only: asciiLower_def option.case) blast
qed

lemma asciiLower_lower: "d \<in> set ''abcdefghijklmnopqrstuvwxyz'' \<Longrightarrow> asciiLower d = d"
proof -
  have "\<forall>d \<in> set ''abcdefghijklmnopqrstuvwxyz''. asciiLower d = d" by code_simp
  then show "d \<in> set ''abcdefghijklmnopqrstuvwxyz'' \<Longrightarrow> asciiLower d = d" by blast
qed

lemma asciiLower_idem [simp]: "asciiLower (asciiLower c) = asciiLower c"
  using asciiLower_range asciiLower_lower by metis

lemma toLower_idem [simp]: "toLower (toLower s) = toLower s"
  by (simp add: toLower_def)

lemma equalFold_refl [simp]: "equalFold a a"
  and equalFold_sym: "equalFold a b \<longleftrightarrow> equalFold b a"
  by (auto simp: equalFold_def)

lemma equalFold_trans: "equalFold a b \<Longrightarrow> equalFold b c \<Longrightarrow> equalFold a c"
  by (simp add: equalFold_def)

fun joinWith :: "string \<Rightarrow> string list \<Rightarrow> string" where
  "joinWith sep [] = []"
| "joinWith sep [x] = x"
| "joinWith sep (x # y # xs) = x @ sep @ joinWith sep (y # xs)"

subsection \<open>Decimal numbers\<close>

definition digitChar :: "nat \<Rightarrow> char" where
  "digitChar d = ''0123456789'' ! d"

definition digitVal :: "char \<Rightarrow> nat option" where
  "digitVal c = map_of (zip ''0123456789'' [0, 1, 2, 3, 4, 5, 6, 7, 8, 9]) c"

fun showNat :: "nat \<Rightarrow> string" where
  "showNat n = (if n < 10 then [digitChar n] else showNat (n div 10) @ [digitChar (n mod 10)])"

declare showNat.simps [simp del]

definition showInt :: "int \<Rightarrow> string" where
  "showInt i = (if i < 0 then CHR ''-'' # showNat (nat (- i)) else showNat (nat i))"

fun digitsVal :: "nat \<Rightarrow> string \<Rightarrow> nat option" where
  "digitsVal acc [] = Some acc"
| "digitsVal acc (c # cs) =
     (case digitVal c of None \<Rightarrow> None | Some d \<Rightarrow> digitsVal (10 * acc + d) cs)"

definition parseInt64 :: "string \<Rightarrow> int option" where
  "parseInt64 s =
     (let neg = (case s of c # _ \<Rightarrow> c = CHR ''-'' | [] \<Rightarrow> False);
          body = (case s of [] \<Rightarrow> []
                  | c # cs \<Rightarrow> if c = CHR ''-'' \<or> c = CHR ''+'' then cs else s)
      in if body = [] then None
         else (case digitsVal 0 body of None \<Rightarrow> None
               | Some n \<Rightarrow>
                   (let v = (if neg then - int n else int n)
                    in if - (2 ^ 63) \<le> v \<and> v < 2 ^ 63 then Some v else None)))"

lemma digitVal_digitChar: "d < 10 \<Longrightarrow> digitVal (digitChar d) = Some d"
proof -
  assume "d < 10"
  then have "d \<in> {0, 1, 2, 3, 4, 5, 6, 7, 8, 9}" by auto
  then show ?thesis by (auto simp: digitVal_def digitChar_def)
qed

lemma digitsVal_append:
  "digitsVal acc (xs @ ys) =
     (case digitsVal acc xs of None \<Rightarrow> None | Some n \<Rightarrow> digitsVal n ys)"
  by (induction xs arbitrary: acc) (auto split: option.splits)

lemma digitsVal_showNat: "digitsVal 0 (showNat n) = Some n"
proof (induction n rule: showNat.induct)
  case (1 n)
  show ?case
  proof (cases "n < 10")
    case True
    then show ?thesis by (simp add: showNat.simps [of n] digitVal_digitChar)
  next
    case False
    with 1 show ?thesis
      by (simp add: showNat.simps [of n] digitsVal_append digitVal_digitChar)
  qed
qed

lemma digitVal_sign: "digitVal CHR ''-'' = None" "digitVal CHR ''+'' = None"
  by (simp_all add: digitVal_def)

lemma showNat_head:
  obtains c cs where "showNat n = c # cs" and "c \<noteq> CHR ''-''" and "c \<noteq> CHR ''+''"
proof -
  have "showNat n \<noteq> []" by (subst showNat.simps) simp
  then obtain c cs where c: "showNat n = c # cs" by (cases "showNat n") auto
  with digitsVal_showNat [of n] have "digitVal c \<noteq> None" by (auto split: option.splits)
  then have "c \<noteq> CHR ''-''" and "c \<noteq> CHR ''+''" using digitVal_sign by auto
  with c that show ?thesis by blast
qed

lemma parseInt64_showInt:
  assumes "- (2 ^ 63) \<le> i" and "i < 2 ^ 63"
  shows "parseInt64 (showInt i) = Some i"
proof (cases "i < 0")
  case True
  obtain c cs where "showNat (nat (- i)) = c # cs" by (rule showNat_head)
  with True assms digitsVal_showNat [of "nat (- i)"] show ?thesis
    by (simp add: parseInt64_def showInt_def)
next
  case False
  obtain c cs where "showNat (nat i) = c # cs" and "c \<noteq> CHR ''-''" and "c \<noteq> CHR ''+''"
    by (rule showNat_head)
  with False assms digitsVal_showNat [of "nat i"] show ?thesis
    by (simp add: parseInt64_def showInt_def)
qed

lemma parseInt64_range: "parseInt64 s = Some v \<Longrightarrow> - (2 ^ 63) \<le> v \<and> v < 2 ^ 63"
  by (auto simp: parseInt64_def Let_def split: if_splits option.splits)

lemma showNat_inject [simp]: "showNat m = showNat n \<longleftrightarrow> m = n"
  using digitsVal_showNat by (metis option.inject)

lemma showNat_not_minus: "showNat n \<noteq> CHR ''-'' # cs"
  using showNat_head [of n] by (metis list.inject)

lemma showInt_inject [simp]: "showInt i = showInt j \<longleftrightarrow> i = j"
  by (auto simp: showInt_def showNat_not_minus showNat_not_minus [symmetric])

lemma digitsVal_digits: "digitsVal acc s = Some n \<Longrightarrow> c \<in> set s \<Longrightarrow> digitVal c \<noteq> None"
  by (induction acc s rule: digitsVal.induct) (auto split: option.splits)

lemma showNat_digits: "c \<in> set (showNat n) \<Longrightarrow> digitVal c \<noteq> None"
  using digitsVal_digits [OF digitsVal_showNat] .

lemma showInt_digits: "c \<in> set (showInt i) \<Longrightarrow> c = CHR ''-'' \<or> digitVal c \<noteq> None"
  by (auto simp: showInt_def dest: showNat_digits split: if_splits)

text \<open>Lines written one after the other, each with its line feed.\<close>

definition newline :: string where
  "newline = [CHR 0x0A]"

definition bulletin :: "string list \<Rightarrow> string" where
  "bulletin ls = concat (map (\<lambda>l. l @ newline) ls)"

end
