(* ===== verification/Json.thy ===== *)
theory Json
  imports Go_Strings
begin

text \<open>
  What the backend uses of \<open>encoding/json\<close>: the syntax tree of a document, the reader
  (white space, literals, numbers kept as text as with \<open>UseNumber\<close>, strings with escapes
  and surrogate pairs decoded to UTF-8), the compact writer with Go's HTML-safe escapes,
  and the typed accessors. A \<open>json.RawMessage\<close> is the tree it spells. Bytes above 0x7F
  are copied: comment bodies and marker fields were themselves decoded from GitHub's JSON
  and are valid UTF-8. Go's nesting limit of 10000 is not modelled.

  The reader recurses over the remaining text with fuel; \<open>parse_enough\<close> shows that
  twice the length of the text (plus one) is enough for every text.
\<close>

datatype json =
    JNull
  | JBool bool
  | JNum string
  | JStr string
  | JArr "json list"
  | JObj "(string \<times> json) list"

subsection \<open>Strings\<close>

definition jsonSpace :: "char \<Rightarrow> bool" where
  "jsonSpace c = (c = CHR 0x20 \<or> c = CHR 0x09 \<or> c = CHR 0x0A \<or> c = CHR 0x0D)"

definition skipWs :: "string \<Rightarrow> string" where
  "skipWs s = dropWhile jsonSpace s"

definition hexDigits :: string where
  "hexDigits = ''0123456789abcdef''"

definition hexVal :: "char \<Rightarrow> nat option" where
  "hexVal c = map_of (zip (hexDigits @ ''ABCDEF'')
     [0, 1, 2, 3, 4, 5, 6, 7, 8, 9, 10, 11, 12, 13, 14, 15, 10, 11, 12, 13, 14, 15]) c"

definition ctlChar :: "char \<Rightarrow> bool" where
  "ctlChar c = ((of_char c :: nat) < 32)"

definition unescapeChar :: "char \<Rightarrow> char option" where
  "unescapeChar c = map_of
     [(CHR 0x22, CHR 0x22), (CHR 0x5C, CHR 0x5C), (CHR ''/'', CHR ''/''),
      (CHR ''b'', CHR 0x08), (CHR ''f'', CHR 0x0C), (CHR ''n'', CHR 0x0A),
      (CHR ''r'', CHR 0x0D), (CHR ''t'', CHR 0x09)] c"

datatype sunit = Byte char | U16 nat

datatype sstate = SPlain | SEsc | SHex "nat list"

fun scanStr :: "sstate \<Rightarrow> string \<Rightarrow> (sunit list \<times> string) option" where
  "scanStr st [] = None"
| "scanStr SPlain (c # cs) =
     (if c = CHR 0x22 then Some ([], cs)
      else if c = CHR 0x5C then scanStr SEsc cs
      else if ctlChar c then None
      else map_option (apfst (Cons (Byte c))) (scanStr SPlain cs))"
| "scanStr SEsc (c # cs) =
     (if c = CHR ''u'' then scanStr (SHex []) cs
      else (case unescapeChar c of None \<Rightarrow> None
            | Some d \<Rightarrow> map_option (apfst (Cons (Byte d))) (scanStr SPlain cs)))"
| "scanStr (SHex hs) (c # cs) =
     (case hexVal c of None \<Rightarrow> None
      | Some h \<Rightarrow>
          if length hs = 3
          then map_option (apfst (Cons (U16 (foldl (\<lambda>a d. 16 * a + d) 0 (hs @ [h])))))
                 (scanStr SPlain cs)
          else scanStr (SHex (hs @ [h])) cs)"

definition utf8 :: "nat \<Rightarrow> string" where
  "utf8 n =
     (if n < 0x80 then [char_of n]
      else if n < 0x800 then [char_of (0xC0 + n div 64), char_of (0x80 + n mod 64)]
      else if n < 0x10000
      then [char_of (0xE0 + n div 4096), char_of (0x80 + n div 64 mod 64), char_of (0x80 + n mod 64)]
      else [char_of (0xF0 + n div 262144), char_of (0x80 + n div 4096 mod 64),
            char_of (0x80 + n div 64 mod 64), char_of (0x80 + n mod 64)])"

definition highSurrogate :: "nat \<Rightarrow> bool" where
  "highSurrogate h = (0xD800 \<le> h \<and> h < 0xDC00)"

definition lowSurrogate :: "nat \<Rightarrow> bool" where
  "lowSurrogate h = (0xDC00 \<le> h \<and> h < 0xE000)"

fun decodeUnits :: "sunit list \<Rightarrow> string" where
  "decodeUnits [] = []"
| "decodeUnits (Byte c # us) = c # decodeUnits us"
| "decodeUnits (U16 h # us) =
     (if highSurrogate h \<or> lowSurrogate h
      then (case us of
              U16 l # us' \<Rightarrow>
                if highSurrogate h \<and> lowSurrogate l
                then utf8 (0x10000 + (h - 0xD800) * 1024 + (l - 0xDC00)) @ decodeUnits us'
                else utf8 0xFFFD @ decodeUnits us
            | _ \<Rightarrow> utf8 0xFFFD @ decodeUnits us)
      else utf8 h @ decodeUnits us)"

lemma scanStr_consumes: "scanStr st s = Some (us, r) \<Longrightarrow> length r < length s"
proof (induction st s arbitrary: us r rule: scanStr.induct)
  case (2 c cs)
  then show ?case by (auto split: if_splits)
next
  case (3 c cs)
  then show ?case by (auto split: if_splits option.splits) fastforce+
next
  case (4 hs c cs)
  then show ?case by (auto split: if_splits option.splits) fastforce+
qed simp

subsection \<open>Numbers\<close>

definition isDigit :: "char \<Rightarrow> bool" where
  "isDigit c = (c \<in> set ''0123456789'')"

definition scanIntPart :: "string \<Rightarrow> (string \<times> string) option" where
  "scanIntPart s = (case s of [] \<Rightarrow> None
     | c # cs \<Rightarrow> if c = CHR ''0'' then Some ([c], cs)
                else if isDigit c then Some (takeWhile isDigit s, dropWhile isDigit s)
                else None)"

definition scanFrac :: "string \<Rightarrow> (string \<times> string) option" where
  "scanFrac s = (case s of [] \<Rightarrow> Some ([], s)
     | c # cs \<Rightarrow> if c \<noteq> CHR ''.'' then Some ([], s)
                else if takeWhile isDigit cs = [] then None
                else Some (c # takeWhile isDigit cs, dropWhile isDigit cs))"

definition scanExp :: "string \<Rightarrow> (string \<times> string) option" where
  "scanExp s = (case s of [] \<Rightarrow> Some ([], s)
     | c # cs \<Rightarrow>
        if c \<noteq> CHR ''e'' \<and> c \<noteq> CHR ''E'' then Some ([], s)
        else (let sign = takeWhile (\<lambda>d. d \<in> set ''+-'') (take 1 cs);
                  ds = drop (length sign) cs
              in if takeWhile isDigit ds = [] then None
                 else Some (c # sign @ takeWhile isDigit ds, dropWhile isDigit ds)))"

definition scanNumber :: "string \<Rightarrow> (string \<times> string) option" where
  "scanNumber s =
     (let sign = takeWhile (\<lambda>d. d = CHR ''-'') (take 1 s); s0 = drop (length sign) s
      in case scanIntPart s0 of None \<Rightarrow> None
         | Some (i, s1) \<Rightarrow> (case scanFrac s1 of None \<Rightarrow> None
             | Some (f, s2) \<Rightarrow> (case scanExp s2 of None \<Rightarrow> None
                 | Some (e, s3) \<Rightarrow> Some (sign @ i @ f @ e, s3))))"

lemma dropWhile_length_le: "length (dropWhile P s) \<le> length s"
  by (induction s) auto

lemma scanIntPart_consumes: "scanIntPart s = Some (x, r) \<Longrightarrow> length r < length s"
  by (auto simp: scanIntPart_def le_imp_less_Suc dropWhile_length_le
      split: list.splits if_splits)

lemma scanFrac_consumes: "scanFrac s = Some (x, r) \<Longrightarrow> length r \<le> length s"
  by (auto simp: scanFrac_def le_SucI dropWhile_length_le split: list.splits if_splits)

lemma scanExp_consumes:
  assumes "scanExp s = Some (x, r)"
  shows "length r \<le> length s"
proof -
  have "length (dropWhile isDigit (drop n cs)) \<le> Suc (length cs)" for n cs
    using dropWhile_length_le [of isDigit "drop n cs"] by simp
  with assms show ?thesis
    by (auto simp: scanExp_def Let_def split: list.splits if_splits)
qed

lemma scanNumber_consumes:
  assumes "scanNumber s = Some (x, r)"
  shows "length r < length s"
proof -
  let ?s0 = "drop (length (takeWhile (\<lambda>d. d = CHR ''-'') (take 1 s))) s"
  from assms obtain i s1 f s2 e where
    "scanIntPart ?s0 = Some (i, s1)" "scanFrac s1 = Some (f, s2)" "scanExp s2 = Some (e, r)"
    by (auto simp: scanNumber_def Let_def split: option.splits prod.splits)
  then have "length s1 < length ?s0" "length s2 \<le> length s1" "length r \<le> length s2"
    by (blast intro: scanIntPart_consumes scanFrac_consumes scanExp_consumes)+
  moreover have "length ?s0 \<le> length s" by simp
  ultimately show ?thesis by linarith
qed

subsection \<open>Values\<close>

definition scanLiteral :: "string \<Rightarrow> (json \<times> string) option" where
  "scanLiteral s =
     (if hasPrefix s ''true'' then Some (JBool True, drop 4 s)
      else if hasPrefix s ''false'' then Some (JBool False, drop 5 s)
      else if hasPrefix s ''null'' then Some (JNull, drop 4 s)
      else map_option (apfst JNum) (scanNumber s))"

fun parseValue :: "nat \<Rightarrow> string \<Rightarrow> (json \<times> string) option"
  and parseElems :: "nat \<Rightarrow> string \<Rightarrow> (json list \<times> string) option"
  and parseMembers :: "nat \<Rightarrow> string \<Rightarrow> ((string \<times> json) list \<times> string) option" where
  "parseValue 0 s = None"
| "parseValue (Suc fuel) s =
     (case skipWs s of [] \<Rightarrow> None
      | c # cs \<Rightarrow>
         if c = CHR 0x22
         then (case scanStr SPlain cs of None \<Rightarrow> None
               | Some (us, r) \<Rightarrow> Some (JStr (decodeUnits us), r))
         else if c = CHR 0x7B
         then (if hasPrefix (skipWs cs) [CHR 0x7D] then Some (JObj [], tl (skipWs cs))
               else map_option (apfst JObj) (parseMembers fuel cs))
         else if c = CHR 0x5B
         then (if hasPrefix (skipWs cs) [CHR 0x5D] then Some (JArr [], tl (skipWs cs))
               else map_option (apfst JArr) (parseElems fuel cs))
         else scanLiteral (c # cs))"
| "parseElems 0 s = None"
| "parseElems (Suc fuel) s =
     (case parseValue fuel s of None \<Rightarrow> None
      | Some (v, r) \<Rightarrow>
         (case skipWs r of [] \<Rightarrow> None
          | c # r' \<Rightarrow>
              if c = CHR 0x2C then map_option (apfst (Cons v)) (parseElems fuel r')
              else if c = CHR 0x5D then Some ([v], r') else None))"
| "parseMembers 0 s = None"
| "parseMembers (Suc fuel) s =
     (case skipWs s of [] \<Rightarrow> None
      | q # cs \<Rightarrow>
         if q \<noteq> CHR 0x22 then None
         else (case scanStr SPlain cs of None \<Rightarrow> None
           | Some (us, r) \<Rightarrow>
              (case skipWs r of [] \<Rightarrow> None
               | col # r1 \<Rightarrow>
                  if col \<noteq> CHR 0x3A then None
                  else (case parseValue fuel r1 of None \<Rightarrow> None
                    | Some (v, r2) \<Rightarrow>
                       (case skipWs r2 of [] \<Rightarrow> None
                        | c # r3 \<Rightarrow>
                           if c = CHR 0x2C
                           then map_option (apfst (Cons (decodeUnits us, v))) (parseMembers fuel r3)
                           else if c = CHR 0x7D then Some ([(decodeUnits us, v)], r3)
                           else None)))))"

text \<open>One value from the front of a text (\<open>Decoder.Decode\<close>), and a text that is one value
  (\<open>json.Unmarshal\<close>).\<close>

definition decodeFirst :: "string \<Rightarrow> (json \<times> string) option" where
  "decodeFirst s = parseValue (2 * length s + 1) s"

definition unmarshal :: "string \<Rightarrow> json option" where
  "unmarshal s =
     (case decodeFirst s of Some (v, r) \<Rightarrow> if skipWs r = [] then Some v else None
      | None \<Rightarrow> None)"

lemma skipWs_length: "length (skipWs s) \<le> length s"
  by (simp add: skipWs_def dropWhile_length_le)

lemma skipWs_Cons: "skipWs s = c # cs \<Longrightarrow> length cs < length s"
  using skipWs_length [of s] by simp

lemma scanLiteral_consumes: "scanLiteral s = Some (v, r) \<Longrightarrow> length r < length s"
  by (auto simp: scanLiteral_def dest: hasPrefix_length scanNumber_consumes split: if_splits)

lemma tl_skipWs_length: "hasPrefix (skipWs s) [c] \<Longrightarrow> length (tl (skipWs s)) < length s"
  using skipWs_length [of s] by (cases "skipWs s") auto

lemma parse_consumes:
  "parseValue n s = Some (v, r) \<Longrightarrow> length r < length s"
  "parseElems n s = Some (vs, r) \<Longrightarrow> length r < length s"
  "parseMembers n s = Some (ms, r) \<Longrightarrow> length r < length s"
proof (induction n s and n s and n s arbitrary: v r and vs r and ms r
    rule: parseValue_parseElems_parseMembers.induct)
  case (2 fuel s)
  then obtain c cs where c: "skipWs s = c # cs" by (auto split: list.splits)
  then have l: "length cs < length s" by (rule skipWs_Cons)
  have "length r < Suc (length cs)"
    using "2.prems" c "2.IH" [OF c]
    by (auto split: if_splits option.splits dest!: scanStr_consumes scanLiteral_consumes
        dest: tl_skipWs_length less_SucI)
  with skipWs_length [of s] c show ?case by simp
next
  case (4 fuel s)
  then obtain v r1 c r2 where v: "parseValue fuel s = Some (v, r1)" and c: "skipWs r1 = c # r2"
    by (auto split: option.splits list.splits)
  then have "length r1 < length s" and "length r2 < length r1"
    using "4.IH"(1) skipWs_Cons by blast+
  moreover have "length r \<le> length r2"
    using "4.prems" v c "4.IH"(2) [OF v refl c] by (auto split: if_splits dest: less_imp_le)
  ultimately show ?case by linarith
next
  case (6 fuel s)
  then obtain q cs us r0 where s1: "skipWs s = q # cs" "q = CHR 0x22" "scanStr SPlain cs = Some (us, r0)"
    by (auto split: list.splits option.splits if_splits)
  with "6.prems" obtain col r1 v r2 c r3 where s2: "skipWs r0 = col # r1" "col = CHR 0x3A"
      "parseValue fuel r1 = Some (v, r2)" "skipWs r2 = c # r3"
    by (auto split: list.splits option.splits if_splits)
  have "length cs < length s" "length r0 < length cs" "length r1 < length r0"
       "length r2 < length r1" "length r3 < length r2"
    using s1 s2 skipWs_Cons scanStr_consumes "6.IH"(1) by blast+
  moreover have "length r \<le> length r3"
    using "6.prems" s1 s2 "6.IH"(2) [OF s1(1) _ s1(3) refl s2(1) _ s2(3) refl s2(4)]
    by (auto split: if_splits dest: less_imp_le)
  ultimately show ?case by linarith
qed simp_all

text \<open>Fuel above twice the length never changes the result, so \<open>decodeFirst\<close> is the
  reader's answer and not a truncation.\<close>

lemma parse_fuel:
  "2 * length s < n \<Longrightarrow> 2 * length s < m \<Longrightarrow> parseValue n s = parseValue m s"
  "2 * length s + 1 < n \<Longrightarrow> 2 * length s + 1 < m \<Longrightarrow> parseElems n s = parseElems m s"
  "2 * length s < n \<Longrightarrow> 2 * length s < m \<Longrightarrow> parseMembers n s = parseMembers m s"
proof (induction n s and n s and n s arbitrary: m and m and m
    rule: parseValue_parseElems_parseMembers.induct)
  case (2 fuel s)
  obtain k where m: "m = Suc k" using "2.prems"(2) by (cases m) auto
  show ?case
  proof (cases "skipWs s")
    case Nil
    with m show ?thesis by simp
  next
    case (Cons c cs)
    then have l: "length cs < length s" by (rule skipWs_Cons)
    with "2.prems" m have b: "2 * length cs + 1 < fuel" "2 * length cs + 1 < k" by simp_all
    have mem: "parseMembers fuel cs = parseMembers k cs"
      if "c = CHR 0x7B" "\<not> hasPrefix (skipWs cs) [CHR 0x7D]"
      using "2.IH"(1) [OF Cons _ that, of k] b that(1) by simp
    have el: "parseElems fuel cs = parseElems k cs"
      if "c = CHR 0x5B" "\<not> hasPrefix (skipWs cs) [CHR 0x5D]"
      using "2.IH"(2) [OF Cons _ _ that, of k] b that(1) by simp
    consider (object) "c = CHR 0x7B" "\<not> hasPrefix (skipWs cs) [CHR 0x7D]"
      | (array) "c = CHR 0x5B" "\<not> hasPrefix (skipWs cs) [CHR 0x5D]"
      | (other) "c = CHR 0x7B \<longrightarrow> hasPrefix (skipWs cs) [CHR 0x7D]"
          "c = CHR 0x5B \<longrightarrow> hasPrefix (skipWs cs) [CHR 0x5D]"
      by blast
    then show ?thesis
    proof cases
      case object
      with mem [OF object] Cons m show ?thesis by simp
    next
      case array
      with el [OF array] Cons m show ?thesis by simp
    next
      case other
      with Cons m show ?thesis by (cases "c = CHR 0x7B"; cases "c = CHR 0x5B") simp_all
    qed
  qed
next
  case (4 fuel s)
  obtain k where m: "m = Suc k" using "4.prems"(2) by (cases m) auto
  with "4.prems" have "parseValue fuel s = parseValue k s" by (intro "4.IH"(1)) simp_all
  moreover have "parseElems fuel r2 = parseElems k r2"
    if "parseValue fuel s = Some (v, r1)" "skipWs r1 = c # r2" "c = CHR 0x2C" for v r1 c r2
  proof -
    have "length r2 < length s"
      using parse_consumes(1) [OF that(1)] skipWs_Cons [OF that(2)] by linarith
    with "4.prems" m that show ?thesis by (intro "4.IH"(2)) simp_all
  qed
  ultimately show ?case using m by (simp split: option.splits list.splits)
next
  case (6 fuel s)
  obtain k where m: "m = Suc k" using "6.prems"(2) by (cases m) auto
  show ?case
  proof (cases "parseMembers (Suc fuel) s = None \<and> parseMembers (Suc k) s = None")
    case False
    then obtain cs us r0 r1 where s: "skipWs s = CHR 0x22 # cs" "scanStr SPlain cs = Some (us, r0)"
        "skipWs r0 = CHR 0x3A # r1"
      by (auto split: list.splits option.splits if_splits)
    have "length cs < length s" "length r0 < length cs" "length r1 < length r0"
      using s skipWs_Cons scanStr_consumes by blast+
    then have l: "length r1 < length s" by linarith
    have v: "parseValue fuel r1 = parseValue k r1"
      using "6.IH"(1) [OF s(1) _ s(2) refl s(3)] l "6.prems" m by simp
    have "parseMembers fuel r3 = parseMembers k r3"
      if "parseValue fuel r1 = Some (w, r2)" "skipWs r2 = CHR 0x2C # r3" for w r2 r3
    proof -
      have "length r3 < length s"
        using parse_consumes(1) [OF that(1)] skipWs_Cons [OF that(2)] l by linarith
      with "6.IH"(2) [OF s(1) _ s(2) refl s(3) _ that(1) refl that(2)] "6.prems" m
      show ?thesis by simp
    qed
    with v s m show ?thesis by (simp split: option.splits list.splits)
  qed (use m in simp)
qed simp_all

lemma parse_enough:
  assumes "2 * length s < n"
  shows "parseValue n s = decodeFirst s"
  unfolding decodeFirst_def using assms by (intro parse_fuel(1)) simp_all

subsection \<open>The compact writer\<close>

definition hexChar :: "nat \<Rightarrow> char" where
  "hexChar d = hexDigits ! d"

definition escapeUnit :: "char \<Rightarrow> string" where
  "escapeUnit c =
     (let n = of_char c in
      if c = CHR 0x22 then [CHR 0x5C, CHR 0x22]
      else if c = CHR 0x5C then [CHR 0x5C, CHR 0x5C]
      else if c = CHR 0x08 then [CHR 0x5C, CHR ''b'']
      else if c = CHR 0x0C then [CHR 0x5C, CHR ''f'']
      else if c = CHR 0x0A then [CHR 0x5C, CHR ''n'']
      else if c = CHR 0x0D then [CHR 0x5C, CHR ''r'']
      else if c = CHR 0x09 then [CHR 0x5C, CHR ''t'']
      else if ctlChar c \<or> c \<in> set ''<>&''
      then [CHR 0x5C, CHR ''u'', CHR ''0'', CHR ''0'', hexChar (n div 16), hexChar (n mod 16)]
      else [c])"

definition lineSeparator :: "string \<Rightarrow> bool" where
  "lineSeparator s =
     (hasPrefix s [CHR 0xE2, CHR 0x80, CHR 0xA8] \<or> hasPrefix s [CHR 0xE2, CHR 0x80, CHR 0xA9])"

fun escapeStr :: "string \<Rightarrow> string" where
  "escapeStr [] = []"
| "escapeStr (c # cs) =
     (if lineSeparator (c # cs)
      then [CHR 0x5C, CHR ''u'', CHR ''2'', CHR ''0'', CHR ''2'',
            if cs ! 1 = CHR 0xA8 then CHR ''8'' else CHR ''9''] @ escapeStr (drop 2 cs)
      else escapeUnit c @ escapeStr cs)"

definition quoteJson :: "string \<Rightarrow> string" where
  "quoteJson s = [CHR 0x22] @ escapeStr s @ [CHR 0x22]"

fun jsonText :: "json \<Rightarrow> string" where
  "jsonText JNull = ''null''"
| "jsonText (JBool b) = (if b then ''true'' else ''false'')"
| "jsonText (JNum t) = t"
| "jsonText (JStr s) = quoteJson s"
| "jsonText (JArr vs) = [CHR 0x5B] @ joinWith '','' (map jsonText vs) @ [CHR 0x5D]"
| "jsonText (JObj ms) =
     [CHR 0x7B] @ joinWith '','' (map (\<lambda>(k, v). quoteJson k @ '':'' @ jsonText v) ms) @ [CHR 0x7D]"

subsection \<open>Typed accessors\<close>

text \<open>A decoded object is the list of its members in the text's order; a later duplicate
  key overwrites an earlier one, as in a Go map.\<close>

type_synonym jobject = "(string \<times> json) list"

definition objLookup :: "jobject \<Rightarrow> string \<Rightarrow> json option" where
  "objLookup raw key = map_of (rev raw) key"

definition jsonInt :: "json \<Rightarrow> int option" where
  "jsonInt v = (case v of JNum t \<Rightarrow> parseInt64 t | _ \<Rightarrow> None)"

lemma objLookup_Nil [simp]: "objLookup [] k = None"
  by (simp add: objLookup_def)

lemma objLookup_snoc [simp]: "objLookup (raw @ [(k, v)]) k' = (if k' = k then Some v else objLookup raw k')"
  by (simp add: objLookup_def)

end
