(* ===== verification/Workflow_Types.thy ===== *)
theory Workflow_Types
  imports Json
begin

text \<open>
  The data of \<open>supervisor/types.go\<close> (the persisted GitHub snapshot) and
  \<open>workflow/types.go\<close> (what the router derives from it), field by field. A field has
  its struct's prefix. \<open>json.RawMessage\<close> is \<open>rawmsg\<close>: the tree of a valid message, or
  the text of an invalid one (only the legacy reader can build one, by \<open>strconv.Quote\<close>).
\<close>

subsection \<open>supervisor/types.go\<close>

record Project =
  pj_id :: int
  pj_owner :: string
  pj_repository :: string
  pj_workflow_mode :: string
  pj_polling_enabled :: bool
  pj_poll_interval :: int
  pj_sync_status :: string
  pj_sync_error :: string
  pj_sync_started :: "gotime option"
  pj_sync_completed :: "gotime option"
  pj_created :: gotime
  pj_updated :: gotime

record Label =
  lb_name :: string
  lb_color :: string
  lb_description :: string

record Comment =
  cm_id :: int
  cm_body :: string
  cm_author :: string
  cm_url :: string
  cm_created :: gotime
  cm_updated :: gotime

record CISummary =
  ci_head :: string
  ci_status :: string
  ci_conclusion :: string
  ci_source :: string
  ci_details :: string
  ci_updated :: gotime

definition noCI :: CISummary where
  "noCI = \<lparr>ci_head = [], ci_status = [], ci_conclusion = [], ci_source = [], ci_details = [], ci_updated = 0\<rparr>"

record PullRequest =
  pr_github_id :: int
  pr_number :: int
  pr_title :: string
  pr_state :: string
  pr_draft :: bool
  pr_mergeable :: string
  pr_base_ref :: string
  pr_head_ref :: string
  pr_head_sha :: string
  pr_url :: string
  pr_updated :: gotime
  pr_ci :: CISummary

record Issue =
  is_github_id :: int
  is_number :: int
  is_title :: string
  is_body :: string
  is_state :: string
  is_url :: string
  is_author :: string
  is_created :: gotime
  is_updated :: gotime
  is_labels :: "Label list"
  is_comments :: "Comment list"
  is_pulls :: "PullRequest list"

record ProjectSnapshot =
  ps_project :: Project
  ps_issues :: "Issue list"

record WorkspaceSnapshot =
  ws_generated :: gotime
  ws_projects :: "ProjectSnapshot list"

subsection \<open>workflow/types.go\<close>

datatype ParseLevel = ParseLevelEnvelope | ParseLevelHeading | ParseLevelActivity | ParseLevelNoActivity

datatype AttentionKind =
    AttentionNormal | AttentionWaiting | AttentionActionRequired | AttentionCIFailed
  | AttentionBlocked | AttentionOwnerRequired | AttentionQAInvalidated | AttentionAmbiguous
  | AttentionProtocolWarning | AttentionTerminal

datatype rawmsg = Raw json | RawInvalid string

record Warning =
  w_code :: string
  w_message :: string
  w_comment :: int

record ProtocolError =
  pe_code :: string
  pe_message :: string

record WorkerEvent =
  we_version :: int
  we_event :: string
  we_role :: string
  we_status :: string
  we_head :: string
  we_verdict :: string
  we_decision :: string
  we_resume_role :: string
  we_resolves :: "rawmsg option"
  we_escalate_to :: string
  we_extensions :: jobject

record ParsedComment =
  pc_project :: int
  pc_issue :: int
  pc_comment :: int
  pc_author :: string
  pc_url :: string
  pc_created :: gotime
  pc_updated :: gotime
  pc_level :: ParseLevel
  pc_heading :: string
  pc_markdown :: string
  pc_meaningful :: bool
  pc_safe :: bool
  pc_event :: "WorkerEvent option"
  pc_warnings :: "Warning list"
  pc_hard_error :: "ProtocolError option"

record ProjectIdentity =
  pi_id :: int
  pi_owner :: string
  pi_repository :: string
  pi_workflow_mode :: string

record WorkUnitIdentity =
  wi_project :: int
  wi_owner :: string
  wi_repository :: string
  wi_issue_github_id :: int
  wi_issue_number :: int
  wi_title :: string
  wi_url :: string

record Candidate =
  cd_github_id :: int
  cd_number :: int
  cd_title :: string
  cd_draft :: bool
  cd_mergeable :: string
  cd_base_ref :: string
  cd_head_ref :: string
  cd_head_sha :: string
  cd_url :: string
  cd_ci :: CISummary

record CandidateState =
  cs_current :: "Candidate option"
  cs_alternatives :: "Candidate list"
  cs_ambiguous :: bool

record ResultEvidence =
  re_project :: int
  re_issue :: int
  re_comment :: int
  re_role :: string
  re_status :: string
  re_head :: string
  re_verdict :: string
  re_decision :: string
  re_resume_role :: string
  re_resolves :: "rawmsg option"
  re_escalate_to :: string
  re_level :: ParseLevel
  re_stale :: bool
  re_effective :: bool
  re_created :: gotime
  re_warnings :: "Warning list"
  re_extensions :: jobject

record LatestResults =
  lr_lead :: "ResultEvidence option"
  lr_implementor :: "ResultEvidence option"
  lr_qa :: "ResultEvidence option"

record Attention =
  at_kind :: AttentionKind
  at_code :: string
  at_explanation :: string

record Route =
  rt_action :: string
  rt_target_role :: string
  rt_lane :: string
  rt_reason_code :: string
  rt_reason :: string
  rt_expected_head :: string
  rt_guards :: "string list"
  rt_warnings :: "Warning list"

record WorkUnitState =
  wu_identity :: WorkUnitIdentity
  wu_lifecycle :: string
  wu_candidate :: CandidateState
  wu_head :: string
  wu_ci :: CISummary
  wu_comments :: "ParsedComment list"
  wu_latest :: LatestResults
  wu_blocker :: "ResultEvidence option"
  wu_qa_reviewed :: string
  wu_qa_approved :: string
  wu_warnings :: "Warning list"
  wu_last_activity :: gotime
  wu_attention :: Attention
  wu_route :: Route

record AttentionItem =
  ai_project :: ProjectIdentity
  ai_unit :: WorkUnitIdentity
  ai_attention :: Attention
  ai_route :: Route

record ProjectState =
  st_project :: ProjectIdentity
  st_units :: "WorkUnitState list"
  st_attention :: "AttentionItem list"

record WorkspaceState =
  wk_generated :: gotime
  wk_projects :: "ProjectState list"
  wk_attention :: "AttentionItem list"

subsection \<open>workflow/external.go\<close>

record ExternalResult =
  xr_comment :: int
  xr_event :: "WorkerEvent option"
  xr_safe :: bool
  xr_warnings :: "Warning list"
  xr_hard_error :: "ProtocolError option"

record ExternalCommand =
  xc_id :: string
  xc_issue :: int
  xc_role :: string
  xc_action :: string
  xc_resource_profile :: string
  xc_context_hash :: string
  xc_expected_head :: string
  xc_status :: string
  xc_created :: gotime

type_synonym externalResults = "int \<rightharpoonup> ExternalResult"
type_synonym externalCommands = "int \<rightharpoonup> ExternalCommand"

text \<open>The process-local projection cache: \<open>SetProjectExternalState\<close> replaces a project's
  entry, \<open>projectExternal\<close> reads it, with empty maps for a project never set.\<close>

type_synonym externalCache = "int \<rightharpoonup> (externalResults \<times> externalCommands)"

definition SetProjectExternalState ::
  "int \<Rightarrow> externalResults \<Rightarrow> externalCommands \<Rightarrow> externalCache \<Rightarrow> externalCache" where
  "SetProjectExternalState projectID results commands cache = cache(projectID \<mapsto> (results, commands))"

definition projectExternal :: "externalCache \<Rightarrow> int \<Rightarrow> externalResults \<times> externalCommands" where
  "projectExternal cache projectID =
     (case cache projectID of None \<Rightarrow> (Map.empty, Map.empty) | Some stored \<Rightarrow> stored)"

definition mkWarning :: "int \<Rightarrow> string \<Rightarrow> string \<Rightarrow> Warning" where
  "mkWarning comment code message = \<lparr>w_code = code, w_message = message, w_comment = comment\<rparr>"

lemma mkWarning_sel [simp]:
  "w_code (mkWarning i c m) = c" "w_message (mkWarning i c m) = m" "w_comment (mkWarning i c m) = i"
  by (simp_all add: mkWarning_def)

end
