(* ===== verification/Markdown.thy ===== *)
theory Markdown
  imports Go_Strings
begin

text \<open>
  The scanner that decides which lines of a GitHub comment are operational text: lines
  outside fenced code and not indented code (\<open>workflow/parser.go\<close>), and additionally not
  block quotes in \<open>workerloop/marker.go\<close>. Both packages carry their own copy of the loop;
  \<open>scanLines\<close> is the shared loop, its first argument the package's test on a line.
  Offsets are byte offsets into the body, as in the code.
\<close>

subsection \<open>Lines and fences\<close>

fun splitLines :: "string \<Rightarrow> string list" where
  "splitLines [] = [[]]"
| "splitLines (c # cs) =
     (if c = CHR 0x0A then [] # splitLines cs
      else (case splitLines cs of [] \<Rightarrow> [[c]] | l # ls \<Rightarrow> (c # l) # ls))"

fun lineStarts :: "nat \<Rightarrow> string list \<Rightarrow> (nat \<times> string) list" where
  "lineStarts start [] = []"
| "lineStarts start (l # ls) = (start, l) # lineStarts (start + length l + 1) ls"

fun leadingIndent :: "nat \<Rightarrow> nat \<Rightarrow> string \<Rightarrow> nat \<times> nat" where
  "leadingIndent columns index [] = (columns, index)"
| "leadingIndent columns index (c # cs) =
     (if c = CHR 0x20 then leadingIndent (columns + 1) (index + 1) cs
      else if c = CHR 0x09 then leadingIndent (columns + (4 - columns mod 4)) (index + 1) cs
      else (columns, index))"

definition markdownLeadingIndent :: "string \<Rightarrow> nat \<times> nat" where
  "markdownLeadingIndent line = leadingIndent 0 0 line"

definition markdownIndentedCode :: "string \<Rightarrow> bool" where
  "markdownIndentedCode line = (4 \<le> fst (markdownLeadingIndent line))"

definition markdownFence :: "string \<Rightarrow> (char \<times> nat) option" where
  "markdownFence line =
     (let (indent, contentStart) = markdownLeadingIndent line;
          trimmed = drop contentStart line
      in if indent > 3 then None
         else (case trimmed of [] \<Rightarrow> None
           | c # _ \<Rightarrow>
               if length trimmed < 3 \<or> (c \<noteq> CHR 0x60 \<and> c \<noteq> CHR 0x7E) then None
               else (let len = length (takeWhile (\<lambda>d. d = c) trimmed)
                     in if len \<ge> 3 then Some (c, len) else None)))"

fun scanLines :: "(string \<Rightarrow> bool) \<Rightarrow> (char \<times> nat) option \<Rightarrow> (nat \<times> string) list \<Rightarrow> (nat \<times> nat) list" where
  "scanLines keep fence [] = []"
| "scanLines keep fence ((start, raw) # rest) =
     (let line = trimSuffix raw [CHR 0x0D] in
      case markdownFence line of
        Some (c, len) \<Rightarrow>
          (case fence of
             None \<Rightarrow> scanLines keep (Some (c, len)) rest
           | Some (fc, fl) \<Rightarrow>
               if c = fc \<and> len \<ge> fl then scanLines keep None rest
               else scanLines keep fence rest)
      | None \<Rightarrow>
          if fence = None \<and> keep line
          then (start, start + length line) # scanLines keep fence rest
          else scanLines keep fence rest)"

definition slice :: "string \<Rightarrow> nat \<times> nat \<Rightarrow> string" where
  "slice body sp = take (snd sp - fst sp) (drop (fst sp) body)"

subsection \<open>The two packages' scanners\<close>

definition liveMarkdownLineSpans :: "string \<Rightarrow> (nat \<times> nat) list" where
  "liveMarkdownLineSpans body =
     scanLines (\<lambda>line. \<not> markdownIndentedCode line) None (lineStarts 0 (splitLines body))"

definition liveMarkdownLines :: "string \<Rightarrow> string list" where
  "liveMarkdownLines body = map (slice body) (liveMarkdownLineSpans body)"

definition liveLineSpans :: "string \<Rightarrow> (nat \<times> nat) list" where
  "liveLineSpans body =
     scanLines (\<lambda>line. \<not> markdownIndentedCode line \<and> \<not> hasPrefix (trimSpace line) ''>'')
       None (lineStarts 0 (splitLines body))"

text \<open>The search loop for a marker inside one line: every occurrence is visited, those
  with only white space before them are reported. Both markers are non-empty constants.\<close>

function markersIn :: "string \<Rightarrow> string \<Rightarrow> nat \<Rightarrow> nat list" where
  "markersIn marker ln searchFrom =
     (if marker = [] then []
      else (case indexOf (drop searchFrom ln) marker of None \<Rightarrow> []
            | Some relative \<Rightarrow>
                (let index = searchFrom + relative in
                 (if blank (take index ln) then [index] else [])
                   @ markersIn marker ln (index + length marker))))"
  by pat_completeness auto
termination
proof (relation "measure (\<lambda>(marker, ln, pos). length ln - pos)", goal_cases)
  case (2 marker ln pos rel index)
  then have "rel + length marker \<le> length (drop pos ln)" and "marker \<noteq> []"
    using indexOf_Some by blast+
  with 2 show ?case by (cases marker) auto
qed simp

declare markersIn.simps [simp del]

definition markersOf :: "string \<Rightarrow> (nat \<times> nat) list \<Rightarrow> string \<Rightarrow> nat list" where
  "markersOf marker spans body =
     concat (map (\<lambda>sp. map (\<lambda>i. fst sp + i) (markersIn marker (slice body sp) 0)) spans)"

definition envelopeMarker :: string where
  "envelopeMarker = ''<!-- supervisor:event''"

definition resultMarker :: string where
  "resultMarker = ''<!-- cddm-dashboard:result''"

definition envelopeMarkerPositions :: "string \<Rightarrow> nat list" where
  "envelopeMarkerPositions body = markersOf envelopeMarker (liveMarkdownLineSpans body) body"

definition markerPositions :: "string \<Rightarrow> nat list" where
  "markerPositions body = markersOf resultMarker (liveLineSpans body) body"

subsection \<open>Headings\<close>

definition atxHeading :: "string \<Rightarrow> string option" where
  "atxHeading line =
     (let trimmed = trimLeftCut [CHR 0x20, CHR 0x09] line;
          count = length (takeWhile (\<lambda>c. c = CHR ''#'') (take 6 trimmed))
      in if count = 0 \<or>
            (count < length trimmed \<and> trimmed ! count \<noteq> CHR 0x20 \<and> trimmed ! count \<noteq> CHR 0x09)
         then None
         else (let heading = trimSpace (trimRightCut ''#'' (trimSpace (drop count trimmed)))
               in if heading = [] then None else Some heading))"

definition hasMarkdownHeading :: "string \<Rightarrow> string \<Rightarrow> bool" where
  "hasMarkdownHeading body expected =
     list_ex (\<lambda>line. case atxHeading line of None \<Rightarrow> False | Some h \<Rightarrow> equalFold h expected)
       (liveMarkdownLines body)"

subsection \<open>Facts on lines\<close>

lemma splitLines_nonempty [simp]: "splitLines s \<noteq> []"
  by (induction s) (auto split: list.splits)

lemma splitLines_no_newline: "l \<in> set (splitLines s) \<Longrightarrow> CHR 0x0A \<notin> set l"
  by (induction s arbitrary: l) (auto split: list.splits if_splits)

lemma lineStarts_slice:
  "(i, l) \<in> set (lineStarts n (splitLines s)) \<Longrightarrow>
     n \<le> i \<and> i + length l \<le> n + length s \<and> take (length l) (drop (i - n) s) = l"
proof (induction s arbitrary: n i l)
  case (Cons c cs)
  obtain m ms where ms: "splitLines cs = m # ms" by (cases "splitLines cs") auto
  show ?case
  proof (cases "c = CHR 0x0A")
    case True
    with Cons.prems consider "i = n" "l = []" | "(i, l) \<in> set (lineStarts (Suc n) (splitLines cs))"
      by auto
    then show ?thesis
    proof cases
      case 2
      with Cons.IH [of i l "Suc n"] have "Suc n \<le> i" "i + length l \<le> Suc n + length cs"
        "take (length l) (drop (i - Suc n) cs) = l" by simp_all
      moreover from this(1) have "drop (i - n) (c # cs) = drop (i - Suc n) cs"
        by (simp add: drop_Cons' flip: diff_Suc_eq_diff_pred)
      ultimately show ?thesis by simp
    qed simp
  next
    case False
    with Cons.prems ms consider (first) "i = n" "l = c # m"
      | (rest) "(i, l) \<in> set (lineStarts (Suc (n + length m) + 1) ms)"
      by auto
    then show ?thesis
    proof cases
      case first
      with Cons.IH [of "Suc n" m "Suc n"] ms show ?thesis by simp
    next
      case rest
      then have "(i, l) \<in> set (lineStarts (Suc n) (splitLines cs))" using ms by simp
      with Cons.IH [of i l "Suc n"] have "Suc n \<le> i" "i + length l \<le> Suc n + length cs"
        "take (length l) (drop (i - Suc n) cs) = l" by simp_all
      moreover from this(1) have "drop (i - n) (c # cs) = drop (i - Suc n) cs"
        by (simp add: drop_Cons' flip: diff_Suc_eq_diff_pred)
      ultimately show ?thesis by simp
    qed
  qed
qed simp

lemma trimSuffix_prefix: "\<exists>t. s = trimSuffix s p @ t"
proof (cases "hasSuffix s p")
  case True
  then obtain a where "s = a @ p" by (auto simp: hasSuffix_iff)
  then show ?thesis by (auto simp: trimSuffix_def)
qed (simp add: trimSuffix_def)

lemma scanLines_cases:
  assumes "(a, b) \<in> set (scanLines keep fence ((start, raw) # rest))"
  obtains (later) fence' where "(a, b) \<in> set (scanLines keep fence' rest)"
  | (this) "a = start" "b = start + length (trimSuffix raw [CHR 0x0D])" "fence = None"
      "markdownFence (trimSuffix raw [CHR 0x0D]) = None" "keep (trimSuffix raw [CHR 0x0D])"
  using assms
  by (cases "markdownFence (trimSuffix raw [CHR 0x0D])"; cases fence)
    (auto simp: Let_def split: if_splits prod.splits)

text \<open>
  The contract of a scanner: what it keeps is never indented code. Under it, every span
  is a whole line of the body that is neither a fence nor indented code, and a marker the
  scanner reports starts such a line.
\<close>

definition plainLine :: "string \<Rightarrow> bool" where
  "plainLine line = (markdownFence line = None \<and> \<not> markdownIndentedCode line)"

locale markdown_scanner =
  fixes keep :: "string \<Rightarrow> bool"
    and spans :: "string \<Rightarrow> (nat \<times> nat) list"
  assumes keep_not_indented: "keep line \<Longrightarrow> \<not> markdownIndentedCode line"
    and spans_scan: "spans body = scanLines keep None (lineStarts 0 (splitLines body))"
begin

lemma scanLines_line:
  "(a, b) \<in> set (scanLines keep fence ls) \<Longrightarrow>
     \<exists>raw. (a, raw) \<in> set ls \<and> b = a + length (trimSuffix raw [CHR 0x0D]) \<and>
       plainLine (trimSuffix raw [CHR 0x0D]) \<and> keep (trimSuffix raw [CHR 0x0D])"
proof (induction ls arbitrary: fence)
  case (Cons x ls)
  obtain start raw where x: "x = (start, raw)" by force
  from Cons.prems [unfolded x] show ?case
  proof (cases rule: scanLines_cases)
    case (later fence')
    then show ?thesis using Cons.IH x by auto
  next
    case this
    then show ?thesis using x keep_not_indented by (auto simp: plainLine_def)
  qed
qed simp

lemma span_is_line:
  assumes "sp \<in> set (spans body)"
  shows "plainLine (slice body sp) \<and> keep (slice body sp) \<and> CHR 0x0A \<notin> set (slice body sp)
    \<and> fst sp \<le> snd sp \<and> snd sp \<le> length body"
proof -
  obtain a b where sp: "sp = (a, b)" by force
  with assms obtain raw where raw: "(a, raw) \<in> set (lineStarts 0 (splitLines body))"
      "b = a + length (trimSuffix raw [CHR 0x0D])"
      "plainLine (trimSuffix raw [CHR 0x0D])" "keep (trimSuffix raw [CHR 0x0D])"
    using scanLines_line by (fastforce simp: spans_scan)
  obtain t where t: "raw = trimSuffix raw [CHR 0x0D] @ t" using trimSuffix_prefix by blast
  from lineStarts_slice [OF raw(1)]
  have l: "a + length raw \<le> length body" and body: "take (length raw) (drop a body) = raw" by simp_all
  have "slice body sp = take (length (trimSuffix raw [CHR 0x0D])) raw"
    using sp raw(2) arg_cong [OF t, of length] body
    by (metis add_diff_cancel_left' fst_conv le_add1 length_append min.absorb1 slice_def snd_conv take_take)
  also have "\<dots> = trimSuffix raw [CHR 0x0D]" using t by (metis append_eq_conv_conj)
  finally have eq: "slice body sp = trimSuffix raw [CHR 0x0D]" .
  have "CHR 0x0A \<notin> set raw"
  proof -
    have "raw \<in> snd ` set (lineStarts 0 (splitLines body))" using raw(1) by force
    moreover have "snd ` set (lineStarts n ls) = set ls" for n ls
      by (induction n ls rule: lineStarts.induct) auto
    ultimately show ?thesis using splitLines_no_newline by metis
  qed
  then have "CHR 0x0A \<notin> set (trimSuffix raw [CHR 0x0D])" by (metis Un_iff set_append t)
  moreover have "length (trimSuffix raw [CHR 0x0D]) \<le> length raw"
    by (metis length_append le_add1 t)
  ultimately show ?thesis using eq raw l sp by simp
qed

lemma marker_on_plain_line:
  assumes "i \<in> set (markersOf marker (spans body) body)"
  obtains sp j where "sp \<in> set (spans body)" and "i = fst sp + j"
    and "j \<in> set (markersIn marker (slice body sp) 0)" and "plainLine (slice body sp)"
    and "keep (slice body sp)"
  using assms span_is_line by (fastforce simp: markersOf_def)

end

interpretation workflow_scan:
  markdown_scanner "\<lambda>line. \<not> markdownIndentedCode line" liveMarkdownLineSpans
  by unfold_locales (simp_all add: liveMarkdownLineSpans_def)

interpretation worker_scan:
  markdown_scanner "\<lambda>line. \<not> markdownIndentedCode line \<and> \<not> hasPrefix (trimSpace line) ''>''" liveLineSpans
  by unfold_locales (simp_all add: liveLineSpans_def)

subsection \<open>Markers\<close>

lemma markersIn_sound:
  "i \<in> set (markersIn marker ln pos) \<Longrightarrow>
     pos \<le> i \<and> hasPrefix (drop i ln) marker \<and> blank (take i ln) \<and> i + length marker \<le> length ln"
proof (induction marker ln pos rule: markersIn.induct)
  case (1 marker ln pos)
  show ?case
  proof (cases "marker = [] \<or> indexOf (drop pos ln) marker = None")
    case True
    then have "markersIn marker ln pos = []" by (auto simp: markersIn.simps [of marker ln pos])
    with "1.prems" show ?thesis by simp
  next
    case False
    then obtain rel where rel: "indexOf (drop pos ln) marker = Some rel" and m: "marker \<noteq> []" by auto
    with "1.prems" consider "i = pos + rel" "blank (take (pos + rel) ln)"
      | "i \<in> set (markersIn marker ln (pos + rel + length marker))"
      by (auto simp: markersIn.simps [of marker ln pos] Let_def split: if_splits)
    then show ?thesis
    proof cases
      case 1
      have r: "rel + length marker \<le> length (drop pos ln)" "hasPrefix (drop (pos + rel) ln) marker"
        using indexOf_Some [OF rel] by (simp_all add: add.commute)
      moreover from r(1) m have "pos + rel + length marker \<le> length ln"
        by (cases marker) auto
      ultimately show ?thesis using 1 by simp
    next
      case 2
      with "1.IH" [OF m rel refl] show ?thesis by simp
    qed
  qed
qed

text \<open>Scanning for results keeps exactly the workflow's lines that are not block quotes.\<close>

lemma liveLineSpans_filter:
  "liveLineSpans body =
     filter (\<lambda>sp. \<not> hasPrefix (trimSpace (slice body sp)) ''>'') (liveMarkdownLineSpans body)"
proof -
  let ?K = "\<lambda>line. \<not> markdownIndentedCode line"
  let ?Q = "\<lambda>line. \<not> hasPrefix (trimSpace line) ''>''"
  have gen: "scanLines (\<lambda>l. ?K l \<and> ?Q l) fence ls = filter (\<lambda>sp. ?Q (slice body sp)) (scanLines ?K fence ls)"
    if "\<forall>(a, raw) \<in> set ls. slice body (a, a + length (trimSuffix raw [CHR 0x0D])) = trimSuffix raw [CHR 0x0D]"
    for fence ls
    using that by (induction ls arbitrary: fence) (auto simp: Let_def split: option.splits prod.splits)
  have "\<forall>(a, raw) \<in> set (lineStarts 0 (splitLines body)).
      slice body (a, a + length (trimSuffix raw [CHR 0x0D])) = trimSuffix raw [CHR 0x0D]"
  proof clarify
    fix a raw
    assume "(a, raw) \<in> set (lineStarts 0 (splitLines body))"
    then have "take (length raw) (drop a body) = raw" using lineStarts_slice by fastforce
    then have "slice body (a, a + length (trimSuffix raw [CHR 0x0D])) = take (length (trimSuffix raw [CHR 0x0D])) raw"
      using trimSuffix_prefix [of raw "[CHR 0x0D]"]
      by (metis add_diff_cancel_left' fst_conv le_add1 length_append min.absorb1 slice_def snd_conv take_take)
    then show "slice body (a, a + length (trimSuffix raw [CHR 0x0D])) = trimSuffix raw [CHR 0x0D]"
      using trimSuffix_prefix by (metis append_eq_conv_conj)
  qed
  then show ?thesis by (simp add: liveLineSpans_def liveMarkdownLineSpans_def gen)
qed

end
