(* ===== verification/Parser.thy ===== *)
theory Parser
  imports Workflow_Types Markdown
begin

text \<open>
  \<open>workflow/parser.go\<close>: how a GitHub comment becomes workflow evidence. A comment with a
  live \<open>supervisor:event\<close> envelope is authoritative, a known Markdown heading is legacy
  evidence, anything else is plain activity. Every malformed, unknown or contradictory
  input clears \<open>TransitionSafe\<close>; the text of \<open>encoding/json\<close>'s own error is left out of
  the message of a malformed envelope.
\<close>

subsection \<open>Small helpers\<close>

definition normalizeToken :: "string \<Rightarrow> string" where
  "normalizeToken value = replaceChars [CHR ''-'', CHR 0x20] CHR ''_'' (toLower (trimSpace value))"

definition uniqueStrings :: "string list \<Rightarrow> string list" where
  "uniqueStrings values = dedup_on (\<lambda>v. v) [] values"

text \<open>\<open>strconv.Quote\<close> and \<open>%q\<close>: the escapes Go writes, and whether the result is also valid
  JSON (Go's \<open>\a\<close>, \<open>\v\<close> and \<open>\x\<close> escapes are not).\<close>

definition quoteUnit :: "char \<Rightarrow> string" where
  "quoteUnit c =
     (let n = of_char c :: nat in
      if c = CHR 0x22 then [CHR 0x5C, CHR 0x22]
      else if c = CHR 0x5C then [CHR 0x5C, CHR 0x5C]
      else if n = 7 then [CHR 0x5C, CHR ''a'']
      else if n = 8 then [CHR 0x5C, CHR ''b'']
      else if n = 12 then [CHR 0x5C, CHR ''f'']
      else if n = 10 then [CHR 0x5C, CHR ''n'']
      else if n = 13 then [CHR 0x5C, CHR ''r'']
      else if n = 9 then [CHR 0x5C, CHR ''t'']
      else if n = 11 then [CHR 0x5C, CHR ''v'']
      else if n < 32 \<or> n = 127 then [CHR 0x5C, CHR ''x'', hexChar (n div 16), hexChar (n mod 16)]
      else [c])"

definition quoteNotJson :: "char \<Rightarrow> bool" where
  "quoteNotJson c =
     (let n = of_char c :: nat
      in (n < 32 \<or> n = 127) \<and> n \<noteq> 8 \<and> n \<noteq> 9 \<and> n \<noteq> 10 \<and> n \<noteq> 12 \<and> n \<noteq> 13)"

definition goQuote :: "string \<Rightarrow> string" where
  "goQuote s = [CHR 0x22] @ concat (map quoteUnit s) @ [CHR 0x22]"

definition quotedMessage :: "string \<Rightarrow> rawmsg" where
  "quotedMessage value =
     (if list_ex quoteNotJson value then RawInvalid (goQuote value) else Raw (JStr value))"

text \<open>\<open>decodeString\<close> returns whether it succeeded and what it left in the destination: a
  blank string is a failure that has already been stored.\<close>

definition decodeString :: "jobject \<Rightarrow> string \<Rightarrow> bool \<times> string" where
  "decodeString raw key =
     (case objLookup raw key of
        Some (JStr v) \<Rightarrow> if blank v then (False, v) else (True, trimSpace v)
      | _ \<Rightarrow> (False, []))"

definition decodeInt :: "jobject \<Rightarrow> string \<Rightarrow> bool \<times> int" where
  "decodeInt raw key =
     (case objLookup raw key of
        Some v \<Rightarrow> (case jsonInt v of Some i \<Rightarrow> (True, i) | None \<Rightarrow> (False, 0))
      | None \<Rightarrow> (False, 0))"

definition decodeMap :: "string \<Rightarrow> jobject option" where
  "decodeMap document =
     (case unmarshal document of
        Some (JObj ms) \<Rightarrow> Some ms | Some JNull \<Rightarrow> Some [] | _ \<Rightarrow> None)"

subsection \<open>Markdown headings\<close>

definition supportedHeadings :: "(string \<times> string \<times> string) list" where
  "supportedHeadings =
     [(''Implementor Handoff'', ''implementor'', ''completed''),
      (''Implementor Result'', ''implementor'', ''completed''),
      (''QA Verdict'', ''qa'', ''completed''),
      (''Blocker'', '''', ''blocked''),
      (''Lead Decision'', ''lead'', ''completed''),
      (''Lead Escalation'', ''lead'', ''blocked''),
      (''Stage Handoff'', ''lead'', ''completed'')]"

definition blankEvent :: WorkerEvent where
  "blankEvent = \<lparr>we_version = 0, we_event = [], we_role = [], we_status = [], we_head = [],
     we_verdict = [], we_decision = [], we_resume_role = [], we_resolves = None,
     we_escalate_to = [], we_extensions = []\<rparr>"

definition lineHeading :: "string \<Rightarrow> (string \<times> string \<times> string) option" where
  "lineHeading line =
     (case atxHeading line of None \<Rightarrow> None
      | Some heading \<Rightarrow> find (\<lambda>(name, _). equalFold heading name) supportedHeadings)"

fun firstHeading :: "string list \<Rightarrow> (string \<times> string \<times> string) option" where
  "firstHeading [] = None"
| "firstHeading (line # rest) =
     (case lineHeading line of Some h \<Rightarrow> Some h | None \<Rightarrow> firstHeading rest)"

definition classifyHeading :: "string \<Rightarrow> (string \<times> WorkerEvent) option" where
  "classifyHeading body =
     map_option (\<lambda>(name, role, status).
        (name, blankEvent\<lparr>we_version := 1, we_event := ''worker_result'', we_role := role, we_status := status\<rparr>))
       (firstHeading (liveMarkdownLines body))"

subsection \<open>Legacy field lines\<close>

text \<open>
  \<open>fieldLinePattern\<close>, the multi-line, case-insensitive expression for a line
  \<open>[-*] key : value\<close>. White space of the expression spans line breaks, so the value may
  start on a later line than the key. \<open>fieldMatchAt\<close> is a match attempt at a line start;
  its result is the key as written, the value, and the text after the value's line, where
  the search goes on.
\<close>

definition reSpace :: "char \<Rightarrow> bool" where
  "reSpace c = (c \<in> {CHR 0x09, CHR 0x0A, CHR 0x0C, CHR 0x0D, CHR 0x20})"

definition fieldKeys :: "string list" where
  "fieldKeys = [''head'', ''verdict'', ''decision'', ''resume_role'', ''resume role'',
     ''resolves'', ''escalate_to'', ''escalate to'']"

definition afterLine :: "string \<Rightarrow> string" where
  "afterLine s = drop 1 (dropWhile (\<lambda>c. c \<noteq> CHR 0x0A) s)"

definition fieldValue :: "string \<Rightarrow> (string \<times> string) option" where
  "fieldValue s =
     (let s' = dropWhile reSpace s in
      if s' \<noteq> []
      then Some (rev (dropWhile reSpace (rev (takeWhile (\<lambda>c. c \<noteq> CHR 0x0A) s'))), afterLine s')
      else (case find_last (\<lambda>c. c \<noteq> CHR 0x0A) s of None \<Rightarrow> None | Some c \<Rightarrow> Some ([c], [])))"

definition skipBullet :: "string \<Rightarrow> string" where
  "skipBullet s =
     (case dropWhile reSpace s of [] \<Rightarrow> []
      | c # r \<Rightarrow> if c = CHR ''-'' \<or> c = CHR ''*'' then dropWhile reSpace r else c # r)"

definition fieldMatchAt :: "string \<Rightarrow> (string \<times> string \<times> string) option" where
  "fieldMatchAt s =
     (let s2 = skipBullet s in
      case find (hasPrefix (toLower s2)) fieldKeys of None \<Rightarrow> None
      | Some key \<Rightarrow>
          (case dropWhile reSpace (drop (length key) s2) of [] \<Rightarrow> None
           | c # rest \<Rightarrow>
               if c \<noteq> CHR '':'' then None
               else map_option (\<lambda>(v, r). (take (length key) s2, v, r)) (fieldValue rest)))"

lemma afterLine_length: "length (afterLine s) \<le> length s - 1"
  using dropWhile_length_le [of "\<lambda>c. c \<noteq> CHR 0x0A" s] by (simp add: afterLine_def)

lemma afterLine_less: "s \<noteq> [] \<Longrightarrow> length (afterLine s) < length s"
  using afterLine_length [of s] by (cases s) simp_all

lemma fieldValue_length: "fieldValue s = Some (v, r) \<Longrightarrow> length r \<le> length s"
  using afterLine_length [of "dropWhile reSpace s"] dropWhile_length_le [of reSpace s]
  by (auto simp: fieldValue_def Let_def split: if_splits option.splits)

lemma skipBullet_length: "length (skipBullet s) \<le> length s"
proof (cases "dropWhile reSpace s")
  case (Cons c r)
  then have "Suc (length r) \<le> length s" using dropWhile_length_le [of reSpace s] by simp
  then show ?thesis
    using dropWhile_length_le [of reSpace r] Cons by (simp add: skipBullet_def)
next
  case Nil
  then show ?thesis by (simp only: skipBullet_def list.case list.size)
qed

lemma fieldMatchAt_length:
  assumes "fieldMatchAt s = Some (k, v, r)"
  shows "length r < length s"
proof -
  from assms obtain key where key: "find (hasPrefix (toLower (skipBullet s))) fieldKeys = Some key"
    by (cases "find (hasPrefix (toLower (skipBullet s))) fieldKeys") (simp_all add: fieldMatchAt_def)
  let ?d = "dropWhile reSpace (drop (length key) (skipBullet s))"
  from assms key obtain c rest where d: "?d = c # rest"
    by (cases ?d) (simp_all add: fieldMatchAt_def)
  with assms key have "fieldValue rest = Some (v, r)"
    by (simp add: fieldMatchAt_def split: if_splits)
  then have "length r \<le> length rest" by (rule fieldValue_length)
  moreover have "Suc (length rest) \<le> length (skipBullet s)"
    using dropWhile_length_le [of reSpace "drop (length key) (skipBullet s)"] d by simp
  ultimately show ?thesis using skipBullet_length [of s] by linarith
qed

function fieldMatches :: "string \<Rightarrow> (string \<times> string) list" where
  "fieldMatches s =
     (case fieldMatchAt s of
        Some (k, v, r) \<Rightarrow> (k, v) # fieldMatches r
      | None \<Rightarrow> if s = [] then [] else fieldMatches (afterLine s))"
  by pat_completeness auto
termination
  by (relation "measure length") (auto dest: fieldMatchAt_length intro: afterLine_less)

declare fieldMatches.simps [simp del]

definition applyField :: "WorkerEvent \<Rightarrow> string \<times> string \<Rightarrow> WorkerEvent" where
  "applyField event match =
     (let key = toLower (replaceChars [CHR 0x20] CHR ''_'' (trimSpace (fst match)));
          value = trimCutset [CHR 0x60, CHR 0x22] (trimSpace (snd match))
      in if key = ''head'' then event\<lparr>we_head := value\<rparr>
         else if key = ''verdict'' then event\<lparr>we_verdict := normalizeToken value\<rparr>
         else if key = ''decision'' then event\<lparr>we_decision := normalizeToken value\<rparr>
         else if key = ''resume_role'' then event\<lparr>we_resume_role := normalizeToken value\<rparr>
         else if key = ''resolves'' then event\<lparr>we_resolves := Some (quotedMessage value)\<rparr>
         else if key = ''escalate_to'' then event\<lparr>we_escalate_to := normalizeToken value\<rparr>
         else event)"

definition legacyVerdict :: "string \<Rightarrow> WorkerEvent \<Rightarrow> WorkerEvent" where
  "legacyVerdict lower event =
     (if we_role event = ''qa'' \<and> we_verdict event = []
      then (case find (containsStr (replaceChars [CHR 0x20] CHR ''_'' lower))
                   [''changes_required'', ''inconclusive'', ''approved''] of
              Some verdict \<Rightarrow> event\<lparr>we_verdict := verdict\<rparr> | None \<Rightarrow> event)
      else event)"

definition legacyRole :: "string \<Rightarrow> WorkerEvent \<Rightarrow> WorkerEvent" where
  "legacyRole lower event =
     (if we_role event = []
      then (if containsStr lower ''implementor'' then event\<lparr>we_role := ''implementor''\<rparr>
            else if containsStr lower ''qa'' then event\<lparr>we_role := ''qa''\<rparr>
            else if containsStr lower ''lead'' then event\<lparr>we_role := ''lead''\<rparr>
            else event)
      else event)"

definition legacyEscalation :: "string \<Rightarrow> WorkerEvent \<Rightarrow> WorkerEvent" where
  "legacyEscalation lower event =
     (let event1 = (if we_escalate_to event = [] \<and> equalFold (trimSpace (we_decision event)) ''owner_required''
                    then event\<lparr>we_escalate_to := ''owner''\<rparr> else event)
      in if containsStr lower ''owner_required'' \<or> containsStr lower ''escalate_to: owner''
            \<or> containsStr lower ''escalate to: owner''
         then event1\<lparr>we_escalate_to := ''owner''\<rparr> else event1)"

definition populateLegacyFields :: "WorkerEvent \<Rightarrow> string \<Rightarrow> WorkerEvent" where
  "populateLegacyFields event body =
     (let liveBody = joinWith [CHR 0x0A] (liveMarkdownLines body);
          lower = toLower liveBody
      in legacyEscalation lower (legacyRole lower (legacyVerdict lower
           (foldl applyField event (fieldMatches liveBody)))))"

definition legacyTransitionSafe :: "WorkerEvent \<Rightarrow> bool" where
  "legacyTransitionSafe event =
     (if \<not> oneOf (we_role event) [''lead'', ''implementor'', ''qa'']
         \<or> \<not> oneOf (we_status event) [''completed'', ''no_op'', ''blocked''] then False
      else if we_role event = ''qa''
      then we_head event \<noteq> [] \<and> oneOf (we_verdict event) [''approved'', ''changes_required'', ''inconclusive'']
      else if we_role event = ''lead'' \<and> we_escalate_to event \<noteq> [] then we_escalate_to event = ''owner''
      else if we_role event = ''lead'' \<and> we_resume_role event \<noteq> []
      then oneOf (we_resume_role event) [''lead'', ''implementor'', ''qa'']
      else True)"

subsection \<open>Envelopes\<close>

definition knownEnvelopeKeys :: "string list" where
  "knownEnvelopeKeys = [''v'', ''event'', ''role'', ''status'', ''head'', ''verdict'', ''decision'',
     ''resume_role'', ''resolves'', ''escalate_to'']"

definition eventFromRaw :: "jobject \<Rightarrow> WorkerEvent" where
  "eventFromRaw raw =
     \<lparr>we_version = snd (decodeInt raw ''v''), we_event = snd (decodeString raw ''event''),
      we_role = snd (decodeString raw ''role''), we_status = snd (decodeString raw ''status''),
      we_head = snd (decodeString raw ''head''), we_verdict = snd (decodeString raw ''verdict''),
      we_decision = snd (decodeString raw ''decision''),
      we_resume_role = snd (decodeString raw ''resume_role''),
      we_resolves = (case objLookup raw ''resolves'' of
          Some v \<Rightarrow> if v = JNull then None else Some (Raw v) | None \<Rightarrow> None),
      we_escalate_to = snd (decodeString raw ''escalate_to''),
      we_extensions = filter (\<lambda>(k, _). k \<notin> set knownEnvelopeKeys) raw\<rparr>"

definition missingFields :: "jobject \<Rightarrow> WorkerEvent \<Rightarrow> string list" where
  "missingFields raw event =
     (if fst (decodeInt raw ''v'') then [] else [''v'']) @
     (if fst (decodeString raw ''event'') then [] else [''event'']) @
     (if fst (decodeString raw ''role'') then [] else [''role'']) @
     (if fst (decodeString raw ''status'') then [] else [''status'']) @
     (if we_role event = ''qa''
      then (if blank (we_head event) then [''head''] else []) @
           (if blank (we_verdict event) then [''verdict''] else [])
      else [])"

definition envelopeProblems :: "WorkerEvent \<Rightarrow> (string \<times> string) list" where
  "envelopeProblems event =
     (if we_version event \<noteq> 1
      then [(''unknown_version'', ''event version '' @ showInt (we_version event) @
               '' is not supported for automatic transition'')] else []) @
     (if we_event event \<noteq> ''worker_result''
      then [(''unknown_event'', ''event '' @ goQuote (we_event event) @
               '' is preserved but not used for automatic transition'')] else []) @
     (if \<not> oneOf (we_role event) [''lead'', ''implementor'', ''qa'']
      then [(''unknown_role'', ''role '' @ goQuote (we_role event) @ '' is preserved but not routable'')] else []) @
     (if \<not> oneOf (we_status event) [''completed'', ''no_op'', ''blocked'']
      then [(''unknown_status'', ''status '' @ goQuote (we_status event) @ '' is preserved but not routable'')] else []) @
     (if we_role event = ''qa'' \<and> \<not> oneOf (we_verdict event) [''approved'', ''changes_required'', ''inconclusive'']
      then [(''unknown_verdict'', ''QA verdict '' @ goQuote (we_verdict event) @ '' is preserved but not routable'')] else []) @
     (if we_resume_role event \<noteq> [] \<and> \<not> oneOf (we_resume_role event) [''lead'', ''implementor'', ''qa'']
      then [(''unknown_resume_role'', ''resume_role '' @ goQuote (we_resume_role event) @
               '' requires Lead/manual attention'')] else []) @
     (if we_escalate_to event \<noteq> [] \<and> we_escalate_to event \<noteq> ''owner''
      then [(''unknown_escalation_target'', ''escalate_to '' @ goQuote (we_escalate_to event) @
               '' is preserved but not automatically routed'')] else [])"

definition addWarning :: "string \<Rightarrow> string \<Rightarrow> ParsedComment \<Rightarrow> ParsedComment" where
  "addWarning code message parsed =
     parsed\<lparr>pc_warnings := pc_warnings parsed @ [mkWarning (pc_comment parsed) code message]\<rparr>"

definition setHardError :: "string \<Rightarrow> string \<Rightarrow> ParsedComment \<Rightarrow> ParsedComment" where
  "setHardError code message parsed =
     addWarning code message (parsed\<lparr>pc_hard_error := Some \<lparr>pe_code = code, pe_message = message\<rparr>\<rparr>)"

definition roleMismatch :: "string \<Rightarrow> WorkerEvent \<Rightarrow> (string \<times> string) option" where
  "roleMismatch prelude event =
     (case classifyHeading prelude of None \<Rightarrow> None
      | Some (heading, headingEvent) \<Rightarrow>
          if we_role headingEvent \<noteq> [] \<and> we_role headingEvent \<noteq> we_role event
          then Some (heading, we_role headingEvent) else None)"

definition judgeEvent :: "ParsedComment \<Rightarrow> WorkerEvent \<Rightarrow> string \<Rightarrow> nat \<Rightarrow> ParsedComment" where
  "judgeEvent parsed event prelude markerCount =
     (let problems = envelopeProblems event;
          parsed1 = foldl (\<lambda>p (code, message). addWarning code message p) parsed problems;
          mismatch = roleMismatch prelude event;
          parsed2 = (case mismatch of None \<Rightarrow> parsed1
            | Some (heading, implied) \<Rightarrow>
                addWarning ''role_mismatch''
                  (''Markdown heading implies role '' @ goQuote implied @
                   '' but envelope role is '' @ goQuote (we_role event))
                  (parsed1\<lparr>pc_heading := heading\<rparr>))
      in parsed2\<lparr>pc_safe := (problems = [] \<and> mismatch = None \<and> markerCount \<le> 1)\<rparr>)"

definition parseEnvelope :: "ParsedComment \<Rightarrow> string \<Rightarrow> nat \<Rightarrow> nat \<Rightarrow> ParsedComment" where
  "parseEnvelope parsed body start markerCount =
     (let contentStart = start + length envelopeMarker in
      case indexOf (drop contentStart body) ''-->'' of
        None \<Rightarrow> setHardError ''malformed_envelope''
                  ''supervisor:event envelope is missing the closing --> marker'' parsed
      | Some endOffset \<Rightarrow>
          (let finish = contentStart + endOffset;
               parsed1 = (if markerCount > 1
                 then addWarning ''multiple_envelopes''
                        ''comment contains more than one live supervisor:event envelope; automatic transition is disabled'' parsed
                 else parsed);
               parsed2 = parsed1\<lparr>pc_markdown := trimSpace (take start body @ drop (finish + 3) body)\<rparr>
           in case decodeMap (trimSpace (slice body (contentStart, finish))) of
                None \<Rightarrow> setHardError ''malformed_envelope'' ''decode supervisor:event JSON'' parsed2
              | Some raw \<Rightarrow>
                  (let event = eventFromRaw raw;
                       parsed3 = parsed2\<lparr>pc_event := Some event\<rparr>;
                       missing = missingFields raw event
                   in if missing \<noteq> []
                      then setHardError ''missing_required_field''
                             (''supervisor:event is missing required field(s): '' @
                                joinWith '', '' (uniqueStrings missing)) parsed3
                      else judgeEvent parsed3 event (take start body) markerCount)))"

definition ParseComment :: "int \<Rightarrow> int \<Rightarrow> Comment \<Rightarrow> ParsedComment" where
  "ParseComment projectID issueNumber comment =
     (let body = cm_body comment;
          parsed = \<lparr>pc_project = projectID, pc_issue = issueNumber, pc_comment = cm_id comment,
            pc_author = cm_author comment, pc_url = cm_url comment, pc_created = cm_created comment,
            pc_updated = cm_updated comment, pc_level = ParseLevelNoActivity, pc_heading = [],
            pc_markdown = trimSpace body, pc_meaningful = False, pc_safe = False, pc_event = None,
            pc_warnings = [], pc_hard_error = None\<rparr>
      in case envelopeMarkerPositions body of
           start # others \<Rightarrow>
             parseEnvelope (parsed\<lparr>pc_level := ParseLevelEnvelope, pc_meaningful := True\<rparr>)
               body start (Suc (length others))
         | [] \<Rightarrow>
            (case classifyHeading body of
               Some (heading, event0) \<Rightarrow>
                 (let event = populateLegacyFields event0 body;
                      safe = legacyTransitionSafe event;
                      parsed1 = addWarning ''legacy_heading''
                        ''comment was classified from a Markdown heading rather than a supervisor:event envelope''
                        (parsed\<lparr>pc_level := ParseLevelHeading, pc_heading := heading,
                           pc_meaningful := True, pc_event := Some event, pc_safe := safe\<rparr>)
                  in if safe then parsed1
                     else addWarning ''legacy_result_incomplete''
                        ''legacy terminal result lacks enough exact data for an automatic transition'' parsed1)
             | None \<Rightarrow>
                 if blank body then parsed\<lparr>pc_level := ParseLevelNoActivity, pc_meaningful := False\<rparr>
                 else parsed\<lparr>pc_level := ParseLevelActivity, pc_meaningful := True\<rparr>))"

subsection \<open>What a parsed comment guarantees\<close>

lemma addWarning_frame [simp]:
  "pc_comment (addWarning c m p) = pc_comment p" "pc_level (addWarning c m p) = pc_level p"
  "pc_meaningful (addWarning c m p) = pc_meaningful p" "pc_safe (addWarning c m p) = pc_safe p"
  "pc_event (addWarning c m p) = pc_event p" "pc_hard_error (addWarning c m p) = pc_hard_error p"
  "pc_heading (addWarning c m p) = pc_heading p" "pc_markdown (addWarning c m p) = pc_markdown p"
  "pc_project (addWarning c m p) = pc_project p" "pc_issue (addWarning c m p) = pc_issue p"
  "pc_created (addWarning c m p) = pc_created p" "pc_updated (addWarning c m p) = pc_updated p"
  "pc_warnings (addWarning c m p) = pc_warnings p @ [mkWarning (pc_comment p) c m]"
  by (simp_all add: addWarning_def)

lemma foldl_addWarning_frame [simp]:
  "pc_comment (foldl (\<lambda>p (c, m). addWarning c m p) p xs) = pc_comment p"
  "pc_level (foldl (\<lambda>p (c, m). addWarning c m p) p xs) = pc_level p"
  "pc_meaningful (foldl (\<lambda>p (c, m). addWarning c m p) p xs) = pc_meaningful p"
  "pc_safe (foldl (\<lambda>p (c, m). addWarning c m p) p xs) = pc_safe p"
  "pc_event (foldl (\<lambda>p (c, m). addWarning c m p) p xs) = pc_event p"
  "pc_hard_error (foldl (\<lambda>p (c, m). addWarning c m p) p xs) = pc_hard_error p"
  "pc_warnings (foldl (\<lambda>p (c, m). addWarning c m p) p xs) =
     pc_warnings p @ map (\<lambda>(c, m). mkWarning (pc_comment p) c m) xs"
  by (induction xs arbitrary: p) (auto split: prod.splits)

lemma setHardError_frame [simp]:
  "pc_level (setHardError c m p) = pc_level p" "pc_meaningful (setHardError c m p) = pc_meaningful p"
  "pc_safe (setHardError c m p) = pc_safe p" "pc_event (setHardError c m p) = pc_event p"
  "pc_hard_error (setHardError c m p) = Some \<lparr>pe_code = c, pe_message = m\<rparr>"
  "pc_warnings (setHardError c m p) = pc_warnings p @ [mkWarning (pc_comment p) c m]"
  "pc_comment (setHardError c m p) = pc_comment p"
  by (simp_all add: setHardError_def)

text \<open>An event the automatic router may follow.\<close>

definition routableEvent :: "WorkerEvent \<Rightarrow> bool" where
  "routableEvent e =
     (we_version e = 1 \<and> we_event e = ''worker_result'' \<and>
      oneOf (we_role e) [''lead'', ''implementor'', ''qa''] \<and>
      oneOf (we_status e) [''completed'', ''no_op'', ''blocked''] \<and>
      (we_role e = ''qa'' \<longrightarrow> we_head e \<noteq> [] \<and>
         oneOf (we_verdict e) [''approved'', ''changes_required'', ''inconclusive'']))"

lemma envelopeProblems_none:
  assumes "envelopeProblems e = []"
  shows "we_version e = 1" "we_event e = ''worker_result''"
    "we_role e \<in> {''lead'', ''implementor'', ''qa''}"
    "we_status e \<in> {''completed'', ''no_op'', ''blocked''}"
    "we_role e = ''qa'' \<Longrightarrow> we_verdict e \<in> {''approved'', ''changes_required'', ''inconclusive''}"
    "we_resume_role e = [] \<or> we_resume_role e \<in> {''lead'', ''implementor'', ''qa''}"
    "we_escalate_to e = [] \<or> we_escalate_to e = ''owner''"
  using assms unfolding envelopeProblems_def append_is_Nil_conv
  by (simp_all split: if_splits)

lemma missingFields_none_head:
  "missingFields raw e = [] \<Longrightarrow> we_role e = ''qa'' \<Longrightarrow> \<not> blank (we_head e)"
  by (simp add: missingFields_def split: if_splits)

lemma judgeEvent_frame [simp]:
  "pc_level (judgeEvent p e s n) = pc_level p" "pc_meaningful (judgeEvent p e s n) = pc_meaningful p"
  "pc_event (judgeEvent p e s n) = pc_event p" "pc_hard_error (judgeEvent p e s n) = pc_hard_error p"
  "pc_safe (judgeEvent p e s n) \<longleftrightarrow> envelopeProblems e = [] \<and> roleMismatch s e = None \<and> n \<le> 1"
  by (simp_all add: judgeEvent_def Let_def split: option.split prod.split)

lemma judgeEvent_unsafe_warns:
  "envelopeProblems e \<noteq> [] \<or> roleMismatch s e \<noteq> None \<Longrightarrow> pc_warnings (judgeEvent p e s n) \<noteq> []"
  by (auto simp: judgeEvent_def Let_def split: option.split prod.split)

text \<open>The three ways through an envelope: not closed or not an object, a field missing, judged.\<close>

lemma parseEnvelope_cases:
  obtains (malformed) code message q where "parseEnvelope p body start n = setHardError code message q"
      "pc_safe q = pc_safe p" "pc_level q = pc_level p" "pc_meaningful q = pc_meaningful p"
  | (judged) q raw e where "parseEnvelope p body start n = judgeEvent q e (take start body) n"
      "e = eventFromRaw raw" "missingFields raw e = []" "pc_event q = Some e"
      "pc_hard_error q = pc_hard_error p" "pc_level q = pc_level p" "pc_meaningful q = pc_meaningful p"
      "n > 1 \<Longrightarrow> pc_warnings q \<noteq> []"
proof (cases "indexOf (drop (start + length envelopeMarker) body) ''-->''")
  case None
  then show thesis by (intro malformed) (simp_all add: parseEnvelope_def)
next
  case (Some endOffset)
  note e = this
  let ?c = "start + length envelopeMarker"
  let ?q1 = "(if n > 1
       then addWarning ''multiple_envelopes''
              ''comment contains more than one live supervisor:event envelope; automatic transition is disabled'' p
       else p)\<lparr>pc_markdown := trimSpace (take start body @ drop (?c + endOffset + 3) body)\<rparr>"
  have q1: "pc_safe ?q1 = pc_safe p" "pc_level ?q1 = pc_level p" "pc_meaningful ?q1 = pc_meaningful p"
      "pc_hard_error ?q1 = pc_hard_error p" "n > 1 \<Longrightarrow> pc_warnings ?q1 \<noteq> []"
    by simp_all
  show thesis
  proof (cases "decodeMap (trimSpace (slice body (?c, ?c + endOffset)))")
    case None
    with e have "parseEnvelope p body start n =
        setHardError ''malformed_envelope'' ''decode supervisor:event JSON'' ?q1"
      by (simp only: parseEnvelope_def Let_def option.case)
    then show thesis using q1(1,2,3) by (rule malformed)
  next
    case (Some raw)
    let ?e = "eventFromRaw raw" and ?q2 = "?q1\<lparr>pc_event := Some (eventFromRaw raw)\<rparr>"
    have q2: "pc_safe ?q2 = pc_safe p" "pc_level ?q2 = pc_level p" "pc_meaningful ?q2 = pc_meaningful p"
        "pc_hard_error ?q2 = pc_hard_error p" "pc_event ?q2 = Some ?e" "n > 1 \<Longrightarrow> pc_warnings ?q2 \<noteq> []"
      by simp_all
    show thesis
    proof (cases "missingFields raw ?e = []")
      case True
      with e Some have "parseEnvelope p body start n = judgeEvent ?q2 ?e (take start body) n"
        by (simp only: parseEnvelope_def Let_def option.case if_False simp_thms)
      then show thesis using refl True q2(5,4,2,3,6) by (rule judged)
    next
      case False
      with e Some have "parseEnvelope p body start n = setHardError ''missing_required_field''
          (''supervisor:event is missing required field(s): '' @
             joinWith '', '' (uniqueStrings (missingFields raw ?e))) ?q2"
        by (simp only: parseEnvelope_def Let_def option.case if_True simp_thms)
      then show thesis using q2(1,2,3) by (rule malformed)
    qed
  qed
qed

lemma parseEnvelope_safe:
  assumes "pc_safe (parseEnvelope p body start n)" and "\<not> pc_safe p" and "pc_hard_error p = None"
  shows "pc_hard_error (parseEnvelope p body start n) = None \<and> n \<le> 1 \<and>
     (\<exists>e. pc_event (parseEnvelope p body start n) = Some e \<and> routableEvent e \<and>
        (we_resume_role e = [] \<or> we_resume_role e \<in> {''lead'', ''implementor'', ''qa''}) \<and>
        (we_escalate_to e = [] \<or> we_escalate_to e = ''owner'') \<and>
        roleMismatch (take start body) e = None)"
proof (cases rule: parseEnvelope_cases [of p body start n])
  case (malformed code message q)
  with assms show ?thesis by simp
next
  case (judged q raw e)
  with assms have s: "envelopeProblems e = []" "roleMismatch (take start body) e = None" "n \<le> 1" by simp_all
  have "we_role e = ''qa'' \<Longrightarrow> we_head e \<noteq> []"
    using missingFields_none_head [OF judged(3)] by auto
  with envelopeProblems_none [OF s(1)] have "routableEvent e" by (simp add: routableEvent_def)
  with envelopeProblems_none(6,7) [OF s(1)] s judged assms show ?thesis by simp
qed

lemma parseEnvelope_level [simp]:
  "pc_level (parseEnvelope p body start n) = pc_level p"
  "pc_meaningful (parseEnvelope p body start n) = pc_meaningful p"
  by (cases rule: parseEnvelope_cases [of p body start n]; simp)+

text \<open>An unsafe envelope always says why.\<close>

lemma judgeEvent_keeps_warnings:
  "\<exists>ws. pc_warnings (judgeEvent p e s n) = pc_warnings p @ ws"
  by (auto simp: judgeEvent_def Let_def split: option.split prod.split)

lemma parseEnvelope_unsafe_warns:
  assumes "\<not> pc_safe (parseEnvelope p body start n)"
  shows "pc_warnings (parseEnvelope p body start n) \<noteq> []"
proof (cases rule: parseEnvelope_cases [of p body start n])
  case (judged q raw e)
  with assms consider "envelopeProblems e \<noteq> [] \<or> roleMismatch (take start body) e \<noteq> None" | "n > 1"
    by fastforce
  then show ?thesis
  proof cases
    case 1
    with judged judgeEvent_unsafe_warns show ?thesis by simp
  next
    case 2
    with judged judgeEvent_keeps_warnings [of q e "take start body" n] show ?thesis by auto
  qed
qed simp

subsection \<open>Legacy fields\<close>

lemma applyField_frame [simp]:
  "we_version (applyField e m) = we_version e" "we_event (applyField e m) = we_event e"
  "we_role (applyField e m) = we_role e" "we_status (applyField e m) = we_status e"
  "we_extensions (applyField e m) = we_extensions e"
  by (simp_all add: applyField_def Let_def)

lemma foldl_applyField_frame [simp]:
  "we_version (foldl applyField e ms) = we_version e" "we_event (foldl applyField e ms) = we_event e"
  "we_role (foldl applyField e ms) = we_role e" "we_status (foldl applyField e ms) = we_status e"
  "we_extensions (foldl applyField e ms) = we_extensions e"
  by (induction ms arbitrary: e) simp_all

lemma legacy_stages_frame [simp]:
  "we_version (legacyVerdict l e) = we_version e" "we_event (legacyVerdict l e) = we_event e"
  "we_status (legacyVerdict l e) = we_status e" "we_role (legacyVerdict l e) = we_role e"
  "we_version (legacyRole l e) = we_version e" "we_event (legacyRole l e) = we_event e"
  "we_status (legacyRole l e) = we_status e" "we_verdict (legacyRole l e) = we_verdict e"
  "we_version (legacyEscalation l e) = we_version e" "we_event (legacyEscalation l e) = we_event e"
  "we_status (legacyEscalation l e) = we_status e" "we_role (legacyEscalation l e) = we_role e"
  by (simp_all add: legacyVerdict_def legacyRole_def legacyEscalation_def Let_def split: option.split)

lemma populateLegacyFields_frame [simp]:
  "we_version (populateLegacyFields e body) = we_version e"
  "we_event (populateLegacyFields e body) = we_event e"
  "we_status (populateLegacyFields e body) = we_status e"
  by (simp_all add: populateLegacyFields_def Let_def)

lemma classifyHeading_event:
  assumes "classifyHeading body = Some (heading, e)"
  shows "we_version e = 1" "we_event e = ''worker_result''" "we_extensions e = []"
    "we_status e = ''completed'' \<or> we_status e = ''blocked''"
proof -
  have "firstHeading ls = Some h \<Longrightarrow> h \<in> set supportedHeadings" for ls h
    by (induction ls) (auto simp: lineHeading_def split: option.splits dest: find_Some_in)
  moreover from assms obtain h where f: "firstHeading (liveMarkdownLines body) = Some h"
    by (auto simp: classifyHeading_def)
  moreover obtain name role status where n: "h = (name, role, status)" by (cases h)
  ultimately have h: "(name, role, status) \<in> set supportedHeadings" by simp
  from assms f n have
    e: "e = blankEvent\<lparr>we_version := 1, we_event := ''worker_result'', we_role := role, we_status := status\<rparr>"
    by (simp add: classifyHeading_def)
  from e show "we_version e = 1" "we_event e = ''worker_result''" "we_extensions e = []"
    by (simp_all add: blankEvent_def)
  from h e show "we_status e = ''completed'' \<or> we_status e = ''blocked''"
    by (auto simp: supportedHeadings_def)
qed

lemma legacyTransitionSafe_routable:
  "legacyTransitionSafe e \<Longrightarrow> we_version e = 1 \<Longrightarrow> we_event e = ''worker_result'' \<Longrightarrow> routableEvent e"
  by (simp add: legacyTransitionSafe_def routableEvent_def split: if_splits)

lemma envelopeMarkerPositions_plain:
  assumes "i \<in> set (envelopeMarkerPositions body)"
  shows "\<exists>sp \<in> set (liveMarkdownLineSpans body). plainLine (slice body sp) \<and>
     (\<exists>j. i = fst sp + j \<and> blank (take j (slice body sp)) \<and> hasPrefix (drop j (slice body sp)) envelopeMarker)"
  using assms unfolding envelopeMarkerPositions_def
  by (metis workflow_scan.marker_on_plain_line markersIn_sound)

lemma judgeEvent_comment [simp]: "pc_comment (judgeEvent p e s n) = pc_comment p"
  by (simp add: judgeEvent_def Let_def split: option.split prod.split)

lemma parseEnvelope_comment [simp]: "pc_comment (parseEnvelope p body start n) = pc_comment p"
  by (simp add: parseEnvelope_def Let_def split: option.split)

lemma ParseComment_comment [simp]: "pc_comment (ParseComment p i c) = cm_id c"
  by (simp add: ParseComment_def Let_def split: list.split option.split prod.split)

subsection \<open>Properties\<close>

text \<open>C6. A comment that \<open>ParseComment\<close> marks safe for an automatic transition carries a
  routable event (version 1, a known role and status; a QA result has a Head and a known
  verdict), no hard error, and at most one live envelope.\<close>

theorem ParseComment_safe:
  assumes "pc_safe (ParseComment projectID issueNumber comment)"
  shows "pc_hard_error (ParseComment projectID issueNumber comment) = None \<and>
    length (envelopeMarkerPositions (cm_body comment)) \<le> 1 \<and>
    (\<exists>e. pc_event (ParseComment projectID issueNumber comment) = Some e \<and> routableEvent e)"
proof (cases "envelopeMarkerPositions (cm_body comment)")
  case (Cons start others)
  with assms show ?thesis
    using parseEnvelope_safe [of _ "cm_body comment" start "Suc (length others)"]
    by (simp add: ParseComment_def Let_def) fastforce
next
  case Nil
  show ?thesis
  proof (cases "classifyHeading (cm_body comment)")
    case None
    with assms Nil show ?thesis by (simp add: ParseComment_def Let_def split: if_splits)
  next
    case (Some h)
    obtain heading event where h: "h = (heading, event)" by (cases h)
    with assms Nil Some have "legacyTransitionSafe (populateLegacyFields event (cm_body comment))"
      by (simp add: ParseComment_def Let_def split: if_splits)
    moreover from this classifyHeading_event [OF Some [unfolded h]]
    have "routableEvent (populateLegacyFields event (cm_body comment))"
      by (simp add: legacyTransitionSafe_routable)
    ultimately show ?thesis using Nil Some h by (simp add: ParseComment_def Let_def)
  qed
qed

definition sampleComment :: "string \<Rightarrow> Comment" where
  "sampleComment body = \<lparr>cm_id = 7, cm_body = body, cm_author = ''bot'', cm_url = ''u'', cm_created = 10, cm_updated = 11\<rparr>"

definition sampleEnvelope :: string where
  "sampleEnvelope = ''<!-- supervisor:event '' @ [CHR 0x7B, CHR 0x22] @ ''v'' @ [CHR 0x22] @ '':1,'' @
     [CHR 0x22] @ ''event'' @ [CHR 0x22, CHR '':'', CHR 0x22] @ ''worker_result'' @ [CHR 0x22, CHR '','', CHR 0x22] @
     ''role'' @ [CHR 0x22, CHR '':'', CHR 0x22] @ ''lead'' @ [CHR 0x22, CHR '','', CHR 0x22] @
     ''status'' @ [CHR 0x22, CHR '':'', CHR 0x22] @ ''completed'' @ [CHR 0x22, CHR 0x7D] @ '' -->''"

lemma sampleEnvelope_safe: "pc_safe (ParseComment 1 2 (sampleComment sampleEnvelope))"
  by code_simp

theorem ParseComment_safe_witness:
  "pc_safe (ParseComment 1 2 (sampleComment sampleEnvelope)) \<and>
   pc_hard_error (ParseComment 1 2 (sampleComment sampleEnvelope)) = None"
  using ParseComment_safe [OF sampleEnvelope_safe] sampleEnvelope_safe by simp

text \<open>Only a live marker makes an envelope: a comment parsed at envelope level has the
  marker at the start (after blanks) of a line that is outside fenced code, is not itself a
  fence and is not indented code.\<close>

theorem envelope_on_live_line:
  assumes "pc_level (ParseComment projectID issueNumber comment) = ParseLevelEnvelope"
  shows "\<exists>sp \<in> set (liveMarkdownLineSpans (cm_body comment)).
    plainLine (slice (cm_body comment) sp) \<and>
    (\<exists>j. blank (take j (slice (cm_body comment) sp)) \<and>
         hasPrefix (drop j (slice (cm_body comment) sp)) envelopeMarker)"
proof -
  from assms obtain i where "i \<in> set (envelopeMarkerPositions (cm_body comment))"
    by (cases "envelopeMarkerPositions (cm_body comment)")
      (auto simp: ParseComment_def Let_def split: option.splits if_splits prod.splits)
  then show ?thesis using envelopeMarkerPositions_plain by blast
qed

lemma sampleEnvelope_level:
  "pc_level (ParseComment 1 2 (sampleComment sampleEnvelope)) = ParseLevelEnvelope"
  by code_simp

theorem envelope_on_live_line_witness:
  "\<exists>sp \<in> set (liveMarkdownLineSpans sampleEnvelope). plainLine (slice sampleEnvelope sp)"
  using envelope_on_live_line [OF sampleEnvelope_level] by (auto simp: sampleComment_def)

text \<open>Nothing is dropped silently: an envelope or a recognised heading that is not safe
  for an automatic transition leaves at least one warning.\<close>

theorem unsafe_report_warns:
  assumes "pc_level (ParseComment projectID issueNumber comment) \<in> {ParseLevelEnvelope, ParseLevelHeading}"
    and "\<not> pc_safe (ParseComment projectID issueNumber comment)"
  shows "pc_warnings (ParseComment projectID issueNumber comment) \<noteq> []"
proof (cases "envelopeMarkerPositions (cm_body comment)")
  case (Cons start others)
  with assms(2) show ?thesis by (simp add: ParseComment_def Let_def parseEnvelope_unsafe_warns)
next
  case Nil
  with assms show ?thesis
    by (cases "classifyHeading (cm_body comment)")
      (auto simp: ParseComment_def Let_def split: if_splits prod.splits)
qed

definition brokenEnvelope :: string where
  "brokenEnvelope = ''<!-- supervisor:event '' @ [CHR 0x7B] @ ''-->''"

lemma brokenEnvelope_unsafe:
  "pc_level (ParseComment 1 2 (sampleComment brokenEnvelope)) \<in> {ParseLevelEnvelope, ParseLevelHeading}"
  "\<not> pc_safe (ParseComment 1 2 (sampleComment brokenEnvelope))"
  by code_simp+

theorem unsafe_report_warns_witness:
  "pc_warnings (ParseComment 1 2 (sampleComment brokenEnvelope)) \<noteq> []"
  using unsafe_report_warns [OF brokenEnvelope_unsafe] .

end
