(* ===== verification/Evidence.thy ===== *)
theory Evidence
  imports Parser
begin

text \<open>
  \<open>workflow/derive_evidence.go\<close>: turning parsed comments into result evidence, binding it
  to the current Candidate and Head, and the queue of unresolved blockers. The loop of
  \<open>activeBlocker\<close> is \<open>blockerStep\<close> folded over the results in comment order.
\<close>

subsection \<open>Evidence and its correlation with the Candidate\<close>

definition evidenceFromEvent :: "ParsedComment \<Rightarrow> WorkerEvent \<Rightarrow> ResultEvidence" where
  "evidenceFromEvent parsed event =
     \<lparr>re_project = pc_project parsed, re_issue = pc_issue parsed, re_comment = pc_comment parsed,
      re_role = we_role event, re_status = we_status event, re_head = we_head event,
      re_verdict = we_verdict event, re_decision = we_decision event,
      re_resume_role = we_resume_role event, re_resolves = we_resolves event,
      re_escalate_to = we_escalate_to event, re_level = pc_level parsed, re_stale = False,
      re_effective = (pc_safe parsed \<and> pc_hard_error parsed = None),
      re_created = pc_created parsed, re_warnings = [], re_extensions = we_extensions event\<rparr>"

definition evidenceWarning :: "string \<Rightarrow> string \<Rightarrow> ResultEvidence \<Rightarrow> ResultEvidence" where
  "evidenceWarning code message evidence =
     evidence\<lparr>re_warnings := re_warnings evidence @ [mkWarning (re_comment evidence) code message]\<rparr>"

definition ineffective :: "string \<Rightarrow> string \<Rightarrow> ResultEvidence \<Rightarrow> ResultEvidence" where
  "ineffective code message evidence =
     evidenceWarning code message (evidence\<lparr>re_effective := False\<rparr>)"

definition candidateBound :: "ResultEvidence \<Rightarrow> bool" where
  "candidateBound evidence =
     (re_role evidence = ''qa'' \<or> (re_role evidence = ''implementor'' \<and> re_status evidence \<noteq> ''blocked''))"

definition correlateEvidence :: "CandidateState \<Rightarrow> string \<Rightarrow> ResultEvidence \<Rightarrow> ResultEvidence" where
  "correlateEvidence candidate currentHead evidence0 =
     (let evidence =
        (if cs_ambiguous candidate \<and> re_status evidence0 \<noteq> ''blocked''
         then ineffective ''ambiguous_candidate_correlation''
                ''terminal result cannot be correlated while multiple open Candidates exist'' evidence0
         else evidence0)
      in if \<not> candidateBound evidence then evidence
         else if currentHead = []
         then ineffective ''missing_current_head''
                ''candidate-bound result has no uniquely selected current PR Head'' evidence
         else if re_head evidence = []
         then ineffective ''missing_candidate_head''
                ''candidate-bound result is missing exact Head evidence'' evidence
         else if re_head evidence = currentHead then evidence
         else if hasPrefix currentHead (re_head evidence) \<or> hasPrefix (re_head evidence) currentHead
         then ineffective ''unresolved_head_prefix''
                ''Head prefixes are not accepted as exact Candidate identity'' evidence
         else ineffective ''stale_head''
                (''result Head '' @ re_head evidence @ '' does not match current Head '' @ currentHead)
                (evidence\<lparr>re_stale := True\<rparr>))"

definition assignLatest :: "LatestResults \<Rightarrow> ResultEvidence \<Rightarrow> LatestResults" where
  "assignLatest results evidence =
     (if re_role evidence = ''lead'' then results\<lparr>lr_lead := Some evidence\<rparr>
      else if re_role evidence = ''implementor'' then results\<lparr>lr_implementor := Some evidence\<rparr>
      else if re_role evidence = ''qa'' then results\<lparr>lr_qa := Some evidence\<rparr>
      else results)"

subsection \<open>Lead resolutions\<close>

definition leadOwnerEscalation :: "ResultEvidence \<Rightarrow> bool" where
  "leadOwnerEscalation result =
     (re_role result = ''lead'' \<and> re_effective result \<and>
      (re_escalate_to result = ''owner'' \<or> re_decision result = ''owner_required''))"

definition leadResumeRoleAllowed :: "string \<Rightarrow> bool" where
  "leadResumeRoleAllowed role = oneOf role [''implementor'', ''qa'']"

definition leadResolutionIntent :: "ResultEvidence \<Rightarrow> bool" where
  "leadResolutionIntent result =
     (re_decision result \<noteq> [] \<or> re_resume_role result \<noteq> [] \<or> re_resolves result \<noteq> None
      \<or> re_escalate_to result \<noteq> [])"

definition leadResolutionActionable :: "ResultEvidence \<Rightarrow> bool" where
  "leadResolutionActionable result =
     (if re_role result \<noteq> ''lead'' \<or> \<not> re_effective result then False
      else if leadOwnerEscalation result then True
      else (re_status result = ''completed'' \<or> re_status result = ''no_op'') \<and>
           leadResumeRoleAllowed (re_resume_role result) \<and>
           oneOf (re_decision result) [''continue'', ''correct'', ''resume''])"

text \<open>\<open>resolutionValueMatches\<close> returns whether the value names the comment, and whether it
  was understood at all.\<close>

definition parsedMatch :: "int \<Rightarrow> int option \<Rightarrow> bool \<times> bool" where
  "parsedMatch commentID p = (p = Some commentID, p \<noteq> None)"

definition arrayMatch :: "(bool \<times> bool) list \<Rightarrow> bool \<times> bool" where
  "arrayMatch rs = (if list_ex fst rs then (True, True) else (False, list_ex snd rs))"

definition objectMatch :: "(string \<times> bool \<times> bool) list \<Rightarrow> bool \<times> bool" where
  "objectMatch rs =
     (case map_of (rev rs) ''comment_id'' of Some r \<Rightarrow> r
      | None \<Rightarrow> (case map_of (rev rs) ''id'' of Some r \<Rightarrow> r | None \<Rightarrow> (False, False)))"

fun resolutionValueMatches :: "int \<Rightarrow> json \<Rightarrow> bool \<times> bool" where
  "resolutionValueMatches commentID (JNum t) = parsedMatch commentID (parseInt64 t)"
| "resolutionValueMatches commentID (JStr s) =
     parsedMatch commentID (parseInt64 (trimSpace (trimPrefix s ''#'')))"
| "resolutionValueMatches commentID (JArr vs) = arrayMatch (map (resolutionValueMatches commentID) vs)"
| "resolutionValueMatches commentID (JObj ms) =
     objectMatch (map (\<lambda>(k, v). (k, resolutionValueMatches commentID v)) ms)"
| "resolutionValueMatches commentID _ = (False, False)"

definition resolvesComment :: "rawmsg option \<Rightarrow> int \<Rightarrow> bool \<times> bool" where
  "resolvesComment raw commentID =
     (case raw of Some (Raw v) \<Rightarrow> resolutionValueMatches commentID v | _ \<Rightarrow> (False, False))"

subsection \<open>The blocker queue\<close>

definition unresolvedAfterResolution :: "ResultEvidence list \<Rightarrow> rawmsg option \<Rightarrow> ResultEvidence list" where
  "unresolvedAfterResolution blockers resolves =
     filter (\<lambda>blocker. \<not> fst (resolvesComment resolves (re_comment blocker))) blockers"

definition containsBlocker :: "ResultEvidence list \<Rightarrow> int \<Rightarrow> bool" where
  "containsBlocker blockers commentID = list_ex (\<lambda>blocker. re_comment blocker = commentID) blockers"

text \<open>What a Lead result does to the queue \<open>active # queue\<close>: the new queue, whether it was a
  correlated escalation to the Owner, and the warning.\<close>

definition leadOnBlocker :: "ResultEvidence \<Rightarrow> ResultEvidence list \<Rightarrow> ResultEvidence
    \<Rightarrow> ResultEvidence list \<times> bool \<times> Warning list" where
  "leadOnBlocker active unresolved result =
     (let (matches, understood) = resolvesComment (re_resolves result) (re_comment active);
          warn = (\<lambda>code message. (unresolved, False, [mkWarning (re_comment result) code message]))
      in if \<not> leadResolutionActionable result
         then warn ''non_actionable_blocker_resolution''
           ''Lead result includes blocker-resolution fields but does not define a safe Implementor/QA resume or owner escalation transition''
         else if matches \<and> leadOwnerEscalation result then (unresolved, True, [])
         else if matches then (unresolvedAfterResolution unresolved (re_resolves result), False, [])
         else if re_resolves result = None
         then warn ''missing_blocker_resolution''
           (''Lead result does not identify active blocker comment '' @ showInt (re_comment active) @ '' in resolves'')
         else if \<not> understood
         then warn ''unknown_blocker_resolution''
           ''Lead resolves value is preserved but cannot be correlated to the active blocker''
         else warn ''unmatched_blocker_resolution''
           (''Lead resolves does not reference active blocker comment '' @ showInt (re_comment active)))"

definition resolveStep :: "ResultEvidence list \<Rightarrow> ResultEvidence \<Rightarrow> ResultEvidence list \<times> bool \<times> Warning list" where
  "resolveStep unresolved result =
     (case unresolved of
        active # _ \<Rightarrow>
          if re_role result = ''lead'' \<and> re_effective result \<and> leadResolutionIntent result
          then leadOnBlocker active unresolved result
          else (unresolved, False, [])
      | [] \<Rightarrow> (unresolved, False, []))"

definition blockerStep :: "ResultEvidence list \<times> Warning list \<Rightarrow> ResultEvidence \<Rightarrow> ResultEvidence list \<times> Warning list" where
  "blockerStep st result =
     (let (unresolved, escalated, ws) = resolveStep (fst st) result;
          warnings = snd st @ ws
      in if re_status result = ''blocked'' \<and> re_effective result \<and> \<not> escalated
            \<and> \<not> containsBlocker unresolved (re_comment result)
         then (unresolved @ [result],
               (case unresolved of [] \<Rightarrow> warnings
                | active # _ \<Rightarrow> warnings @ [mkWarning (re_comment result) ''additional_unresolved_blocker''
                    (''blocked result is queued behind unresolved blocker comment '' @ showInt (re_comment active))]))
         else (unresolved, warnings))"

definition blockerQueue :: "ResultEvidence list \<Rightarrow> ResultEvidence list \<times> Warning list" where
  "blockerQueue results = foldl blockerStep ([], []) results"

definition activeBlocker :: "ResultEvidence list \<Rightarrow> ResultEvidence option \<times> Warning list" where
  "activeBlocker results =
     (case blockerQueue results of
        ([], warnings) \<Rightarrow> (None, warnings)
      | (active # _, warnings) \<Rightarrow> (Some active, warnings))"

subsection \<open>Facts on correlation\<close>

lemma ineffective_sel [simp]:
  "re_effective (ineffective c m e) = False" "re_stale (ineffective c m e) = re_stale e"
  "re_role (ineffective c m e) = re_role e" "re_status (ineffective c m e) = re_status e"
  "re_head (ineffective c m e) = re_head e" "re_comment (ineffective c m e) = re_comment e"
  "re_verdict (ineffective c m e) = re_verdict e"
  "re_extensions (ineffective c m e) = re_extensions e"
  by (simp_all add: ineffective_def evidenceWarning_def)

lemma correlateEvidence_frame [simp]:
  "re_role (correlateEvidence cs h e) = re_role e" "re_status (correlateEvidence cs h e) = re_status e"
  "re_head (correlateEvidence cs h e) = re_head e" "re_comment (correlateEvidence cs h e) = re_comment e"
  "re_verdict (correlateEvidence cs h e) = re_verdict e"
  "re_extensions (correlateEvidence cs h e) = re_extensions e"
  by (simp_all add: correlateEvidence_def Let_def)

lemma correlateEvidence_effective:
  assumes "re_effective (correlateEvidence cs h e)"
  shows "re_effective e \<and> (cs_ambiguous cs \<longrightarrow> re_status e = ''blocked'') \<and>
    (candidateBound e \<longrightarrow> re_head e = h \<and> h \<noteq> [])"
  using assms by (auto simp: correlateEvidence_def Let_def candidateBound_def split: if_splits)

lemma correlateEvidence_exact:
  assumes "re_effective e" "\<not> cs_ambiguous cs" "re_head e = h" "h \<noteq> []"
  shows "correlateEvidence cs h e = e"
  using assms by (simp add: correlateEvidence_def Let_def)

lemma correlateEvidence_stale:
  assumes "re_stale (correlateEvidence cs h e)" and "\<not> re_stale e"
  shows "\<not> re_effective (correlateEvidence cs h e) \<and> candidateBound e \<and> h \<noteq> [] \<and> re_head e \<noteq> [] \<and>
    \<not> hasPrefix h (re_head e) \<and> \<not> hasPrefix (re_head e) h"
  using assms by (auto simp: correlateEvidence_def Let_def candidateBound_def split: if_splits)

subsection \<open>Facts on the queue\<close>

lemma resolutionValueMatches_understood:
  "fst (resolutionValueMatches c v) \<Longrightarrow> snd (resolutionValueMatches c v)"
proof (induction v)
  case (JArr vs)
  then show ?case by (simp add: arrayMatch_def split: if_splits)
next
  case (JObj ms)
  have "snd r" if "map_of (rev (map (\<lambda>(k, v). (k, resolutionValueMatches c v)) ms)) key = Some r" "fst r"
    for key r
  proof -
    from that(1) have "(key, r) \<in> set (map (\<lambda>(k, v). (k, resolutionValueMatches c v)) ms)"
      using map_of_SomeD by fastforce
    then obtain v where "(key, v) \<in> set ms" "r = resolutionValueMatches c v" by auto
    with JObj.IH [of "(key, v)" v] that(2) show ?thesis by (simp add: snds.simps)
  qed
  with JObj.prems show ?case by (auto simp: objectMatch_def split: option.splits)
qed (simp_all add: parsedMatch_def)

lemma leadOnBlocker_cases:
  assumes "leadOnBlocker active unresolved result = (q, esc, ws)"
  shows "q = unresolved \<or>
    (leadResolutionActionable result \<and> \<not> leadOwnerEscalation result \<and> \<not> esc \<and>
     fst (resolvesComment (re_resolves result) (re_comment active)) \<and>
     q = unresolvedAfterResolution unresolved (re_resolves result))"
  using assms by (auto simp: leadOnBlocker_def Let_def split: if_splits prod.splits)

lemma resolveStep_cases:
  assumes "resolveStep unresolved result = (q, esc, ws)"
  shows "q = unresolved \<or>
    (leadResolutionActionable result \<and> \<not> leadOwnerEscalation result \<and> \<not> esc \<and>
     (\<exists>active rest. unresolved = active # rest \<and>
        fst (resolvesComment (re_resolves result) (re_comment active))) \<and>
     q = unresolvedAfterResolution unresolved (re_resolves result))"
  using assms leadOnBlocker_cases
  by (fastforce simp: resolveStep_def split: list.splits if_splits)

text \<open>One step of the queue: what it keeps, and the only ways a blocker enters or leaves.\<close>

lemma blockerStep_cases:
  obtains (same) "fst (blockerStep (q, ws) r) = q"
  | (push) q' where "fst (blockerStep (q, ws) r) = q' @ [r]"
      "q' = q \<or> q' = unresolvedAfterResolution q (re_resolves r) \<and> leadResolutionActionable r \<and> \<not> leadOwnerEscalation r"
      "re_status r = ''blocked''" "re_effective r" "re_comment r \<notin> re_comment ` set q'"
  | (resolve) "fst (blockerStep (q, ws) r) = unresolvedAfterResolution q (re_resolves r)"
      "leadResolutionActionable r" "\<not> leadOwnerEscalation r"
proof -
  obtain q' esc ws' where s: "resolveStep q r = (q', esc, ws')" by (cases "resolveStep q r")
  show thesis
  proof (cases "re_status r = ''blocked'' \<and> re_effective r \<and> \<not> esc \<and> \<not> containsBlocker q' (re_comment r)")
    case True
    then have "fst (blockerStep (q, ws) r) = q' @ [r]" by (simp add: blockerStep_def s Let_def)
    moreover have "re_comment r \<notin> re_comment ` set q'"
      using True by (auto simp: containsBlocker_def list_ex_iff)
    ultimately show thesis using True resolveStep_cases [OF s] by (intro push [of q']) auto
  next
    case False
    then have "fst (blockerStep (q, ws) r) = q'" by (auto simp: blockerStep_def s Let_def)
    with resolveStep_cases [OF s] show thesis using same resolve by auto
  qed
qed

definition queueInv :: "ResultEvidence list \<Rightarrow> ResultEvidence list \<Rightarrow> bool" where
  "queueInv results q =
     ((\<forall>b \<in> set q. re_status b = ''blocked'' \<and> re_effective b) \<and>
      distinct (map re_comment q) \<and> subseq q results)"

lemma unresolvedAfterResolution_inv:
  "queueInv results q \<Longrightarrow> queueInv results (unresolvedAfterResolution q rs)"
  by (auto simp: queueInv_def unresolvedAfterResolution_def distinct_map_filter
      intro: subseq_order.trans subseq_filter_left)

lemma queueInv_more: "queueInv results q \<Longrightarrow> queueInv (results @ [r]) q"
  by (auto simp: queueInv_def intro: list_emb_append2)

lemma queueInv_push:
  "queueInv results q \<Longrightarrow> re_status r = ''blocked'' \<Longrightarrow> re_effective r \<Longrightarrow>
     re_comment r \<notin> re_comment ` set q \<Longrightarrow> queueInv (results @ [r]) (q @ [r])"
  by (auto simp: queueInv_def)

lemma blockerStep_inv:
  assumes "queueInv results q"
  shows "queueInv (results @ [r]) (fst (blockerStep (q, ws) r))"
proof (cases rule: blockerStep_cases [of q ws r])
  case same
  with assms show ?thesis by (simp add: queueInv_more)
next
  case (push q')
  from push(2) assms have "queueInv results q'" by (auto intro: unresolvedAfterResolution_inv)
  with push show ?thesis by (simp add: queueInv_push)
next
  case resolve
  with assms show ?thesis by (simp add: queueInv_more unresolvedAfterResolution_inv)
qed

lemma blockerQueue_snoc: "blockerQueue (results @ [r]) = blockerStep (blockerQueue results) r"
  by (simp add: blockerQueue_def)

lemma blockerQueue_inv: "queueInv results (fst (blockerQueue results))"
proof (induction results rule: rev_induct)
  case Nil
  then show ?case by (simp add: blockerQueue_def queueInv_def)
next
  case (snoc r results)
  then show ?case
    using blockerStep_inv [of results "fst (blockerQueue results)" r "snd (blockerQueue results)"]
    by (simp add: blockerQueue_snoc)
qed

text \<open>A queued blocker leaves the queue only through an actionable, non-escalating Lead
  result whose \<open>resolves\<close> names its comment.\<close>

definition resolvesBlocker :: "int \<Rightarrow> ResultEvidence \<Rightarrow> bool" where
  "resolvesBlocker c r =
     (leadResolutionActionable r \<and> \<not> leadOwnerEscalation r \<and> fst (resolvesComment (re_resolves r) c))"

lemma blockerStep_keeps:
  assumes "c \<in> re_comment ` set q" and "\<not> resolvesBlocker c r"
  shows "c \<in> re_comment ` set (fst (blockerStep (q, ws) r))"
proof -
  have keep: "c \<in> re_comment ` set (unresolvedAfterResolution q (re_resolves r))"
    if "leadResolutionActionable r" "\<not> leadOwnerEscalation r"
    using assms that by (auto simp: unresolvedAfterResolution_def resolvesBlocker_def)
  show ?thesis
  proof (cases rule: blockerStep_cases [of q ws r])
    case (push q')
    with keep assms(1) show ?thesis by auto
  qed (use keep assms(1) in auto)
qed

lemma blockerQueue_keeps:
  assumes "c \<in> re_comment ` set q" and "\<forall>r \<in> set rs. \<not> resolvesBlocker c r"
  shows "c \<in> re_comment ` set (fst (foldl blockerStep (q, ws) rs))"
  using assms
proof (induction rs arbitrary: q ws)
  case (Cons r rs)
  obtain q' ws' where s: "blockerStep (q, ws) r = (q', ws')" by (cases "blockerStep (q, ws) r")
  with Cons.prems blockerStep_keeps [of c q r ws] have "c \<in> re_comment ` set q'" by simp
  with Cons s show ?case by simp
qed simp

lemma blockerStep_enters:
  assumes "re_status b = ''blocked''" "re_effective b" "\<not> leadOwnerEscalation b"
  shows "re_comment b \<in> re_comment ` set (fst (blockerStep (q, ws) b))"
proof -
  obtain q' esc ws' where s: "resolveStep q b = (q', esc, ws')" by (cases "resolveStep q b")
  have "\<not> esc"
    using s assms(3)
    by (auto simp: resolveStep_def leadOnBlocker_def Let_def split: list.splits if_splits prod.splits)
  moreover have "re_comment b \<in> re_comment ` set q'" if "containsBlocker q' (re_comment b)"
    using that unfolding containsBlocker_def list_ex_iff by (metis image_eqI)
  moreover have "fst (blockerStep (q, ws) b) = (if containsBlocker q' (re_comment b) then q' else q' @ [b])"
    using assms(1,2) \<open>\<not> esc\<close> by (simp add: blockerStep_def s Let_def)
  ultimately show ?thesis by (auto split: if_splits)
qed

lemma activeBlocker_Some:
  "fst (activeBlocker results) = Some b \<longleftrightarrow> (\<exists>rest. fst (blockerQueue results) = b # rest)"
  and activeBlocker_None: "fst (activeBlocker results) = None \<longleftrightarrow> fst (blockerQueue results) = []"
  by (auto simp: activeBlocker_def split: prod.splits list.splits)

lemma blockerQueue_append:
  "blockerQueue (xs @ ys) = foldl blockerStep (blockerQueue xs) ys"
  by (simp add: blockerQueue_def)

subsection \<open>Properties\<close>

text \<open>C5. A blocker is never lost: once an effective blocked result that is not itself an
  escalation has been read, there is an active blocker as long as no later actionable,
  non-escalating Lead result names its comment in \<open>resolves\<close>; and the blocker stays in
  the queue.\<close>

theorem blocker_not_lost:
  assumes "re_status b = ''blocked''" "re_effective b" "\<not> leadOwnerEscalation b"
    and "\<forall>r \<in> set later. \<not> resolvesBlocker (re_comment b) r"
  shows "re_comment b \<in> re_comment ` set (fst (blockerQueue (earlier @ b # later))) \<and>
    fst (activeBlocker (earlier @ b # later)) \<noteq> None"
proof -
  obtain q ws where e: "blockerQueue earlier = (q, ws)" by fastforce
  obtain q' ws' where s: "blockerStep (q, ws) b = (q', ws')" by fastforce
  with blockerStep_enters [OF assms(1-3), of q ws] have "re_comment b \<in> re_comment ` set q'" by simp
  from blockerQueue_keeps [OF this assms(4)] e s
  have "re_comment b \<in> re_comment ` set (fst (blockerQueue (earlier @ b # later)))"
    by (simp add: blockerQueue_append)
  then show ?thesis using activeBlocker_None by auto
qed

definition sampleBlocked :: "int \<Rightarrow> ResultEvidence" where
  "sampleBlocked i =
     \<lparr>re_project = 1, re_issue = 3, re_comment = i, re_role = ''implementor'', re_status = ''blocked'',
      re_head = [], re_verdict = [], re_decision = [], re_resume_role = [], re_resolves = None,
      re_escalate_to = [], re_level = ParseLevelEnvelope, re_stale = False, re_effective = True,
      re_created = 0, re_warnings = [], re_extensions = []\<rparr>"

theorem blocker_not_lost_witness:
  "fst (activeBlocker [sampleBlocked 1, sampleBlocked 2]) \<noteq> None"
  using blocker_not_lost [of "sampleBlocked 1" "[sampleBlocked 2]" "[]"]
  by (simp add: sampleBlocked_def leadOwnerEscalation_def resolvesBlocker_def leadResolutionActionable_def)

text \<open>The queue holds effective blocked results, one per comment, in the order of the
  results: the active blocker is the oldest one still unresolved.\<close>

theorem blockerQueue_fifo:
  "(\<forall>b \<in> set (fst (blockerQueue results)). re_status b = ''blocked'' \<and> re_effective b) \<and>
   distinct (map re_comment (fst (blockerQueue results))) \<and>
   subseq (fst (blockerQueue results)) results \<and>
   fst (activeBlocker results) = (case fst (blockerQueue results) of [] \<Rightarrow> None | b # _ \<Rightarrow> Some b)"
  using blockerQueue_inv [of results]
  by (auto simp: queueInv_def activeBlocker_def split: prod.splits list.splits)

theorem blockerQueue_fifo_witness:
  "distinct (map re_comment (fst (blockerQueue [sampleBlocked 1, sampleBlocked 1])))"
  using blockerQueue_fifo [of "[sampleBlocked 1, sampleBlocked 1]"] by blast

end
