(* ===== verification/Snapshot.thy ===== *)
theory Snapshot
  imports Evidence
begin

text \<open>
  \<open>workflow/derive_snapshot.go\<close>: what is read off the persisted issue before any worker
  evidence: its lifecycle label, its current Candidate, and its comments collapsed to one
  record per GitHub id in a deterministic order. The Go maps \<open>byID\<close> and \<open>found\<close> are rows
  with a key; the code sorts what it reads out of them, so their order does not matter.
  \<open>sort.Slice\<close> is \<open>sort_key\<close> on the compared fields.
\<close>

subsection \<open>Lifecycle\<close>

definition lifecycleOf :: "string \<Rightarrow> string" where
  "lifecycleOf value =
     (if value = ''backlog'' then ''backlog''
      else if oneOf value [''ready'', ''ready_for_work''] then ''ready''
      else if oneOf value [''implementation'', ''implementing'', ''in_progress''] then ''implementation''
      else if oneOf value [''qa'', ''quality_assurance'', ''review''] then ''qa''
      else if value = ''blocked'' then ''blocked''
      else if oneOf value [''done'', ''completed'', ''terminal'', ''merged''] then ''terminal''
      else [])"

definition normalizeLifecycleLabel :: "string \<Rightarrow> string" where
  "normalizeLifecycleLabel label =
     (let value = toLower (trimSpace label);
          value = trimSpace (trimPrefix value ''status:'');
          value = normalizeToken value
      in lifecycleOf (foldl trimPrefix value [''status_'', ''lifecycle_'', ''stage_'']))"

definition lifecycleValues :: "Label list \<Rightarrow> string list" where
  "lifecycleValues labels =
     sort (remdups (filter (\<lambda>v. v \<noteq> []) (map normalizeLifecycleLabel (map lb_name labels))))"

definition deriveLifecycle :: "Label list \<Rightarrow> Warning list \<Rightarrow> string \<times> Warning list" where
  "deriveLifecycle labels warnings =
     (case lifecycleValues labels of
        [] \<Rightarrow> (''unknown'', warnings @ [mkWarning 0 ''missing_lifecycle_label''
                ''no canonical lifecycle label is present; other workflow signals remain analyzable''])
      | [value] \<Rightarrow> (value, warnings)
      | values \<Rightarrow> (''unknown'', warnings @ [mkWarning 0 ''ambiguous_lifecycle_label''
                (''multiple lifecycle labels are present: '' @ joinWith '', '' values)]))"

subsection \<open>Candidate\<close>

definition candidateFromSnapshot :: "PullRequest \<Rightarrow> Candidate" where
  "candidateFromSnapshot pr =
     \<lparr>cd_github_id = pr_github_id pr, cd_number = pr_number pr, cd_title = pr_title pr,
      cd_draft = pr_draft pr, cd_mergeable = pr_mergeable pr, cd_base_ref = pr_base_ref pr,
      cd_head_ref = pr_head_ref pr, cd_head_sha = pr_head_sha pr, cd_url = pr_url pr, cd_ci = pr_ci pr\<rparr>"

definition openCandidates :: "PullRequest list \<Rightarrow> Candidate list" where
  "openCandidates prs =
     sort_key cd_number (map candidateFromSnapshot (filter (\<lambda>pr. equalFold (pr_state pr) ''open'') prs))"

definition deriveCandidate :: "PullRequest list \<Rightarrow> Warning list \<Rightarrow> CandidateState \<times> Warning list" where
  "deriveCandidate prs warnings =
     (let opened = openCandidates prs;
          state = \<lparr>cs_current = None, cs_alternatives = opened, cs_ambiguous = False\<rparr>
      in case opened of
           [] \<Rightarrow> (state, warnings)
         | [current] \<Rightarrow> (state\<lparr>cs_current := Some current\<rparr>, warnings)
         | _ \<Rightarrow> (state\<lparr>cs_ambiguous := True\<rparr>,
                 warnings @ [mkWarning 0 ''ambiguous_candidate''
                   (showNat (length opened) @ '' open pull requests are linked; no current Candidate was selected'')]))"

subsection \<open>Comments\<close>

definition commentPreferred :: "Comment \<Rightarrow> Comment \<Rightarrow> bool" where
  "commentPreferred candidate existing =
     (if cm_updated candidate \<noteq> cm_updated existing then cm_updated candidate > cm_updated existing
      else if cm_created candidate \<noteq> cm_created existing then cm_created candidate > cm_created existing
      else if cm_body candidate \<noteq> cm_body existing then cm_body candidate > cm_body existing
      else cm_url candidate > cm_url existing)"

definition collapseStep :: "Comment list \<times> int list \<Rightarrow> Comment \<Rightarrow> Comment list \<times> int list" where
  "collapseStep st comment =
     (let (byID, duplicates) = st
      in case row_get cm_id (cm_id comment) byID of
           Some existing \<Rightarrow>
             ((if commentPreferred comment existing
               then row_update (\<lambda>r. cm_id r = cm_id comment) (\<lambda>_. comment) byID else byID),
              duplicates @ [cm_id comment])
         | None \<Rightarrow> (byID @ [comment], duplicates))"

definition collapse :: "Comment list \<Rightarrow> Comment list \<times> int list" where
  "collapse comments = foldl collapseStep ([], []) comments"

definition commentOrder :: "Comment \<Rightarrow> gotime \<times> int \<times> gotime \<times> string" where
  "commentOrder c = (cm_created c, cm_id c, cm_updated c, cm_body c)"

definition canonicalComments :: "Comment list \<Rightarrow> Comment list \<times> Warning list" where
  "canonicalComments comments =
     (let (byID, duplicates) = collapse comments
      in (sort_key commentOrder byID,
          map (\<lambda>i. mkWarning i ''duplicate_comment''
                 ''duplicate records with the same stable GitHub comment ID were collapsed deterministically'')
              (sort (remdups duplicates))))"

subsection \<open>Facts on the lifecycle and the Candidate\<close>

definition lifecycles :: "string list" where
  "lifecycles = [''backlog'', ''ready'', ''implementation'', ''qa'', ''blocked'', ''terminal'']"

lemma lifecycleOf_range: "lifecycleOf v \<noteq> [] \<Longrightarrow> lifecycleOf v \<in> set lifecycles"
  by (simp add: lifecycleOf_def lifecycles_def split: if_splits)

lemma normalizeLifecycleLabel_range:
  "normalizeLifecycleLabel l \<noteq> [] \<Longrightarrow> normalizeLifecycleLabel l \<in> set lifecycles"
  by (simp add: normalizeLifecycleLabel_def Let_def lifecycleOf_range)

lemma set_lifecycleValues:
  "set (lifecycleValues labels) = (\<lambda>l. normalizeLifecycleLabel (lb_name l)) ` set labels - {[]}"
  by (auto simp: lifecycleValues_def)

lemma distinct_lifecycleValues [simp]: "distinct (lifecycleValues labels)"
  by (simp add: lifecycleValues_def)

lemma deriveLifecycle_known:
  "fst (deriveLifecycle labels ws) \<noteq> ''unknown'' \<Longrightarrow>
     set (lifecycleValues labels) = {fst (deriveLifecycle labels ws)}"
  by (auto simp: deriveLifecycle_def split: list.splits)

lemma openCandidates_set:
  "set (openCandidates prs) = candidateFromSnapshot ` {pr \<in> set prs. equalFold (pr_state pr) ''open''}"
  by (auto simp: openCandidates_def)

lemma deriveCandidate_current:
  "cs_current (fst (deriveCandidate prs ws)) = Some c \<longleftrightarrow> openCandidates prs = [c]"
  by (auto simp: deriveCandidate_def Let_def split: list.splits)

lemma deriveCandidate_ambiguous:
  "cs_ambiguous (fst (deriveCandidate prs ws)) \<longleftrightarrow> length (openCandidates prs) > 1"
  by (auto simp: deriveCandidate_def Let_def split: list.splits)

lemma deriveCandidate_exclusive:
  "cs_ambiguous (fst (deriveCandidate prs ws)) \<Longrightarrow> cs_current (fst (deriveCandidate prs ws)) = None"
  by (auto simp: deriveCandidate_def Let_def split: list.splits)

subsection \<open>Facts on the canonical comments\<close>

interpretation comment_table: keyed_table cm_id "row_get cm_id" row_update
  by unfold_locales (simp_all add: row_get_def row_update_def)

text \<open>The preference is the strict order of this key.\<close>

definition preferenceKey :: "Comment \<Rightarrow> gotime \<times> gotime \<times> string \<times> string" where
  "preferenceKey c = (cm_updated c, cm_created c, cm_body c, cm_url c)"

lemma commentPreferred_key: "commentPreferred c e \<longleftrightarrow> preferenceKey e < preferenceKey c"
  by (auto simp: commentPreferred_def preferenceKey_def less_prod_def')

definition occurrences :: "int \<Rightarrow> Comment list \<Rightarrow> nat" where
  "occurrences i comments = length (filter (\<lambda>c. cm_id c = i) comments)"

lemma occurrences_simps [simp]:
  "occurrences i [] = 0"
  "occurrences i (xs @ ys) = occurrences i xs + occurrences i ys"
  "occurrences i (c # xs) = (if cm_id c = i then 1 else 0) + occurrences i xs"
  by (simp_all add: occurrences_def)

lemma occurrences_pos: "0 < occurrences i comments \<longleftrightarrow> i \<in> cm_id ` set comments"
  by (induction comments) auto

definition collapseInv :: "Comment list \<Rightarrow> Comment list \<times> int list \<Rightarrow> bool" where
  "collapseInv seen st =
     (distinct (map cm_id (fst st)) \<and> set (fst st) \<subseteq> set seen \<and>
      cm_id ` set (fst st) = cm_id ` set seen \<and>
      (\<forall>c \<in> set (fst st). \<forall>d \<in> set seen. cm_id d = cm_id c \<longrightarrow> preferenceKey d \<le> preferenceKey c) \<and>
      set (snd st) = {i. 1 < occurrences i seen})"

lemma collapseInv_new:
  assumes "collapseInv seen (byID, dups)" and "row_get cm_id (cm_id c) byID = None"
  shows "collapseInv (seen @ [c]) (byID @ [c], dups)"
proof -
  from assms have new: "cm_id c \<notin> cm_id ` set seen" by (simp add: collapseInv_def row_get_None)
  then have "occurrences (cm_id c) seen = 0" by (metis occurrences_pos gr0I)
  with new assms(1) show ?thesis
    unfolding collapseInv_def by (auto simp: image_iff)
qed

lemma collapseInv_seen:
  assumes "collapseInv seen (byID, dups)" and e: "row_get cm_id (cm_id c) byID = Some e"
  shows "collapseInv (seen @ [c])
    ((if commentPreferred c e then row_update (\<lambda>r. cm_id r = cm_id c) (\<lambda>_. c) byID else byID),
     dups @ [cm_id c])"
proof -
  from row_get_Some [OF e] have mem: "e \<in> set byID" and id: "cm_id e = cm_id c" by auto
  from assms(1) have d: "distinct (map cm_id byID)" by (simp add: collapseInv_def)
  have uniq: "r = e" if "r \<in> set byID" "cm_id r = cm_id c" for r
    using d mem id that by (metis comment_table.get_unique option.inject)
  have old: "cm_id c \<in> cm_id ` set seen"
    using assms(1) mem id unfolding collapseInv_def fst_conv by (metis imageI)
  then have "0 < occurrences (cm_id c) seen" by (simp add: occurrences_pos)
  then have dups: "set (dups @ [cm_id c]) = {i. 1 < occurrences i (seen @ [c])}"
    using assms(1) by (auto simp: collapseInv_def)
  show ?thesis
  proof (cases "commentPreferred c e")
    case True
    define rows where "rows = row_update (\<lambda>r. cm_id r = cm_id c) (\<lambda>_. c) byID"
    have "{r \<in> set byID. cm_id r = cm_id c} = {e}" using mem id by (auto intro: uniq)
    moreover from this have "{r \<in> set byID. cm_id r \<noteq> cm_id c} = set byID - {e}" by blast
    ultimately have rows: "set rows = insert c (set byID - {e})"
      by (simp add: rows_def set_row_update)
    have keys: "map cm_id rows = map cm_id byID"
      unfolding rows_def by (rule comment_table.upd_keys) simp
    then have ids: "cm_id ` set rows = cm_id ` set byID" by (metis set_map)
    have better: "preferenceKey e \<le> preferenceKey c" using True by (simp add: commentPreferred_key)
    have "preferenceKey d \<le> preferenceKey r"
      if "r \<in> set rows" "d \<in> set (seen @ [c])" "cm_id d = cm_id r" for r d
    proof (cases "r = c")
      case True
      have "preferenceKey d \<le> preferenceKey e" if "d \<in> set seen"
        using that assms(1) mem id True \<open>cm_id d = cm_id r\<close> by (simp add: collapseInv_def)
      with that better True show ?thesis by (auto dest: order_trans)
    next
      case False
      with that(1) rows have r: "r \<in> set byID" "r \<noteq> e" by auto
      moreover from this uniq that(3) have "d \<noteq> c" by metis
      ultimately show ?thesis using that(2,3) assms(1) by (simp add: collapseInv_def)
    qed
    moreover have "set rows \<subseteq> set (seen @ [c])" using rows assms(1) by (auto simp: collapseInv_def)
    moreover have "cm_id ` set rows = cm_id ` set (seen @ [c])"
      using assms(1) ids old by (auto simp: collapseInv_def)
    ultimately show ?thesis
      using dups True d keys unfolding collapseInv_def rows_def by simp
  next
    case False
    then have "preferenceKey c \<le> preferenceKey e" by (simp add: commentPreferred_key)
    then have "preferenceKey c \<le> preferenceKey r" if "r \<in> set byID" "cm_id c = cm_id r" for r
      using uniq [OF that(1)] that(2) by simp
    then have "preferenceKey d \<le> preferenceKey r"
      if "r \<in> set byID" "d \<in> set (seen @ [c])" "cm_id d = cm_id r" for r d
      using that assms(1) by (auto simp: collapseInv_def)
    moreover have "insert (cm_id c) (cm_id ` set seen) = cm_id ` set seen" using old by blast
    moreover have "set byID \<subseteq> set (seen @ [c])" using assms(1) by (auto simp: collapseInv_def)
    ultimately show ?thesis
      using dups False d assms(1) unfolding collapseInv_def by simp
  qed
qed

lemma collapse_inv: "collapseInv comments (collapse comments)"
proof (induction comments rule: rev_induct)
  case Nil
  then show ?case by (simp add: collapse_def collapseInv_def)
next
  case (snoc c comments)
  obtain byID dups where s: "collapse comments = (byID, dups)" by (cases "collapse comments")
  then have "collapse (comments @ [c]) = collapseStep (byID, dups) c" by (simp add: collapse_def)
  with snoc s show ?case
    by (cases "row_get cm_id (cm_id c) byID")
      (simp_all add: collapseStep_def collapseInv_new collapseInv_seen)
qed

lemma canonicalComments_fst:
  "fst (canonicalComments comments) = sort_key commentOrder (fst (collapse comments))"
  by (simp add: canonicalComments_def split: prod.splits)

lemma canonicalComments_facts:
  "distinct (map cm_id (fst (canonicalComments comments)))"
  "sorted (map commentOrder (fst (canonicalComments comments)))"
  "set (fst (canonicalComments comments)) \<subseteq> set comments"
  "cm_id ` set (fst (canonicalComments comments)) = cm_id ` set comments"
  using collapse_inv [of comments]
  by (simp_all add: canonicalComments_fst collapseInv_def distinct_map)

lemma canonicalComments_best:
  assumes "c \<in> set (fst (canonicalComments comments))" "d \<in> set comments" "cm_id d = cm_id c"
  shows "\<not> commentPreferred d c"
  using assms collapse_inv [of comments]
  by (simp add: canonicalComments_fst collapseInv_def commentPreferred_key not_less)

lemma canonicalComments_warnings:
  "w_comment ` set (snd (canonicalComments comments)) = {i. 1 < occurrences i comments}"
proof -
  have "w_comment ` set (snd (canonicalComments comments)) = set (snd (collapse comments))"
    by (simp add: canonicalComments_def image_image split: prod.splits)
  with collapse_inv [of comments] show ?thesis by (simp add: collapseInv_def)
qed

lemma canonicalComments_mem:
  assumes "\<And>c d. c \<in> set comments \<Longrightarrow> d \<in> set comments \<Longrightarrow> cm_id c = cm_id d \<Longrightarrow>
      preferenceKey c = preferenceKey d \<Longrightarrow> c = d"
  shows "set (fst (canonicalComments comments)) =
    {c \<in> set comments. \<forall>d \<in> set comments. cm_id d = cm_id c \<longrightarrow> \<not> commentPreferred d c}"
proof (intro set_eqI iffI)
  fix c assume "c \<in> set (fst (canonicalComments comments))"
  then show "c \<in> {c \<in> set comments. \<forall>d \<in> set comments. cm_id d = cm_id c \<longrightarrow> \<not> commentPreferred d c}"
    using canonicalComments_facts(3) canonicalComments_best by blast
next
  fix c assume c: "c \<in> {c \<in> set comments. \<forall>d \<in> set comments. cm_id d = cm_id c \<longrightarrow> \<not> commentPreferred d c}"
  then have "cm_id c \<in> cm_id ` set (fst (canonicalComments comments))"
    using canonicalComments_facts(4) by blast
  then obtain d where d: "d \<in> set (fst (canonicalComments comments))" "cm_id d = cm_id c" by force
  then have "d \<in> set comments" using canonicalComments_facts(3) by blast
  with c d canonicalComments_best [OF d(1), of c] have "preferenceKey c = preferenceKey d"
    by (auto simp: commentPreferred_key not_less)
  with assms [of c d] c d \<open>d \<in> set comments\<close> show "c \<in> set (fst (canonicalComments comments))" by simp
qed

lemma canonicalComments_unique:
  assumes "set (fst (canonicalComments xs)) = set (fst (canonicalComments ys))"
  shows "fst (canonicalComments xs) = fst (canonicalComments ys)"
proof -
  let ?X = "fst (canonicalComments xs)" and ?Y = "fst (canonicalComments ys)"
  have inj: "inj_on commentOrder (set ?X)"
    using canonicalComments_facts(1) [of xs] by (auto simp: inj_on_def commentOrder_def distinct_map)
  have d: "distinct (map commentOrder zs)" if "distinct (map cm_id zs)" for zs
    using that by (auto simp: distinct_map inj_on_def commentOrder_def)
  have "map commentOrder ?X = map commentOrder ?Y"
    using canonicalComments_facts(1,2) d assms by (intro sorted_distinct_set_unique) (metis list.set_map)+
  with inj assms show ?thesis by (metis map_inj_on Un_absorb)
qed

subsection \<open>Properties\<close>

text \<open>C20. The canonical comments hold each GitHub id of the input once, in the order of
  creation time and id; each is the record of its id that no other record of that id is
  preferred to; and exactly the ids that occur more than once are reported.\<close>

theorem canonicalComments_correct:
  "distinct (map cm_id (fst (canonicalComments comments))) \<and>
   sorted (map (\<lambda>c. (cm_created c, cm_id c)) (fst (canonicalComments comments))) \<and>
   cm_id ` set (fst (canonicalComments comments)) = cm_id ` set comments \<and>
   (\<forall>c \<in> set (fst (canonicalComments comments)). c \<in> set comments \<and>
      (\<forall>d \<in> set comments. cm_id d = cm_id c \<longrightarrow> \<not> commentPreferred d c)) \<and>
   w_comment ` set (snd (canonicalComments comments)) = {i. 1 < occurrences i comments}"
proof -
  have "sorted (map commentOrder cs) \<Longrightarrow> sorted (map (\<lambda>c. (cm_created c, cm_id c)) cs)" for cs
    by (induction cs) (auto simp: commentOrder_def less_eq_prod_def)
  then show ?thesis
    using canonicalComments_facts [of comments] canonicalComments_best [of _ comments] canonicalComments_warnings
    by blast
qed

theorem canonicalComments_correct_witness:
  "distinct (map cm_id (fst (canonicalComments [sampleComment ''a'', sampleComment ''b'']))) \<and>
   cm_id ` set (fst (canonicalComments [sampleComment ''a'', sampleComment ''b''])) = {7}"
  using canonicalComments_correct [of "[sampleComment ''a'', sampleComment ''b'']"]
  by (auto simp: sampleComment_def)

text \<open>The collapse is independent of the order (and repetition) in which the snapshot
  lists the comments, as long as two records that agree on id, times, body and URL are the
  same record.\<close>

theorem canonicalComments_order_independent:
  assumes "set xs = set ys"
    and "\<And>c d. c \<in> set xs \<Longrightarrow> d \<in> set xs \<Longrightarrow> cm_id c = cm_id d \<Longrightarrow> preferenceKey c = preferenceKey d \<Longrightarrow> c = d"
  shows "fst (canonicalComments xs) = fst (canonicalComments ys)"
  using assms canonicalComments_mem [of xs] canonicalComments_mem [of ys]
  by (intro canonicalComments_unique) simp

theorem canonicalComments_order_independent_witness:
  "fst (canonicalComments [sampleComment ''a'', sampleComment ''b'']) =
   fst (canonicalComments [sampleComment ''b'', sampleComment ''a''])"
  by (rule canonicalComments_order_independent) (auto simp: sampleComment_def preferenceKey_def)

end
