(* ===== verification/Attention.thy ===== *)
theory Attention
  imports Snapshot
begin

text \<open>
  \<open>workflow/derive_attention.go\<close>: the CI summary that may affect routing, the attention
  a work unit needs, and the stable order of warnings and attention items.
\<close>

subsection \<open>CI\<close>

definition staleCI :: "string \<Rightarrow> string \<Rightarrow> Warning" where
  "staleCI head currentHead = mkWarning 0 ''stale_ci_summary''
     (''CI summary Head '' @ head @ '' does not match current Head '' @ currentHead)"

definition effectiveCI :: "CISummary \<Rightarrow> string \<Rightarrow> Warning list \<Rightarrow> CISummary \<times> Warning list" where
  "effectiveCI ci currentHead warnings =
     (if ci = noCI then (noCI, warnings)
      else if currentHead = []
      then (noCI, warnings @ [mkWarning 0 ''unbound_ci_summary''
              ''CI summary exists but no current Candidate Head is selected''])
      else if ci_head ci = []
      then (noCI, warnings @ [mkWarning 0 ''unbound_ci_summary''
              ''CI summary is missing the exact Head SHA and cannot affect routing''])
      else if ci_head ci \<noteq> currentHead
      then (noCI, warnings @ [staleCI (ci_head ci) currentHead])
      else (ci, warnings))"

definition ciFailed :: "CISummary \<Rightarrow> bool" where
  "ciFailed ci = oneOf (normalizeToken (ci_conclusion ci))
     [''failure'', ''failed'', ''cancelled'', ''timed_out'', ''action_required'', ''startup_failure'']"

definition ciSucceeded :: "CISummary \<Rightarrow> bool" where
  "ciSucceeded ci = (normalizeToken (ci_conclusion ci) = ''success'')"

subsection \<open>Attention\<close>

definition reportLevel :: "ParsedComment \<Rightarrow> bool" where
  "reportLevel parsed = (pc_level parsed = ParseLevelEnvelope \<or> pc_level parsed = ParseLevelHeading)"

definition unsafeReport :: "ParsedComment \<Rightarrow> bool" where
  "unsafeReport parsed = (pc_hard_error parsed \<noteq> None \<or> pc_event parsed = None \<or> \<not> pc_safe parsed)"

definition latestTerminalEvidenceUnsafe :: "WorkUnitState \<Rightarrow> bool" where
  "latestTerminalEvidenceUnsafe state =
     (case find_last reportLevel (wu_comments state) of
        Some parsed \<Rightarrow> unsafeReport parsed | None \<Rightarrow> False)"

definition staleApproval :: "string \<Rightarrow> ParsedComment \<Rightarrow> bool" where
  "staleApproval head parsed =
     (case pc_event parsed of None \<Rightarrow> False
      | Some event \<Rightarrow> we_role event = ''qa'' \<and> we_verdict event = ''approved'' \<and>
          we_head event \<noteq> [] \<and> we_head event \<noteq> head)"

definition qaApprovalInvalidated :: "WorkUnitState \<Rightarrow> bool" where
  "qaApprovalInvalidated state =
     (if wu_head state = [] then False
      else if wu_qa_approved state = wu_head state then False
      else if (case lr_qa (wu_latest state) of None \<Rightarrow> False
               | Some latest \<Rightarrow> re_effective latest \<and> \<not> re_stale latest \<and> re_head latest = wu_head state)
      then False
      else list_ex (staleApproval (wu_head state)) (wu_comments state))"

definition problemCodes :: "string list" where
  "problemCodes = [''unknown_version'', ''unknown_event'', ''unknown_role'', ''unknown_status'',
     ''unknown_verdict'', ''unresolved_head_prefix'', ''missing_candidate_head'', ''missing_current_head'',
     ''missing_dispatch_correlation'', ''role_mismatch'', ''stale_ci_summary'', ''unbound_ci_summary'',
     ''missing_blocker_resolution'', ''unmatched_blocker_resolution'', ''unknown_blocker_resolution'',
     ''non_actionable_blocker_resolution'', ''additional_unresolved_blocker'', ''invalid_lead_resume_role'']"

definition problemReport :: "ParsedComment \<Rightarrow> bool" where
  "problemReport parsed = (pc_level parsed = ParseLevelHeading \<or> unsafeReport parsed)"

definition hasProtocolProblem :: "WorkUnitState \<Rightarrow> bool" where
  "hasProtocolProblem state =
     (let latest = find_last reportLevel (wu_comments state);
          latestCommentID = (case latest of Some parsed \<Rightarrow> pc_comment parsed | None \<Rightarrow> 0)
      in (case latest of Some parsed \<Rightarrow> problemReport parsed | None \<Rightarrow> False) \<or>
         list_ex (\<lambda>w. (w_comment w = 0 \<or> w_comment w = latestCommentID) \<and> oneOf (w_code w) problemCodes)
           (wu_warnings state))"

definition mkAttention :: "AttentionKind \<Rightarrow> string \<Rightarrow> string \<Rightarrow> Attention" where
  "mkAttention kind code explanation = \<lparr>at_kind = kind, at_code = code, at_explanation = explanation\<rparr>"

definition terminalUnit :: "string \<Rightarrow> WorkUnitState \<Rightarrow> bool" where
  "terminalUnit issueState state = (equalFold issueState ''closed'' \<or> wu_lifecycle state = ''terminal'')"

definition deriveAttention :: "string \<Rightarrow> WorkUnitState \<Rightarrow> Attention" where
  "deriveAttention issueState state =
     (if terminalUnit issueState state
      then mkAttention AttentionTerminal ''terminal'' ''work unit is terminal''
      else if cs_ambiguous (wu_candidate state)
      then mkAttention AttentionAmbiguous ''ambiguous_candidate'' ''multiple open Candidates prevent safe automatic routing''
      else if rt_action (wu_route state) = ''owner_attention''
      then mkAttention AttentionOwnerRequired ''owner_required'' (rt_reason (wu_route state))
      else if wu_blocker state \<noteq> None
      then mkAttention AttentionBlocked ''active_blocker'' ''a terminal blocked result remains unresolved by Lead''
      else if ciFailed (wu_ci state)
      then mkAttention AttentionCIFailed ''ci_failed'' ''CI failed for the current exact Head''
      else if qaApprovalInvalidated state
      then mkAttention AttentionQAInvalidated ''qa_invalidated'' ''a prior QA approval is stale because the current Head changed''
      else if hasProtocolProblem state
      then mkAttention AttentionProtocolWarning ''protocol_warning''
             ''workflow evidence contains malformed, legacy, unknown or incomplete protocol data''
      else if rt_reason_code (wu_route state) = ''waiting_for_ci''
      then mkAttention AttentionWaiting ''waiting_for_ci'' (rt_reason (wu_route state))
      else if rt_action (wu_route state) = ''dispatch'' \<or> rt_action (wu_route state) = ''manual_attention''
      then mkAttention AttentionActionRequired (rt_reason_code (wu_route state)) (rt_reason (wu_route state))
      else mkAttention AttentionNormal ''normal'' ''no exceptional attention is required'')"

subsection \<open>Stable orders\<close>

definition warningKey :: "Warning \<Rightarrow> string" where
  "warningKey w = showInt (w_comment w) @ [CHR 0x00] @ w_code w @ [CHR 0x00] @ w_message w"

definition warningOrder :: "Warning \<Rightarrow> int \<times> string \<times> string" where
  "warningOrder w = (w_comment w, w_code w, w_message w)"

definition stableWarnings :: "Warning list \<Rightarrow> Warning list" where
  "stableWarnings warnings = sort_key warningOrder (dedup_on warningKey [] warnings)"

definition attentionOrder :: "AttentionItem \<Rightarrow> string \<times> string \<times> int \<times> string" where
  "attentionOrder item =
     (toLower (pi_owner (ai_project item)), toLower (pi_repository (ai_project item)),
      wi_issue_number (ai_unit item), at_code (ai_attention item))"

definition sortAttention :: "AttentionItem list \<Rightarrow> AttentionItem list" where
  "sortAttention items = sort_key attentionOrder items"

definition latestTime :: "gotime \<Rightarrow> gotime \<Rightarrow> gotime" where
  "latestTime left right = (if right > left then right else left)"

subsection \<open>Facts\<close>

lemma effectiveCI_bound:
  "fst (effectiveCI ci h ws) \<noteq> noCI \<Longrightarrow> fst (effectiveCI ci h ws) = ci \<and> ci_head ci = h \<and> h \<noteq> []"
  by (auto simp: effectiveCI_def split: if_splits)

lemma noCI_conclusion [simp]: "ci_conclusion noCI = []"
  by (simp add: noCI_def)

lemma normalizeToken_Nil [simp]: "normalizeToken [] = []"
  by code_simp

lemma ciSucceeded_noCI [simp]: "\<not> ciSucceeded noCI"
  and ciFailed_noCI [simp]: "\<not> ciFailed noCI"
  by (simp_all add: ciSucceeded_def ciFailed_def)

lemma effectiveCI_success:
  "ciSucceeded (fst (effectiveCI ci h ws)) \<Longrightarrow> ciSucceeded ci \<and> ci_head ci = h \<and> h \<noteq> []"
  using effectiveCI_bound [of ci h ws] by (cases "fst (effectiveCI ci h ws) = noCI") auto

lemma latestTime_max: "latestTime a b = max a b"
  by (simp add: latestTime_def max_def)


lemma stableWarnings_subset: "set (stableWarnings ws) \<subseteq> set ws"
  using dedup_on_subset [of warningKey "[]" ws] by (simp add: stableWarnings_def)

lemma stableWarnings_sorted: "sorted (map warningOrder (stableWarnings ws))"
  by (simp add: stableWarnings_def)

lemma stableWarnings_distinct: "distinct (map warningKey (stableWarnings ws))"
  using dedup_on_distinct [of warningKey "[]" ws] by (simp add: stableWarnings_def distinct_map)

lemma split_at_first:
  assumes "a @ x # b = c @ x # d" and "x \<notin> set a" and "x \<notin> set c"
  shows "a = c \<and> b = d"
  using assms
proof (induction a arbitrary: c)
  case Nil
  then show ?case by (cases c) auto
next
  case (Cons y a)
  then show ?case by (cases c) auto
qed

lemma nul_not_in_showInt: "CHR 0x00 \<notin> set (showInt i)"
  using showInt_digits [of "CHR 0x00" i] by (auto simp: digitVal_def)

lemma warningKey_inj:
  assumes "warningKey v = warningKey w" "CHR 0x00 \<notin> set (w_code v)" "CHR 0x00 \<notin> set (w_code w)"
  shows "v = w"
proof -
  from assms(1) split_at_first [of "showInt (w_comment v)" "CHR 0x00" _ "showInt (w_comment w)"]
  have id: "showInt (w_comment v) = showInt (w_comment w)"
    and rest: "w_code v @ CHR 0x00 # w_message v = w_code w @ CHR 0x00 # w_message w"
    by (auto simp: warningKey_def nul_not_in_showInt)
  from split_at_first [OF rest assms(2,3)] have "w_code v = w_code w" "w_message v = w_message w" by auto
  with id show ?thesis by (auto intro: Warning.equality)
qed

text \<open>No warning is lost, provided no code holds a NUL byte (every code of the program is a
  literal without one).\<close>

lemma stableWarnings_set:
  assumes "\<forall>w \<in> set ws. CHR 0x00 \<notin> set (w_code w)"
  shows "set (stableWarnings ws) = set ws"
proof
  show "set (stableWarnings ws) \<subseteq> set ws" by (rule stableWarnings_subset)
  show "set ws \<subseteq> set (stableWarnings ws)"
  proof
    fix w assume w: "w \<in> set ws"
    then have "warningKey w \<in> warningKey ` set (dedup_on warningKey [] ws)"
      by (simp add: dedup_on_keys)
    then obtain v where v: "v \<in> set (dedup_on warningKey [] ws)" "warningKey v = warningKey w" by auto
    with dedup_on_subset w assms have "v = w" by (meson subsetD warningKey_inj)
    with v show "w \<in> set (stableWarnings ws)" by (simp add: stableWarnings_def)
  qed
qed

subsection \<open>Properties\<close>

text \<open>\<open>stableWarnings\<close> loses no warning and repeats none: its result has the warnings of
  its argument, each once, in the order of comment, code and message, whenever no code holds
  a NUL byte (the separator of the deduplication key; the codes of the program hold none).\<close>

theorem stableWarnings_correct:
  assumes "\<forall>w \<in> set warnings. CHR 0x00 \<notin> set (w_code w)"
  shows "set (stableWarnings warnings) = set warnings \<and> distinct (stableWarnings warnings) \<and>
    sorted (map (\<lambda>w. (w_comment w, w_code w, w_message w)) (stableWarnings warnings))"
proof -
  have "distinct (stableWarnings warnings)"
    using stableWarnings_distinct by (metis distinct_map)
  moreover have "sorted (map (\<lambda>w. (w_comment w, w_code w, w_message w)) (stableWarnings warnings))"
    using stableWarnings_sorted [of warnings] by (simp add: warningOrder_def [abs_def])
  ultimately show ?thesis using stableWarnings_set [OF assms] by simp
qed

theorem stableWarnings_correct_witness:
  "set (stableWarnings [mkWarning 2 ''b'' ''m'', mkWarning 1 ''a'' ''m'', mkWarning 2 ''b'' ''m'']) =
   {mkWarning 1 ''a'' ''m'', mkWarning 2 ''b'' ''m''}"
  using stableWarnings_correct [of "[mkWarning 2 ''b'' ''m'', mkWarning 1 ''a'' ''m'', mkWarning 2 ''b'' ''m'']"]
  by auto

end
