(* ===== verification/Routing.thy ===== *)
theory Routing
  imports Attention
begin

text \<open>
  \<open>workflow/derive_routing.go\<close>: the next action of a work unit. \<open>deriveRoute\<close> is the
  code's chain of early returns; the two switches at its end, and the block of the
  inconclusive QA result, are definitions of their own (\<open>None\<close> is falling through to
  \<open>unhandled_terminal_result\<close>).
\<close>

subsection \<open>Building a route\<close>

definition qaRequired :: "string \<Rightarrow> bool" where
  "qaRequired workflowMode =
     (let value = normalizeToken workflowMode in value \<noteq> ''no_qa'' \<and> value \<noteq> ''lead_only'')"

definition guardsForHead :: "string \<Rightarrow> string list" where
  "guardsForHead head = (if head = [] then [] else [''exact_head''])"

definition laneKey :: "ProjectIdentity \<Rightarrow> int \<Rightarrow> string \<Rightarrow> string" where
  "laneKey project issueNumber role =
     toLower (pi_owner project) @ ''/'' @ toLower (pi_repository project) @ ''#'' @ showInt issueNumber
     @ '':'' @ toLower role"

definition dispatchRoute :: "ProjectIdentity \<Rightarrow> WorkUnitState \<Rightarrow> string \<Rightarrow> string \<Rightarrow> string \<Rightarrow> Route" where
  "dispatchRoute project state role code reason =
     \<lparr>rt_action = ''dispatch'', rt_target_role = role,
      rt_lane = laneKey project (wi_issue_number (wu_identity state)) role,
      rt_reason_code = code, rt_reason = reason, rt_expected_head = wu_head state,
      rt_guards = guardsForHead (wu_head state), rt_warnings = wu_warnings state\<rparr>"

definition manualLeadRoute :: "ProjectIdentity \<Rightarrow> WorkUnitState \<Rightarrow> string \<Rightarrow> string \<Rightarrow> Route" where
  "manualLeadRoute project state code reason =
     \<lparr>rt_action = ''manual_attention'', rt_target_role = ''lead'',
      rt_lane = laneKey project (wi_issue_number (wu_identity state)) ''lead'',
      rt_reason_code = code, rt_reason = reason, rt_expected_head = wu_head state,
      rt_guards = guardsForHead (wu_head state) @ [''manual_confirmation''], rt_warnings = wu_warnings state\<rparr>"

definition waitRoute :: "WorkUnitState \<Rightarrow> string \<Rightarrow> string \<Rightarrow> Route" where
  "waitRoute state code reason =
     \<lparr>rt_action = ''none'', rt_target_role = [], rt_lane = [], rt_reason_code = code, rt_reason = reason,
      rt_expected_head = wu_head state, rt_guards = guardsForHead (wu_head state),
      rt_warnings = wu_warnings state\<rparr>"

definition addGuards :: "string list \<Rightarrow> Route \<Rightarrow> Route" where
  "addGuards guards route = route\<lparr>rt_guards := rt_guards route @ guards\<rparr>"

definition gateRoute :: "WorkUnitState \<Rightarrow> string \<Rightarrow> string \<Rightarrow> string \<Rightarrow> Route" where
  "gateRoute state action code reason =
     \<lparr>rt_action = action, rt_target_role = ''lead'', rt_lane = [], rt_reason_code = code, rt_reason = reason,
      rt_expected_head = wu_head state,
      rt_guards = guardsForHead (wu_head state) @
        [''ci_success'', ''qa_approved_current_head'', ''candidate_mergeable'', ''no_active_blocker'', ''manual_merge_authority''],
      rt_warnings = wu_warnings state\<rparr>"

definition mergeGateRoute :: "WorkUnitState \<Rightarrow> Route" where
  "mergeGateRoute state =
     (case cs_current (wu_candidate state) of
        None \<Rightarrow> gateRoute state ''manual_attention'' ''merge_gate_missing_candidate''
                  ''Lead requested merge review without one current Candidate''
      | Some current \<Rightarrow>
          if wu_head state = []
          then gateRoute state ''manual_attention'' ''merge_gate_missing_candidate''
                  ''Lead requested merge review without one current Candidate''
          else if \<not> ciSucceeded (wu_ci state) \<or> wu_qa_approved state \<noteq> wu_head state \<or> wu_blocker state \<noteq> None
          then gateRoute state ''manual_attention'' ''merge_gate_incomplete''
                  ''Lead requested merge review but exact-Candidate CI, fresh QA or blocker gates are incomplete''
          else if \<not> oneOf (normalizeToken (cd_mergeable current)) [''clean'', ''mergeable'', ''unstable'']
          then gateRoute state ''manual_attention'' ''merge_gate_not_mergeable''
                  ''current primary PR is not known mergeable''
          else gateRoute state ''merge_gate'' ''ready_to_merge_verification''
                  ''all observable merge gates are satisfied; merge still requires explicit Lead authority and expected-Head protection'')"

subsection \<open>Reading the latest result\<close>

definition latestResult :: "ResultEvidence list \<Rightarrow> ResultEvidence option" where
  "latestResult results = (if results = [] then None else Some (last results))"

definition resultExtensionString :: "ResultEvidence \<Rightarrow> string \<Rightarrow> string" where
  "resultExtensionString result key =
     (case objLookup (re_extensions result) key of Some (JStr s) \<Rightarrow> s | _ \<Rightarrow> [])"

definition resultExtensionInt :: "ResultEvidence \<Rightarrow> string \<Rightarrow> int" where
  "resultExtensionInt result key =
     (case objLookup (re_extensions result) key of
        Some v \<Rightarrow> (case jsonInt v of Some i \<Rightarrow> i | None \<Rightarrow> 0) | None \<Rightarrow> 0)"

definition dashboardBound :: "ResultEvidence \<Rightarrow> bool" where
  "dashboardBound latest = (resultExtensionString latest ''command_id'' \<noteq> [])"

subsection \<open>Routing one result\<close>

definition inconclusiveRoute :: "ProjectIdentity \<Rightarrow> WorkUnitState \<Rightarrow> ResultEvidence \<Rightarrow> Route" where
  "inconclusiveRoute project state latest =
     (if resultExtensionString latest ''reason_code'' = ''exact_candidate_ci_queued'' \<and>
         resultExtensionInt latest ''blocking_findings'' = 0
      then if ciSucceeded (wu_ci state)
           then addGuards [''ci_success'', ''fresh_qa_session'']
                  (dispatchRoute project state ''qa'' ''qa_retry_after_ci''
                    ''exact-Candidate CI succeeded; request a fresh QA session for the same Head'')
           else addGuards [''no_correction_cycle'', ''same_candidate'']
                  (waitRoute state ''waiting_for_ci''
                    ''QA is inconclusive only because exact-Candidate CI is queued or missing; preserve the current Candidate'')
      else dispatchRoute project state ''lead'' ''qa_inconclusive''
             ''QA could not reach a conclusive verdict and requires Lead review'')"

definition implementorRoute :: "ProjectIdentity \<Rightarrow> string \<Rightarrow> WorkUnitState \<Rightarrow> ResultEvidence \<Rightarrow> Route option" where
  "implementorRoute project workflowMode state latest =
     (if dashboardBound latest \<and> re_status latest = ''continue''
      then Some (dispatchRoute project state ''implementor'' ''implementation_continue''
                  ''Implementor requested another bounded turn in the same Change'')
      else if dashboardBound latest \<and> re_status latest = ''no_op''
      then Some (dispatchRoute project state ''lead'' ''implementation_no_op''
                  ''Implementor reported no source change; Lead must verify the Change outcome'')
      else if ciFailed (wu_ci state)
      then Some (dispatchRoute project state ''implementor'' ''candidate_ci_failed''
                  ''current Candidate CI failed and requires Implementor correction'')
      else if \<not> ciSucceeded (wu_ci state)
      then Some (waitRoute state ''waiting_for_ci'' ''current Candidate has no exact-Head successful CI conclusion yet'')
      else if re_status latest = ''completed'' \<or> (\<not> dashboardBound latest \<and> re_status latest = ''no_op'')
      then if qaRequired workflowMode
           then Some (addGuards (''ci_success'' # (if dashboardBound latest then [''fresh_qa_session''] else []))
                  (dispatchRoute project state ''qa'' ''implementation_completed''
                    ''Implementor terminal result advances to independent QA''))
           else Some (addGuards [''ci_success'']
                  (dispatchRoute project state ''lead'' ''implementation_completed_no_qa''
                    ''Implementor terminal result advances to Lead because QA is not required''))
      else None)"

definition qaRoute :: "ProjectIdentity \<Rightarrow> WorkUnitState \<Rightarrow> ResultEvidence \<Rightarrow> Route option" where
  "qaRoute project state latest =
     (if re_verdict latest = ''approved''
      then if dashboardBound latest \<and> \<not> ciSucceeded (wu_ci state)
           then Some (waitRoute state ''waiting_for_ci''
                  ''QA approval is preserved but cannot advance until exact-Candidate CI succeeds'')
           else Some (dispatchRoute project state ''lead'' ''qa_approved'' ''QA approved the current exact Head'')
      else if re_verdict latest = ''changes_required''
      then if dashboardBound latest
           then Some (dispatchRoute project state ''lead'' ''qa_changes_required''
                  ''QA requested Candidate-bound changes; Lead must bound the correction before Implementor resume'')
           else Some (dispatchRoute project state ''implementor'' ''qa_changes_required''
                  ''QA requested changes on the current exact Head'')
      else if re_verdict latest = ''inconclusive''
      then Some (dispatchRoute project state ''lead'' ''qa_inconclusive'' ''QA could not reach a conclusive verdict'')
      else None)"

definition leadRoute :: "ProjectIdentity \<Rightarrow> WorkUnitState \<Rightarrow> ResultEvidence \<Rightarrow> Route option" where
  "leadRoute project state latest =
     (if dashboardBound latest
      then if re_decision latest = ''dispatch''
           then if \<not> oneOf (re_resume_role latest) [''lead'', ''implementor'', ''qa'']
                then Some (manualLeadRoute project state ''invalid_lead_resume_role''
                       ''Lead dispatch result names an unsupported role'')
                else Some (dispatchRoute project state (re_resume_role latest) ''lead_dispatch''
                       ''Lead selected the next validated worker role'')
           else if re_decision latest = ''continue''
           then Some (dispatchRoute project state ''lead'' ''lead_continue'' ''Lead requested another bounded Lead turn'')
           else if re_decision latest = ''correct''
           then Some (dispatchRoute project state ''implementor'' ''lead_correction''
                  ''Lead bounded a correction for the existing Change'')
           else if re_decision latest = ''ready_to_merge'' then Some (mergeGateRoute state)
           else None
      else if re_resume_role latest \<noteq> [] \<and> oneOf (re_decision latest) [''continue'', ''correct'', ''resume'']
      then if \<not> leadResumeRoleAllowed (re_resume_role latest)
           then Some (manualLeadRoute project state ''invalid_lead_resume_role''
                  ''Lead automatic continuation may resume only Implementor or QA; resuming Lead would repeat the same lane'')
           else Some (dispatchRoute project state (re_resume_role latest) ''lead_resume''
                  ''Lead decision resumes the validated worker role'')
      else None)"

definition resultRoute :: "ProjectIdentity \<Rightarrow> string \<Rightarrow> WorkUnitState \<Rightarrow> ResultEvidence \<Rightarrow> Route" where
  "resultRoute project workflowMode state latest =
     (let route = (if re_role latest = ''implementor'' then implementorRoute project workflowMode state latest
                   else if re_role latest = ''qa'' then qaRoute project state latest
                   else if re_role latest = ''lead'' then leadRoute project state latest
                   else None)
      in case route of Some r \<Rightarrow> r
         | None \<Rightarrow> manualLeadRoute project state ''unhandled_terminal_result''
                    ''terminal result is preserved but has no safe automatic route'')"

definition blockedRoute :: "ProjectIdentity \<Rightarrow> WorkUnitState \<Rightarrow> ResultEvidence \<Rightarrow> Route" where
  "blockedRoute project state latest =
     (if re_role latest = ''implementor'' \<or> re_role latest = ''qa''
      then dispatchRoute project state ''lead'' ''lead_first_blocker''
             ''blocked Implementor or QA result must be resolved by Lead first''
      else \<lparr>rt_action = ''manual_attention'', rt_target_role = [], rt_lane = [],
            rt_reason_code = ''lead_blocked_requires_decision'',
            rt_reason = ''Lead blocked result requires an explicit follow-up decision or owner_required escalation; automatic redispatch would repeat the same Lead lane'',
            rt_expected_head = wu_head state,
            rt_guards = guardsForHead (wu_head state) @ [''manual_confirmation'', ''no_repeat_dispatch''],
            rt_warnings = wu_warnings state\<rparr>)"

definition escalationRoute :: "ProjectIdentity \<Rightarrow> WorkUnitState \<Rightarrow> ResultEvidence \<Rightarrow> Route" where
  "escalationRoute project state latest =
     (if (case wu_blocker state of None \<Rightarrow> False
          | Some active \<Rightarrow> re_comment active \<noteq> re_comment latest \<and>
              \<not> fst (resolvesComment (re_resolves latest) (re_comment active)))
      then manualLeadRoute project state ''unresolved_active_blocker''
             ''latest Lead escalation did not correlate to the active blocker''
      else \<lparr>rt_action = ''owner_attention'', rt_target_role = [], rt_lane = [],
            rt_reason_code = ''owner_required'',
            rt_reason = ''Lead requires an Owner decision; the correlated blocker remains pending until Owner acts'',
            rt_expected_head = wu_head state,
            rt_guards = [''lead_first_blocker_flow'', ''active_blocker_pending'', ''no_worker_dispatch''],
            rt_warnings = wu_warnings state\<rparr>)"

definition latestRoute :: "ProjectIdentity \<Rightarrow> string \<Rightarrow> WorkUnitState \<Rightarrow> ResultEvidence \<Rightarrow> Route" where
  "latestRoute project workflowMode state latest =
     (if \<not> re_effective latest
      then manualLeadRoute project state ''unsafe_terminal_result''
             ''latest terminal result is malformed, stale, incomplete or otherwise unsafe for automatic transition''
      else if re_stale latest
      then manualLeadRoute project state ''stale_terminal_result'' ''latest terminal result is bound to a non-current Head''
      else if leadOwnerEscalation latest then escalationRoute project state latest
      else if dashboardBound latest \<and> re_role latest = ''qa'' \<and> re_status latest = ''inconclusive''
      then inconclusiveRoute project state latest
      else if (case wu_blocker state of None \<Rightarrow> False | Some active \<Rightarrow> re_comment latest \<noteq> re_comment active)
      then manualLeadRoute project state ''unresolved_active_blocker''
             ''latest Lead result did not correlate to and safely resolve the active blocker''
      else if re_status latest = ''blocked'' then blockedRoute project state latest
      else resultRoute project workflowMode state latest)"

definition deriveRoute :: "ProjectIdentity \<Rightarrow> string \<Rightarrow> string \<Rightarrow> WorkUnitState \<Rightarrow> ResultEvidence list \<Rightarrow> Route" where
  "deriveRoute project workflowMode issueState state results =
     (if terminalUnit issueState state
      then waitRoute state ''terminal_work_unit'' ''work unit is terminal''
      else if cs_ambiguous (wu_candidate state)
      then manualLeadRoute project state ''ambiguous_candidate'' ''multiple open Candidates require Lead/manual selection''
      else if latestTerminalEvidenceUnsafe state
      then manualLeadRoute project state ''unsafe_terminal_result''
             ''latest terminal evidence is malformed or incomplete and requires Lead/manual review''
      else case latestResult results of
             None \<Rightarrow> dispatchRoute project state ''implementor'' ''initial_implementation''
                       ''no terminal worker result exists; implementation is the next role''
           | Some latest \<Rightarrow> latestRoute project workflowMode state latest)"

subsection \<open>Facts\<close>

lemmas route_shapes = dispatchRoute_def manualLeadRoute_def waitRoute_def gateRoute_def addGuards_def

lemma route_sel [simp]:
  "rt_action (dispatchRoute p s r c m) = ''dispatch''"
  "rt_target_role (dispatchRoute p s r c m) = r"
  "rt_reason_code (dispatchRoute p s r c m) = c"
  "rt_expected_head (dispatchRoute p s r c m) = wu_head s"
  "rt_guards (dispatchRoute p s r c m) = guardsForHead (wu_head s)"
  "rt_action (manualLeadRoute p s c m) = ''manual_attention''"
  "rt_reason_code (manualLeadRoute p s c m) = c"
  "rt_expected_head (manualLeadRoute p s c m) = wu_head s"
  "rt_action (waitRoute s c m) = ''none''"
  "rt_reason_code (waitRoute s c m) = c"
  "rt_expected_head (waitRoute s c m) = wu_head s"
  "rt_action (gateRoute s a c m) = a"
  "rt_expected_head (gateRoute s a c m) = wu_head s"
  "rt_action (addGuards gs x) = rt_action x"
  "rt_target_role (addGuards gs x) = rt_target_role x"
  "rt_reason_code (addGuards gs x) = rt_reason_code x"
  "rt_expected_head (addGuards gs x) = rt_expected_head x"
  "rt_guards (addGuards gs x) = rt_guards x @ gs"
  by (simp_all add: route_shapes)

text \<open>Every route of the router carries the current Head and the current warnings.\<close>

lemma mergeGateRoute_head [simp]: "rt_expected_head (mergeGateRoute state) = wu_head state"
  by (simp add: mergeGateRoute_def split: option.split)

lemma mergeGateRoute_action:
  "rt_action (mergeGateRoute state) = (if \<exists>c. cs_current (wu_candidate state) = Some c \<and>
       oneOf (normalizeToken (cd_mergeable c)) [''clean'', ''mergeable'', ''unstable''] \<and>
       wu_head state \<noteq> [] \<and> ciSucceeded (wu_ci state) \<and> wu_qa_approved state = wu_head state \<and>
       wu_blocker state = None
     then ''merge_gate'' else ''manual_attention'')"
  by (auto simp: mergeGateRoute_def split: option.split)

lemma implementorRoute_head: "implementorRoute p m s l = Some r \<Longrightarrow> rt_expected_head r = wu_head s"
  and qaRoute_head: "qaRoute p s l = Some r \<Longrightarrow> rt_expected_head r = wu_head s"
  and leadRoute_head: "leadRoute p s l = Some r \<Longrightarrow> rt_expected_head r = wu_head s"
  by (auto simp: implementorRoute_def qaRoute_def leadRoute_def split: if_splits)

lemma resultRoute_head [simp]: "rt_expected_head (resultRoute p m s l) = wu_head s"
  by (auto simp: resultRoute_def implementorRoute_head qaRoute_head leadRoute_head split: option.split)

lemma latestRoute_head [simp]: "rt_expected_head (latestRoute p m s l) = wu_head s"
  by (simp add: latestRoute_def escalationRoute_def inconclusiveRoute_def blockedRoute_def)

lemma deriveRoute_head [simp]: "rt_expected_head (deriveRoute p m i s results) = wu_head s"
  by (simp add: deriveRoute_def split: option.split)

text \<open>Which parts can produce which action.\<close>

lemma implementorRoute_not_merge: "implementorRoute p m s l = Some r \<Longrightarrow> rt_action r \<in> {''dispatch'', ''none''}"
  and qaRoute_not_merge: "qaRoute p s l = Some r \<Longrightarrow> rt_action r \<in> {''dispatch'', ''none''}"
  by (auto simp: implementorRoute_def qaRoute_def split: if_splits)

lemma leadRoute_merge:
  "leadRoute p s l = Some r \<Longrightarrow> rt_action r = ''merge_gate'' \<Longrightarrow>
     dashboardBound l \<and> re_decision l = ''ready_to_merge'' \<and> r = mergeGateRoute s"
  by (auto simp: leadRoute_def split: if_splits)

lemma resultRoute_merge:
  assumes "rt_action (resultRoute p m s l) = ''merge_gate''"
  shows "re_role l = ''lead'' \<and> dashboardBound l \<and> re_decision l = ''ready_to_merge'' \<and>
    resultRoute p m s l = mergeGateRoute s"
proof -
  have "rt_action (case x of Some r \<Rightarrow> r | None \<Rightarrow> manualLeadRoute p s c m') = ''merge_gate'' \<Longrightarrow>
      \<exists>r. x = Some r \<and> rt_action r = ''merge_gate''" for x c m'
    by (cases x) simp_all
  with assms obtain r where r: "rt_action r = ''merge_gate''" and
    "(if re_role l = ''implementor'' then implementorRoute p m s l
      else if re_role l = ''qa'' then qaRoute p s l
      else if re_role l = ''lead'' then leadRoute p s l else None) = Some r"
    unfolding resultRoute_def Let_def by blast
  then have lead: "re_role l = ''lead''" "leadRoute p s l = Some r"
    using implementorRoute_not_merge [of p m s l r] qaRoute_not_merge [of p s l r]
    by (simp_all split: if_splits)
  with leadRoute_merge [OF lead(2) r] show ?thesis by (simp add: resultRoute_def)
qed

lemma escalationRoute_action: "rt_action (escalationRoute p s l) \<in> {''manual_attention'', ''owner_attention''}"
  and inconclusiveRoute_action: "rt_action (inconclusiveRoute p s l) \<in> {''dispatch'', ''none''}"
  and blockedRoute_action: "rt_action (blockedRoute p s l) \<in> {''dispatch'', ''manual_attention''}"
  by (simp_all add: escalationRoute_def inconclusiveRoute_def blockedRoute_def)

lemma latestRoute_merge:
  assumes "rt_action (latestRoute p m s l) = ''merge_gate''"
  shows "re_effective l \<and> \<not> re_stale l \<and> latestRoute p m s l = resultRoute p m s l"
  using assms escalationRoute_action [of p s l] inconclusiveRoute_action [of p s l] blockedRoute_action [of p s l]
  unfolding latestRoute_def by (simp split: if_splits) blast

lemma deriveRoute_latest:
  assumes "rt_action (deriveRoute p m i s results) \<notin> {''none'', ''manual_attention'', ''dispatch''}"
  shows "\<not> terminalUnit i s \<and> \<not> cs_ambiguous (wu_candidate s) \<and> \<not> latestTerminalEvidenceUnsafe s \<and>
    (\<exists>l. latestResult results = Some l \<and> deriveRoute p m i s results = latestRoute p m s l)"
proof (cases "latestResult results")
  case None
  with assms show ?thesis by (simp add: deriveRoute_def split: if_splits)
next
  case (Some l)
  with assms show ?thesis by (simp add: deriveRoute_def split: if_splits)
qed

lemma latestResult_in: "latestResult results = Some l \<Longrightarrow> l \<in> set results"
  by (auto simp: latestResult_def split: if_splits)

text \<open>A dispatch to QA.\<close>

lemma implementorRoute_qa:
  "implementorRoute p m s l = Some r \<Longrightarrow> rt_action r = ''dispatch'' \<Longrightarrow> rt_target_role r = ''qa'' \<Longrightarrow>
     ciSucceeded (wu_ci s) \<and> qaRequired m"
  by (auto simp: implementorRoute_def split: if_splits)

text \<open>What every dispatch has behind it.\<close>

lemma latestRoute_dispatch:
  assumes "rt_action (latestRoute p m s l) = ''dispatch''"
  shows "re_effective l \<and> \<not> re_stale l"
  using assms unfolding latestRoute_def by (simp split: if_splits)

lemma deriveRoute_dispatch:
  assumes "rt_action (deriveRoute p m i s results) = ''dispatch''"
  shows "\<not> terminalUnit i s \<and> \<not> cs_ambiguous (wu_candidate s) \<and> \<not> latestTerminalEvidenceUnsafe s \<and>
    (\<forall>l. latestResult results = Some l \<longrightarrow> re_effective l \<and> \<not> re_stale l)"
proof (cases "latestResult results")
  case None
  with assms show ?thesis by (simp add: deriveRoute_def split: if_splits)
next
  case (Some l)
  with assms latestRoute_dispatch [of p m s l] show ?thesis by (simp add: deriveRoute_def split: if_splits)
qed

text \<open>With a pending blocker a worker other than Lead is dispatched in one case only: the
  latest result is a Dashboard-bound inconclusive QA result that waits for CI, which the code
  looks at before the blocker.\<close>

lemma inconclusiveRoute_dispatch:
  "rt_action (inconclusiveRoute p s l) = ''dispatch'' \<Longrightarrow>
     rt_target_role (inconclusiveRoute p s l) = ''lead'' \<or> ciSucceeded (wu_ci s)"
  by (auto simp: inconclusiveRoute_def split: if_splits)

lemma latestRoute_blocked_dispatch:
  assumes "rt_action (latestRoute p m s l) = ''dispatch''" "wu_blocker s = Some b" "re_status b = ''blocked''"
    and "re_comment l = re_comment b \<Longrightarrow> l = b"
  shows "rt_target_role (latestRoute p m s l) = ''lead'' \<or>
    (dashboardBound l \<and> re_role l = ''qa'' \<and> re_status l = ''inconclusive'' \<and> ciSucceeded (wu_ci s))"
proof (cases "dashboardBound l \<and> re_role l = ''qa'' \<and> re_status l = ''inconclusive''")
  case True
  then have nl: "\<not> leadOwnerEscalation l" by (simp add: leadOwnerEscalation_def)
  from assms(1) latestRoute_dispatch [of p m s l] have "re_effective l" "\<not> re_stale l" by auto
  with True nl have "latestRoute p m s l = inconclusiveRoute p s l" by (simp add: latestRoute_def)
  with True assms(1) inconclusiveRoute_dispatch [of p s l] show ?thesis by simp
next
  case False
  from latestRoute_dispatch [OF assms(1)] have live: "re_effective l" "\<not> re_stale l" by auto
  have esc: "\<not> leadOwnerEscalation l"
  proof
    assume "leadOwnerEscalation l"
    with live have "latestRoute p m s l = escalationRoute p s l" by (simp add: latestRoute_def)
    with assms(1) escalationRoute_action [of p s l] show False by simp
  qed
  have same: "re_comment l = re_comment b"
  proof (rule ccontr)
    assume "re_comment l \<noteq> re_comment b"
    with live esc False assms(2) have "rt_action (latestRoute p m s l) = ''manual_attention''"
      by (simp add: latestRoute_def) blast
    with assms(1) show False by simp
  qed
  with live esc False assms(2-4) have "latestRoute p m s l = blockedRoute p s l"
    by (simp add: latestRoute_def)
  with assms(1) show ?thesis by (simp add: blockedRoute_def split: if_splits)
qed

end
