(* ===== verification/Workspace.thy ===== *)
theory Workspace
  imports Routing
begin

text \<open>
  \<open>workflow/derive_workspace.go\<close>: one work unit, one project, the workspace, and the
  binary search for a unit. The loop over the parsed comments of a unit is \<open>unitStep\<close>,
  folded; its locals are the record \<open>UnitAcc\<close>. The process-local cache of
  \<open>workflow/external.go\<close> is an argument of \<open>DeriveProject\<close>.
\<close>

subsection \<open>External state\<close>

definition applyExternalResult :: "ParsedComment \<Rightarrow> ExternalResult \<Rightarrow> ParsedComment" where
  "applyExternalResult parsed external =
     parsed\<lparr>pc_level := ParseLevelEnvelope, pc_meaningful := True, pc_safe := xr_safe external,
       pc_event := xr_event external, pc_hard_error := xr_hard_error external,
       pc_warnings := xr_warnings external @
         (case xr_hard_error external of None \<Rightarrow> []
          | Some e \<Rightarrow> [mkWarning (pc_comment parsed) (pe_code e) (pe_message e)])\<rparr>"

definition pendingRoute :: "WorkUnitState \<Rightarrow> ExternalCommand \<Rightarrow> string \<Rightarrow> string \<Rightarrow> string list \<Rightarrow> Route" where
  "pendingRoute state command code reason guards =
     \<lparr>rt_action = ''none'', rt_target_role = [], rt_lane = [], rt_reason_code = code, rt_reason = reason,
      rt_expected_head = xc_expected_head command,
      rt_guards = guardsForHead (xc_expected_head command) @ guards, rt_warnings = wu_warnings state\<rparr>"

definition routeWithExternalCommand ::
  "ProjectIdentity \<Rightarrow> WorkUnitState \<Rightarrow> Route \<Rightarrow> ExternalCommand option \<Rightarrow> Route" where
  "routeWithExternalCommand project state route external =
     (case external of None \<Rightarrow> route
      | Some command \<Rightarrow>
          if oneOf (xc_status command) [''created'', ''delivery_pending'']
          then pendingRoute state command ''workflow_delivery_pending''
                 ''a Dashboard workflow command already exists and is awaiting confirmed browser delivery''
                 [''active_workflow_command'', ''no_duplicate_dispatch'']
          else if xc_status command = ''awaiting_result''
          then pendingRoute state command ''awaiting_worker_result''
                 ''the prompt was delivered; execution remains open until a correlated GitHub worker-result marker is accepted''
                 [''active_workflow_command'', ''github_result_required'', ''no_duplicate_dispatch'']
          else if xc_status command = ''ambiguous''
          then manualLeadRoute project state ''workflow_command_ambiguous''
                 ''workflow execution has conflicting or uncertain terminal evidence''
          else if xc_status command = ''failed''
          then manualLeadRoute project state ''workflow_command_failed''
                 ''workflow command delivery or execution failed and requires explicit Lead review''
          else route)"

subsection \<open>A work unit\<close>

definition overlayComment :: "int \<Rightarrow> int \<Rightarrow> externalResults \<Rightarrow> Comment \<Rightarrow> ParsedComment" where
  "overlayComment projectID issueNumber external comment =
     (let parsed = ParseComment projectID issueNumber comment
      in case external (cm_id comment) of
           Some overlay \<Rightarrow> applyExternalResult parsed overlay | None \<Rightarrow> parsed)"

definition parsedComments :: "int \<Rightarrow> int \<Rightarrow> externalResults \<Rightarrow> Comment list \<Rightarrow> ParsedComment list" where
  "parsedComments projectID issueNumber external comments =
     map (overlayComment projectID issueNumber external) comments"

record UnitAcc =
  ua_dispatch_seen :: bool
  ua_comments :: "ParsedComment list"
  ua_results :: "ResultEvidence list"
  ua_latest :: LatestResults
  ua_warnings :: "Warning list"

definition commandBound :: "WorkerEvent \<Rightarrow> bool" where
  "commandBound event = (objLookup (we_extensions event) ''command_id'' \<noteq> None)"

definition correlationRequired :: "WorkerEvent \<Rightarrow> bool" where
  "correlationRequired event =
     (\<not> commandBound event \<or> we_role event \<noteq> ''implementor'' \<or>
      (we_status event \<noteq> ''continue'' \<and> we_status event \<noteq> ''no_op''))"

definition unitEvidence ::
  "CandidateState \<Rightarrow> string \<Rightarrow> bool \<Rightarrow> ParsedComment \<Rightarrow> WorkerEvent \<Rightarrow> ResultEvidence" where
  "unitEvidence candidate head dispatchSeen parsed event =
     (let evidence = evidenceFromEvent parsed event;
          evidence = (if \<not> dispatchSeen \<and> \<not> commandBound event
                      then evidenceWarning ''missing_dispatch_correlation''
                             ''no earlier Lead Dispatch comment or Dashboard command can be correlated with this terminal result''
                             evidence
                      else evidence)
      in if correlationRequired event then correlateEvidence candidate head evidence else evidence)"

definition unitStep :: "CandidateState \<Rightarrow> string \<Rightarrow> UnitAcc \<Rightarrow> ParsedComment \<Rightarrow> UnitAcc" where
  "unitStep candidate head acc parsed =
     (let seen = ua_dispatch_seen acc \<or> hasMarkdownHeading (pc_markdown parsed) ''Lead Dispatch''
      in case pc_event parsed of
           None \<Rightarrow> acc\<lparr>ua_dispatch_seen := seen, ua_comments := ua_comments acc @ [parsed]\<rparr>
         | Some event \<Rightarrow>
             (let evidence = unitEvidence candidate head seen parsed event
              in \<lparr>ua_dispatch_seen = seen,
                  ua_comments = ua_comments acc @
                    [parsed\<lparr>pc_warnings := pc_warnings parsed @ re_warnings evidence\<rparr>],
                  ua_results = ua_results acc @ [evidence],
                  ua_latest = assignLatest (ua_latest acc) evidence,
                  ua_warnings = ua_warnings acc @ re_warnings evidence\<rparr>))"

definition unitInit :: "Warning list \<Rightarrow> UnitAcc" where
  "unitInit warnings =
     \<lparr>ua_dispatch_seen = False, ua_comments = [], ua_results = [],
      ua_latest = \<lparr>lr_lead = None, lr_implementor = None, lr_qa = None\<rparr>, ua_warnings = warnings\<rparr>"

definition unitLoop :: "CandidateState \<Rightarrow> string \<Rightarrow> ParsedComment list \<Rightarrow> Warning list \<Rightarrow> UnitAcc" where
  "unitLoop candidate head parsed warnings = foldl (unitStep candidate head) (unitInit warnings) parsed"

definition currentHeadOf :: "CandidateState \<Rightarrow> string" where
  "currentHeadOf candidate = (case cs_current candidate of Some c \<Rightarrow> cd_head_sha c | None \<Rightarrow> [])"

definition candidateCI :: "CandidateState \<Rightarrow> Warning list \<Rightarrow> CISummary \<times> Warning list" where
  "candidateCI candidate warnings =
     (case cs_current candidate of
        Some c \<Rightarrow> effectiveCI (cd_ci c) (cd_head_sha c) warnings | None \<Rightarrow> (noCI, warnings))"

definition lastActivity :: "Issue \<Rightarrow> ParsedComment list \<Rightarrow> gotime" where
  "lastActivity issue parsed =
     foldl (\<lambda>t p. if pc_meaningful p then latestTime t (latestTime (pc_created p) (pc_updated p)) else t)
       (foldl (\<lambda>t pr. latestTime t (pr_updated pr)) (is_updated issue) (is_pulls issue)) parsed"

definition qaReviewedHead :: "LatestResults \<Rightarrow> string" where
  "qaReviewedHead latest = (case lr_qa latest of Some qa \<Rightarrow> re_head qa | None \<Rightarrow> [])"

definition qaApprovedHead :: "LatestResults \<Rightarrow> string" where
  "qaApprovedHead latest =
     (case lr_qa latest of
        Some qa \<Rightarrow> if re_verdict qa = ''approved'' \<and> re_effective qa then re_head qa else []
      | None \<Rightarrow> [])"

definition emptyRoute :: Route where
  "emptyRoute = \<lparr>rt_action = [], rt_target_role = [], rt_lane = [], rt_reason_code = [], rt_reason = [],
     rt_expected_head = [], rt_guards = [], rt_warnings = []\<rparr>"

definition emptyAttention :: Attention where
  "emptyAttention = mkAttention AttentionNormal [] []"

definition unitIdentity :: "ProjectIdentity \<Rightarrow> Issue \<Rightarrow> WorkUnitIdentity" where
  "unitIdentity project issue =
     \<lparr>wi_project = pi_id project, wi_owner = pi_owner project, wi_repository = pi_repository project,
      wi_issue_github_id = is_github_id issue, wi_issue_number = is_number issue,
      wi_title = is_title issue, wi_url = is_url issue\<rparr>"

text \<open>The state \<open>deriveWorkUnit\<close> has built when it calls the router, with the results.\<close>

definition unitState :: "ProjectIdentity \<Rightarrow> Issue \<Rightarrow> externalResults \<Rightarrow> WorkUnitState \<times> ResultEvidence list" where
  "unitState project issue external =
     (let (lifecycle, w1) = deriveLifecycle (is_labels issue) [];
          (candidate, w2) = deriveCandidate (is_pulls issue) w1;
          head = currentHeadOf candidate;
          (ci, w3) = candidateCI candidate w2;
          (comments, duplicateWarnings) = canonicalComments (is_comments issue);
          parsed = parsedComments (pi_id project) (is_number issue) external comments;
          acc = unitLoop candidate head parsed (w3 @ duplicateWarnings @ concat (map pc_warnings parsed));
          (blocker, blockerWarnings) = activeBlocker (ua_results acc)
      in (\<lparr>wu_identity = unitIdentity project issue, wu_lifecycle = lifecycle, wu_candidate = candidate,
           wu_head = head, wu_ci = ci, wu_comments = ua_comments acc, wu_latest = ua_latest acc,
           wu_blocker = blocker, wu_qa_reviewed = qaReviewedHead (ua_latest acc),
           wu_qa_approved = qaApprovedHead (ua_latest acc),
           wu_warnings = stableWarnings (ua_warnings acc @ blockerWarnings),
           wu_last_activity = lastActivity issue parsed,
           wu_attention = emptyAttention, wu_route = emptyRoute\<rparr>, ua_results acc))"

definition deriveWorkUnit ::
  "ProjectIdentity \<Rightarrow> string \<Rightarrow> Issue \<Rightarrow> externalResults \<Rightarrow> ExternalCommand option \<Rightarrow> WorkUnitState" where
  "deriveWorkUnit project workflowMode issue external command =
     (let (state, results) = unitState project issue external;
          route = deriveRoute project workflowMode (is_state issue) state results;
          routed = state\<lparr>wu_route := routeWithExternalCommand project state route command\<rparr>
      in routed\<lparr>wu_attention := deriveAttention (is_state issue) routed\<rparr>)"

subsection \<open>Projects and the workspace\<close>

definition projectIdentity :: "Project \<Rightarrow> ProjectIdentity" where
  "projectIdentity p = \<lparr>pi_id = pj_id p, pi_owner = pj_owner p, pi_repository = pj_repository p,
     pi_workflow_mode = pj_workflow_mode p\<rparr>"

definition needsAttention :: "WorkUnitState \<Rightarrow> bool" where
  "needsAttention unit = (at_kind (wu_attention unit) \<noteq> AttentionNormal \<and> at_kind (wu_attention unit) \<noteq> AttentionTerminal)"

definition attentionItem :: "ProjectIdentity \<Rightarrow> WorkUnitState \<Rightarrow> AttentionItem" where
  "attentionItem identity unit =
     \<lparr>ai_project = identity, ai_unit = wu_identity unit, ai_attention = wu_attention unit, ai_route = wu_route unit\<rparr>"

definition deriveProjectWithExternalState ::
  "ProjectSnapshot \<Rightarrow> externalResults \<Rightarrow> externalCommands \<Rightarrow> ProjectState" where
  "deriveProjectWithExternalState snapshot external commands =
     (let identity = projectIdentity (ps_project snapshot);
          issues = sort_key (\<lambda>i. (is_number i, is_github_id i)) (ps_issues snapshot);
          units = map (\<lambda>issue. deriveWorkUnit identity (pj_workflow_mode (ps_project snapshot)) issue external
                                 (commands (is_number issue))) issues
      in \<lparr>st_project = identity, st_units = units,
          st_attention = sortAttention (map (attentionItem identity) (filter needsAttention units))\<rparr>)"

definition DeriveProject :: "externalCache \<Rightarrow> ProjectSnapshot \<Rightarrow> ProjectState" where
  "DeriveProject cache snapshot =
     (let (results, commands) = projectExternal cache (pj_id (ps_project snapshot))
      in deriveProjectWithExternalState snapshot results commands)"

definition DeriveProjectWithExternal :: "ProjectSnapshot \<Rightarrow> externalResults \<Rightarrow> ProjectState" where
  "DeriveProjectWithExternal snapshot external = deriveProjectWithExternalState snapshot external Map.empty"

definition DeriveWorkspace :: "externalCache \<Rightarrow> WorkspaceSnapshot \<Rightarrow> WorkspaceState" where
  "DeriveWorkspace cache snapshot =
     (let projects = map (DeriveProject cache)
            (sort_key (\<lambda>p. (toLower (pj_owner (ps_project p)), toLower (pj_repository (ps_project p)),
                            pj_id (ps_project p))) (ws_projects snapshot))
      in \<lparr>wk_generated = ws_generated snapshot, wk_projects = projects,
          wk_attention = sortAttention (concat (map st_attention projects))\<rparr>)"

text \<open>\<open>sort.Search\<close>: the bisection of the Go standard library.\<close>

function goSearch :: "(nat \<Rightarrow> bool) \<Rightarrow> nat \<Rightarrow> nat \<Rightarrow> nat" where
  "goSearch P i j =
     (if i < j
      then (let h = (i + j) div 2 in if P h then goSearch P i h else goSearch P (h + 1) j)
      else i)"
  by pat_completeness auto
termination by (relation "measure (\<lambda>(P, i, j). j - i)") auto

declare goSearch.simps [simp del]

definition FindWorkUnit :: "ProjectState \<Rightarrow> int \<Rightarrow> WorkUnitState option" where
  "FindWorkUnit project issueNumber =
     (let units = st_units project;
          index = goSearch (\<lambda>index. wi_issue_number (wu_identity (units ! index)) \<ge> issueNumber) 0 (length units)
      in if index < length units \<and> wi_issue_number (wu_identity (units ! index)) = issueNumber
         then Some (units ! index) else None)"

subsection \<open>Facts: the binary search\<close>

lemma goSearch_bounds: "i \<le> j \<Longrightarrow> i \<le> goSearch P i j \<and> goSearch P i j \<le> j"
proof (induction P i j rule: goSearch.induct)
  case (1 P i j)
  show ?case
  proof (cases "i < j")
    case True
    define h where "h = (i + j) div 2"
    have h: "i \<le> h" "h < j" using True by (auto simp: h_def)
    show ?thesis
    proof (cases "P h")
      case P: True
      with 1(1) [OF True h_def] h True show ?thesis
        by (simp add: goSearch.simps [of P i j] h_def [symmetric])
    next
      case P: False
      with 1(2) [OF True h_def] h True show ?thesis
        by (simp add: goSearch.simps [of P i j] h_def [symmetric])
    qed
  next
    case False
    then have "goSearch P i j = i" by (simp add: goSearch.simps [of P i j])
    with 1 False show ?thesis by simp
  qed
qed

lemma goSearch_least:
  assumes "\<And>k l. k \<le> l \<Longrightarrow> l < n \<Longrightarrow> P k \<Longrightarrow> P l" "i \<le> j" "j \<le> n"
    and "\<forall>k < i. \<not> P k" "\<forall>k. j \<le> k \<and> k < n \<longrightarrow> P k"
  shows "(\<forall>k < goSearch P i j. \<not> P k) \<and> (goSearch P i j < n \<longrightarrow> P (goSearch P i j))"
  using assms
proof (induction P i j rule: goSearch.induct)
  case (1 P i j)
  note mono = 1(3)
  show ?case
  proof (cases "i < j")
    case True
    define h where "h = (i + j) div 2"
    have h: "i \<le> h" "h < j" using True by (auto simp: h_def)
    show ?thesis
    proof (cases "P h")
      case P: True
      have up: "\<forall>k. h \<le> k \<and> k < n \<longrightarrow> P k" using mono P by blast
      have "(\<forall>k < goSearch P i h. \<not> P k) \<and> (goSearch P i h < n \<longrightarrow> P (goSearch P i h))"
        by (rule 1(1) [OF True h_def P]) (use mono up h 1(5,6) in auto)
      with True P show ?thesis by (simp add: goSearch.simps [of P i j] h_def [symmetric])
    next
      case nP: False
      have low: "\<forall>k < h + 1. \<not> P k"
      proof (intro allI impI notI)
        fix k assume "k < h + 1" "P k"
        with mono [of k h] h 1(5) nP show False by simp
      qed
      have "(\<forall>k < goSearch P (h + 1) j. \<not> P k) \<and> (goSearch P (h + 1) j < n \<longrightarrow> P (goSearch P (h + 1) j))"
        by (rule 1(2) [OF True h_def nP]) (use mono low h 1(5,7) in auto)
      with True nP show ?thesis by (simp add: goSearch.simps [of P i j] h_def [symmetric])
    qed
  next
    case False
    then have r: "goSearch P i j = i" by (simp add: goSearch.simps [of P i j])
    from False 1(4) have "i = j" by simp
    with 1(6,7) show ?thesis unfolding r by simp
  qed
qed

lemma find_least:
  assumes "r \<le> length xs" "\<forall>k < r. f (xs ! k) < n" "r < length xs \<longrightarrow> n \<le> f (xs ! r)"
    and "sorted (map f xs)"
  shows "find (\<lambda>x. f x = (n::int)) xs = (if r < length xs \<and> f (xs ! r) = n then Some (xs ! r) else None)"
proof (cases "r < length xs \<and> f (xs ! r) = n")
  case True
  then show ?thesis using assms(2) by (auto simp: find_Some_iff intro!: exI [of _ r])
next
  case False
  have "f (xs ! k) \<noteq> n" if "k < length xs" for k
  proof (cases "k < r")
    case True
    with assms(2) show ?thesis by force
  next
    case ge: False
    with that have "f (xs ! r) \<le> f (xs ! k)"
      using assms(4) sorted_nth_mono [of "map f xs" r k] by simp
    with ge that False assms(3) show ?thesis by force
  qed
  with False show ?thesis by (auto simp: find_None_iff in_set_conv_nth)
qed

lemma FindWorkUnit_find:
  assumes "sorted (map (\<lambda>u. wi_issue_number (wu_identity u)) (st_units project))"
  shows "FindWorkUnit project n = find (\<lambda>u. wi_issue_number (wu_identity u) = n) (st_units project)"
proof -
  let ?f = "\<lambda>u. wi_issue_number (wu_identity u)"
  let ?us = "st_units project"
  let ?P = "\<lambda>k. ?f (?us ! k) \<ge> n"
  let ?r = "goSearch ?P 0 (length ?us)"
  have "?r \<le> length ?us" using goSearch_bounds [of 0 "length ?us" ?P] by simp
  moreover have "(\<forall>k < ?r. \<not> ?P k) \<and> (?r < length ?us \<longrightarrow> ?P ?r)"
  proof (rule goSearch_least [where n = "length ?us"])
    fix k l assume "k \<le> l" "l < length ?us" "?P k"
    with assms sorted_nth_mono [of "map ?f ?us" k l] show "?P l" by simp
  qed auto
  ultimately show ?thesis
    using find_least [of ?r ?us ?f n] assms by (simp add: FindWorkUnit_def Let_def not_le)
qed

lemma deriveWorkUnit_identity [simp]: "wu_identity (deriveWorkUnit p m issue ext cmd) = unitIdentity p issue"
  by (simp add: deriveWorkUnit_def unitState_def Let_def split: prod.splits)

lemma st_units_numbers:
  "map (\<lambda>u. wi_issue_number (wu_identity u)) (st_units (deriveProjectWithExternalState snap ext cmds)) =
   map is_number (sort_key (\<lambda>i. (is_number i, is_github_id i)) (ps_issues snap))"
  by (simp add: deriveProjectWithExternalState_def Let_def unitIdentity_def comp_def)

lemma sorted_pair_fst: "sorted (map (\<lambda>x. (f x :: int, g x :: int)) xs) \<Longrightarrow> sorted (map f xs)"
  by (induction xs) (auto simp: less_eq_prod_def)

lemma st_units_sorted:
  "sorted (map (\<lambda>u. wi_issue_number (wu_identity u)) (st_units (deriveProjectWithExternalState snap ext cmds)))"
  unfolding st_units_numbers by (rule sorted_pair_fst [where g = is_github_id]) simp

subsection \<open>Facts: the loop over the comments of a unit\<close>

lemma unitEvidence_frame [simp]:
  "re_role (unitEvidence cs h seen p ev) = we_role ev" "re_status (unitEvidence cs h seen p ev) = we_status ev"
  "re_head (unitEvidence cs h seen p ev) = we_head ev" "re_comment (unitEvidence cs h seen p ev) = pc_comment p"
  "re_verdict (unitEvidence cs h seen p ev) = we_verdict ev"
  "re_extensions (unitEvidence cs h seen p ev) = we_extensions ev"
  by (simp_all add: unitEvidence_def evidenceFromEvent_def evidenceWarning_def Let_def)

lemma unitEvidence_effective:
  assumes "re_effective (unitEvidence cs h seen p ev)"
  shows "pc_safe p \<and> pc_hard_error p = None"
    and "we_role ev = ''qa'' \<Longrightarrow> we_head ev = h \<and> h \<noteq> []"
    and "correlationRequired ev \<Longrightarrow> we_role ev = ''implementor'' \<Longrightarrow> we_status ev \<noteq> ''blocked'' \<Longrightarrow>
      we_head ev = h \<and> h \<noteq> []"
proof -
  define e where "e = (if \<not> seen \<and> \<not> commandBound ev
    then evidenceWarning ''missing_dispatch_correlation''
           ''no earlier Lead Dispatch comment or Dashboard command can be correlated with this terminal result''
           (evidenceFromEvent p ev)
    else evidenceFromEvent p ev)"
  have e: "re_effective e \<longleftrightarrow> pc_safe p \<and> pc_hard_error p = None" "candidateBound e \<longleftrightarrow> we_role ev = ''qa'' \<or>
      (we_role ev = ''implementor'' \<and> we_status ev \<noteq> ''blocked'')" "re_head e = we_head ev"
    by (simp_all add: e_def evidenceWarning_def evidenceFromEvent_def candidateBound_def)
  have u: "unitEvidence cs h seen p ev = (if correlationRequired ev then correlateEvidence cs h e else e)"
    by (simp add: e_def unitEvidence_def Let_def)
  show "pc_safe p \<and> pc_hard_error p = None"
    using assms correlateEvidence_effective [of cs h e] unfolding u by (simp add: e split: if_splits)
  have bound: "we_head ev = h \<and> h \<noteq> []"
    if "correlationRequired ev" "we_role ev = ''qa'' \<or> (we_role ev = ''implementor'' \<and> we_status ev \<noteq> ''blocked'')"
    using assms correlateEvidence_effective [of cs h e] that unfolding u by (simp add: e)
  then show "we_role ev = ''qa'' \<Longrightarrow> we_head ev = h \<and> h \<noteq> []"
    by (simp add: correlationRequired_def)
  from bound show "correlationRequired ev \<Longrightarrow> we_role ev = ''implementor'' \<Longrightarrow> we_status ev \<noteq> ''blocked'' \<Longrightarrow>
      we_head ev = h \<and> h \<noteq> []"
    by blast
qed

text \<open>The results come from events of the comments, in their order, and the latest QA result
  is the last one of that role.\<close>

definition bareComment :: "ParsedComment \<Rightarrow> ParsedComment" where
  "bareComment p = p\<lparr>pc_warnings := []\<rparr>"

definition unitInv :: "CandidateState \<Rightarrow> string \<Rightarrow> ParsedComment list \<Rightarrow> UnitAcc \<Rightarrow> bool" where
  "unitInv cs h parsed acc =
     (map bareComment (ua_comments acc) = map bareComment parsed \<and>
      (\<forall>e \<in> set (ua_results acc). \<exists>p \<in> set parsed. \<exists>ev seen.
         pc_event p = Some ev \<and> e = unitEvidence cs h seen p ev) \<and>
      map re_comment (ua_results acc) = map pc_comment (filter (\<lambda>p. pc_event p \<noteq> None) parsed) \<and>
      lr_qa (ua_latest acc) = find_last (\<lambda>e. re_role e = ''qa'') (ua_results acc))"

lemma assignLatest_qa:
  "lr_qa (assignLatest r e) = (if re_role e = ''qa'' then Some e else lr_qa r)"
  by (simp add: assignLatest_def)

lemma unitStep_inv:
  assumes "unitInv cs h parsed acc"
  shows "unitInv cs h (parsed @ [p]) (unitStep cs h acc p)"
proof (cases "pc_event p")
  case None
  with assms show ?thesis by (auto simp: unitInv_def unitStep_def Let_def)
next
  case (Some ev)
  define seen where "seen = (ua_dispatch_seen acc \<or> hasMarkdownHeading (pc_markdown p) ''Lead Dispatch'')"
  define e where "e = unitEvidence cs h seen p ev"
  have step: "ua_results (unitStep cs h acc p) = ua_results acc @ [e]"
    "ua_comments (unitStep cs h acc p) = ua_comments acc @ [p\<lparr>pc_warnings := pc_warnings p @ re_warnings e\<rparr>]"
    "ua_latest (unitStep cs h acc p) = assignLatest (ua_latest acc) e"
    by (simp_all add: unitStep_def Some e_def seen_def Let_def)
  have "re_comment e = pc_comment p" by (simp add: e_def)
  moreover have "\<exists>q \<in> set (parsed @ [p]). \<exists>ev s. pc_event q = Some ev \<and> e = unitEvidence cs h s q ev"
    using Some e_def by auto
  moreover have "\<forall>x \<in> set (ua_results acc). \<exists>q \<in> set (parsed @ [p]). \<exists>ev s.
      pc_event q = Some ev \<and> x = unitEvidence cs h s q ev"
    using assms by (fastforce simp: unitInv_def)
  ultimately show ?thesis
    using assms Some unfolding unitInv_def step
    by (simp add: bareComment_def assignLatest_qa find_last_append)
qed

lemma unitLoop_inv: "unitInv cs h parsed (unitLoop cs h parsed ws)"
proof (induction parsed rule: rev_induct)
  case Nil
  then show ?case by (simp add: unitLoop_def unitInit_def unitInv_def)
next
  case (snoc p parsed)
  then show ?case by (simp add: unitLoop_def unitStep_inv)
qed

subsection \<open>Facts: what the router sees of a unit\<close>

definition unitCandidate :: "Issue \<Rightarrow> CandidateState" where
  "unitCandidate issue = fst (deriveCandidate (is_pulls issue) [])"

lemma deriveCandidate_fst: "fst (deriveCandidate prs ws) = fst (deriveCandidate prs [])"
  by (simp add: deriveCandidate_def Let_def split: list.split)

lemma effectiveCI_fst: "fst (effectiveCI ci h ws) = fst (effectiveCI ci h [])"
  by (simp add: effectiveCI_def)

lemma candidateCI_fst: "fst (candidateCI cs ws) = fst (candidateCI cs [])"
  by (simp add: candidateCI_def effectiveCI_fst [of _ _ ws] split: option.split)

definition unitParsed :: "ProjectIdentity \<Rightarrow> Issue \<Rightarrow> externalResults \<Rightarrow> ParsedComment list" where
  "unitParsed project issue external =
     parsedComments (pi_id project) (is_number issue) external (fst (canonicalComments (is_comments issue)))"

lemma unitState_facts:
  assumes "unitState project issue external = (st, results)"
  shows "wu_candidate st = unitCandidate issue"
    and "wu_head st = currentHeadOf (unitCandidate issue)"
    and "wu_ci st = fst (candidateCI (unitCandidate issue) [])"
    and "wu_lifecycle st = fst (deriveLifecycle (is_labels issue) [])"
    and "wu_blocker st = fst (activeBlocker results)"
    and "wu_qa_approved st = qaApprovedHead (wu_latest st)"
    and "\<exists>acc. unitInv (wu_candidate st) (wu_head st) (unitParsed project issue external) acc \<and>
           results = ua_results acc \<and> wu_comments st = ua_comments acc \<and> wu_latest st = ua_latest acc"
proof -
  obtain lifecycle w1 where 1: "deriveLifecycle (is_labels issue) [] = (lifecycle, w1)" by fastforce
  obtain cand w2 where 2: "deriveCandidate (is_pulls issue) w1 = (cand, w2)" by fastforce
  obtain ci w3 where 3: "candidateCI cand w2 = (ci, w3)" by fastforce
  obtain cs dw where 4: "canonicalComments (is_comments issue) = (cs, dw)" by fastforce
  obtain b bw where 5: "activeBlocker results = (b, bw)" by fastforce
  define parsed where "parsed = parsedComments (pi_id project) (is_number issue) external cs"
  define acc where "acc = unitLoop cand (currentHeadOf cand) parsed (w3 @ dw @ concat (map pc_warnings parsed))"
  have cand: "cand = unitCandidate issue"
    using 2 deriveCandidate_fst [of "is_pulls issue" w1] by (simp add: unitCandidate_def)
  have ci: "ci = fst (candidateCI cand [])"
    using 3 candidateCI_fst [of cand w2] by simp
  have res: "ua_results acc = results"
    using assms by (simp add: unitState_def 1 2 3 4 parsed_def [symmetric] acc_def [symmetric] split: prod.splits)
  have st: "wu_candidate st = cand" "wu_head st = currentHeadOf cand" "wu_ci st = ci"
    "wu_lifecycle st = lifecycle" "wu_blocker st = b" "wu_qa_approved st = qaApprovedHead (ua_latest acc)"
    "wu_comments st = ua_comments acc" "wu_latest st = ua_latest acc"
    using assms by (auto simp: unitState_def 1 2 3 4 5 res parsed_def [symmetric] acc_def [symmetric])
  show "wu_candidate st = unitCandidate issue" "wu_head st = currentHeadOf (unitCandidate issue)"
    "wu_ci st = fst (candidateCI (unitCandidate issue) [])"
    "wu_lifecycle st = fst (deriveLifecycle (is_labels issue) [])"
    "wu_blocker st = fst (activeBlocker results)" "wu_qa_approved st = qaApprovedHead (wu_latest st)"
    by (simp_all add: st cand [symmetric] ci 1 5)
  have "unitInv cand (currentHeadOf cand) (unitParsed project issue external) acc"
    unfolding acc_def parsed_def unitParsed_def 4 fst_conv by (rule unitLoop_inv)
  then show "\<exists>acc. unitInv (wu_candidate st) (wu_head st) (unitParsed project issue external) acc \<and>
      results = ua_results acc \<and> wu_comments st = ua_comments acc \<and> wu_latest st = ua_latest acc"
    using res st by auto
qed

text \<open>The results of a unit, and the route before and after the command overlay.\<close>

definition unitResults :: "ProjectIdentity \<Rightarrow> Issue \<Rightarrow> externalResults \<Rightarrow> ResultEvidence list" where
  "unitResults project issue external = snd (unitState project issue external)"

lemma deriveWorkUnit_facts:
  assumes "unitState p issue ext = (st, results)"
  shows "wu_candidate (deriveWorkUnit p m issue ext cmd) = wu_candidate st"
    and "wu_head (deriveWorkUnit p m issue ext cmd) = wu_head st"
    and "wu_ci (deriveWorkUnit p m issue ext cmd) = wu_ci st"
    and "wu_blocker (deriveWorkUnit p m issue ext cmd) = wu_blocker st"
    and "wu_lifecycle (deriveWorkUnit p m issue ext cmd) = wu_lifecycle st"
    and "wu_comments (deriveWorkUnit p m issue ext cmd) = wu_comments st"
    and "wu_latest (deriveWorkUnit p m issue ext cmd) = wu_latest st"
    and "wu_qa_approved (deriveWorkUnit p m issue ext cmd) = wu_qa_approved st"
    and "wu_route (deriveWorkUnit p m issue ext cmd) =
           routeWithExternalCommand p st (deriveRoute p m (is_state issue) st results) cmd"
  using assms by (simp_all add: deriveWorkUnit_def Let_def)

definition holdingStatus :: "string \<Rightarrow> bool" where
  "holdingStatus s = oneOf s [''created'', ''delivery_pending'', ''awaiting_result'', ''ambiguous'', ''failed'']"

lemma routeWithExternalCommand_holding:
  assumes "cmd = Some c" "holdingStatus (xc_status c)"
  shows "rt_action (routeWithExternalCommand p st r cmd) \<in> {''none'', ''manual_attention''}"
  using assms by (auto simp: routeWithExternalCommand_def pendingRoute_def holdingStatus_def)

lemma routeWithExternalCommand_pass:
  assumes "cmd = None \<or> \<not> holdingStatus (xc_status (the cmd))"
  shows "routeWithExternalCommand p st r cmd = r"
  using assms by (auto simp: routeWithExternalCommand_def holdingStatus_def split: option.split)

lemma routeWithExternalCommand_action:
  assumes "rt_action (routeWithExternalCommand p st r cmd) \<notin> {''none'', ''manual_attention''}"
  shows "routeWithExternalCommand p st r cmd = r \<and> (\<forall>c. cmd = Some c \<longrightarrow> \<not> holdingStatus (xc_status c))"
proof (cases "cmd = None \<or> \<not> holdingStatus (xc_status (the cmd))")
  case True
  then show ?thesis by (auto simp: routeWithExternalCommand_pass)
next
  case False
  then obtain c where "cmd = Some c" "holdingStatus (xc_status c)" by auto
  with assms routeWithExternalCommand_holding show ?thesis by blast
qed

lemma qaApprovedHead_evidence:
  assumes "qaApprovedHead (ua_latest acc) \<noteq> []" "unitInv cs h parsed acc"
  obtains p ev where "p \<in> set parsed" "pc_event p = Some ev" "pc_safe p" "pc_hard_error p = None"
    "we_role ev = ''qa''" "we_verdict ev = ''approved''" "we_head ev = h"
    "qaApprovedHead (ua_latest acc) = h"
proof -
  from assms(1) obtain e where e: "lr_qa (ua_latest acc) = Some e" "re_verdict e = ''approved''"
    "re_effective e" "qaApprovedHead (ua_latest acc) = re_head e"
    by (auto simp: qaApprovedHead_def split: option.splits if_splits)
  with assms(2) have "e \<in> set (ua_results acc)" "re_role e = ''qa''"
    by (auto simp: unitInv_def dest!: find_last_Some [OF sym])
  moreover from this assms(2) obtain p ev seen where "p \<in> set parsed" "pc_event p = Some ev"
    "e = unitEvidence cs h seen p ev" by (auto simp: unitInv_def)
  ultimately show thesis
    using that [of p ev] e unitEvidence_effective [of cs h seen p ev] by simp
qed

lemma bareComment_sel:
  "bareComment p = bareComment q \<Longrightarrow> pc_event p = pc_event q \<and> pc_safe p = pc_safe q \<and>
     pc_hard_error p = pc_hard_error q \<and> pc_comment p = pc_comment q \<and> pc_level p = pc_level q"
  by (cases p; cases q) (simp add: bareComment_def)

lemma bareComment_mem:
  assumes "map bareComment ps = map bareComment qs" "q \<in> set qs"
  shows "\<exists>p \<in> set ps. bareComment p = bareComment q"
  using assms by (metis imageE image_eqI list.set_map)

text \<open>An approved Head is backed by a safe QA comment that names it.\<close>

lemma unitState_approval:
  assumes st: "unitState project issue external = (st, results)"
    and "wu_head st \<noteq> []" "wu_qa_approved st = wu_head st"
  shows "\<exists>p \<in> set (wu_comments st). \<exists>ev. pc_event p = Some ev \<and> pc_safe p \<and> pc_hard_error p = None \<and>
    we_role ev = ''qa'' \<and> we_verdict ev = ''approved'' \<and> we_head ev = wu_head st"
proof -
  from unitState_facts(7) [OF st] obtain acc where
    acc: "unitInv (wu_candidate st) (wu_head st) (unitParsed project issue external) acc"
      "wu_comments st = ua_comments acc" "wu_latest st = ua_latest acc" by blast
  from assms(2,3) unitState_facts(6) [OF st] acc(3) have "qaApprovedHead (ua_latest acc) \<noteq> []" by simp
  from qaApprovedHead_evidence [OF this acc(1)] obtain q ev where
    q: "q \<in> set (unitParsed project issue external)" "pc_event q = Some ev" "pc_safe q" "pc_hard_error q = None"
      "we_role ev = ''qa''" "we_verdict ev = ''approved''" "we_head ev = wu_head st" .
  from acc(1,2) have "map bareComment (wu_comments st) = map bareComment (unitParsed project issue external)"
    by (simp add: unitInv_def)
  from bareComment_mem [OF this q(1)] obtain p where "p \<in> set (wu_comments st)" "bareComment p = bareComment q"
    by blast
  with bareComment_sel [of p q] q show ?thesis by auto
qed

subsection \<open>A sample unit for the witnesses\<close>

definition sampleProject :: ProjectIdentity where
  "sampleProject = \<lparr>pi_id = 1, pi_owner = ''Nord'', pi_repository = ''Dash'', pi_workflow_mode = ''standard''\<rparr>"

definition samplePull :: "string \<Rightarrow> PullRequest" where
  "samplePull conclusion =
     \<lparr>pr_github_id = 70, pr_number = 7, pr_title = ''t'', pr_state = ''open'', pr_draft = False,
      pr_mergeable = ''clean'', pr_base_ref = ''main'', pr_head_ref = ''f'', pr_head_sha = ''abc'', pr_url = ''u'',
      pr_updated = 5, pr_ci = noCI\<lparr>ci_head := ''abc'', ci_conclusion := conclusion\<rparr>\<rparr>"

definition sampleIssue :: "PullRequest list \<Rightarrow> int list \<Rightarrow> Issue" where
  "sampleIssue pulls ids =
     \<lparr>is_github_id = 9, is_number = 3, is_title = ''t'', is_body = [], is_state = ''open'', is_url = ''u'',
      is_author = ''a'', is_created = 1, is_updated = 2,
      is_labels = [],
      is_comments = map (\<lambda>i. (sampleComment ''x'')\<lparr>cm_id := i, cm_created := i\<rparr>) ids,
      is_pulls = pulls\<rparr>"

definition sampleEvent :: "string \<Rightarrow> string \<Rightarrow> string \<Rightarrow> string \<Rightarrow> string \<Rightarrow> WorkerEvent" where
  "sampleEvent role status head verdict decision =
     blankEvent\<lparr>we_version := 1, we_event := ''worker_result'', we_role := role, we_status := status,
       we_head := head, we_verdict := verdict, we_decision := decision,
       we_extensions := [(''command_id'', JStr ''cmd'')]\<rparr>"

definition sampleOverlay :: "int \<Rightarrow> WorkerEvent \<Rightarrow> ExternalResult" where
  "sampleOverlay i event =
     \<lparr>xr_comment = i, xr_event = Some event, xr_safe = True, xr_warnings = [], xr_hard_error = None\<rparr>"

definition mergeExternal :: externalResults where
  "mergeExternal = [1 \<mapsto> sampleOverlay 1 (sampleEvent ''qa'' ''completed'' ''abc'' ''approved'' []),
     2 \<mapsto> sampleOverlay 2 (sampleEvent ''lead'' ''completed'' [] [] ''ready_to_merge'')]"

subsection \<open>Properties\<close>

lemma merge_gate_unit:
  assumes "rt_action (wu_route (deriveWorkUnit project mode issue external command)) = ''merge_gate''"
  shows "\<not> equalFold (is_state issue) ''closed'' \<and>
    wu_blocker (deriveWorkUnit project mode issue external command) = None \<and>
    (\<exists>c. openCandidates (is_pulls issue) = [c] \<and> ciSucceeded (cd_ci c) \<and> ci_head (cd_ci c) = cd_head_sha c \<and>
      normalizeToken (cd_mergeable c) \<in> {''clean'', ''mergeable'', ''unstable''} \<and>
      rt_expected_head (wu_route (deriveWorkUnit project mode issue external command)) = cd_head_sha c \<and>
      (\<exists>p \<in> set (wu_comments (deriveWorkUnit project mode issue external command)). \<exists>ev.
         pc_event p = Some ev \<and> pc_safe p \<and> pc_hard_error p = None \<and> we_role ev = ''qa'' \<and>
         we_verdict ev = ''approved'' \<and> we_head ev = cd_head_sha c))"
proof -
  obtain st results where st: "unitState project issue external = (st, results)" by fastforce
  note unit = deriveWorkUnit_facts [OF st, of mode command] and facts = unitState_facts [OF st]
  let ?r = "deriveRoute project mode (is_state issue) st results"
  from assms have "routeWithExternalCommand project st ?r command = ?r" "rt_action ?r = ''merge_gate''"
    using routeWithExternalCommand_action [of project st ?r command] by (simp_all add: unit)
  moreover from this deriveRoute_latest [of project mode "is_state issue" st results] obtain l where
    l: "\<not> terminalUnit (is_state issue) st" "latestRoute project mode st l = ?r" by auto
  moreover from calculation latestRoute_merge [of project mode st l]
    resultRoute_merge [of project mode st l] have "?r = mergeGateRoute st" by simp
  ultimately have route: "wu_route (deriveWorkUnit project mode issue external command) = mergeGateRoute st"
    and gate: "rt_action (mergeGateRoute st) = ''merge_gate''" by (simp_all add: unit)
  from gate obtain c where c: "cs_current (wu_candidate st) = Some c"
    "oneOf (normalizeToken (cd_mergeable c)) [''clean'', ''mergeable'', ''unstable'']"
    "wu_head st \<noteq> []" "ciSucceeded (wu_ci st)" "wu_qa_approved st = wu_head st" "wu_blocker st = None"
    by (auto simp: mergeGateRoute_action split: if_splits)
  have one: "openCandidates (is_pulls issue) = [c]"
    using c(1) facts(1) by (simp add: unitCandidate_def deriveCandidate_current)
  have head: "wu_head st = cd_head_sha c" using c(1) facts(1,2) by (simp add: currentHeadOf_def)
  have "wu_ci st = fst (effectiveCI (cd_ci c) (cd_head_sha c) [])"
    using c(1) facts(1,3) by (simp add: candidateCI_def)
  with c(4) have ci: "ciSucceeded (cd_ci c)" "ci_head (cd_ci c) = cd_head_sha c"
    using effectiveCI_success [of "cd_ci c" "cd_head_sha c" "[]"] by simp_all
  have "\<exists>p \<in> set (wu_comments st). \<exists>ev. pc_event p = Some ev \<and> pc_safe p \<and>
      pc_hard_error p = None \<and> we_role ev = ''qa'' \<and> we_verdict ev = ''approved'' \<and> we_head ev = cd_head_sha c"
    using unitState_approval [OF st c(3,5)] by (simp add: head)
  moreover have "\<not> equalFold (is_state issue) ''closed''" using l(1) by (simp add: terminalUnit_def)
  ultimately show ?thesis
    using c(2,6) one ci head by (simp add: unit(4,6) route)
qed

text \<open>C1. The merge gate opens only on complete exact-Head evidence. A unit whose derived
  route is \<open>merge_gate\<close> belongs to an open issue with exactly one open pull request; the
  CI summary of that pull request is a success recorded for its very Head; its mergeable
  state is one of clean, mergeable, unstable; no blocker is pending; and one of its comments
  is a safe QA approval of that Head. The route expects that Head.\<close>

theorem merge_gate_complete:
  assumes "rt_action (wu_route (deriveWorkUnit project mode issue external command)) = ''merge_gate''"
  shows "\<not> equalFold (is_state issue) ''closed'' \<and>
    wu_blocker (deriveWorkUnit project mode issue external command) = None \<and>
    (\<exists>c. openCandidates (is_pulls issue) = [c] \<and> ciSucceeded (cd_ci c) \<and> ci_head (cd_ci c) = cd_head_sha c \<and>
      normalizeToken (cd_mergeable c) \<in> {''clean'', ''mergeable'', ''unstable''} \<and>
      rt_expected_head (wu_route (deriveWorkUnit project mode issue external command)) = cd_head_sha c \<and>
      (\<exists>p \<in> set (wu_comments (deriveWorkUnit project mode issue external command)). \<exists>ev.
         pc_event p = Some ev \<and> pc_safe p \<and> pc_hard_error p = None \<and> we_role ev = ''qa'' \<and>
         we_verdict ev = ''approved'' \<and> we_head ev = cd_head_sha c))"
  using assms by (rule merge_gate_unit)

lemma mergeSample: "rt_action (wu_route (deriveWorkUnit sampleProject ''standard''
    (sampleIssue [samplePull ''success''] [1, 2]) mergeExternal None)) = ''merge_gate''"
  by code_simp

theorem merge_gate_complete_witness:
  "\<exists>c. openCandidates (is_pulls (sampleIssue [samplePull ''success''] [1, 2])) = [c] \<and> ciSucceeded (cd_ci c)"
  using merge_gate_complete [OF mergeSample] by blast

lemma dispatch_unit:
  assumes "rt_action (wu_route (deriveWorkUnit project mode issue external command)) = ''dispatch''"
  shows "\<not> equalFold (is_state issue) ''closed'' \<and> fst (deriveLifecycle (is_labels issue) []) \<noteq> ''terminal'' \<and>
    length (openCandidates (is_pulls issue)) \<le> 1 \<and>
    (\<forall>c. command = Some c \<longrightarrow> \<not> holdingStatus (xc_status c)) \<and>
    \<not> latestTerminalEvidenceUnsafe (deriveWorkUnit project mode issue external command) \<and>
    (\<forall>l. latestResult (unitResults project issue external) = Some l \<longrightarrow> re_effective l \<and> \<not> re_stale l) \<and>
    rt_expected_head (wu_route (deriveWorkUnit project mode issue external command)) =
      wu_head (deriveWorkUnit project mode issue external command)"
proof -
  obtain st results where st: "unitState project issue external = (st, results)" by fastforce
  note unit = deriveWorkUnit_facts [OF st, of mode command] and facts = unitState_facts [OF st]
  let ?r = "deriveRoute project mode (is_state issue) st results"
  have res: "unitResults project issue external = results" by (simp add: unitResults_def st)
  from assms have r: "routeWithExternalCommand project st ?r command = ?r"
    "\<forall>c. command = Some c \<longrightarrow> \<not> holdingStatus (xc_status c)" "rt_action ?r = ''dispatch''"
    using routeWithExternalCommand_action [of project st ?r command] by (simp_all add: unit)
  from deriveRoute_dispatch [OF r(3)] have d: "\<not> terminalUnit (is_state issue) st"
    "\<not> cs_ambiguous (wu_candidate st)" "\<not> latestTerminalEvidenceUnsafe st"
    "\<forall>l. latestResult results = Some l \<longrightarrow> re_effective l \<and> \<not> re_stale l" by auto
  from d(2) facts(1) have one: "length (openCandidates (is_pulls issue)) \<le> 1"
    by (simp add: unitCandidate_def deriveCandidate_ambiguous)
  have safe: "\<not> latestTerminalEvidenceUnsafe (deriveWorkUnit project mode issue external command)"
    using d(3) by (simp add: latestTerminalEvidenceUnsafe_def unit(6))
  have "rt_expected_head (wu_route (deriveWorkUnit project mode issue external command)) = wu_head st"
    unfolding unit(9) r(1) by simp
  then show ?thesis
    using d(1,4) one r(2) facts(4) safe by (simp add: res terminalUnit_def unit(2))
qed

text \<open>C3. What a dispatch needs. A unit is dispatched only if its issue is open and its
  lifecycle not terminal, its Candidate is not ambiguous, no command of it is created,
  pending, awaiting, ambiguous or failed, its latest report is safe, and its latest result,
  when there is one, is effective and not stale; the route expects the current Head.\<close>

theorem dispatch_safe:
  assumes "rt_action (wu_route (deriveWorkUnit project mode issue external command)) = ''dispatch''"
  shows "\<not> equalFold (is_state issue) ''closed'' \<and> fst (deriveLifecycle (is_labels issue) []) \<noteq> ''terminal'' \<and>
    length (openCandidates (is_pulls issue)) \<le> 1 \<and>
    (\<forall>c. command = Some c \<longrightarrow> \<not> holdingStatus (xc_status c)) \<and>
    \<not> latestTerminalEvidenceUnsafe (deriveWorkUnit project mode issue external command) \<and>
    (\<forall>l. latestResult (unitResults project issue external) = Some l \<longrightarrow> re_effective l \<and> \<not> re_stale l) \<and>
    rt_expected_head (wu_route (deriveWorkUnit project mode issue external command)) =
      wu_head (deriveWorkUnit project mode issue external command)"
  using assms by (rule dispatch_unit)

lemma dispatchSample: "rt_action (wu_route (deriveWorkUnit sampleProject ''standard''
    (sampleIssue [samplePull ''success''] [1]) mergeExternal None)) = ''dispatch''"
  by code_simp

theorem dispatch_safe_witness:
  "rt_expected_head (wu_route (deriveWorkUnit sampleProject ''standard''
     (sampleIssue [samplePull ''success''] [1]) mergeExternal None)) =
   wu_head (deriveWorkUnit sampleProject ''standard''
     (sampleIssue [samplePull ''success''] [1]) mergeExternal None)"
  using dispatch_safe [OF dispatchSample] by blast

text \<open>C4. Candidate-bound evidence is exact: an effective QA result of a unit, or an effective
  Implementor result other than a blocked one and a command's continue and no-op, names
  exactly the unit's current Head, which exists.\<close>

theorem effective_results_exact_head:
  assumes "e \<in> set (unitResults project issue external)" "re_effective e"
    and "re_role e = ''qa'' \<or> re_role e = ''implementor'' \<and> re_status e \<noteq> ''blocked'' \<and>
      (re_status e \<in> {''continue'', ''no_op''} \<longrightarrow> objLookup (re_extensions e) ''command_id'' = None)"
  shows "re_head e = wu_head (deriveWorkUnit project mode issue external command) \<and> re_head e \<noteq> []"
proof -
  obtain st results where st: "unitState project issue external = (st, results)" by fastforce
  with unitState_facts(7) [OF st] assms(1) obtain p ev seen where
    e: "e = unitEvidence (wu_candidate st) (wu_head st) seen p ev"
    by (auto simp: unitInv_def unitResults_def)
  have "we_role ev = ''implementor'' \<Longrightarrow> correlationRequired ev"
    using assms(3) by (auto simp: e correlationRequired_def commandBound_def)
  with assms(2,3) unitEvidence_effective [of "wu_candidate st" "wu_head st" seen p ev] show ?thesis
    by (auto simp: e deriveWorkUnit_facts(2) [OF st])
qed

lemma sampleResults:
  "list_ex (\<lambda>e. re_effective e \<and> re_role e = ''qa'')
     (unitResults sampleProject (sampleIssue [samplePull ''success''] [1]) mergeExternal)"
  by code_simp

theorem effective_results_exact_head_witness:
  "\<exists>e \<in> set (unitResults sampleProject (sampleIssue [samplePull ''success''] [1]) mergeExternal).
     re_head e = wu_head (deriveWorkUnit sampleProject ''standard''
       (sampleIssue [samplePull ''success''] [1]) mergeExternal None)"
  using sampleResults effective_results_exact_head [of _ sampleProject
      "sampleIssue [samplePull ''success''] [1]" mergeExternal "''standard''" None]
  unfolding list_ex_iff by blast

text \<open>C21. While a blocker is pending a worker other than Lead is dispatched in one case
  only: the latest result is a Dashboard-bound inconclusive QA result and CI of the exact
  Head has since succeeded. In every other case a dispatch goes to Lead.\<close>

lemma unitResults_comments:
  assumes "unitState project issue external = (st, results)"
  shows "distinct (map re_comment results)"
proof -
  from unitState_facts(7) [OF assms] have
    "map re_comment results = map pc_comment (filter (\<lambda>p. pc_event p \<noteq> None) (unitParsed project issue external))"
    by (auto simp: unitInv_def)
  moreover have "map pc_comment (unitParsed project issue external) =
      map cm_id (fst (canonicalComments (is_comments issue)))"
    by (simp add: unitParsed_def parsedComments_def overlayComment_def applyExternalResult_def Let_def comp_def
        split: option.split)
  ultimately show ?thesis using canonicalComments_facts(1) by (metis distinct_map_filter)
qed

theorem blocked_dispatch:
  assumes "wu_blocker (deriveWorkUnit project mode issue external command) \<noteq> None"
    and "rt_action (wu_route (deriveWorkUnit project mode issue external command)) = ''dispatch''"
  shows "rt_target_role (wu_route (deriveWorkUnit project mode issue external command)) = ''lead'' \<or>
    (\<exists>l. latestResult (unitResults project issue external) = Some l \<and> dashboardBound l \<and>
       re_role l = ''qa'' \<and> re_status l = ''inconclusive'' \<and>
       ciSucceeded (wu_ci (deriveWorkUnit project mode issue external command)))"
proof -
  obtain st results where st: "unitState project issue external = (st, results)" by fastforce
  note unit = deriveWorkUnit_facts [OF st, of mode command] and facts = unitState_facts [OF st]
  let ?r = "deriveRoute project mode (is_state issue) st results"
  have res: "unitResults project issue external = results" by (simp add: unitResults_def st)
  from assms(1) obtain b where b: "wu_blocker st = Some b" by (auto simp: unit(4))
  with facts(5) have "fst (activeBlocker results) = Some b" by simp
  then obtain rest where q: "fst (blockerQueue results) = b # rest"
    using activeBlocker_Some by blast
  then have bin: "b \<in> set results" "re_status b = ''blocked''"
    using blockerQueue_inv [of results] list_emb_set [of "(=)" "b # rest" results b]
    unfolding queueInv_def q by auto
  from assms(2) have r: "routeWithExternalCommand project st ?r command = ?r" "rt_action ?r = ''dispatch''"
    using routeWithExternalCommand_action [of project st ?r command] by (simp_all add: unit(9))
  from bin(1) have "results \<noteq> []" by auto
  then obtain l where l: "latestResult results = Some l" by (simp add: latestResult_def)
  with r(2) deriveRoute_dispatch [OF r(2)] have lr: "?r = latestRoute project mode st l"
    by (simp add: deriveRoute_def)
  have same: "l = b" if "re_comment l = re_comment b"
    using that unitResults_comments [OF st] bin(1) latestResult_in [OF l] by (auto simp: distinct_map inj_on_def)
  from latestRoute_blocked_dispatch [OF r(2) [unfolded lr] b bin(2) same] l show ?thesis
    unfolding unit(3,9) r(1) unfolding lr res by blast
qed

definition blockedExternal :: externalResults where
  "blockedExternal = [1 \<mapsto> sampleOverlay 1 (sampleEvent ''implementor'' ''blocked'' [] [] [])]"

lemma blockedSample:
  "wu_blocker (deriveWorkUnit sampleProject ''standard'' (sampleIssue [samplePull ''success''] [1]) blockedExternal None) \<noteq> None"
  "rt_action (wu_route (deriveWorkUnit sampleProject ''standard''
     (sampleIssue [samplePull ''success''] [1]) blockedExternal None)) = ''dispatch''"
  by code_simp+

theorem blocked_dispatch_witness:
  "rt_action (wu_route (deriveWorkUnit sampleProject ''standard''
     (sampleIssue [samplePull ''success''] [1]) blockedExternal None)) = ''dispatch''"
  using blocked_dispatch [OF blockedSample] blockedSample(2) by blast

text \<open>The exception for inconclusive results is real: an Implementor's blocker is pending, yet the unit is
  dispatched to QA, because the inconclusive QA result is looked at before the blocker.\<close>

definition bypassExternal :: externalResults where
  "bypassExternal = [1 \<mapsto> sampleOverlay 1 (sampleEvent ''implementor'' ''blocked'' [] [] []),
     2 \<mapsto> sampleOverlay 2 ((sampleEvent ''qa'' ''inconclusive'' ''abc'' ''inconclusive'' [])
       \<lparr>we_extensions := [(''command_id'', JStr ''cmd''), (''reason_code'', JStr ''exact_candidate_ci_queued'')]\<rparr>)]"

lemma inconclusive_bypasses_blocker:
  "(let unit = deriveWorkUnit sampleProject ''standard'' (sampleIssue [samplePull ''success''] [1, 2]) bypassExternal None
    in map_option re_comment (wu_blocker unit) = Some 1 \<and> rt_action (wu_route unit) = ''dispatch'' \<and>
       rt_target_role (wu_route unit) = ''qa'')"
  by code_simp

text \<open>\<open>FindWorkUnit\<close>'s bisection finds what a linear search of the derived project finds:
  the first unit of that issue number, or nothing when there is none.\<close>

theorem FindWorkUnit_correct:
  "FindWorkUnit (DeriveProject cache snapshot) issueNumber =
     find (\<lambda>u. wi_issue_number (wu_identity u) = issueNumber) (st_units (DeriveProject cache snapshot))"
  by (cases "projectExternal cache (pj_id (ps_project snapshot))")
    (simp add: DeriveProject_def FindWorkUnit_find st_units_sorted)

text \<open>The project's attention list is exactly the items of its units that are neither
  normal nor terminal, sorted by owner, repository, issue and code.\<close>

theorem project_attention_complete:
  "set (st_attention (DeriveProject cache snapshot)) =
     attentionItem (st_project (DeriveProject cache snapshot)) `
       {u \<in> set (st_units (DeriveProject cache snapshot)). needsAttention u} \<and>
   sorted (map attentionOrder (st_attention (DeriveProject cache snapshot)))"
  by (cases "projectExternal cache (pj_id (ps_project snapshot))")
    (auto simp: DeriveProject_def deriveProjectWithExternalState_def sortAttention_def Let_def)

end
