(* ===== verification/Planning_Types.thy ===== *)
theory Planning_Types
  imports Complex_Main Workspace
begin

text \<open>
  The structs of \<open>planning/types.go\<close>, field by field. A \<open>float64\<close> (\<open>Confidence\<close>) is the
  rational number it denotes. \<open>time.Time\<close> is \<open>gotime\<close>.
\<close>

record RepositoryIdentity =
  ri_project :: int
  ri_owner :: string
  ri_repository :: string
  ri_workflow_mode :: string

record IssueIdentity =
  ii_github_id :: int
  ii_number :: int
  ii_title :: string
  ii_body :: string
  ii_url :: string
  ii_lifecycle :: string
  ii_attention :: Attention

record ResultSummary =
  rs_comment :: int
  rs_role :: string
  rs_status :: string
  rs_head :: string
  rs_verdict :: string
  rs_decision :: string
  rs_resume_role :: string
  rs_resolves :: "rawmsg option"
  rs_escalate_to :: string
  rs_stale :: bool
  rs_effective :: bool
  rs_created :: gotime

record LatestResultSummary =
  ls_lead :: "ResultSummary option"
  ls_implementor :: "ResultSummary option"
  ls_qa :: "ResultSummary option"

record Evidence =
  ev_comment :: int
  ev_author :: string
  ev_url :: string
  ev_created :: gotime
  ev_updated :: gotime
  ev_heading :: string
  ev_markdown :: string
  ev_level :: ParseLevel
  ev_event :: "WorkerEvent option"
  ev_warnings :: "Warning list"
  ev_hard_error :: "ProtocolError option"

record PromptContext =
  px_version :: int
  px_repository :: RepositoryIdentity
  px_issue :: IssueIdentity
  px_candidate :: CandidateState
  px_head :: string
  px_ci :: CISummary
  px_latest :: LatestResultSummary
  px_blocker :: "ResultSummary option"
  px_route :: Route
  px_expected_event :: string
  px_warnings :: "Warning list"
  px_evidence :: "Evidence list"
  px_hash :: string

record SourceMetadata =
  sm_kind :: string
  sm_runtime :: string
  sm_provider :: string
  sm_model :: string
  sm_agent :: string
  sm_mode :: string
  sm_context_hash :: string

record PromptPlan =
  pp_version :: int
  pp_action :: string
  pp_target_role :: string
  pp_lane :: string
  pp_summary :: string
  pp_reason :: string
  pp_risk :: string
  pp_requires_owner :: bool
  pp_expected_head :: string
  pp_expected_event :: string
  pp_guards :: "string list"
  pp_prohibited :: "string list"
  pp_prompt :: string
  pp_confidence :: rat
  pp_source :: SourceMetadata
  pp_extensions :: jobject

record Violation =
  vi_code :: string
  vi_field :: string
  vi_message :: string

record PolicyDecision =
  pd_status :: string
  pd_violations :: "Violation list"
  pd_context_hash :: string
  pd_plan_hash :: string
  pd_decided :: gotime

record GenerationResult =
  gr_status :: string
  gr_context :: PromptContext
  gr_plan :: "PromptPlan option"
  gr_decision :: PolicyDecision
  gr_plan_id :: int
  gr_created :: gotime

record ContextSummary =
  sy_version :: int
  sy_hash :: string
  sy_repository :: RepositoryIdentity
  sy_issue :: IssueIdentity
  sy_head :: string
  sy_route :: Route
  sy_expected_event :: string
  sy_evidence_count :: int
  sy_warning_count :: int

end
