(* ===== verification/Go_Time.thy ===== *)
theory Go_Time
  imports Go_Strings
begin

text \<open>
  \<open>time.Time.UTC().Format(time.RFC3339Nano)\<close>, the text the services store in SQLite and
  compare there. A time is nanoseconds since the year 1 (\<open>gotime\<close>); the formatter is that
  of Go for the years 1 to 9999: date, time, a fraction without trailing zeros, \<open>Z\<close>.
  Columns are compared as text, in byte order, as SQLite's default collation does.
\<close>

definition padded :: "nat \<Rightarrow> nat \<Rightarrow> string" where
  "padded width n = (let s = showNat n in replicate (width - length s) (CHR ''0'') @ s)"

text \<open>The civil date of a day counted from 0001-01-01, by eras of 400 years that start in
  March.\<close>

definition yearOfEra :: "nat \<Rightarrow> nat" where
  "yearOfEra doe = (doe - doe div 1460 + doe div 36524 - doe div 146096) div 365"

definition civil :: "nat \<Rightarrow> nat \<times> nat \<times> nat" where
  "civil days =
     (let z = days + 306; era = z div 146097; doe = z mod 146097;
          yoe = yearOfEra doe;
          doy = doe - (365 * yoe + yoe div 4 - yoe div 100);
          mp = (5 * doy + 2) div 153;
          month = (if mp < 10 then mp + 3 else mp - 9)
      in (yoe + era * 400 + (if month \<le> 2 then 1 else 0), month, doy - (153 * mp + 2) div 5 + 1))"

definition fraction :: "nat \<Rightarrow> string" where
  "fraction ns =
     (let digits = rev (dropWhile (\<lambda>c. c = CHR ''0'') (rev (padded 9 ns)))
      in if digits = [] then [] else CHR ''.'' # digits)"

definition second :: gotime where "second = 1000000000"
definition minute :: gotime where "minute = 60 * second"

definition clockText :: "nat \<Rightarrow> string" where
  "clockText secs =
     padded 2 (secs div 3600) @ '':'' @ padded 2 (secs div 60 mod 60) @ '':'' @ padded 2 (secs mod 60)"

definition dateText :: "nat \<Rightarrow> string" where
  "dateText days =
     (let (year, month, day) = civil days in padded 4 year @ ''-'' @ padded 2 month @ ''-'' @ padded 2 day)"

definition stamp :: "gotime \<Rightarrow> string" where
  "stamp t =
     (let secs = nat (t div second) in
      dateText (secs div 86400) @ ''T'' @ clockText (secs mod 86400) @ fraction (nat (t mod second)) @ ''Z'')"

text \<open>Evaluation of the formatter on numerals.\<close>

lemma showNat_digit: "n < 10 \<Longrightarrow> showNat n = [digitChar n]"
  and showNat_step: "\<not> n < 10 \<Longrightarrow> showNat n = showNat (n div 10) @ [digitChar (n mod 10)]"
  by (simp_all add: showNat.simps [of n])

lemma padded_short: "length (showNat n) \<le> w \<Longrightarrow> padded w n = replicate (w - length (showNat n)) (CHR ''0'') @ showNat n"
  by (simp add: padded_def Let_def)

lemma padded_digit: "n < 10 \<Longrightarrow> padded w n = replicate (w - 1) (CHR ''0'') @ [digitChar n]"
  by (simp add: padded_def showNat_digit)

lemma civil_samples: "civil 0 = (1, 1, 1)" "civil 738944 = (2024, 2, 29)" "civil 738945 = (2024, 3, 1)"
  by (simp_all only: civil_def yearOfEra_def Let_def) simp_all

lemma dateText_zero: "dateText 0 = ''0001-01-01''"
  by (simp add: dateText_def civil_samples padded_digit digitChar_def numeral_eq_Suc)

lemma clockText_five: "clockText 5 = ''00:00:05''"
  by (simp add: clockText_def padded_digit digitChar_def)

lemma dateText_leap_day: "dateText 738944 = ''2024-02-29''"
  by (simp add: dateText_def civil_samples padded_def Let_def showNat_digit showNat_step digitChar_def)

text \<open>Two times of one second differ in the fraction only.\<close>

lemma stamp_split:
  assumes "0 \<le> secs" "0 \<le> ns" "ns < 1000000000"
  shows "stamp (secs * second + ns) =
    dateText (nat secs div 86400) @ ''T'' @ clockText (nat secs mod 86400) @ fraction (nat ns) @ ''Z''"
proof -
  have "(secs * second + ns) div second = secs" "(secs * second + ns) mod second = ns"
    using assms by (simp_all add: second_def)
  then show ?thesis by (simp add: stamp_def Let_def)
qed

lemma fraction_zero: "fraction 0 = []"
  by (simp add: fraction_def padded_digit digitChar_def Let_def numeral_eq_Suc)

lemma fraction_samples: "fraction 500000000 = ''.5''" "fraction 510000000 = ''.51''"
  by (simp_all add: fraction_def padded_def showNat_digit showNat_step digitChar_def Let_def)

text \<open>The text order is not the order of time: within a second any fraction sorts before
  none, and a longer fraction before a shorter one it extends.\<close>

lemma stamp_not_monotone:
  assumes "0 \<le> secs"
  shows "stamp (secs * second + 500000000) < stamp (secs * second)"
    and "stamp (secs * second + 510000000) < stamp (secs * second + 500000000)"
proof -
  have zero: "stamp (secs * second) = dateText (nat secs div 86400) @ ''T'' @ clockText (nat secs mod 86400) @ ''Z''"
    using stamp_split [OF assms, of 0] by (simp add: fraction_zero)
  have app: "(xs @ us < xs @ vs) = (us < vs)" for xs us vs :: string
    by (induction xs) simp_all
  show "stamp (secs * second + 500000000) < stamp (secs * second)"
    using stamp_split [OF assms, of 500000000] by (simp add: zero fraction_samples app less_char_def)
  show "stamp (secs * second + 510000000) < stamp (secs * second + 500000000)"
    using stamp_split [OF assms, of 500000000] stamp_split [OF assms, of 510000000]
    by (simp add: fraction_samples app less_char_def)
qed

end
