(* ===== verification/Delivery.thy ===== *)
theory Delivery
  imports Planning_Types Go_Time
begin

text \<open>
  \<open>delivery/types.go\<close>, \<open>store.go\<close> and \<open>service.go\<close>: the queue of prompts confirmed for
  delivery through a browser. The table \<open>delivery_commands\<close> is the list of its rows; a
  transaction is a function from rows to rows and a result. What the service reads from
  other services (the plan, the context summary, the lane's binding) is a record of
  functions, \<open>Authority\<close>; the clock, the random ids and SHA-256 are arguments. Database
  faults are not modelled. Time columns are compared as text, the way SQLite does.
\<close>

subsection \<open>types.go\<close>

record BindingSnapshot =
  bs_lane :: string
  bs_binding :: string
  bs_version :: int
  bs_worker :: string
  bs_session :: string
  bs_kind :: string
  bs_ref :: string
  bs_ready :: bool
  bs_presence :: string

record Confirmation =
  cf_plan :: int
  cf_key :: string
  cf_plan_hash :: string
  cf_context_hash :: string
  cf_head :: string
  cf_lane :: string
  cf_binding :: string
  cf_version :: int
  cf_presence :: string

text \<open>A row: the fields of \<open>Command\<close>, and the two columns \<open>idempotency_key\<close> and
  \<open>confirmation_fingerprint\<close> that \<open>scanCommand\<close> does not read back.\<close>

record DeliveryCommand =
  dc_id :: string
  dc_project :: int
  dc_issue :: int
  dc_plan :: int
  dc_plan_hash :: string
  dc_context_hash :: string
  dc_prompt_hash :: string
  dc_prompt :: string
  dc_action :: string
  dc_role :: string
  dc_lane :: string
  dc_head :: string
  dc_binding :: string
  dc_version :: int
  dc_worker :: string
  dc_session :: string
  dc_presence :: string
  dc_kind :: string
  dc_ref :: string
  dc_status :: string
  dc_created :: gotime
  dc_expires :: gotime
  dc_claimed_at :: "gotime option"
  dc_deadline :: "gotime option"
  dc_claim :: string
  dc_request :: string
  dc_terminal :: "gotime option"
  dc_reason :: string
  dc_evidence :: string
  dc_key :: string
  dc_fingerprint :: string

record ClaimRequest =
  cr_worker :: string
  cr_session :: string
  cr_request :: string

record Execution =
  ex_command :: DeliveryCommand
  ex_claim :: string
  ex_prompt :: string

record Completion =
  cp_command :: string
  cp_claim :: string
  cp_outcome :: string
  cp_reason :: string
  cp_evidence :: string

datatype delivery_error =
  DeliveryConflict | DeliveryUnavailable | DeliveryNotFound | DeliveryError string

record Authority =
  au_plan :: "int \<Rightarrow> int \<Rightarrow> int \<Rightarrow> delivery_error + GenerationResult"
  au_summary :: "int \<Rightarrow> int \<Rightarrow> delivery_error + ContextSummary"
  au_resolve :: "(int \<Rightarrow> string \<Rightarrow> delivery_error + BindingSnapshot) option"

record DeliveryConfig =
  dg_pending_ttl :: int
  dg_claim_ttl :: int
  dg_enabled :: bool

definition newDeliveryConfig :: "DeliveryConfig \<Rightarrow> DeliveryConfig" where
  "newDeliveryConfig cfg =
     cfg\<lparr>dg_pending_ttl := (if dg_pending_ttl cfg \<le> 0 then 5 * minute else dg_pending_ttl cfg),
         dg_claim_ttl := (if dg_claim_ttl cfg \<le> 0 then minute else dg_claim_ttl cfg)\<rparr>"

type_synonym deliveryRows = "DeliveryCommand list"

subsection \<open>Authority checks\<close>

definition validPlan :: "GenerationResult \<Rightarrow> bool" where
  "validPlan r = ((gr_status r = ''approved'' \<or> gr_status r = ''fallback'') \<and> pd_status (gr_decision r) = ''approved'')"

definition completeBinding :: "string \<Rightarrow> BindingSnapshot \<Rightarrow> bool" where
  "completeBinding lane b =
     (bs_ready b \<and> bs_lane b = lane \<and> \<not> blank (bs_binding b) \<and> bs_version b > 0 \<and>
      \<not> blank (bs_worker b) \<and> \<not> blank (bs_session b) \<and> \<not> blank (bs_kind b) \<and>
      \<not> blank (bs_ref b) \<and> \<not> blank (bs_presence b))"

definition resolve :: "Authority \<Rightarrow> int \<Rightarrow> string \<Rightarrow> delivery_error + BindingSnapshot" where
  "resolve au projectID lane =
     (case au_resolve au of
        None \<Rightarrow> Inl DeliveryUnavailable
      | Some bindings \<Rightarrow>
          (case bindings projectID lane of
             Inl _ \<Rightarrow> Inl DeliveryUnavailable
           | Inr b \<Rightarrow> if completeBinding lane b then Inr b else Inl DeliveryUnavailable))"

text \<open>The conditions of \<open>authorize\<close> on the plan, the context and the confirmation.\<close>

definition confirmed :: "Confirmation \<Rightarrow> PolicyDecision \<Rightarrow> PromptPlan \<Rightarrow> ContextSummary \<Rightarrow> bool" where
  "confirmed inp decision plan context =
     (cf_plan_hash inp = pd_plan_hash decision \<and> cf_context_hash inp = sy_hash context \<and>
      cf_head inp = sy_head context \<and> cf_lane inp = rt_lane (sy_route context) \<and>
      rt_action (sy_route context) = ''dispatch'' \<and> pp_action plan = rt_action (sy_route context) \<and>
      pp_target_role plan = rt_target_role (sy_route context) \<and> pp_lane plan \<noteq> [] \<and>
      pp_lane plan = rt_lane (sy_route context) \<and> pp_expected_head plan = sy_head context \<and>
      sm_context_hash (pp_source plan) = sy_hash context)"

definition boundAs :: "Confirmation \<Rightarrow> BindingSnapshot \<Rightarrow> bool" where
  "boundAs inp b = (bs_binding b = cf_binding inp \<and> bs_version b = cf_version inp \<and> bs_presence b = cf_presence inp)"

definition newCommand :: "(string \<Rightarrow> string) \<Rightarrow> DeliveryConfig \<Rightarrow> gotime \<Rightarrow> string \<Rightarrow> int \<Rightarrow> int
    \<Rightarrow> Confirmation \<Rightarrow> PolicyDecision \<Rightarrow> PromptPlan \<Rightarrow> ContextSummary \<Rightarrow> BindingSnapshot \<Rightarrow> DeliveryCommand" where
  "newCommand hash cfg now newID projectID issueNumber inp decision plan context b =
     \<lparr>dc_id = newID, dc_project = projectID, dc_issue = issueNumber, dc_plan = cf_plan inp,
      dc_plan_hash = pd_plan_hash decision, dc_context_hash = sy_hash context,
      dc_prompt_hash = hash (pp_prompt plan), dc_prompt = pp_prompt plan, dc_action = pp_action plan,
      dc_role = pp_target_role plan, dc_lane = pp_lane plan, dc_head = sy_head context,
      dc_binding = bs_binding b, dc_version = bs_version b, dc_worker = bs_worker b,
      dc_session = bs_session b, dc_presence = bs_presence b, dc_kind = bs_kind b, dc_ref = bs_ref b,
      dc_status = ''pending'', dc_created = now, dc_expires = now + dg_pending_ttl cfg,
      dc_claimed_at = None, dc_deadline = None, dc_claim = [], dc_request = [], dc_terminal = None,
      dc_reason = [], dc_evidence = [], dc_key = [], dc_fingerprint = []\<rparr>"

definition authorize :: "(string \<Rightarrow> string) \<Rightarrow> DeliveryConfig \<Rightarrow> Authority \<Rightarrow> gotime \<Rightarrow> string \<Rightarrow> int \<Rightarrow> int
    \<Rightarrow> Confirmation \<Rightarrow> delivery_error + DeliveryCommand" where
  "authorize hash cfg au now newID projectID issueNumber inp =
     (case au_plan au projectID issueNumber (cf_plan inp) of
        Inl e \<Rightarrow> Inl e
      | Inr result \<Rightarrow>
         (case gr_plan result of
            None \<Rightarrow> Inl DeliveryConflict
          | Some plan \<Rightarrow>
             if \<not> validPlan result then Inl DeliveryConflict
             else (case au_summary au projectID issueNumber of
                Inl e \<Rightarrow> Inl e
              | Inr context \<Rightarrow>
                 if pd_plan_hash (gr_decision result) = [] then Inl DeliveryConflict
                 else if \<not> confirmed inp (gr_decision result) plan context then Inl DeliveryConflict
                 else (case resolve au projectID (pp_lane plan) of
                    Inl e \<Rightarrow> Inl e
                  | Inr b \<Rightarrow>
                     if \<not> boundAs inp b then Inl DeliveryConflict
                     else Inr (newCommand hash cfg now newID projectID issueNumber inp
                                 (gr_decision result) plan context b)))))"

text \<open>\<open>current\<close>: what still has to hold when a command is claimed.\<close>

definition planCurrent :: "DeliveryCommand \<Rightarrow> GenerationResult \<Rightarrow> ContextSummary \<Rightarrow> bool" where
  "planCurrent c result summary =
     (case gr_plan result of
        None \<Rightarrow> False
      | Some plan \<Rightarrow>
          validPlan result \<and> pd_plan_hash (gr_decision result) = dc_plan_hash c \<and>
          pp_action plan = dc_action c \<and> pp_target_role plan = dc_role c \<and> pp_lane plan = dc_lane c \<and>
          pp_expected_head plan = dc_head c \<and> sm_context_hash (pp_source plan) = dc_context_hash c \<and>
          sy_hash summary = dc_context_hash c \<and> sy_head summary = dc_head c \<and>
          rt_action (sy_route summary) = dc_action c \<and> rt_target_role (sy_route summary) = dc_role c \<and>
          rt_lane (sy_route summary) = dc_lane c)"

definition bindingCurrent :: "DeliveryCommand \<Rightarrow> BindingSnapshot \<Rightarrow> bool" where
  "bindingCurrent c b =
     (bs_binding b = dc_binding c \<and> bs_version b = dc_version c \<and> bs_worker b = dc_worker c \<and>
      bs_session b = dc_session c \<and> bs_kind b = dc_kind c \<and> bs_ref b = dc_ref c \<and>
      bs_presence b = dc_presence c)"

definition currentCheck :: "Authority \<Rightarrow> DeliveryCommand \<Rightarrow> delivery_error option" where
  "currentCheck au c =
     (case au_plan au (dc_project c) (dc_issue c) (dc_plan c) of
        Inl e \<Rightarrow> Some e
      | Inr result \<Rightarrow>
         (case au_summary au (dc_project c) (dc_issue c) of
            Inl e \<Rightarrow> Some e
          | Inr summary \<Rightarrow>
             if \<not> planCurrent c result summary then Some DeliveryConflict
             else (case resolve au (dc_project c) (dc_lane c) of
                Inl e \<Rightarrow> Some e
              | Inr b \<Rightarrow> if bindingCurrent c b then None else Some DeliveryConflict)))"

subsection \<open>Transactions\<close>

definition transition :: "deliveryRows \<Rightarrow> string \<Rightarrow> string \<Rightarrow> string \<Rightarrow> gotime \<Rightarrow> gotime option \<Rightarrow> string \<Rightarrow> string
    \<Rightarrow> string \<Rightarrow> delivery_error + deliveryRows" where
  "transition rows i old new now terminalAt reason0 evidence fallbackReason =
     (let reason = (if reason0 = [] then fallbackReason else reason0);
          terminal = (if terminalAt = None \<and> new \<noteq> ''claimed'' then Some now else terminalAt);
          hit = (\<lambda>r. dc_id r = i \<and> dc_status r = old)
      in if rows_affected hit rows \<noteq> 1 then Inl DeliveryConflict
         else Inr (row_update hit
                (\<lambda>r. r\<lparr>dc_status := new, dc_terminal := terminal, dc_reason := reason, dc_evidence := evidence\<rparr>) rows))"

definition fingerprintOf :: "(string \<Rightarrow> string) \<Rightarrow> int \<Rightarrow> string \<Rightarrow> string \<Rightarrow> string \<Rightarrow> string \<Rightarrow> string \<Rightarrow> int \<Rightarrow> string \<Rightarrow> string" where
  "fingerprintOf hash plan planHash contextHash head lane binding version presence =
     hash (joinWith [CHR 0x00] [showInt plan, planHash, contextHash, head, lane, binding, showInt version, presence])"

definition confirmationFingerprint :: "(string \<Rightarrow> string) \<Rightarrow> Confirmation \<Rightarrow> string" where
  "confirmationFingerprint hash inp =
     fingerprintOf hash (cf_plan inp) (cf_plan_hash inp) (cf_context_hash inp) (cf_head inp) (cf_lane inp)
       (cf_binding inp) (cf_version inp) (cf_presence inp)"

definition existingFingerprint :: "(string \<Rightarrow> string) \<Rightarrow> DeliveryCommand \<Rightarrow> string" where
  "existingFingerprint hash c =
     fingerprintOf hash (dc_plan c) (dc_plan_hash c) (dc_context_hash c) (dc_head c) (dc_lane c)
       (dc_binding c) (dc_version c) (dc_presence c)"

definition findByKey :: "int \<Rightarrow> int \<Rightarrow> string \<Rightarrow> deliveryRows \<Rightarrow> DeliveryCommand option" where
  "findByKey projectID issueNumber key rows =
     find (\<lambda>r. dc_project r = projectID \<and> dc_issue r = issueNumber \<and> dc_key r = key) rows"

definition CreateDelivery :: "(string \<Rightarrow> string) \<Rightarrow> DeliveryConfig \<Rightarrow> Authority \<Rightarrow> gotime \<Rightarrow> string \<Rightarrow> int \<Rightarrow> int
    \<Rightarrow> Confirmation \<Rightarrow> deliveryRows \<Rightarrow> deliveryRows \<times> (delivery_error + DeliveryCommand)" where
  "CreateDelivery hash cfg au now newID projectID issueNumber inp rows =
     (if \<not> dg_enabled cfg then (rows, Inl DeliveryUnavailable)
      else if projectID \<le> 0 \<or> issueNumber \<le> 0 \<or> cf_plan inp \<le> 0 \<or> blank (cf_key inp)
      then (rows, Inl (DeliveryError ''plan_id and idempotency_key are required''))
      else case findByKey projectID issueNumber (cf_key inp) rows of
        Some existing \<Rightarrow>
          (rows, if existingFingerprint hash existing \<noteq> confirmationFingerprint hash inp
                 then Inl DeliveryConflict else Inr existing)
      | None \<Rightarrow>
          (case authorize hash cfg au now newID projectID issueNumber inp of
             Inl e \<Rightarrow> (rows, Inl e)
           | Inr c \<Rightarrow>
              if newID \<in> dc_id ` set rows
              then (rows, Inl (DeliveryError ''persist delivery command: UNIQUE constraint failed''))
              else (let command = c\<lparr>dc_key := cf_key inp, dc_fingerprint := confirmationFingerprint hash inp\<rparr>
                    in (rows @ [command], Inr command))))"

definition ListDeliveries :: "int \<Rightarrow> int \<Rightarrow> deliveryRows \<Rightarrow> DeliveryCommand list" where
  "ListDeliveries projectID issueNumber rows =
     rev (sort_key (\<lambda>r. stamp (dc_created r)) (filter (\<lambda>r. dc_project r = projectID \<and> dc_issue r = issueNumber) rows))"

subsection \<open>Claiming\<close>

definition findClaim :: "string \<Rightarrow> string \<Rightarrow> deliveryRows \<Rightarrow> DeliveryCommand option" where
  "findClaim worker request rows = find (\<lambda>r. dc_worker r = worker \<and> dc_request r = request) rows"

definition executionOf :: "DeliveryCommand \<Rightarrow> Execution" where
  "executionOf c = \<lparr>ex_command = c, ex_claim = dc_claim c, ex_prompt = dc_prompt c\<rparr>"

text \<open>What one candidate's transaction ends with: no claim and no error (the loop goes on), an
  error (the transaction is rolled back), a violation of the unique index on the worker's
  claim requests, or the claimed command.\<close>

datatype claim_outcome = ClaimSkipped | ClaimFailed delivery_error | ClaimDuplicate | Claimed DeliveryCommand

definition claimedRow :: "DeliveryConfig \<Rightarrow> gotime \<Rightarrow> string \<Rightarrow> ClaimRequest \<Rightarrow> DeliveryCommand \<Rightarrow> DeliveryCommand" where
  "claimedRow cfg now claimID inp c =
     c\<lparr>dc_status := ''claimed'', dc_claim := claimID, dc_request := cr_request inp,
       dc_claimed_at := Some now, dc_deadline := Some (now + dg_claim_ttl cfg)\<rparr>"

definition retire :: "deliveryRows \<Rightarrow> string \<Rightarrow> string \<Rightarrow> gotime \<Rightarrow> string \<Rightarrow> deliveryRows \<times> claim_outcome" where
  "retire rows i status now reason =
     (case transition rows i ''pending'' status now None [] [] reason of
        Inl e \<Rightarrow> (rows, ClaimFailed e)
      | Inr rows' \<Rightarrow> (rows', ClaimSkipped))"

definition duplicateRequest :: "ClaimRequest \<Rightarrow> string \<Rightarrow> deliveryRows \<Rightarrow> bool" where
  "duplicateRequest inp i rows =
     list_ex (\<lambda>r. dc_id r \<noteq> i \<and> dc_worker r = cr_worker inp \<and> dc_request r = cr_request inp) rows"

definition claimPending :: "DeliveryConfig \<Rightarrow> Authority \<Rightarrow> gotime \<Rightarrow> string \<Rightarrow> ClaimRequest \<Rightarrow> DeliveryCommand
    \<Rightarrow> deliveryRows \<Rightarrow> deliveryRows \<times> claim_outcome" where
  "claimPending cfg au now claimID inp candidate rows =
     (if \<not> now < dc_expires candidate then retire rows (dc_id candidate) ''expired'' now ''expired''
      else case currentCheck au candidate of
        Some e \<Rightarrow>
          if e = DeliveryConflict \<or> e = DeliveryUnavailable
          then retire rows (dc_id candidate) ''invalidated'' now ''stale_authority''
          else (rows, ClaimFailed e)
      | None \<Rightarrow>
          if cr_worker inp \<noteq> dc_worker candidate \<or> cr_session inp \<noteq> dc_session candidate
          then (rows, ClaimFailed DeliveryConflict)
          else if duplicateRequest inp (dc_id candidate) rows then (rows, ClaimDuplicate)
          else (row_update (\<lambda>r. dc_id r = dc_id candidate \<and> dc_status r = ''pending'')
                  (claimedRow cfg now claimID inp) rows,
                Claimed (claimedRow cfg now claimID inp candidate)))"

definition claimOne :: "DeliveryConfig \<Rightarrow> Authority \<Rightarrow> gotime \<Rightarrow> string \<Rightarrow> ClaimRequest \<Rightarrow> string
    \<Rightarrow> deliveryRows \<Rightarrow> deliveryRows \<times> claim_outcome" where
  "claimOne cfg au now claimID inp i rows =
     (case row_get dc_id i rows of
        None \<Rightarrow> (rows, ClaimSkipped)
      | Some current \<Rightarrow>
          if dc_status current \<noteq> ''pending'' then (rows, ClaimSkipped)
          else claimPending cfg au now claimID inp current rows)"

text \<open>What the loop reads while it works: for each candidate the clock, the next random id
  and the state of the other services.\<close>

record World =
  wd_now :: gotime
  wd_id :: string
  wd_authority :: Authority

definition repeatedClaim :: "ClaimRequest \<Rightarrow> deliveryRows \<Rightarrow> delivery_error + Execution option" where
  "repeatedClaim inp rows =
     (case findClaim (cr_worker inp) (cr_request inp) rows of
        None \<Rightarrow> Inl (DeliveryError ''UNIQUE constraint failed'')
      | Some existing \<Rightarrow>
          if dc_session existing \<noteq> cr_session inp \<or> dc_status existing \<noteq> ''claimed'' then Inl DeliveryConflict
          else Inr (Some (executionOf existing)))"

fun claimLoop :: "DeliveryConfig \<Rightarrow> (nat \<Rightarrow> World) \<Rightarrow> ClaimRequest \<Rightarrow> nat \<Rightarrow> DeliveryCommand list
    \<Rightarrow> deliveryRows \<Rightarrow> deliveryRows \<times> (delivery_error + Execution option)" where
  "claimLoop cfg world inp n [] rows = (rows, Inr None)"
| "claimLoop cfg world inp n (candidate # candidates) rows =
     (case claimOne cfg (wd_authority (world n)) (wd_now (world n)) (wd_id (world n)) inp (dc_id candidate) rows of
        (rows', Claimed c) \<Rightarrow> (rows', Inr (Some (executionOf c)))
      | (rows', ClaimSkipped) \<Rightarrow> claimLoop cfg world inp (Suc n) candidates rows'
      | (rows', ClaimFailed e) \<Rightarrow> (rows', Inl e)
      | (rows', ClaimDuplicate) \<Rightarrow> (rows', repeatedClaim inp rows'))"

definition pendingFor :: "string \<Rightarrow> deliveryRows \<Rightarrow> DeliveryCommand list" where
  "pendingFor worker rows =
     sort_key (\<lambda>r. stamp (dc_created r)) (filter (\<lambda>r. dc_worker r = worker \<and> dc_status r = ''pending'') rows)"

definition ClaimNext :: "DeliveryConfig \<Rightarrow> (nat \<Rightarrow> World) \<Rightarrow> ClaimRequest \<Rightarrow> deliveryRows
    \<Rightarrow> deliveryRows \<times> (delivery_error + Execution option)" where
  "ClaimNext cfg world inp rows =
     (if \<not> dg_enabled cfg then (rows, Inl DeliveryUnavailable)
      else if blank (cr_worker inp) \<or> blank (cr_session inp) \<or> blank (cr_request inp)
      then (rows, Inl (DeliveryError ''worker_id, worker_session_id and claim_request_id are required''))
      else case findClaim (cr_worker inp) (cr_request inp) rows of
        Some command \<Rightarrow>
          (rows, if dc_session command \<noteq> cr_session inp then Inl DeliveryConflict
                 else if dc_status command = ''claimed'' then Inr (Some (executionOf command))
                 else Inl DeliveryConflict)
      | None \<Rightarrow> claimLoop cfg world inp 0 (pendingFor (cr_worker inp) rows) rows)"

subsection \<open>Completing, cancelling, reconciling\<close>

definition invalidate :: "deliveryRows \<Rightarrow> string \<Rightarrow> string \<Rightarrow> gotime \<Rightarrow> string \<Rightarrow> deliveryRows" where
  "invalidate rows i status now reason =
     (case transition rows i ''pending'' status now None [] [] reason of
        Inl _ \<Rightarrow> rows | Inr rows' \<Rightarrow> rows')"

definition pastDeadline :: "gotime \<Rightarrow> DeliveryCommand \<Rightarrow> bool" where
  "pastDeadline now c = (case dc_deadline c of None \<Rightarrow> False | Some d \<Rightarrow> \<not> now < d)"

definition completeClaimed :: "gotime \<Rightarrow> Completion \<Rightarrow> DeliveryCommand \<Rightarrow> deliveryRows
    \<Rightarrow> deliveryRows \<times> (delivery_error + DeliveryCommand)" where
  "completeClaimed now inp command rows =
     (if pastDeadline now command
      then (case transition rows (dc_id command) ''claimed'' ''uncertain'' now None [] [] ''claim_ack_deadline'' of
              Inl e \<Rightarrow> (rows, Inl e)
            | Inr rows' \<Rightarrow> (rows', Inl DeliveryConflict))
      else (case transition rows (dc_id command) ''claimed'' (cp_outcome inp) now (Some now)
                   (cp_reason inp) (cp_evidence inp) [] of
              Inl e \<Rightarrow> (rows, Inl e)
            | Inr rows' \<Rightarrow>
                (rows', Inr (command\<lparr>dc_status := cp_outcome inp, dc_terminal := Some now,
                   dc_reason := cp_reason inp, dc_evidence := cp_evidence inp\<rparr>))))"

definition Complete :: "gotime \<Rightarrow> Completion \<Rightarrow> deliveryRows \<Rightarrow> deliveryRows \<times> (delivery_error + DeliveryCommand)" where
  "Complete now inp rows =
     (if \<not> oneOf (cp_outcome inp) [''delivered'', ''failed'', ''uncertain''] \<or> blank (cp_command inp) \<or> blank (cp_claim inp)
      then (rows, Inl (DeliveryError ''command_id, claim_id and valid outcome are required''))
      else if length (cp_reason inp) > 256 \<or> length (cp_evidence inp) > 4096
      then (rows, Inl (DeliveryError ''completion reason or evidence exceeds its bounded size''))
      else case row_get dc_id (cp_command inp) rows of
        None \<Rightarrow> (rows, Inl DeliveryNotFound)
      | Some command \<Rightarrow>
          if dc_claim command \<noteq> cp_claim inp then (rows, Inl DeliveryConflict)
          else if dc_status command = cp_outcome inp \<and> dc_reason command = cp_reason inp \<and>
                  dc_evidence command = cp_evidence inp
          then (rows, Inr command)
          else if dc_status command \<noteq> ''claimed'' then (rows, Inl DeliveryConflict)
          else completeClaimed now inp command rows)"

definition CancelDelivery :: "gotime \<Rightarrow> string \<Rightarrow> deliveryRows \<Rightarrow> deliveryRows \<times> (delivery_error + DeliveryCommand)" where
  "CancelDelivery now commandID rows =
     (if blank commandID then (rows, Inl (DeliveryError ''command_id is required''))
      else case row_get dc_id commandID rows of
        None \<Rightarrow> (rows, Inl DeliveryNotFound)
      | Some command \<Rightarrow>
          if dc_status command \<noteq> ''pending'' then (rows, Inl DeliveryConflict)
          else (case transition rows commandID ''pending'' ''cancelled'' now None [] [] ''cancelled'' of
                  Inl e \<Rightarrow> (rows, Inl e)
                | Inr rows' \<Rightarrow>
                    (rows', Inr (command\<lparr>dc_status := ''cancelled'', dc_terminal := Some now,
                                         dc_reason := ''cancelled''\<rparr>))))"

definition timeText :: "gotime option \<Rightarrow> string" where
  "timeText t = (case t of None \<Rightarrow> [] | Some t \<Rightarrow> stamp t)"

definition overdue :: "string \<Rightarrow> DeliveryCommand \<Rightarrow> bool" where
  "overdue cutoff r = (dc_status r = ''pending'' \<and> stamp (dc_expires r) \<le> cutoff)"

definition unacknowledged :: "string \<Rightarrow> DeliveryCommand \<Rightarrow> bool" where
  "unacknowledged cutoff r = (dc_status r = ''claimed'' \<and> timeText (dc_deadline r) \<le> cutoff)"

definition endedAs :: "string \<Rightarrow> string \<Rightarrow> gotime \<Rightarrow> DeliveryCommand \<Rightarrow> DeliveryCommand" where
  "endedAs status reason now r = r\<lparr>dc_status := status, dc_terminal := Some now, dc_reason := reason\<rparr>"

definition Reconcile :: "gotime \<Rightarrow> deliveryRows \<Rightarrow> deliveryRows" where
  "Reconcile now rows =
     row_update (unacknowledged (stamp now)) (endedAs ''uncertain'' ''claim_ack_deadline'' now)
       (row_update (overdue (stamp now)) (endedAs ''expired'' ''expired'' now) rows)"

subsection \<open>The machine\<close>

text \<open>Every transaction the service commits, in any order and with any arguments: this covers
  every interleaving of its callers, since SQLite runs write transactions one at a time and
  \<open>ClaimNext\<close> re-reads each candidate inside the transaction that claims it.\<close>

inductive delivery_step :: "(string \<Rightarrow> string) \<Rightarrow> DeliveryConfig \<Rightarrow> deliveryRows \<Rightarrow> deliveryRows \<Rightarrow> bool"
  for hash cfg where
  create: "delivery_step hash cfg rows (fst (CreateDelivery hash cfg au now newID projectID issueNumber inp rows))"
| claim: "\<not> blank (cr_request req) \<Longrightarrow> delivery_step hash cfg rows (fst (claimOne cfg au now claimID req i rows))"
| complete: "delivery_step hash cfg rows (fst (Complete now cmp rows))"
| cancel: "delivery_step hash cfg rows (fst (CancelDelivery now i rows))"
| reconcile: "delivery_step hash cfg rows (Reconcile now rows)"

abbreviation delivery_run :: "(string \<Rightarrow> string) \<Rightarrow> DeliveryConfig \<Rightarrow> deliveryRows \<Rightarrow> deliveryRows \<Rightarrow> bool" where
  "delivery_run hash cfg \<equiv> (delivery_step hash cfg)\<^sup>*\<^sup>*"

text \<open>The abstract machine of one command's status.\<close>

inductive deliveryMove :: "string \<Rightarrow> string \<Rightarrow> bool" where
  "deliveryMove ''pending'' ''claimed''"
| "deliveryMove ''pending'' ''cancelled''"
| "deliveryMove ''pending'' ''expired''"
| "deliveryMove ''pending'' ''invalidated''"
| "deliveryMove ''claimed'' ''delivered''"
| "deliveryMove ''claimed'' ''failed''"
| "deliveryMove ''claimed'' ''uncertain''"

inductive_cases from_pending: "deliveryMove ''pending'' t"
inductive_cases from_claimed: "deliveryMove ''claimed'' t"

definition deliveryFinal :: "string \<Rightarrow> bool" where
  "deliveryFinal s = oneOf s [''delivered'', ''failed'', ''uncertain'', ''cancelled'', ''expired'', ''invalidated'']"

interpretation delivery_status: status_machine deliveryMove deliveryFinal
  by unfold_locales (auto simp: deliveryFinal_def elim: deliveryMove.cases)

interpretation delivery_table: keyed_table dc_id "row_get dc_id" row_update
  by unfold_locales (simp_all add: row_get_def row_update_def)

subsection \<open>What one transaction does to one row\<close>

text \<open>The fields no operation changes after the insertion.\<close>

definition frozen :: "DeliveryCommand \<Rightarrow> DeliveryCommand" where
  "frozen r = r\<lparr>dc_status := [], dc_claimed_at := None, dc_deadline := None, dc_claim := [], dc_request := [],
     dc_terminal := None, dc_reason := [], dc_evidence := []\<rparr>"

definition claimOf :: "DeliveryCommand \<Rightarrow> string \<times> string \<times> gotime option \<times> gotime option" where
  "claimOf r = (dc_claim r, dc_request r, dc_claimed_at r, dc_deadline r)"

definition rowStep :: "DeliveryCommand \<Rightarrow> DeliveryCommand \<Rightarrow> bool" where
  "rowStep r r' =
     (r' = r \<or> (deliveryMove (dc_status r) (dc_status r') \<and> frozen r' = frozen r \<and>
        (if dc_status r' = ''claimed'' then dc_request r' \<noteq> [] \<and> dc_deadline r' \<noteq> None
         else claimOf r' = claimOf r)))"

definition mapped :: "deliveryRows \<Rightarrow> deliveryRows \<Rightarrow> bool" where
  "mapped rows rows' = list_all2 rowStep rows rows'"

lemma rowStep_refl [simp]: "rowStep r r"
  by (simp add: rowStep_def)

lemma mapped_refl [simp]: "mapped rows rows"
  by (simp add: mapped_def list.rel_refl)

lemma mapped_update:
  assumes "\<And>r. r \<in> set rows \<Longrightarrow> P r \<Longrightarrow> rowStep r (f r)"
  shows "mapped rows (row_update P f rows)"
  using assms unfolding mapped_def row_update_def by (induction rows) auto

lemma frozen_sel:
  assumes "frozen r' = frozen r"
  shows "dc_id r' = dc_id r" "dc_project r' = dc_project r" "dc_issue r' = dc_issue r" "dc_key r' = dc_key r"
    "dc_worker r' = dc_worker r" "dc_session r' = dc_session r" "dc_prompt r' = dc_prompt r"
    "existingFingerprint hash r' = existingFingerprint hash r"
  using assms by (cases r; cases r'; simp add: frozen_def existingFingerprint_def)+

lemma rowStep_frozen: "rowStep r r' \<Longrightarrow> frozen r' = frozen r"
  by (auto simp: rowStep_def)

lemmas rowStep_sel = frozen_sel [OF rowStep_frozen]

lemma transition_Inr:
  assumes "transition rows i old new now t reason evidence fb = Inr rows'"
  shows "rows' = row_update (\<lambda>r. dc_id r = i \<and> dc_status r = old)
     (\<lambda>r. r\<lparr>dc_status := new, dc_terminal := (if t = None \<and> new \<noteq> ''claimed'' then Some now else t),
           dc_reason := (if reason = [] then fb else reason), dc_evidence := evidence\<rparr>) rows"
proof -
  have "(if A then Inl e else Inr x) = Inr y \<Longrightarrow> y = x" for A and e :: delivery_error and x y :: deliveryRows
    by (simp split: if_splits)
  from this [OF assms [unfolded transition_def Let_def]] show ?thesis .
qed

lemma mapped_transition:
  assumes "transition rows i old new now t reason evidence fb = Inr rows'" "deliveryMove old new" "new \<noteq> ''claimed''"
  shows "mapped rows rows'"
  unfolding transition_Inr [OF assms(1)]
  by (rule mapped_update) (use assms(2,3) in \<open>simp add: rowStep_def frozen_def claimOf_def\<close>)

lemma mapped_retire:
  assumes "deliveryMove ''pending'' status" "status \<noteq> ''claimed''"
  shows "mapped rows (fst (retire rows i status now reason))"
  by (cases "transition rows i ''pending'' status now None [] [] reason")
    (auto simp: retire_def intro: mapped_transition [OF _ assms])

lemma mapped_claimPending:
  assumes "cr_request inp \<noteq> []"
  shows "mapped rows (fst (claimPending cfg au now claimID inp c rows))"
proof -
  have "mapped rows (row_update (\<lambda>r. dc_id r = dc_id c \<and> dc_status r = ''pending'') (claimedRow cfg now claimID inp) rows)"
    by (rule mapped_update)
      (use assms in \<open>simp add: rowStep_def claimedRow_def frozen_def deliveryMove.intros\<close>)
  moreover have "mapped rows (fst (retire rows i ''expired'' now reason))"
    "mapped rows (fst (retire rows i ''invalidated'' now reason))" for i reason
    by (rule mapped_retire; simp add: deliveryMove.intros)+
  ultimately show ?thesis by (simp add: claimPending_def split: option.split)
qed

lemma mapped_claimOne:
  assumes "cr_request inp \<noteq> []"
  shows "mapped rows (fst (claimOne cfg au now claimID inp i rows))"
  using mapped_claimPending [OF assms] by (simp add: claimOne_def split: option.split)

lemma mapped_completeClaimed:
  assumes "cp_outcome inp \<in> {''delivered'', ''failed'', ''uncertain''}"
  shows "mapped rows (fst (completeClaimed now inp c rows))"
proof -
  have move: "deliveryMove ''claimed'' (cp_outcome inp)" "cp_outcome inp \<noteq> ''claimed''"
    using assms by (auto intro: deliveryMove.intros)
  show ?thesis unfolding completeClaimed_def
    by (auto split: sum.split intro: mapped_transition [OF _ move] mapped_transition [OF _ deliveryMove.intros(7)])
qed

lemma mapped_Complete: "mapped rows (fst (Complete now inp rows))"
  by (auto simp: Complete_def split: option.split intro: mapped_completeClaimed)

lemma mapped_CancelDelivery: "mapped rows (fst (CancelDelivery now i rows))"
  by (auto simp: CancelDelivery_def split: option.split sum.split
      intro: mapped_transition [OF _ deliveryMove.intros(2)])

lemma rowStep_endedAs:
  "overdue cutoff r \<Longrightarrow> rowStep r (endedAs ''expired'' ''expired'' now r)"
  "unacknowledged cutoff r \<Longrightarrow> rowStep r (endedAs ''uncertain'' ''claim_ack_deadline'' now r)"
  by (simp_all add: rowStep_def overdue_def unacknowledged_def endedAs_def frozen_def claimOf_def deliveryMove.intros)

lemma mapped_Reconcile: "mapped rows (Reconcile now rows)"
proof -
  let ?o = "overdue (stamp now)" and ?u = "unacknowledged (stamp now)"
  let ?f = "\<lambda>r. if ?o r then endedAs ''expired'' ''expired'' now r
    else endedAs ''uncertain'' ''claim_ack_deadline'' now r"
  have "\<not> ?u (endedAs ''expired'' ''expired'' now r)" for r
    by (simp add: unacknowledged_def endedAs_def)
  then have "Reconcile now rows = row_update (\<lambda>r. ?o r \<or> ?u r) ?f rows"
    by (simp add: Reconcile_def row_update_def)
  also have "mapped rows \<dots>"
    by (rule mapped_update) (auto intro: rowStep_endedAs)
  finally show ?thesis .
qed

text \<open>The insertion.\<close>

definition inserted :: "deliveryRows \<Rightarrow> deliveryRows \<Rightarrow> bool" where
  "inserted rows rows' =
     (\<exists>c. rows' = rows @ [c] \<and> dc_id c \<notin> dc_id ` set rows \<and> dc_status c = ''pending'' \<and> dc_request c = [] \<and>
        findByKey (dc_project c) (dc_issue c) (dc_key c) rows = None)"

lemma authorize_Inr:
  assumes "authorize hash cfg au now newID p i inp = Inr c"
  obtains result plan ctx b where
    "au_plan au p i (cf_plan inp) = Inr result" "gr_plan result = Some plan" "validPlan result"
    "au_summary au p i = Inr ctx" "confirmed inp (gr_decision result) plan ctx"
    "resolve au p (pp_lane plan) = Inr b" "boundAs inp b"
    "c = newCommand hash cfg now newID p i inp (gr_decision result) plan ctx b"
  using assms by (auto simp: authorize_def split: sum.splits option.splits if_splits)

lemma authorize_new:
  assumes "authorize hash cfg au now newID p i inp = Inr c"
  shows "dc_id c = newID" "dc_status c = ''pending''" "dc_request c = []" "dc_project c = p" "dc_issue c = i"
    "existingFingerprint hash c = confirmationFingerprint hash inp"
proof -
  from assms obtain result :: GenerationResult and plan :: PromptPlan
      and ctx :: ContextSummary and b :: BindingSnapshot where
    f: "confirmed inp (gr_decision result) plan ctx" "boundAs inp b"
      "c = newCommand hash cfg now newID p i inp (gr_decision result) plan ctx b"
    by (rule authorize_Inr) blast
  show "dc_id c = newID" "dc_status c = ''pending''" "dc_request c = []" "dc_project c = p" "dc_issue c = i"
    by (simp_all add: f(3) newCommand_def)
  show "existingFingerprint hash c = confirmationFingerprint hash inp"
    using f(1,2) by (simp add: f(3) newCommand_def existingFingerprint_def confirmationFingerprint_def
        confirmed_def boundAs_def)
qed

lemma CreateDelivery_cases:
  "fst (CreateDelivery hash cfg au now newID p i inp rows) = rows \<or>
   inserted rows (fst (CreateDelivery hash cfg au now newID p i inp rows))"
proof (cases "findByKey p i (cf_key inp) rows")
  case (Some r)
  then show ?thesis by (simp add: CreateDelivery_def)
next
  case None
  show ?thesis
  proof (cases "authorize hash cfg au now newID p i inp")
    case (Inl e)
    with None show ?thesis by (simp add: CreateDelivery_def)
  next
    case (Inr c)
    from authorize_new [OF Inr] None show ?thesis
      by (simp add: CreateDelivery_def Inr inserted_def Let_def)
  qed
qed

lemma delivery_step_cases:
  assumes "delivery_step hash cfg rows rows'"
  obtains "mapped rows rows'" | "inserted rows rows'"
  using assms
proof (cases rule: delivery_step.cases)
  case (create au now newID p i inp)
  with CreateDelivery_cases that show thesis by (metis mapped_refl)
next
  case (claim req au now claimID i)
  then have "cr_request req \<noteq> []" by auto
  with claim mapped_claimOne that show thesis by blast
qed (use that mapped_Complete mapped_CancelDelivery mapped_Reconcile in blast)+

subsection \<open>The invariant of the table\<close>

definition requestTag :: "DeliveryCommand \<Rightarrow> string \<times> string \<times> string" where
  "requestTag r = (dc_id r, dc_worker r, dc_request r)"

definition keyTag :: "DeliveryCommand \<Rightarrow> string \<times> int \<times> int \<times> string" where
  "keyTag r = (dc_id r, dc_project r, dc_issue r, dc_key r)"

text \<open>A tag is unique when no two ids carry the same one; the tags without a request are
  exempt, as in the partial index of the table.\<close>

definition uniqueTags :: "('k \<times> 'a) set \<Rightarrow> bool" where
  "uniqueTags T = (\<forall>i j a. (i, a) \<in> T \<and> (j, a) \<in> T \<longrightarrow> i = j)"

definition requestTags :: "deliveryRows \<Rightarrow> (string \<times> string \<times> string) set" where
  "requestTags rows = requestTag ` {r \<in> set rows. dc_request r \<noteq> []}"

definition statusInv :: "DeliveryCommand \<Rightarrow> bool" where
  "statusInv r =
     ((dc_status r = ''pending'' \<or> dc_status r = ''claimed'' \<or> deliveryFinal (dc_status r)) \<and>
      (dc_status r = ''pending'' \<longrightarrow> dc_request r = []) \<and>
      (dc_status r = ''claimed'' \<longrightarrow> dc_request r \<noteq> [] \<and> dc_deadline r \<noteq> None))"

definition deliveryInv :: "deliveryRows \<Rightarrow> bool" where
  "deliveryInv rows =
     (distinct (map dc_id rows) \<and> uniqueTags (requestTags rows) \<and> uniqueTags (keyTag ` set rows) \<and>
      (\<forall>r \<in> set rows. statusInv r))"

lemma mapped_map:
  assumes "mapped rows rows'" and "\<And>r r'. rowStep r r' \<Longrightarrow> f r' = f r"
  shows "map f rows' = map f rows"
  using assms(1) unfolding mapped_def by (induction rule: list_all2_induct) (simp_all add: assms(2))

lemma mapped_in:
  assumes "mapped rows rows'" "r' \<in> set rows'"
  shows "\<exists>r \<in> set rows. rowStep r r'"
  using assms unfolding mapped_def by (induction rule: list_all2_induct) auto

lemma mapped_out:
  assumes "mapped rows rows'" "r \<in> set rows"
  shows "\<exists>r' \<in> set rows'. rowStep r r'"
  using assms unfolding mapped_def by (induction rule: list_all2_induct) auto

lemma statusInv_step:
  assumes "rowStep r r'" "statusInv r"
  shows "statusInv r'"
proof (cases "r' = r")
  case False
  with assms(1) have m: "deliveryMove (dc_status r) (dc_status r')"
    and c: "dc_status r' = ''claimed'' \<Longrightarrow> dc_request r' \<noteq> [] \<and> dc_deadline r' \<noteq> None"
    by (auto simp: rowStep_def)
  from m show ?thesis
    using c by (cases rule: deliveryMove.cases) (simp_all add: statusInv_def deliveryFinal_def)
qed (use assms in simp)

lemma mapped_inv:
  assumes "mapped rows rows'" "deliveryInv rows" "uniqueTags (requestTags rows')"
  shows "deliveryInv rows'"
proof -
  have ids: "map dc_id rows' = map dc_id rows"
    by (rule mapped_map [OF assms(1)]) (rule rowStep_sel(1))
  have keys: "map keyTag rows' = map keyTag rows"
    by (rule mapped_map [OF assms(1)]) (simp add: keyTag_def rowStep_sel(1-4))
  have "\<forall>r' \<in> set rows'. statusInv r'"
    using mapped_in [OF assms(1)] statusInv_step assms(2) by (fastforce simp: deliveryInv_def)
  moreover have "keyTag ` set rows' = keyTag ` set rows" using keys by (metis list.set_map)
  ultimately show ?thesis using assms(2,3) ids by (simp add: deliveryInv_def)
qed

lemma requestTags_kept:
  assumes "map (\<lambda>r. (dc_id r, dc_worker r, dc_request r)) rows' = map (\<lambda>r. (dc_id r, dc_worker r, dc_request r)) rows"
  shows "requestTags rows' = requestTags rows"
proof -
  have "requestTags xs = set (filter (\<lambda>t. snd (snd t) \<noteq> []) (map (\<lambda>r. (dc_id r, dc_worker r, dc_request r)) xs))" for xs
    by (auto simp: requestTags_def requestTag_def)
  then show ?thesis by (simp only: assms)
qed

lemma uniqueTags_insert:
  assumes "uniqueTags T" "\<And>j. (j, a) \<in> T \<Longrightarrow> j = i"
  shows "uniqueTags (insert (i, a) T)"
  using assms unfolding uniqueTags_def by (metis insert_iff prod.inject)

lemma uniqueTags_subset: "S \<subseteq> T \<Longrightarrow> uniqueTags T \<Longrightarrow> uniqueTags S"
  unfolding uniqueTags_def by (meson subsetD)

lemma row_update_map:
  assumes "\<And>r. g (f r) = g r"
  shows "map g (row_update P f rows) = map g rows"
  using assms by (simp add: row_update_def)

lemma transition_tags:
  "transition rows i old new now t reason evidence fb = Inr rows' \<Longrightarrow> requestTags rows' = requestTags rows"
  by (drule transition_Inr) (auto intro!: requestTags_kept row_update_map)

lemma retire_tags: "requestTags (fst (retire rows i status now reason)) = requestTags rows"
  by (simp add: retire_def transition_tags split: sum.split)

lemma Complete_tags: "requestTags (fst (Complete now inp rows)) = requestTags rows"
  by (simp add: Complete_def completeClaimed_def transition_tags split: option.split sum.split)

lemma CancelDelivery_tags: "requestTags (fst (CancelDelivery now i rows)) = requestTags rows"
  by (simp add: CancelDelivery_def transition_tags split: option.split sum.split)

lemma Reconcile_tags: "requestTags (Reconcile now rows) = requestTags rows"
proof -
  have "map (\<lambda>r. (dc_id r, dc_worker r, dc_request r)) (row_update P (endedAs st reason now) xs) =
      map (\<lambda>r. (dc_id r, dc_worker r, dc_request r)) xs" for P st reason xs
    by (rule row_update_map) (simp add: endedAs_def)
  then show ?thesis unfolding Reconcile_def by (intro requestTags_kept) simp
qed

lemma claimPending_Claimed:
  assumes "snd (claimPending cfg au now claimID inp c rows) = Claimed x"
  shows "now < dc_expires c" "currentCheck au c = None" "cr_worker inp = dc_worker c" "cr_session inp = dc_session c"
    "\<not> duplicateRequest inp (dc_id c) rows" "x = claimedRow cfg now claimID inp c"
    "fst (claimPending cfg au now claimID inp c rows) =
       row_update (\<lambda>r. dc_id r = dc_id c \<and> dc_status r = ''pending'') (claimedRow cfg now claimID inp) rows"
proof -
  have "snd (retire rs i st t why) \<noteq> Claimed x" for rs i st t why
    by (simp add: retire_def split: sum.split)
  with assms have "now < dc_expires c \<and> currentCheck au c = None \<and> cr_worker inp = dc_worker c \<and>
      cr_session inp = dc_session c \<and> \<not> duplicateRequest inp (dc_id c) rows \<and> x = claimedRow cfg now claimID inp c"
    by (simp add: claimPending_def split: if_splits option.splits)
  then show "now < dc_expires c" "currentCheck au c = None" "cr_worker inp = dc_worker c" "cr_session inp = dc_session c"
    "\<not> duplicateRequest inp (dc_id c) rows" "x = claimedRow cfg now claimID inp c"
    "fst (claimPending cfg au now claimID inp c rows) =
       row_update (\<lambda>r. dc_id r = dc_id c \<and> dc_status r = ''pending'') (claimedRow cfg now claimID inp) rows"
    by (simp_all add: claimPending_def)
qed

lemma claimPending_unclaimed:
  assumes "\<And>x. snd (claimPending cfg au now claimID inp c rows) \<noteq> Claimed x"
  shows "requestTags (fst (claimPending cfg au now claimID inp c rows)) = requestTags rows"
proof (cases "currentCheck au c")
  case None
  have "requestTags (fst (claimPending cfg au now claimID inp c rows)) = requestTags rows"
    if "now < dc_expires c" "cr_worker inp = dc_worker c" "cr_session inp = dc_session c"
       "\<not> duplicateRequest inp (dc_id c) rows"
    using assms [of "claimedRow cfg now claimID inp c"] None that by (simp add: claimPending_def)
  with None show ?thesis by (simp add: claimPending_def retire_tags)
qed (simp add: claimPending_def retire_tags)

lemma claimPending_tags:
  assumes "deliveryInv rows" "c \<in> set rows" "dc_status c = ''pending''"
  shows "uniqueTags (requestTags (fst (claimPending cfg au now claimID inp c rows)))"
proof (cases "snd (claimPending cfg au now claimID inp c rows)")
  case (Claimed x)
  let ?P = "\<lambda>r. dc_id r = dc_id c \<and> dc_status r = ''pending''"
  let ?rows' = "row_update ?P (claimedRow cfg now claimID inp) rows"
  note w = claimPending_Claimed(3) [OF Claimed] and nd = claimPending_Claimed(5) [OF Claimed]
    and r = claimPending_Claimed(7) [OF Claimed]
  from assms(1,2) have one: "r = c" if "r \<in> set rows" "dc_id r = dc_id c" for r
    using that by (auto simp: deliveryInv_def distinct_map inj_on_def)
  have old: "uniqueTags (requestTags rows)" using assms(1) by (simp add: deliveryInv_def)
  have new: "requestTags ?rows' \<subseteq> insert (dc_id c, dc_worker c, cr_request inp) (requestTags rows)"
  proof
    fix t assume "t \<in> requestTags ?rows'"
    then obtain r where r: "r \<in> set ?rows'" "dc_request r \<noteq> []" "t = requestTag r"
      by (auto simp: requestTags_def)
    from r(1) consider (kept) "r \<in> set rows" | (hit) s where "s \<in> set rows" "?P s" "r = claimedRow cfg now claimID inp s"
      by (auto simp: set_row_update)
    then show "t \<in> insert (dc_id c, dc_worker c, cr_request inp) (requestTags rows)"
    proof cases
      case kept
      with r show ?thesis by (auto simp: requestTags_def)
    next
      case hit
      with one [of s] r(3) show ?thesis by (simp add: requestTag_def claimedRow_def)
    qed
  qed
  have "uniqueTags (insert (dc_id c, dc_worker c, cr_request inp) (requestTags rows))"
  proof (rule uniqueTags_insert [OF old])
    fix j assume "(j, dc_worker c, cr_request inp) \<in> requestTags rows"
    then obtain x where "x \<in> set rows" "dc_id x = j" "dc_worker x = dc_worker c" "dc_request x = cr_request inp"
      by (auto simp: requestTags_def requestTag_def)
    with nd w show "j = dc_id c" by (auto simp: duplicateRequest_def list_ex_iff)
  qed
  from uniqueTags_subset [OF new this] show ?thesis by (simp only: r)
qed (use assms(1) in \<open>simp_all add: claimPending_unclaimed deliveryInv_def\<close>)

end
