(* ===== verification/Delivery_Machine.thy ===== *)
theory Delivery_Machine
  imports Delivery
begin

text \<open>
  The theorems of the delivery queue: every run of its transactions keeps the table's
  invariant and moves each row along the status machine; confirming and claiming are
  idempotent; a claim is handed out only under current authority; what completion and
  reconciliation do around the acknowledgement deadline.
\<close>

subsection \<open>Runs\<close>

lemma claimOne_tags:
  assumes "deliveryInv rows"
  shows "uniqueTags (requestTags (fst (claimOne cfg au now claimID inp i rows)))"
proof (cases "row_get dc_id i rows")
  case None
  with assms show ?thesis by (simp add: claimOne_def deliveryInv_def)
next
  case (Some c)
  then have "c \<in> set rows" by (auto dest: row_get_Some)
  with Some assms claimPending_tags show ?thesis by (simp add: claimOne_def deliveryInv_def)
qed

lemma inserted_inv:
  assumes "inserted rows rows'" "deliveryInv rows"
  shows "deliveryInv rows'"
proof -
  from assms(1) obtain c where c: "rows' = rows @ [c]" "dc_id c \<notin> dc_id ` set rows" "dc_status c = ''pending''"
    "dc_request c = []" "findByKey (dc_project c) (dc_issue c) (dc_key c) rows = None"
    unfolding inserted_def by blast
  have "requestTags rows' = requestTags rows" by (auto simp: requestTags_def c(1,4))
  moreover have "uniqueTags (insert (keyTag c) (keyTag ` set rows))"
    unfolding keyTag_def [of c]
  proof (rule uniqueTags_insert)
    fix j assume "(j, dc_project c, dc_issue c, dc_key c) \<in> keyTag ` set rows"
    with c(5) show "j = dc_id c" by (auto simp: findByKey_def find_None_iff keyTag_def)
  qed (use assms(2) in \<open>simp add: deliveryInv_def\<close>)
  moreover have "statusInv c" by (simp add: statusInv_def c(3,4))
  ultimately show ?thesis using assms(2) c(1,2) by (auto simp: deliveryInv_def)
qed

lemma step_inv:
  assumes "delivery_step hash cfg rows rows'" "deliveryInv rows"
  shows "deliveryInv rows'"
proof -
  have old: "uniqueTags (requestTags rows)" using assms(2) by (simp add: deliveryInv_def)
  from assms(1) show ?thesis
  proof (cases rule: delivery_step.cases)
    case (create au now newID p i inp)
    then show ?thesis using CreateDelivery_cases inserted_inv assms(2) by metis
  next
    case (claim req au now claimID i)
    then have "cr_request req \<noteq> []" by auto
    then show ?thesis unfolding claim(1)
      by (rule mapped_inv [OF mapped_claimOne assms(2) claimOne_tags [OF assms(2)]])
  next
    case complete
    show ?thesis unfolding complete by (rule mapped_inv [OF mapped_Complete assms(2)]) (simp add: Complete_tags old)
  next
    case cancel
    show ?thesis unfolding cancel
      by (rule mapped_inv [OF mapped_CancelDelivery assms(2)]) (simp add: CancelDelivery_tags old)
  next
    case reconcile
    show ?thesis unfolding reconcile
      by (rule mapped_inv [OF mapped_Reconcile assms(2)]) (simp add: Reconcile_tags old)
  qed
qed

lemma run_inv: "delivery_run hash cfg rows rows' \<Longrightarrow> deliveryInv rows \<Longrightarrow> deliveryInv rows'"
  by (induction rule: rtranclp_induct) (auto intro: step_inv)

lemma deliveryInv_Nil [simp]: "deliveryInv []"
  by (simp add: deliveryInv_def uniqueTags_def requestTags_def)

lemma uniqueTags_single: "uniqueTags {t}"
  by (cases t) (simp add: uniqueTags_def)

lemma deliveryInv_single:
  assumes "statusInv c"
  shows "deliveryInv [c]"
proof -
  have "requestTags [c] \<subseteq> {requestTag c}" by (auto simp: requestTags_def)
  from uniqueTags_subset [OF this uniqueTags_single] assms show ?thesis
    by (simp add: deliveryInv_def uniqueTags_single)
qed

text \<open>\<open>ClaimNext\<close> is a sequence of the steps: one transaction for each candidate.\<close>

lemma claimLoop_run:
  assumes "\<not> blank (cr_request inp)"
  shows "delivery_run hash cfg rows (fst (claimLoop cfg world inp n cands rows))"
proof (induction cands arbitrary: n rows)
  case (Cons cand cands)
  let ?w = "world n"
  obtain rows' oc where one: "claimOne cfg (wd_authority ?w) (wd_now ?w) (wd_id ?w) inp (dc_id cand) rows = (rows', oc)"
    by fastforce
  have "delivery_step hash cfg rows rows'"
    using delivery_step.claim [OF assms, of hash cfg rows "wd_authority ?w" "wd_now ?w" "wd_id ?w" "dc_id cand"]
    by (simp add: one)
  then have "delivery_run hash cfg rows rows'" by (rule r_into_rtranclp)
  moreover from this Cons.IH have "delivery_run hash cfg rows (fst (claimLoop cfg world inp (Suc n) cands rows'))"
    by (rule rtranclp_trans)
  ultimately show ?case by (simp add: one split: claim_outcome.split)
qed simp

lemma ClaimNext_run: "delivery_run hash cfg rows (fst (ClaimNext cfg world inp rows))"
  by (simp add: ClaimNext_def claimLoop_run split: option.split)

text \<open>What a run does to one row.\<close>

definition rowPath :: "DeliveryCommand \<Rightarrow> DeliveryCommand \<Rightarrow> bool" where
  "rowPath r r' =
     (frozen r' = frozen r \<and> deliveryMove\<^sup>*\<^sup>* (dc_status r) (dc_status r') \<and>
      (deliveryFinal (dc_status r) \<longrightarrow> r' = r) \<and>
      (dc_status r \<noteq> ''pending'' \<longrightarrow> claimOf r' = claimOf r \<and> dc_status r' \<noteq> ''pending''))"

lemma no_return: "deliveryMove s t \<Longrightarrow> t \<noteq> ''pending''" "deliveryMove s ''claimed'' \<Longrightarrow> s = ''pending''"
  by (auto elim: deliveryMove.cases)

lemma rowPath_step:
  assumes "rowPath r s" "rowStep s t"
  shows "rowPath r t"
proof (cases "t = s")
  case False
  with assms(2) have m: "deliveryMove (dc_status s) (dc_status t)" "frozen t = frozen s"
    and k: "dc_status t \<noteq> ''claimed'' \<Longrightarrow> claimOf t = claimOf s"
    by (auto simp: rowStep_def)
  have nf: "\<not> deliveryFinal (dc_status s)" using m(1) delivery_status.final_stuck by blast
  with assms(1) have "\<not> deliveryFinal (dc_status r)" by (auto simp: rowPath_def)
  moreover have "claimOf t = claimOf r" if "dc_status r \<noteq> ''pending''"
  proof -
    from that assms(1) have s: "claimOf s = claimOf r" "dc_status s \<noteq> ''pending''" by (simp_all add: rowPath_def)
    with m(1) no_return(2) have "dc_status t \<noteq> ''claimed''" by metis
    with k s(1) show ?thesis by simp
  qed
  ultimately show ?thesis using assms(1) m no_return(1) [OF m(1)]
    by (auto simp: rowPath_def intro: rtranclp.rtrancl_into_rtrancl)
qed (use assms in simp)

lemma rowPath_refl [simp]: "rowPath r r"
  by (simp add: rowPath_def)

lemma step_row:
  assumes "delivery_step hash cfg rows rows'" "r \<in> set rows"
  shows "\<exists>r' \<in> set rows'. rowStep r r'"
  using assms(1)
proof (cases rule: delivery_step_cases)
  case 2
  then have "r \<in> set rows'" using assms(2) by (auto simp: inserted_def)
  then show ?thesis using rowStep_refl by blast
qed (use mapped_out assms(2) in blast)

lemma run_row:
  assumes "delivery_run hash cfg rows rows'" "r \<in> set rows"
  shows "\<exists>r' \<in> set rows'. rowPath r r'"
  using assms(1)
proof (induction rule: rtranclp_induct)
  case base
  with assms(2) show ?case using rowPath_refl by blast
next
  case (step ys zs)
  then show ?case using step_row rowPath_step by blast
qed

lemma unique_row: "deliveryInv rows \<Longrightarrow> r \<in> set rows \<Longrightarrow> s \<in> set rows \<Longrightarrow> dc_id r = dc_id s \<Longrightarrow> r = s"
  unfolding deliveryInv_def distinct_map by (meson inj_onD)

lemma rowPath_id: "rowPath r r' \<Longrightarrow> dc_id r' = dc_id r"
  unfolding rowPath_def by (meson frozen_sel(1))

text \<open>Reading a row by its keys.\<close>

lemma findByKey_path:
  assumes "deliveryInv rows'" "c \<in> set rows" "dc_project c = p" "dc_issue c = i" "dc_key c = k"
    "delivery_run hash cfg rows rows'"
  obtains c' where "findByKey p i k rows' = Some c'" "rowPath c c'"
proof -
  from run_row [OF assms(6,2)] obtain c' where c': "c' \<in> set rows'" "rowPath c c'" by blast
  from c'(2) have "frozen c' = frozen c" by (simp add: rowPath_def)
  note same = frozen_sel [OF this]
  from c'(1) same assms(3-5) have "findByKey p i k rows' \<noteq> None" by (auto simp: findByKey_def find_None_iff)
  then obtain d where d: "findByKey p i k rows' = Some d" by blast
  then have "d \<in> set rows'" "dc_project d = p" "dc_issue d = i" "dc_key d = k"
    by (auto simp: findByKey_def dest: find_Some_in)
  note in_d = this
  have "keyTag d \<in> keyTag ` set rows'" "keyTag c' \<in> keyTag ` set rows'"
    using in_d(1) c'(1) by blast+
  moreover have "snd (keyTag d) = snd (keyTag c')" using same in_d assms(3-5) by (simp add: keyTag_def)
  ultimately have "fst (keyTag d) = fst (keyTag c')"
    using assms(1) unfolding deliveryInv_def uniqueTags_def by (metis prod.collapse)
  then have "d = c'" using unique_row [OF assms(1) in_d(1) c'(1)] by (simp add: keyTag_def)
  with d c'(2) that show thesis by simp
qed

lemma findClaim_unique:
  assumes "deliveryInv rows" "c \<in> set rows" "dc_worker c = w" "dc_request c = q" "q \<noteq> []"
  shows "findClaim w q rows = Some c"
proof -
  from assms have "findClaim w q rows \<noteq> None" by (auto simp: findClaim_def find_None_iff)
  then obtain d where d: "findClaim w q rows = Some d" by blast
  then have in_d: "d \<in> set rows" "dc_worker d = w" "dc_request d = q"
    by (auto simp: findClaim_def dest: find_Some_in)
  then have "(dc_id d, w, q) \<in> requestTags rows" "(dc_id c, w, q) \<in> requestTags rows"
    using assms(2-5) by (auto simp: requestTags_def requestTag_def image_iff)
  with assms(1) have "dc_id d = dc_id c" unfolding deliveryInv_def uniqueTags_def by blast
  with unique_row [OF assms(1) in_d(1) assms(2)] d show ?thesis by simp
qed

text \<open>The candidates of one claim.\<close>

lemma claimPending_other:
  assumes "\<And>x. snd (claimPending cfg au now claimID inp c rows) \<noteq> Claimed x"
    "r \<in> set (fst (claimPending cfg au now claimID inp c rows))" "dc_status r = ''pending'' \<or> dc_status r = ''claimed''"
  shows "r \<in> set rows"
proof -
  have ret: "r \<in> set rows" if "r \<in> set (fst (retire rows i st now why))" "st = ''expired'' \<or> st = ''invalidated''" for i st why
  proof (cases "transition rows i ''pending'' st now None [] [] why")
    case (Inr rows')
    with that(1) have "r \<in> set rows'" by (simp add: retire_def)
    with transition_Inr [OF Inr] assms(3) that(2) show ?thesis by (auto simp: set_row_update)
  qed (use that in \<open>simp add: retire_def\<close>)
  show ?thesis
  proof (cases "currentCheck au c")
    case None
    have "\<not> (now < dc_expires c \<and> cr_worker inp = dc_worker c \<and> cr_session inp = dc_session c \<and>
         \<not> duplicateRequest inp (dc_id c) rows)"
      using assms(1) [of "claimedRow cfg now claimID inp c"] None by (auto simp: claimPending_def split: if_splits)
    with None assms(2) ret show ?thesis by (auto simp: claimPending_def split: if_splits)
  next
    case (Some e)
    with assms(2) ret show ?thesis by (auto simp: claimPending_def split: if_splits)
  qed
qed

lemma findClaim_tags:
  "q \<noteq> [] \<Longrightarrow> findClaim w q rows = None \<longleftrightarrow> (\<forall>i. (i, w, q) \<notin> requestTags rows)"
  by (auto simp: findClaim_def find_None_iff requestTags_def requestTag_def)

text \<open>How one pass of the loop that claims something ends: which candidate, under which
  authority, and that it is the only row newly claimed.\<close>

definition claimedFrom :: "DeliveryConfig \<Rightarrow> World \<Rightarrow> ClaimRequest \<Rightarrow> deliveryRows \<Rightarrow> deliveryRows \<Rightarrow> Execution \<Rightarrow> DeliveryCommand \<Rightarrow> bool" where
  "claimedFrom cfg w inp rows rows1 e c =
     (c \<in> set rows \<and> dc_status c = ''pending'' \<and> wd_now w < dc_expires c \<and>
      currentCheck (wd_authority w) c = None \<and> dc_worker c = cr_worker inp \<and> dc_session c = cr_session inp \<and>
      ex_command e = claimedRow cfg (wd_now w) (wd_id w) inp c \<and> ex_claim e = wd_id w \<and> ex_prompt e = dc_prompt c \<and>
      ex_command e \<in> set rows1 \<and>
      (\<forall>r \<in> set rows1. dc_status r = ''claimed'' \<longrightarrow> dc_id r = dc_id c \<or> r \<in> set rows))"

lemma claimLoop_claims:
  assumes "claimLoop cfg world inp n cands rows = (rows1, Inr (Some e))"
    "findClaim (cr_worker inp) (cr_request inp) rows = None" "cr_request inp \<noteq> []"
  shows "\<exists>m c. claimedFrom cfg (world m) inp rows rows1 e c"
  using assms(1,2)
proof (induction cands arbitrary: n rows)
  case (Cons cand cands)
  let ?w = "world n"
  let ?c1 = "claimOne cfg (wd_authority ?w) (wd_now ?w) (wd_id ?w) inp (dc_id cand) rows"
  obtain rows' oc where one: "?c1 = (rows', oc)" by (cases ?c1)
  show ?case
  proof (cases oc)
    case (Claimed x)
    with one obtain c where get: "row_get dc_id (dc_id cand) rows = Some c" and p: "dc_status c = ''pending''"
      and res: "claimPending cfg (wd_authority ?w) (wd_now ?w) (wd_id ?w) inp c rows = (rows', Claimed x)"
      by (auto simp: claimOne_def split: option.splits if_splits)
    from res have s: "snd (claimPending cfg (wd_authority ?w) (wd_now ?w) (wd_id ?w) inp c rows) = Claimed x" by simp
    note cl = claimPending_Claimed [OF s]
    have c: "c \<in> set rows" using get by (auto dest: row_get_Some)
    have rows': "rows' = row_update (\<lambda>r. dc_id r = dc_id c \<and> dc_status r = ''pending'') (claimedRow cfg (wd_now ?w) (wd_id ?w) inp) rows"
      using cl(7) res by simp
    from Cons.prems(1) one Claimed have e: "rows1 = rows'" "e = executionOf x" by auto
    have "claimedFrom cfg ?w inp rows rows1 e c"
      using c p cl(1-4,6) unfolding claimedFrom_def e rows'
      by (auto simp: executionOf_def set_row_update claimedRow_def)
    then show ?thesis by blast
  next
    case ClaimSkipped
    from Cons.prems(1) one ClaimSkipped have loop: "claimLoop cfg world inp (Suc n) cands rows' = (rows1, Inr (Some e))"
      by simp
    have keep: "requestTags rows' = requestTags rows \<and>
        (\<forall>r \<in> set rows'. dc_status r = ''pending'' \<or> dc_status r = ''claimed'' \<longrightarrow> r \<in> set rows)"
    proof (cases "row_get dc_id (dc_id cand) rows")
      case (Some c)
      show ?thesis
      proof (cases "dc_status c = ''pending''")
        case True
        with Some one have cp: "claimPending cfg (wd_authority ?w) (wd_now ?w) (wd_id ?w) inp c rows = (rows', oc)"
          by (simp add: claimOne_def)
        then have "snd (claimPending cfg (wd_authority ?w) (wd_now ?w) (wd_id ?w) inp c rows) \<noteq> Claimed x" for x
          using ClaimSkipped by simp
        from claimPending_unclaimed [OF this] claimPending_other [OF this] cp show ?thesis by simp
      qed (use Some one in \<open>auto simp: claimOne_def\<close>)
    qed (use one in \<open>auto simp: claimOne_def\<close>)
    then have "findClaim (cr_worker inp) (cr_request inp) rows' = None"
      using Cons.prems(2) assms(3) by (simp add: findClaim_tags)
    from Cons.IH [OF loop this] keep show ?thesis unfolding claimedFrom_def by blast
  next
    case (ClaimFailed err)
    with Cons.prems(1) one show ?thesis by simp
  next
    case ClaimDuplicate
    have "rows' = rows"
      using one ClaimDuplicate
      by (auto simp: claimOne_def claimPending_def retire_def split: option.splits if_splits sum.splits)
    with Cons.prems one ClaimDuplicate show ?thesis by (simp add: repeatedClaim_def)
  qed
qed simp

text \<open>A stored command whose check fails at every moment is not newly claimed.\<close>

lemma unclaimable:
  assumes "\<forall>m. currentCheck (wd_authority (world m)) c \<noteq> None" "deliveryInv rows" "c \<in> set rows"
    and claim: "ClaimNext cfg world req rows = (rows1, Inr (Some e))" "findClaim (cr_worker req) (cr_request req) rows = None"
  shows "dc_id (ex_command e) \<noteq> dc_id c"
proof
  assume same: "dc_id (ex_command e) = dc_id c"
  from claim have "\<not> blank (cr_request req)"
    and loop: "claimLoop cfg world req 0 (pendingFor (cr_worker req) rows) rows = (rows1, Inr (Some e))"
    by (auto simp: ClaimNext_def split: if_splits)
  then have "cr_request req \<noteq> []" by auto
  from claimLoop_claims [OF loop claim(2) this] obtain m d where "claimedFrom cfg (world m) req rows rows1 e d" by blast
  then have "d \<in> set rows" "dc_id d = dc_id c" "currentCheck (wd_authority (world m)) d = None"
    using same by (simp_all add: claimedFrom_def claimedRow_def)
  with unique_row [OF assms(2) _ assms(3)] assms(1) show False by blast
qed

subsection \<open>A sample queue for the witnesses\<close>

definition sampleSummary :: ContextSummary where
  "sampleSummary =
     \<lparr>sy_version = 1, sy_hash = ''ctx'', sy_repository = \<lparr>ri_project = 1, ri_owner = ''o'', ri_repository = ''r'',
        ri_workflow_mode = ''standard''\<rparr>,
      sy_issue = \<lparr>ii_github_id = 9, ii_number = 3, ii_title = ''t'', ii_body = [], ii_url = ''u'', ii_lifecycle = ''active'',
        ii_attention = emptyAttention\<rparr>,
      sy_head = ''abc'',
      sy_route = emptyRoute\<lparr>rt_action := ''dispatch'', rt_target_role := ''qa'', rt_lane := ''lane''\<rparr>,
      sy_expected_event = ''worker_result'', sy_evidence_count = 0, sy_warning_count = 0\<rparr>"

definition samplePromptPlan :: PromptPlan where
  "samplePromptPlan =
     \<lparr>pp_version = 1, pp_action = ''dispatch'', pp_target_role = ''qa'', pp_lane = ''lane'', pp_summary = ''s'',
      pp_reason = ''r'', pp_risk = ''low'', pp_requires_owner = False, pp_expected_head = ''abc'',
      pp_expected_event = ''worker_result'', pp_guards = [], pp_prohibited = [], pp_prompt = ''do it'', pp_confidence = 1,
      pp_source = \<lparr>sm_kind = ''k'', sm_runtime = ''r'', sm_provider = ''p'', sm_model = ''m'', sm_agent = ''a'', sm_mode = ''x'',
        sm_context_hash = ''ctx''\<rparr>,
      pp_extensions = []\<rparr>"

definition samplePolicy :: PolicyDecision where
  "samplePolicy = \<lparr>pd_status = ''approved'', pd_violations = [], pd_context_hash = ''ctx'', pd_plan_hash = ''plan'', pd_decided = 1\<rparr>"

definition sampleResult :: "PromptContext \<Rightarrow> GenerationResult" where
  "sampleResult px = \<lparr>gr_status = ''approved'', gr_context = px, gr_plan = Some samplePromptPlan,
     gr_decision = samplePolicy, gr_plan_id = 4, gr_created = 1\<rparr>"

definition samplePresence :: BindingSnapshot where
  "samplePresence = \<lparr>bs_lane = ''lane'', bs_binding = ''b'', bs_version = 2, bs_worker = ''w'', bs_session = ''s'',
     bs_kind = ''chatgpt'', bs_ref = ''ref'', bs_ready = True, bs_presence = ''token''\<rparr>"

definition sampleAuthority :: "PromptContext \<Rightarrow> Authority" where
  "sampleAuthority px = \<lparr>au_plan = \<lambda>_ _ _. Inr (sampleResult px), au_summary = \<lambda>_ _. Inr sampleSummary,
     au_resolve = Some (\<lambda>_ _. Inr samplePresence)\<rparr>"

definition sampleConfirmation :: Confirmation where
  "sampleConfirmation = \<lparr>cf_plan = 4, cf_key = ''key'', cf_plan_hash = ''plan'', cf_context_hash = ''ctx'', cf_head = ''abc'',
     cf_lane = ''lane'', cf_binding = ''b'', cf_version = 2, cf_presence = ''token''\<rparr>"

definition sampleConfig :: DeliveryConfig where
  "sampleConfig = \<lparr>dg_pending_ttl = 100, dg_claim_ttl = 10, dg_enabled = True\<rparr>"

definition sampleCommand :: DeliveryCommand where
  "sampleCommand =
     (newCommand id sampleConfig 50 ''d1'' 1 3 sampleConfirmation samplePolicy samplePromptPlan sampleSummary samplePresence)
       \<lparr>dc_key := ''key'', dc_fingerprint := confirmationFingerprint id sampleConfirmation\<rparr>"

definition sampleRequest :: ClaimRequest where
  "sampleRequest = \<lparr>cr_worker = ''w'', cr_session = ''s'', cr_request = ''q''\<rparr>"

definition sampleWorld :: "PromptContext \<Rightarrow> nat \<Rightarrow> World" where
  "sampleWorld px n = \<lparr>wd_now = 60, wd_id = ''claim'', wd_authority = sampleAuthority px\<rparr>"

definition sampleClaimed :: DeliveryCommand where
  "sampleClaimed = claimedRow sampleConfig 60 ''claim'' sampleRequest sampleCommand"

definition sampleDone :: DeliveryCommand where
  "sampleDone = sampleClaimed\<lparr>dc_status := ''delivered''\<rparr>"

definition secondRequest :: ClaimRequest where
  "secondRequest = \<lparr>cr_worker = ''w'', cr_session = ''s'', cr_request = ''q2''\<rparr>"

lemmas sample_defs = sampleSummary_def samplePromptPlan_def samplePolicy_def sampleResult_def samplePresence_def
  sampleAuthority_def sampleConfirmation_def sampleConfig_def sampleRequest_def sampleWorld_def

lemma sample_create:
  "CreateDelivery id sampleConfig (sampleAuthority px) 50 ''d1'' 1 3 sampleConfirmation [] = ([sampleCommand], Inr sampleCommand)"
proof -
  have "authorize id sampleConfig (sampleAuthority px) 50 ''d1'' 1 3 sampleConfirmation =
      Inr (newCommand id sampleConfig 50 ''d1'' 1 3 sampleConfirmation samplePolicy samplePromptPlan sampleSummary samplePresence)"
    by (simp add: authorize_def sample_defs validPlan_def confirmed_def resolve_def completeBinding_def boundAs_def
        emptyRoute_def) code_simp
  moreover have "\<not> blank (cf_key sampleConfirmation)" by code_simp
  ultimately show ?thesis
    by (simp add: CreateDelivery_def findByKey_def sampleCommand_def Let_def) (simp add: sample_defs)
qed

lemma sample_current: "currentCheck (sampleAuthority px) sampleCommand = None"
  by (simp add: currentCheck_def sample_defs sampleCommand_def newCommand_def planCurrent_def validPlan_def
      resolve_def completeBinding_def bindingCurrent_def emptyRoute_def) code_simp

lemma sample_claim:
  "ClaimNext sampleConfig (sampleWorld px) sampleRequest [sampleCommand] = ([sampleClaimed], Inr (Some (executionOf sampleClaimed)))"
proof -
  have f: "dc_status sampleCommand = ''pending''" "dc_worker sampleCommand = ''w''" "dc_session sampleCommand = ''s''"
    "dc_expires sampleCommand = 150" "dc_request sampleCommand = []" "dc_id sampleCommand = ''d1''"
    by (simp_all add: sampleCommand_def newCommand_def sample_defs)
  have "\<not> blank ''w''" "\<not> blank ''s''" "\<not> blank ''q''" by code_simp+
  then show ?thesis
    by (simp add: ClaimNext_def f sampleRequest_def findClaim_def pendingFor_def claimOne_def claimPending_def
        row_get_def sampleWorld_def sample_current duplicateRequest_def row_update_def sampleClaimed_def)
      (simp add: sampleConfig_def)
qed

subsection \<open>Properties\<close>

text \<open>C8. The table refines the status machine. Whatever transactions run on the queue, a row
  that is in it stays in it: its prompt, authority and target never change, its status moves
  along the machine, once it is final nothing of it changes, and once it has left pending its
  claim (claim id, request, claim time and deadline) never changes and it never returns to
  pending.\<close>

theorem delivery_rows_follow_machine:
  assumes "delivery_run hash cfg rows rows'" "r \<in> set rows"
  shows "\<exists>r' \<in> set rows'. dc_id r' = dc_id r \<and> frozen r' = frozen r \<and>
    deliveryMove\<^sup>*\<^sup>* (dc_status r) (dc_status r') \<and>
    (deliveryFinal (dc_status r) \<longrightarrow> r' = r) \<and>
    (dc_status r \<noteq> ''pending'' \<longrightarrow> claimOf r' = claimOf r \<and> dc_status r' \<noteq> ''pending'')"
proof -
  from run_row [OF assms] obtain r' where "r' \<in> set rows'" "rowPath r r'" by blast
  then show ?thesis using rowPath_id unfolding rowPath_def by blast
qed

theorem delivery_rows_follow_machine_witness:
  "\<exists>r' \<in> set (fst (CancelDelivery 70 ''d1'' [sampleCommand])). dc_id r' = dc_id sampleCommand"
proof -
  have "delivery_run id sampleConfig [sampleCommand] (fst (CancelDelivery 70 ''d1'' [sampleCommand]))"
    by (rule r_into_rtranclp) (rule delivery_step.cancel)
  from delivery_rows_follow_machine [OF this] show ?thesis by fastforce
qed

text \<open>C9. The invariant of the table. In every reachable table the ids are distinct, no two
  commands of an issue share an idempotency key, no two commands of a worker share a claim
  request, and each command is pending without a request, claimed with a request and an
  acknowledgement deadline, or final.\<close>

theorem delivery_table_invariant:
  assumes "delivery_run hash cfg [] rows"
  shows "distinct (map dc_id rows) \<and>
    (\<forall>r \<in> set rows. \<forall>s \<in> set rows.
       (dc_project r = dc_project s \<and> dc_issue r = dc_issue s \<and> dc_key r = dc_key s \<longrightarrow> r = s) \<and>
       (dc_request r \<noteq> [] \<and> dc_worker r = dc_worker s \<and> dc_request r = dc_request s \<longrightarrow> r = s)) \<and>
    (\<forall>r \<in> set rows. statusInv r)"
proof -
  have inv: "deliveryInv rows" by (rule run_inv [OF assms]) simp
  have "r = s" if rs: "r \<in> set rows" "s \<in> set rows"
    "dc_project r = dc_project s" "dc_issue r = dc_issue s" "dc_key r = dc_key s" for r s
  proof -
    have "keyTag r \<in> keyTag ` set rows" "keyTag s \<in> keyTag ` set rows" using rs(1,2) by blast+
    moreover have "snd (keyTag r) = snd (keyTag s)" using rs by (simp add: keyTag_def)
    ultimately have "fst (keyTag r) = fst (keyTag s)"
      using inv unfolding deliveryInv_def uniqueTags_def by (metis prod.collapse)
    with unique_row [OF inv rs(1,2)] show ?thesis by (simp add: keyTag_def)
  qed
  moreover have "r = s" if rs: "r \<in> set rows" "s \<in> set rows" "dc_request r \<noteq> []"
    "dc_worker r = dc_worker s" "dc_request r = dc_request s" for r s
  proof -
    have "findClaim (dc_worker r) (dc_request r) rows = Some r" "findClaim (dc_worker s) (dc_request s) rows = Some s"
      using findClaim_unique [OF inv rs(1)] findClaim_unique [OF inv rs(2)] rs(3,5) by simp_all
    then show ?thesis unfolding rs(4,5) by (metis option.inject)
  qed
  ultimately show ?thesis using inv unfolding deliveryInv_def by blast
qed

theorem delivery_table_invariant_witness: "statusInv sampleCommand"
proof -
  have "delivery_run id sampleConfig [] [sampleCommand]"
    using delivery_step.create [of id sampleConfig "[]" "sampleAuthority undefined" 50 "''d1''" 1 3 sampleConfirmation]
    by (simp add: sample_create)
  from delivery_table_invariant [OF this] show ?thesis by simp
qed

text \<open>C10. Confirming is idempotent. After a confirmation returned a command, repeating it at
  any later time - after any transactions, with any authority, clock and random id - returns
  that same command and changes nothing; a confirmation that reuses the key for another plan,
  context, Head, lane, binding or presence is refused as a conflict.\<close>

theorem create_idempotent:
  assumes "CreateDelivery hash cfg au now newID p i inp rows = (rows1, Inr c)" "deliveryInv rows"
    "delivery_run hash cfg rows1 rows2"
  shows "(\<exists>c'. CreateDelivery hash cfg au' now' newID' p i inp rows2 = (rows2, Inr c') \<and> frozen c' = frozen c \<and>
        c' \<in> set rows2) \<and>
    (\<forall>inp'. cf_key inp' = cf_key inp \<and> cf_plan inp' > 0 \<and>
        confirmationFingerprint hash inp' \<noteq> confirmationFingerprint hash inp \<longrightarrow>
        CreateDelivery hash cfg au' now' newID' p i inp' rows2 = (rows2, Inl DeliveryConflict))"
proof -
  from assms(1) have pre: "dg_enabled cfg" "\<not> (p \<le> 0 \<or> i \<le> 0 \<or> cf_plan inp \<le> 0 \<or> blank (cf_key inp))"
    by (auto simp: CreateDelivery_def split: if_splits)
  have c: "c \<in> set rows1 \<and> dc_project c = p \<and> dc_issue c = i \<and> dc_key c = cf_key inp \<and>
      existingFingerprint hash c = confirmationFingerprint hash inp"
  proof (cases "findByKey p i (cf_key inp) rows")
    case (Some e)
    then have "rows1 = rows" "c = e" "existingFingerprint hash c = confirmationFingerprint hash inp"
      using assms(1) pre by (auto simp: CreateDelivery_def split: if_splits)
    with Some show ?thesis by (auto simp: findByKey_def dest!: find_Some_in)
  next
    case None
    with assms(1) pre obtain c0 where a: "authorize hash cfg au now newID p i inp = Inr c0"
      by (auto simp: CreateDelivery_def split: sum.splits)
    with None assms(1) pre have "rows1 = rows @ [c]" "c = c0\<lparr>dc_key := cf_key inp, dc_fingerprint := confirmationFingerprint hash inp\<rparr>"
      by (auto simp: CreateDelivery_def Let_def split: if_splits)
    with authorize_new [OF a] show ?thesis by (simp add: existingFingerprint_def)
  qed
  have "delivery_step hash cfg rows rows1"
    using delivery_step.create [of hash cfg rows au now newID p i inp] assms(1) by simp
  from run_inv [OF assms(3) step_inv [OF this assms(2)]] have inv: "deliveryInv rows2" .
  from c obtain c' where c': "findByKey p i (cf_key inp) rows2 = Some c'" "rowPath c c'"
    using findByKey_path [OF inv _ _ _ _ assms(3)] by blast
  then have fz: "frozen c' = frozen c" by (simp add: rowPath_def)
  have fp: "existingFingerprint hash c' = confirmationFingerprint hash inp" using frozen_sel(8) [OF fz] c by simp
  have "c' \<in> set rows2" using c'(1) by (auto simp: findByKey_def dest: find_Some_in)
  then show ?thesis using pre c'(1) fp fz by (auto simp: CreateDelivery_def)
qed

theorem create_idempotent_witness:
  "\<exists>c'. CreateDelivery id sampleConfig (sampleAuthority undefined) 90 ''d2'' 1 3 sampleConfirmation [sampleCommand] = ([sampleCommand], Inr c')"
  using create_idempotent [OF sample_create deliveryInv_Nil rtranclp.rtrancl_refl] by blast

text \<open>C11. A command is claimed only under current authority. When \<open>ClaimNext\<close> hands a command
  out that the request had not claimed before, that command was pending for this worker and
  session, had not expired, and at that moment its plan, context, route and binding were
  current; it is stored as claimed with a fresh deadline, its prompt is the confirmed one, and
  no other row became claimed.\<close>

theorem claim_needs_authority:
  assumes "ClaimNext cfg world inp rows = (rows1, Inr (Some e))"
    "findClaim (cr_worker inp) (cr_request inp) rows = None"
  shows "\<exists>m c. c \<in> set rows \<and> dc_status c = ''pending'' \<and> dc_worker c = cr_worker inp \<and>
    dc_session c = cr_session inp \<and> wd_now (world m) < dc_expires c \<and>
    currentCheck (wd_authority (world m)) c = None \<and>
    ex_command e = claimedRow cfg (wd_now (world m)) (wd_id (world m)) inp c \<and>
    ex_claim e = wd_id (world m) \<and> ex_prompt e = dc_prompt c \<and> ex_command e \<in> set rows1 \<and>
    (\<forall>r \<in> set rows1. dc_status r = ''claimed'' \<longrightarrow> dc_id r = dc_id c \<or> r \<in> set rows)"
proof -
  from assms have "\<not> blank (cr_request inp)" and loop: "claimLoop cfg world inp 0 (pendingFor (cr_worker inp) rows) rows = (rows1, Inr (Some e))"
    by (auto simp: ClaimNext_def split: if_splits)
  then have "cr_request inp \<noteq> []" by auto
  from claimLoop_claims [OF loop assms(2) this] obtain m c where f: "claimedFrom cfg (world m) inp rows rows1 e c" by blast
  then show ?thesis unfolding claimedFrom_def by blast
qed

theorem claim_needs_authority_witness:
  "\<exists>c. c \<in> set [sampleCommand] \<and> dc_status c = ''pending'' \<and> ex_prompt (executionOf sampleClaimed) = dc_prompt c"
proof -
  have "findClaim (cr_worker sampleRequest) (cr_request sampleRequest) [sampleCommand] = None"
    by (simp add: findClaim_def sampleRequest_def sampleCommand_def newCommand_def)
  from claim_needs_authority [OF sample_claim this] show ?thesis by blast
qed

text \<open>C12. Claiming is idempotent. After \<open>ClaimNext\<close> handed out a command, repeating the same
  request after any further transactions changes nothing and hands out nothing else: it returns
  the command with the same claim while it is still claimed, and a conflict once it is final.\<close>

lemma frozen_claimed: "frozen (claimedRow cfg now i inp c) = frozen c"
  by (simp add: frozen_def claimedRow_def)

lemma ClaimNext_claimed:
  assumes "ClaimNext cfg world inp rows = (rows1, Inr (Some e))" "deliveryInv rows"
  shows "ex_command e \<in> set rows1 \<and> dc_status (ex_command e) = ''claimed'' \<and> dc_worker (ex_command e) = cr_worker inp \<and>
    dc_session (ex_command e) = cr_session inp \<and> dc_request (ex_command e) = cr_request inp \<and>
    e = executionOf (ex_command e) \<and> \<not> blank (cr_worker inp) \<and> \<not> blank (cr_session inp) \<and> \<not> blank (cr_request inp) \<and>
    dg_enabled cfg"
proof (cases "findClaim (cr_worker inp) (cr_request inp) rows")
  case None
  from assms(1) None have pre: "\<not> blank (cr_worker inp)" "\<not> blank (cr_session inp)" "\<not> blank (cr_request inp)" "dg_enabled cfg"
    and loop: "claimLoop cfg world inp 0 (pendingFor (cr_worker inp) rows) rows = (rows1, Inr (Some e))"
    by (auto simp: ClaimNext_def split: if_splits)
  then have "cr_request inp \<noteq> []" by auto
  from claimLoop_claims [OF loop None this] obtain m c where f: "claimedFrom cfg (world m) inp rows rows1 e c" by blast
  then have x: "ex_command e = claimedRow cfg (wd_now (world m)) (wd_id (world m)) inp c" by (simp add: claimedFrom_def)
  from f pre show ?thesis
    by (cases e) (simp add: claimedFrom_def x executionOf_def claimedRow_def)
next
  case (Some c)
  then have c: "c \<in> set rows" "dc_worker c = cr_worker inp" "dc_request c = cr_request inp"
    by (auto simp: findClaim_def dest: find_Some_in)
  with Some assms(1) show ?thesis by (auto simp: ClaimNext_def executionOf_def split: if_splits)
qed

theorem claim_idempotent:
  assumes "ClaimNext cfg world inp rows = (rows1, Inr (Some e))" "deliveryInv rows"
    "delivery_run hash cfg rows1 rows2"
  shows "(\<exists>c. c \<in> set rows2 \<and> rowPath (ex_command e) c \<and>
    ClaimNext cfg world' inp rows2 =
      (rows2, if dc_status c = ''claimed'' then Inr (Some \<lparr>ex_command = c, ex_claim = ex_claim e, ex_prompt = ex_prompt e\<rparr>)
              else Inl DeliveryConflict))"
proof -
  note cl = ClaimNext_claimed [OF assms(1,2)]
  have "delivery_run hash cfg rows rows1" using ClaimNext_run [of hash cfg rows world inp] assms(1) by simp
  from run_inv [OF this assms(2)] have inv1: "deliveryInv rows1" .
  from run_row [OF assms(3)] cl obtain c where c: "c \<in> set rows2" "rowPath (ex_command e) c" by blast
  then have fz: "frozen c = frozen (ex_command e)" and co: "claimOf c = claimOf (ex_command e)"
    using cl by (simp_all add: rowPath_def)
  have req: "dc_request c = cr_request inp" "dc_claim c = dc_claim (ex_command e)" using co cl by (simp_all add: claimOf_def)
  have "findClaim (cr_worker inp) (cr_request inp) rows2 = Some c"
  proof (rule findClaim_unique [OF run_inv [OF assms(3) inv1] c(1)])
    show "dc_worker c = cr_worker inp" using frozen_sel(5) [OF fz] cl by simp
    show "cr_request inp \<noteq> []" using cl by auto
  qed (fact req(1))
  moreover have "dc_session c = cr_session inp" using frozen_sel(6) [OF fz] cl by simp
  moreover have "ex_claim e = dc_claim c" "ex_prompt e = dc_prompt c"
    using cl req(2) frozen_sel(7) [OF fz] by (metis executionOf_def Execution.select_convs(2,3))+
  ultimately show ?thesis using c cl by (intro exI [of _ c]) (simp add: ClaimNext_def executionOf_def)
qed

theorem claim_idempotent_witness:
  "\<exists>c. ClaimNext sampleConfig (sampleWorld undefined) sampleRequest [sampleClaimed] =
      ([sampleClaimed], if dc_status c = ''claimed'' then Inr (Some \<lparr>ex_command = c, ex_claim = ''claim'', ex_prompt = ''do it''\<rparr>)
              else Inl DeliveryConflict)"
proof -
  have "statusInv sampleCommand"
    by (simp add: statusInv_def sampleCommand_def newCommand_def)
  then have "deliveryInv [sampleCommand]" by (simp add: deliveryInv_single)
  note claim_idempotent [OF sample_claim this rtranclp.rtrancl_refl]
  moreover have "ex_claim (executionOf sampleClaimed) = ''claim''" "ex_prompt (executionOf sampleClaimed) = ''do it''"
    by (simp_all add: executionOf_def sampleClaimed_def claimedRow_def sampleCommand_def newCommand_def samplePromptPlan_def)
  ultimately show ?thesis by metis
qed

text \<open>C13. Claiming is exhaustive. When \<open>ClaimNext\<close> reports that there is nothing to deliver,
  no command of that worker is left pending: every candidate it met was expired or invalidated,
  and none was passed over.\<close>

lemma mapped_not_pending:
  "mapped rows rows' \<Longrightarrow> \<forall>r \<in> set rows. dc_id r = i \<longrightarrow> dc_status r \<noteq> ''pending'' \<Longrightarrow>
    \<forall>r \<in> set rows'. dc_id r = i \<longrightarrow> dc_status r \<noteq> ''pending''"
  using mapped_in rowStep_sel(1) no_return(1) unfolding rowStep_def by metis

lemma retire_done:
  assumes "retire rows (dc_id c) st now why = (rows', ClaimSkipped)" "st \<noteq> ''pending''" "r \<in> set rows'" "dc_id r = dc_id c"
  shows "dc_status r \<noteq> ''pending''"
proof -
  from assms(1) have "transition rows (dc_id c) ''pending'' st now None [] [] why = Inr rows'"
    by (simp add: retire_def split: sum.splits)
  from assms(3) [unfolded transition_Inr [OF this]] assms(2,4) show ?thesis by (auto simp: set_row_update)
qed

lemma claimOne_skipped:
  assumes "claimOne cfg au now claimID inp i rows = (rows', ClaimSkipped)" "deliveryInv rows"
  shows "\<forall>r \<in> set rows'. dc_id r = i \<longrightarrow> dc_status r \<noteq> ''pending''"
proof (cases "row_get dc_id i rows")
  case None
  with assms(1) show ?thesis by (auto simp: claimOne_def row_get_None)
next
  case (Some c)
  then have c: "c \<in> set rows" "dc_id c = i" by (auto dest: row_get_Some)
  show ?thesis
  proof (cases "dc_status c = ''pending''")
    case True
    with assms(1) Some have "claimPending cfg au now claimID inp c rows = (rows', ClaimSkipped)" by (simp add: claimOne_def)
    then have "retire rows (dc_id c) ''expired'' now ''expired'' = (rows', ClaimSkipped) \<or>
        retire rows (dc_id c) ''invalidated'' now ''stale_authority'' = (rows', ClaimSkipped)"
      by (simp add: claimPending_def split: if_splits option.splits)
    then show ?thesis using retire_done c(2) by fastforce
  next
    case False
    with assms(1) Some have "rows' = rows" by (simp add: claimOne_def)
    with unique_row [OF assms(2) _ c(1)] c(2) False show ?thesis by auto
  qed
qed

lemma claimLoop_exhausts:
  assumes "claimLoop cfg world inp n cands rows = (rows1, Inr None)" "deliveryInv rows" "\<not> blank (cr_request inp)"
  shows "deliveryInv rows1 \<and>
    (\<forall>i. (i \<in> dc_id ` set cands \<or> (\<forall>r \<in> set rows. dc_id r = i \<longrightarrow> dc_status r \<noteq> ''pending'')) \<longrightarrow>
      (\<forall>r \<in> set rows1. dc_id r = i \<longrightarrow> dc_status r \<noteq> ''pending''))"
  using assms(1,2)
proof (induction cands arbitrary: n rows)
  case (Cons cand cands)
  let ?w = "world n"
  obtain rows' oc where one: "claimOne cfg (wd_authority ?w) (wd_now ?w) (wd_id ?w) inp (dc_id cand) rows = (rows', oc)"
    by fastforce
  have skipped: "oc = ClaimSkipped"
    using Cons.prems(1) one by (cases oc) (auto simp: repeatedClaim_def split: option.splits if_splits)
  with Cons.prems(1) one have loop: "claimLoop cfg world inp (Suc n) cands rows' = (rows1, Inr None)" by simp
  from assms(3) have "cr_request inp \<noteq> []" by auto
  from mapped_claimOne [OF this] one have m: "mapped rows rows'" by (metis fst_conv)
  have "delivery_step id cfg rows rows'"
    using delivery_step.claim [OF assms(3), of id cfg rows "wd_authority ?w" "wd_now ?w" "wd_id ?w" "dc_id cand"]
    by (simp add: one)
  from step_inv [OF this Cons.prems(2)] have "deliveryInv rows'" .
  note IH = Cons.IH [OF loop this]
  have here: "\<forall>r \<in> set rows'. dc_id r = dc_id cand \<longrightarrow> dc_status r \<noteq> ''pending''"
    using claimOne_skipped [of cfg _ _ _ inp _ rows rows'] one skipped Cons.prems(2) by blast
  have "i \<in> dc_id ` set cands \<or> (\<forall>r \<in> set rows'. dc_id r = i \<longrightarrow> dc_status r \<noteq> ''pending'')"
    if "i \<in> dc_id ` set (cand # cands) \<or> (\<forall>r \<in> set rows. dc_id r = i \<longrightarrow> dc_status r \<noteq> ''pending'')" for i
    using that here mapped_not_pending [OF m, of i] by auto
  with IH show ?case by blast
qed simp



lemma row_get_unique: "deliveryInv rows \<Longrightarrow> c \<in> set rows \<Longrightarrow> row_get dc_id (dc_id c) rows = Some c"
  by (rule delivery_table.get_unique) (simp add: deliveryInv_def)

lemma affected_one:
  assumes "deliveryInv rows" "c \<in> set rows" "dc_status c = old"
  shows "rows_affected (\<lambda>r. dc_id r = dc_id c \<and> dc_status r = old) rows = 1"
proof (rule rows_affected_one [OF _ assms(2)])
  show "distinct rows" using assms(1) by (auto simp: deliveryInv_def distinct_map)
  show "(dc_id r = dc_id c \<and> dc_status r = old) = (r = c)" if "r \<in> set rows" for r
    using assms that unique_row by blast
qed

lemma transition_unique:
  assumes "deliveryInv rows" "c \<in> set rows" "dc_status c = old"
  shows "transition rows (dc_id c) old new now t reason evidence fb =
    Inr (row_update (\<lambda>r. dc_id r = dc_id c \<and> dc_status r = old)
     (\<lambda>r. r\<lparr>dc_status := new, dc_terminal := (if t = None \<and> new \<noteq> ''claimed'' then Some now else t),
           dc_reason := (if reason = [] then fb else reason), dc_evidence := evidence\<rparr>) rows)"
  using affected_one [OF assms] by (simp add: transition_def Let_def)

text \<open>C14. Completing a claim. Reported by its claim id with a valid outcome and bounded texts, a
  claimed command ends with the reported outcome, reason and evidence if its acknowledgement
  deadline has not passed, and the caller gets the stored row; at or after the deadline it ends
  as uncertain and the caller gets a conflict, whatever outcome was reported. Every other row is
  unchanged.\<close>

theorem completion_deadline:
  assumes "deliveryInv rows" "c \<in> set rows" "dc_status c = ''claimed''" "cp_command inp = dc_id c"
    "cp_claim inp = dc_claim c" "\<not> blank (dc_id c)" "\<not> blank (dc_claim c)"
    "cp_outcome inp \<in> {''delivered'', ''failed'', ''uncertain''}"
    "length (cp_reason inp) \<le> 256" "length (cp_evidence inp) \<le> 4096"
  shows "\<exists>c' d. dc_deadline c = Some d \<and>
    Complete now inp rows = (row_update (\<lambda>r. r = c) (\<lambda>_. c') rows, if now < d then Inr c' else Inl DeliveryConflict) \<and>
    c' = (if now < d
          then c\<lparr>dc_status := cp_outcome inp, dc_terminal := Some now, dc_reason := cp_reason inp, dc_evidence := cp_evidence inp\<rparr>
          else c\<lparr>dc_status := ''uncertain'', dc_terminal := Some now, dc_reason := ''claim_ack_deadline'', dc_evidence := []\<rparr>)"
proof -
  from assms(1-3) obtain d where d: "dc_deadline c = Some d" by (auto simp: deliveryInv_def statusInv_def)
  have hit: "(\<lambda>r. dc_id r = dc_id c \<and> dc_status r = ''claimed'') r = (r = c)" if "r \<in> set rows" for r
    using unique_row [OF assms(1) that assms(2)] assms(3) by auto
  have upd: "row_update (\<lambda>r. dc_id r = dc_id c \<and> dc_status r = ''claimed'') f rows = row_update (\<lambda>r. r = c) (\<lambda>_. f c) rows" for f
    unfolding row_update_def using hit by (intro map_cong) auto
  have ne: "cp_outcome inp \<noteq> ''claimed''" "oneOf (cp_outcome inp) [''delivered'', ''failed'', ''uncertain'']"
    using assms(8) by (auto simp: oneOf_def)
  have "Complete now inp rows = completeClaimed now inp c rows"
    using row_get_unique [OF assms(1,2)] assms(3-7,9,10) ne by (simp add: Complete_def)
  then show ?thesis
    unfolding completeClaimed_def transition_unique [OF assms(1-3)] upd
    using d ne by (cases "now < d") (simp_all add: pastDeadline_def)
qed

theorem completion_deadline_witness:
  "\<exists>c' d. dc_deadline sampleClaimed = Some d \<and>
    Complete 65 \<lparr>cp_command = ''d1'', cp_claim = ''claim'', cp_outcome = ''delivered'', cp_reason = [], cp_evidence = []\<rparr>
      [sampleClaimed] = (row_update (\<lambda>r. r = sampleClaimed) (\<lambda>_. c') [sampleClaimed], if 65 < d then Inr c' else Inl DeliveryConflict)"
proof -
  let ?in = "\<lparr>cp_command = ''d1'', cp_claim = ''claim'', cp_outcome = ''delivered'', cp_reason = [], cp_evidence = []\<rparr>"
  have f: "dc_id sampleClaimed = ''d1''" "dc_claim sampleClaimed = ''claim''" "dc_status sampleClaimed = ''claimed''"
    "statusInv sampleClaimed"
    by (simp_all add: sampleClaimed_def claimedRow_def sampleRequest_def sampleCommand_def newCommand_def statusInv_def)
  have "\<not> blank ''d1''" "\<not> blank ''claim''" by code_simp+
  then show ?thesis
    using completion_deadline [OF deliveryInv_single [OF f(4)], of sampleClaimed ?in 65] f(1-3) by fastforce
qed



end
