(* ===== verification/Binding.thy ===== *)
theory Binding
  imports Go_Strings "HOL-Library.AList"
begin

text \<open>
  \<open>browserbinding/service.go\<close> and \<open>projection.go\<close>: which browser tab a lane is bound to
  (durable rows with a version) and which browser sessions are alive (a map kept in the
  process under a mutex). Random ids are drawn from \<open>fresh\<close>, the n-th draw being \<open>fresh n\<close>;
  the state counts the draws. The clock is an argument. Database faults are not modelled.
\<close>

subsection \<open>Data\<close>

record TargetRef =
  tg_kind :: string
  tg_origin :: string
  tg_path :: string
  tg_label :: string

record RegisterInput =
  in_worker :: string
  in_session :: string
  in_protocol :: string
  in_capabilities :: "string list"
  in_target :: "TargetRef option"

record BrowserWorker =
  bw_id :: string
  bw_protocol :: string
  bw_capabilities :: "string list"
  bw_session :: string
  bw_seen :: "gotime option"
  bw_state :: string

record Binding =
  bi_id :: string
  bi_version :: int
  bi_project :: int
  bi_lane :: string
  bi_worker :: string
  bi_target :: TargetRef
  bi_enabled :: bool
  bi_readiness :: string
  bi_session :: string
  bi_token :: string
  bi_seen :: "gotime option"
  bi_updated :: gotime

record PutInput =
  pt_expected :: "int option"
  pt_worker :: string
  pt_target :: TargetRef

record Session =
  se_id :: string
  se_seen :: gotime
  se_target :: "TargetRef option"
  se_token :: string
  se_conflict :: bool

datatype binding_error = BindingNotFound | BindingConflict | BindingInvalid string

type_synonym sessions = "(string \<times> Session list) list"

text \<open>The rows of the two tables, the map of sessions and the number of random ids drawn.\<close>

record Bindings =
  bd_workers :: "BrowserWorker list"
  bd_rows :: "Binding list"
  bd_sessions :: sessions
  bd_drawn :: nat

definition newTTL :: "int \<Rightarrow> int" where
  "newTTL ttl = (if ttl \<le> 0 then 30000000000 else ttl)"

definition emptyBindings :: Bindings where
  "emptyBindings = \<lparr>bd_workers = [], bd_rows = [], bd_sessions = [], bd_drawn = 0\<rparr>"

subsection \<open>NormalizeTarget\<close>

text \<open>\<open>url.Parse\<close> of a path that starts with \<open>/c/\<close> succeeds and returns that very path exactly
  when it has no control character, no fragment, no query and no escape.\<close>

definition plainPathChar :: "char \<Rightarrow> bool" where
  "plainPathChar c =
     (let n = of_char c :: nat in 32 \<le> n \<and> n \<noteq> 127 \<and> c \<noteq> CHR ''#'' \<and> c \<noteq> CHR ''?'' \<and> c \<noteq> CHR ''%'')"

text \<open>\<open>path.Clean\<close> of a rooted path: empty and dot elements vanish, dot-dot removes the element
  before it.\<close>

fun cleanElems :: "string list \<Rightarrow> string list \<Rightarrow> string list" where
  "cleanElems acc [] = rev acc"
| "cleanElems acc (e # es) =
     (if e = [] \<or> e = ''.'' then cleanElems acc es
      else if e = ''..'' then cleanElems (tl acc) es
      else cleanElems (e # acc) es)"

fun splitSlash :: "string \<Rightarrow> string list" where
  "splitSlash [] = [[]]"
| "splitSlash (c # cs) =
     (if c = CHR ''/'' then [] # splitSlash cs else (c # hd (splitSlash cs)) # tl (splitSlash cs))"

definition cleanRooted :: "string \<Rightarrow> string" where
  "cleanRooted p = CHR ''/'' # joinWith ''/'' (cleanElems [] (splitSlash p))"

definition chatPath :: "string \<Rightarrow> bool" where
  "chatPath p = (hasPrefix p ''/c/'' \<and> list_all plainPathChar p \<and> cleanRooted p = p)"

definition NormalizeTarget :: "TargetRef \<Rightarrow> binding_error + TargetRef" where
  "NormalizeTarget target0 =
     (let target = \<lparr>tg_kind = trimSpace (tg_kind target0), tg_origin = trimSpace (tg_origin target0),
                    tg_path = trimSpace (tg_path target0), tg_label = trimSpace (tg_label target0)\<rparr>
      in if tg_kind target \<noteq> ''chatgpt_conversation'' \<or> tg_origin target \<noteq> ''https://chatgpt.com'' \<or>
            length (tg_label target) > 120
         then Inl (BindingInvalid ''unsupported target'')
         else if \<not> chatPath (tg_path target) then Inl (BindingInvalid ''invalid conversation path'')
         else let key = drop 3 (tg_path target) in
           if key = [] \<or> CHR ''/'' \<in> set key \<or> length key > 200
           then Inl (BindingInvalid ''invalid conversation key'')
           else Inr (target\<lparr>tg_label := []\<rparr>))"

definition sameTarget :: "TargetRef option \<Rightarrow> TargetRef option \<Rightarrow> bool" where
  "sameTarget l r =
     (case (l, r) of
        (Some a, Some b) \<Rightarrow> tg_kind a = tg_kind b \<and> tg_origin a = tg_origin b \<and> tg_path a = tg_path b
      | _ \<Rightarrow> False)"

subsection \<open>The sessions\<close>

definition sessionsOf :: "string \<Rightarrow> sessions \<Rightarrow> Session list" where
  "sessionsOf worker ss = (case map_of ss worker of None \<Rightarrow> [] | Some by \<Rightarrow> by)"

text \<open>Each session gets the next random id as its token.\<close>

fun rotateTokens :: "(nat \<Rightarrow> string) \<Rightarrow> nat \<Rightarrow> Session list \<Rightarrow> Session list" where
  "rotateTokens fresh n [] = []"
| "rotateTokens fresh n (v # vs) = v\<lparr>se_token := fresh n\<rparr> # rotateTokens fresh (Suc n) vs"

definition setConflict :: "bool \<Rightarrow> Session \<Rightarrow> Session" where
  "setConflict conflict v = v\<lparr>se_conflict := conflict\<rparr>"

definition markConflict :: "(nat \<Rightarrow> string) \<Rightarrow> nat \<Rightarrow> Session list \<Rightarrow> Session list \<times> nat" where
  "markConflict fresh n by =
     (let conflict = length by > 1; wasConflict = list_ex se_conflict by;
          rotate = conflict \<and> \<not> wasConflict
      in (map (setConflict conflict) (if rotate then rotateTokens fresh n by else by),
          if rotate then n + length by else n))"

definition aliveAt :: "int \<Rightarrow> gotime \<Rightarrow> Session \<Rightarrow> bool" where
  "aliveAt ttl now v = (\<not> now - se_seen v > ttl)"

fun pruneSessions :: "(nat \<Rightarrow> string) \<Rightarrow> int \<Rightarrow> gotime \<Rightarrow> nat \<Rightarrow> sessions \<Rightarrow> sessions \<times> nat" where
  "pruneSessions fresh ttl now n [] = ([], n)"
| "pruneSessions fresh ttl now n ((worker, by) # rest) =
     (let alive = filter (aliveAt ttl now) by
      in if alive = [] then pruneSessions fresh ttl now n rest
         else let (marked, n1) = markConflict fresh n alive;
                  (rest', n2) = pruneSessions fresh ttl now n1 rest
              in ((worker, marked) # rest', n2))"

definition prune :: "(nat \<Rightarrow> string) \<Rightarrow> int \<Rightarrow> gotime \<Rightarrow> Bindings \<Rightarrow> Bindings" where
  "prune fresh ttl now st =
     (let (ss, n) = pruneSessions fresh ttl now (bd_drawn st) (bd_sessions st)
      in st\<lparr>bd_sessions := ss, bd_drawn := n\<rparr>)"

definition workerLocked :: "string \<Rightarrow> sessions \<Rightarrow> BrowserWorker" where
  "workerLocked worker ss =
     (let w = \<lparr>bw_id = worker, bw_protocol = [], bw_capabilities = [], bw_session = [], bw_seen = None, bw_state = []\<rparr>
      in case sessionsOf worker ss of
           [] \<Rightarrow> w\<lparr>bw_state := ''stale''\<rparr>
         | [v] \<Rightarrow> w\<lparr>bw_session := se_id v, bw_seen := Some (se_seen v), bw_state := ''live''\<rparr>
         | _ \<Rightarrow> w\<lparr>bw_state := ''conflict''\<rparr>)"

definition upsertWorker :: "BrowserWorker \<Rightarrow> BrowserWorker list \<Rightarrow> BrowserWorker list" where
  "upsertWorker w rows =
     (if bw_id w \<in> bw_id ` set rows
      then row_update (\<lambda>r. bw_id r = bw_id w)
             (\<lambda>r. r\<lparr>bw_protocol := bw_protocol w, bw_capabilities := bw_capabilities w\<rparr>) rows
      else rows @ [w])"

text \<open>A session that is known keeps its token while it observes the same target.\<close>

definition observe :: "string \<Rightarrow> gotime \<Rightarrow> TargetRef option \<Rightarrow> Session \<Rightarrow> Session" where
  "observe token now target v =
     v\<lparr>se_token := (if sameTarget (se_target v) target then se_token v else token), se_seen := now, se_target := target\<rparr>"

definition registerSession :: "(nat \<Rightarrow> string) \<Rightarrow> nat \<Rightarrow> gotime \<Rightarrow> string \<Rightarrow> TargetRef option \<Rightarrow> Session list \<Rightarrow> Session list \<times> nat" where
  "registerSession fresh n now session target by =
     (case row_get se_id session by of
        Some current \<Rightarrow>
          (row_update (\<lambda>v. se_id v = session) (observe (fresh n) now target) by,
           if sameTarget (se_target current) target then n else Suc n)
      | None \<Rightarrow>
          (by @ [\<lparr>se_id = session, se_seen = now, se_target = target, se_token = fresh n, se_conflict = False\<rparr>], Suc n))"

definition normalizeObserved :: "TargetRef option \<Rightarrow> binding_error + TargetRef option" where
  "normalizeObserved t =
     (case t of
        None \<Rightarrow> Inr None
      | Some target \<Rightarrow> (case NormalizeTarget target of Inl e \<Rightarrow> Inl e | Inr n \<Rightarrow> Inr (Some n)))"

definition registerLive :: "(nat \<Rightarrow> string) \<Rightarrow> int \<Rightarrow> gotime \<Rightarrow> string \<Rightarrow> string \<Rightarrow> TargetRef option \<Rightarrow> Bindings \<Rightarrow> Bindings" where
  "registerLive fresh ttl now worker session target st0 =
     (let st = prune fresh ttl now st0;
          (by, n1) = registerSession fresh (bd_drawn st) now session target (sessionsOf worker (bd_sessions st));
          (marked, n2) = markConflict fresh n1 by
      in st\<lparr>bd_sessions := AList.update worker marked (bd_sessions st), bd_drawn := n2\<rparr>)"

definition Register :: "(nat \<Rightarrow> string) \<Rightarrow> int \<Rightarrow> gotime \<Rightarrow> RegisterInput \<Rightarrow> Bindings \<Rightarrow> Bindings \<times> (binding_error + BrowserWorker)" where
  "Register fresh ttl now input st =
     (let worker = trimSpace (in_worker input); session = trimSpace (in_session input)
      in if worker = [] \<or> session = [] \<or> length worker > 200 \<or> length session > 200
         then (st, Inl (BindingInvalid ''worker and session IDs are required''))
         else case normalizeObserved (in_target input) of
           Inl e \<Rightarrow> (st, Inl e)
         | Inr target \<Rightarrow>
             if length (in_protocol input) > 80 \<or> length (in_capabilities input) > 32
             then (st, Inl (BindingInvalid ''metadata too large''))
             else
               let row = \<lparr>bw_id = worker, bw_protocol = trimSpace (in_protocol input),
                          bw_capabilities = in_capabilities input, bw_session = [], bw_seen = None, bw_state = []\<rparr>;
                   st' = registerLive fresh ttl now worker session target
                           (st\<lparr>bd_workers := upsertWorker row (bd_workers st)\<rparr>)
               in (st', Inr (workerLocked worker (bd_sessions st'))))"

definition Heartbeat :: "(nat \<Rightarrow> string) \<Rightarrow> int \<Rightarrow> gotime \<Rightarrow> string \<Rightarrow> RegisterInput \<Rightarrow> Bindings \<Rightarrow> Bindings \<times> (binding_error + BrowserWorker)" where
  "Heartbeat fresh ttl now worker input st =
     (if trimSpace worker \<noteq> trimSpace (in_worker input)
      then (st, Inl (BindingInvalid ''worker ID mismatch''))
      else Register fresh ttl now input st)"

definition liveWorker :: "sessions \<Rightarrow> BrowserWorker \<Rightarrow> BrowserWorker" where
  "liveWorker ss w =
     (let live = workerLocked (bw_id w) ss
      in w\<lparr>bw_session := bw_session live, bw_seen := bw_seen live, bw_state := bw_state live\<rparr>)"

definition ListWorkers :: "(nat \<Rightarrow> string) \<Rightarrow> int \<Rightarrow> gotime \<Rightarrow> Bindings \<Rightarrow> Bindings \<times> BrowserWorker list" where
  "ListWorkers fresh ttl now st =
     (let st' = prune fresh ttl now st
      in (st', map (liveWorker (bd_sessions st')) (sort_key bw_id (bd_workers st'))))"

subsection \<open>The lane bindings\<close>

definition readBinding :: "int \<Rightarrow> string \<Rightarrow> Binding list \<Rightarrow> Binding option" where
  "readBinding projectID lane rows = find (\<lambda>b. bi_project b = projectID \<and> bi_lane b = lane) rows"

definition takenBy :: "int \<Rightarrow> string \<Rightarrow> string \<Rightarrow> TargetRef \<Rightarrow> Binding \<Rightarrow> bool" where
  "takenBy projectID lane worker target b =
     (bi_enabled b \<and> bi_worker b = worker \<and> tg_kind (bi_target b) = tg_kind target \<and>
      tg_origin (bi_target b) = tg_origin target \<and> tg_path (bi_target b) = tg_path target \<and>
      \<not> (bi_project b = projectID \<and> bi_lane b = lane))"

definition ensureTargetFree :: "int \<Rightarrow> string \<Rightarrow> string \<Rightarrow> TargetRef \<Rightarrow> Binding list \<Rightarrow> bool" where
  "ensureTargetFree projectID lane worker target rows = (\<not> list_ex (takenBy projectID lane worker target) rows)"

definition requireFreshTarget :: "(nat \<Rightarrow> string) \<Rightarrow> int \<Rightarrow> gotime \<Rightarrow> string \<Rightarrow> TargetRef \<Rightarrow> Bindings \<Rightarrow> Bindings \<times> bool" where
  "requireFreshTarget fresh ttl now worker target st =
     (let st' = prune fresh ttl now st
      in (st', case sessionsOf worker (bd_sessions st') of
                 [v] \<Rightarrow> \<not> se_conflict v \<and> sameTarget (se_target v) (Some target)
               | _ \<Rightarrow> False))"

definition project :: "(nat \<Rightarrow> string) \<Rightarrow> int \<Rightarrow> gotime \<Rightarrow> Binding \<Rightarrow> Bindings \<Rightarrow> Bindings \<times> Binding" where
  "project fresh ttl now b st =
     (let st' = prune fresh ttl now st
      in (st', if \<not> bi_enabled b then b\<lparr>bi_readiness := ''disabled''\<rparr>
               else case sessionsOf (bi_worker b) (bd_sessions st') of
                 [] \<Rightarrow> b\<lparr>bi_readiness := ''stale''\<rparr>
               | [v] \<Rightarrow>
                   if se_conflict v then b\<lparr>bi_seen := Some (se_seen v), bi_readiness := ''conflict''\<rparr>
                   else if \<not> sameTarget (se_target v) (Some (bi_target b))
                   then b\<lparr>bi_seen := Some (se_seen v), bi_readiness := ''unavailable''\<rparr>
                   else b\<lparr>bi_seen := Some (se_seen v), bi_readiness := ''ready'', bi_session := se_id v, bi_token := se_token v\<rparr>
               | _ \<Rightarrow> b\<lparr>bi_readiness := ''conflict''\<rparr>))"

text \<open>The transaction of \<open>Put\<close>. A row is stored without the fields \<open>project\<close> fills in.\<close>

definition bindRow :: "gotime \<Rightarrow> string \<Rightarrow> TargetRef \<Rightarrow> Binding \<Rightarrow> Binding" where
  "bindRow now worker target b =
     b\<lparr>bi_version := bi_version b + 1, bi_worker := worker, bi_target := target, bi_enabled := True, bi_updated := now\<rparr>"

definition putRow :: "(nat \<Rightarrow> string) \<Rightarrow> gotime \<Rightarrow> int \<Rightarrow> string \<Rightarrow> PutInput \<Rightarrow> TargetRef \<Rightarrow> Bindings
    \<Rightarrow> Bindings \<times> (binding_error + Binding)" where
  "putRow fresh now projectID lane input target st =
     (case readBinding projectID lane (bd_rows st) of
        None \<Rightarrow>
          if pt_expected input \<noteq> None \<and> pt_expected input \<noteq> Some 0 then (st, Inl BindingConflict)
          else if \<not> ensureTargetFree projectID lane (pt_worker input) target (bd_rows st) then (st, Inl BindingConflict)
          else let b = \<lparr>bi_id = fresh (bd_drawn st), bi_version = 1, bi_project = projectID, bi_lane = lane,
                        bi_worker = pt_worker input, bi_target = target, bi_enabled = True, bi_readiness = [],
                        bi_session = [], bi_token = [], bi_seen = None, bi_updated = now\<rparr>
               in (st\<lparr>bd_rows := bd_rows st @ [b], bd_drawn := Suc (bd_drawn st)\<rparr>, Inr b)
      | Some existing \<Rightarrow>
          if pt_expected input \<noteq> Some (bi_version existing) then (st, Inl BindingConflict)
          else if \<not> ensureTargetFree projectID lane (pt_worker input) target (bd_rows st) then (st, Inl BindingConflict)
          else (st\<lparr>bd_rows := row_update (\<lambda>b. bi_id b = bi_id existing)
                      (\<lambda>b. (bindRow now (pt_worker input) target b)\<lparr>bi_version := bi_version existing + 1\<rparr>) (bd_rows st)\<rparr>,
                Inr (bindRow now (pt_worker input) target existing)))"

definition Put :: "(nat \<Rightarrow> string) \<Rightarrow> int \<Rightarrow> gotime \<Rightarrow> int \<Rightarrow> string \<Rightarrow> PutInput \<Rightarrow> Bindings \<Rightarrow> Bindings \<times> (binding_error + Binding)" where
  "Put fresh ttl now projectID lane input st =
     (case NormalizeTarget (pt_target input) of
        Inl e \<Rightarrow> (st, Inl e)
      | Inr target \<Rightarrow>
          if projectID \<le> 0 \<or> blank lane \<or> blank (pt_worker input)
          then (st, Inl (BindingInvalid ''project, lane, worker required''))
          else case requireFreshTarget fresh ttl now (pt_worker input) target st of
            (st1, False) \<Rightarrow> (st1, Inl BindingConflict)
          | (st1, True) \<Rightarrow>
              (case putRow fresh now projectID lane input target st1 of
                 (st2, Inl e) \<Rightarrow> (st2, Inl e)
               | (st2, Inr b) \<Rightarrow> (case project fresh ttl now b st2 of (st3, r) \<Rightarrow> (st3, Inr r))))"

definition disableRow :: "gotime \<Rightarrow> int \<Rightarrow> string \<Rightarrow> int \<Rightarrow> Bindings \<Rightarrow> Bindings \<times> (binding_error + Binding)" where
  "disableRow now projectID lane expected st =
     (case readBinding projectID lane (bd_rows st) of
        None \<Rightarrow> (st, Inl BindingNotFound)
      | Some b \<Rightarrow>
          if expected \<noteq> bi_version b then (st, Inl BindingConflict)
          else let off = (\<lambda>r. r\<lparr>bi_enabled := False, bi_version := bi_version b + 1, bi_updated := now\<rparr>)
               in (st\<lparr>bd_rows := row_update (\<lambda>r. bi_id r = bi_id b) off (bd_rows st)\<rparr>, Inr (off b)))"

definition Disable :: "(nat \<Rightarrow> string) \<Rightarrow> int \<Rightarrow> gotime \<Rightarrow> int \<Rightarrow> string \<Rightarrow> int \<Rightarrow> Bindings \<Rightarrow> Bindings \<times> (binding_error + Binding)" where
  "Disable fresh ttl now projectID lane expected st =
     (case disableRow now projectID lane expected st of
        (st1, Inl e) \<Rightarrow> (st1, Inl e)
      | (st1, Inr b) \<Rightarrow> (case project fresh ttl now b st1 of (st2, r) \<Rightarrow> (st2, Inr r)))"

definition GetBinding :: "(nat \<Rightarrow> string) \<Rightarrow> int \<Rightarrow> gotime \<Rightarrow> int \<Rightarrow> string \<Rightarrow> Bindings \<Rightarrow> Bindings \<times> (binding_error + Binding)" where
  "GetBinding fresh ttl now projectID lane st =
     (case readBinding projectID lane (bd_rows st) of
        None \<Rightarrow> (st, Inl BindingNotFound)
      | Some b \<Rightarrow> (case project fresh ttl now b st of (st1, r) \<Rightarrow> (st1, Inr r)))"

subsection \<open>projection.go\<close>

record WorkerProjection =
  wp_id :: string
  wp_protocol :: string
  wp_capabilities :: "string list"
  wp_session :: string
  wp_seen :: "gotime option"
  wp_state :: string
  wp_target :: "TargetRef option"

definition projectWorker :: "sessions \<Rightarrow> BrowserWorker \<Rightarrow> WorkerProjection" where
  "projectWorker ss w =
     (let p = \<lparr>wp_id = bw_id w, wp_protocol = bw_protocol w, wp_capabilities = bw_capabilities w, wp_session = [],
               wp_seen = None, wp_state = bw_state w, wp_target = None\<rparr>
      in case sessionsOf (bw_id w) ss of
           [] \<Rightarrow> p\<lparr>wp_state := ''stale''\<rparr>
         | [v] \<Rightarrow>
             if se_conflict v
             then p\<lparr>wp_session := se_id v, wp_seen := Some (se_seen v), wp_state := ''conflict''\<rparr>
             else p\<lparr>wp_session := se_id v, wp_seen := Some (se_seen v), wp_state := ''live'', wp_target := se_target v\<rparr>
         | _ \<Rightarrow> p\<lparr>wp_state := ''conflict''\<rparr>)"

definition ListWorkerProjections :: "(nat \<Rightarrow> string) \<Rightarrow> int \<Rightarrow> gotime \<Rightarrow> gotime \<Rightarrow> Bindings \<Rightarrow> Bindings \<times> WorkerProjection list" where
  "ListWorkerProjections fresh ttl now now2 st =
     (case ListWorkers fresh ttl now st of
        (st1, workers) \<Rightarrow>
          let st2 = prune fresh ttl now2 st1 in (st2, map (projectWorker (bd_sessions st2)) workers))"

end
