(* ===== verification/Binding_Machine.thy ===== *)
theory Binding_Machine
  imports Binding
begin

text \<open>
  The theorems of \<open>browserbinding\<close>: the machine of its atomic steps (a write transaction, or
  a critical section of the mutex), the invariant of rows and sessions, optimistic
  concurrency on versions, and how presence tokens are retired by a conflict.
\<close>

subsection \<open>The machine\<close>

text \<open>One step is what the code does under one lock or in one transaction, so a run is any
  interleaving of callers: \<open>Put\<close> is a pruning read, the row transaction, and another pruning
  read, and other steps may come in between.\<close>

inductive binding_step :: "(nat \<Rightarrow> string) \<Rightarrow> int \<Rightarrow> Bindings \<Rightarrow> Bindings \<Rightarrow> bool" for fresh ttl where
  register: "binding_step fresh ttl st (fst (Register fresh ttl now input st))"
| prune: "binding_step fresh ttl st (prune fresh ttl now st)"
| put: "binding_step fresh ttl st (fst (putRow fresh now projectID lane put target st))"
| disable: "binding_step fresh ttl st (fst (disableRow now projectID lane expected st))"

abbreviation binding_run :: "(nat \<Rightarrow> string) \<Rightarrow> int \<Rightarrow> Bindings \<Rightarrow> Bindings \<Rightarrow> bool" where
  "binding_run fresh ttl \<equiv> (binding_step fresh ttl)\<^sup>*\<^sup>*"

lemma run_step: "binding_step fresh ttl st st' \<Longrightarrow> binding_run fresh ttl st st'"
  by blast

lemma Heartbeat_run: "binding_run fresh ttl st (fst (Heartbeat fresh ttl now worker input st))"
  by (simp add: Heartbeat_def run_step [OF register])

lemma project_run: "project fresh ttl now b st = (st', r) \<Longrightarrow> binding_run fresh ttl st st'"
  by (auto simp: project_def Let_def intro: run_step [OF prune])

lemma requireFreshTarget_run: "requireFreshTarget fresh ttl now w target st = (st', ok) \<Longrightarrow> binding_run fresh ttl st st'"
  by (auto simp: requireFreshTarget_def Let_def intro: run_step [OF prune])

lemma GetBinding_run: "binding_run fresh ttl st (fst (GetBinding fresh ttl now p lane st))"
  by (auto simp: GetBinding_def split: option.split prod.split intro: project_run)

lemma Disable_run: "binding_run fresh ttl st (fst (Disable fresh ttl now p lane expected st))"
proof -
  obtain st1 r where d: "disableRow now p lane expected st = (st1, r)" by fastforce
  have 1: "binding_run fresh ttl st st1"
    using run_step [OF disable, of fresh ttl st now p lane expected] by (simp add: d)
  from rtranclp_trans [OF 1 project_run] 1 show ?thesis
    by (auto simp: Disable_def d split: sum.split prod.split)
qed

lemma Put_run: "binding_run fresh ttl st (fst (Put fresh ttl now p lane input st))"
proof (cases "NormalizeTarget (pt_target input)")
  case (Inr target)
  obtain st1 ok where f: "requireFreshTarget fresh ttl now (pt_worker input) target st = (st1, ok)" by fastforce
  obtain st2 r where r: "putRow fresh now p lane input target st1 = (st2, r)" by fastforce
  have 1: "binding_run fresh ttl st st1" by (rule requireFreshTarget_run [OF f])
  have "binding_run fresh ttl st1 st2"
    using run_step [OF put, of fresh ttl st1 now p lane input target] by (simp add: r)
  with 1 have 2: "binding_run fresh ttl st st2" by (rule rtranclp_trans)
  from 1 2 rtranclp_trans [OF 2 project_run] show ?thesis
    by (auto simp: Put_def Inr f r split: sum.split prod.split bool.split)
qed (simp add: Put_def)

subsection \<open>Sessions\<close>

definition wellFlagged :: "Session list \<Rightarrow> bool" where
  "wellFlagged by = (distinct (map se_id by) \<and> (\<forall>v \<in> set by. se_conflict v = (length by > 1)))"

definition sessionsInv :: "(nat \<Rightarrow> string) \<Rightarrow> nat \<Rightarrow> sessions \<Rightarrow> bool" where
  "sessionsInv fresh n ss =
     (distinct (map fst ss) \<and>
      (\<forall>(w, by) \<in> set ss. by \<noteq> [] \<and> wellFlagged by \<and> se_token ` set by \<subseteq> fresh ` {..<n}))"

lemma sessionsInv_mem:
  "sessionsInv fresh n ss \<Longrightarrow> (w, vs) \<in> set ss \<Longrightarrow> vs \<noteq> [] \<and> wellFlagged vs \<and> se_token ` set vs \<subseteq> fresh ` {..<n}"
  unfolding sessionsInv_def by blast

definition flagged :: "Session list \<Rightarrow> Session list" where
  "flagged by = map (setConflict (length by > 1)) by"

lemma setConflict_sel [simp]:
  "se_id (setConflict b v) = se_id v" "se_token (setConflict b v) = se_token v" "se_conflict (setConflict b v) = b"
  "se_target (setConflict b v) = se_target v" "se_seen (setConflict b v) = se_seen v"
  by (simp_all add: setConflict_def)

lemma flagged_sel [simp]:
  "map se_id (flagged by) = map se_id by" "se_token ` set (flagged by) = se_token ` set by" "length (flagged by) = length by"
  "flagged by = [] \<longleftrightarrow> by = []"
  by (simp_all add: flagged_def image_image comp_def)

lemma wellFlagged_flagged: "distinct (map se_id by) \<Longrightarrow> wellFlagged (flagged by)"
  by (auto simp: wellFlagged_def flagged_def comp_def)

lemma markConflict_keep:
  assumes "length by > 1 \<Longrightarrow> list_ex se_conflict by"
  shows "markConflict fresh n by = (flagged by, n)"
  using assms by (auto simp: markConflict_def flagged_def Let_def)

lemma markConflict_filter:
  assumes "wellFlagged by"
  shows "markConflict fresh n (filter P by) = (flagged (filter P by), n)"
proof (rule markConflict_keep)
  assume "length (filter P by) > 1"
  moreover from this have "length by > 1" by (rule less_le_trans) simp
  ultimately have "length by > 1" "filter P by \<noteq> []" by auto
  with assms show "list_ex se_conflict (filter P by)"
    by (auto simp: wellFlagged_def list_ex_iff filter_empty_conv)
qed

text \<open>Under the invariant, pruning draws no id: it filters each worker's sessions.\<close>

definition prunedSessions :: "int \<Rightarrow> gotime \<Rightarrow> sessions \<Rightarrow> sessions" where
  "prunedSessions ttl now ss =
     filter (\<lambda>(w, by). by \<noteq> []) (map (\<lambda>(w, by). (w, flagged (filter (aliveAt ttl now) by))) ss)"

lemma pruneSessions_inv:
  assumes "\<forall>(w, by) \<in> set ss. wellFlagged by"
  shows "pruneSessions fresh ttl now n ss = (prunedSessions ttl now ss, n)"
  using assms
proof (induction ss)
  case (Cons x ss)
  obtain w bys where x: "x = (w, bys)" by (cases x)
  have "markConflict fresh n (filter (aliveAt ttl now) bys) = (flagged (filter (aliveAt ttl now) bys), n)"
    by (rule markConflict_filter) (use Cons.prems x in simp)
  with Cons show ?case by (simp add: x prunedSessions_def Let_def)
qed (simp add: prunedSessions_def)

lemma prune_inv:
  assumes "sessionsInv fresh n (bd_sessions st)"
  shows "prune fresh ttl now st = st\<lparr>bd_sessions := prunedSessions ttl now (bd_sessions st)\<rparr>"
proof -
  have "\<forall>(w, by) \<in> set (bd_sessions st). wellFlagged by" using assms by (auto simp: sessionsInv_def)
  from pruneSessions_inv [OF this] show ?thesis by (simp add: prune_def)
qed

lemma wellFlagged_pruned:
  "wellFlagged by \<Longrightarrow> wellFlagged (flagged (filter P by))"
  by (rule wellFlagged_flagged) (simp add: wellFlagged_def distinct_map_filter)

lemma prunedSessions_inv:
  assumes "sessionsInv fresh n ss"
  shows "sessionsInv fresh n (prunedSessions ttl now ss)"
proof -
  let ?f = "\<lambda>(w, by). (w, flagged (filter (aliveAt ttl now) by))"
  have keys: "map fst (map ?f ss) = map fst ss" by (induction ss) auto
  have "distinct (map fst (map ?f ss))" unfolding keys using assms by (simp add: sessionsInv_def)
  then have "distinct (map fst (prunedSessions ttl now ss))"
    unfolding prunedSessions_def by (rule distinct_map_filter)
  moreover have "by \<noteq> [] \<and> wellFlagged by \<and> se_token ` set by \<subseteq> fresh ` {..<n}"
    if m: "(w, by) \<in> set (prunedSessions ttl now ss)" for w "by"
  proof -
    from m obtain by0 where b: "(w, by0) \<in> set ss" "by = flagged (filter (aliveAt ttl now) by0)" "by \<noteq> []"
      by (auto simp: prunedSessions_def)
    from sessionsInv_mem [OF assms b(1)] have i: "wellFlagged by0" "se_token ` set by0 \<subseteq> fresh ` {..<n}" by blast+
    have "se_token ` set by \<subseteq> se_token ` set by0" by (auto simp: b(2))
    with i(2) have "se_token ` set by \<subseteq> fresh ` {..<n}" by blast
    with b(2,3) wellFlagged_pruned [OF i(1)] show ?thesis by simp
  qed
  ultimately show ?thesis unfolding sessionsInv_def by blast
qed

lemma sessionsOf_pruned:
  assumes "distinct (map fst ss)"
  shows "sessionsOf w (prunedSessions ttl now ss) = flagged (filter (aliveAt ttl now) (sessionsOf w ss))"
  using assms
proof (induction ss)
  case (Cons x ss)
  obtain u bys where x: "x = (u, bys)" by (cases x)
  have "sessionsOf w (prunedSessions ttl now ss) = []" if "w \<notin> fst ` set ss"
  proof -
    have "w \<notin> fst ` set (prunedSessions ttl now ss)" using that by (auto simp: prunedSessions_def image_iff)
    then have "map_of (prunedSessions ttl now ss) w = None" by (simp add: map_of_eq_None_iff)
    then show ?thesis by (simp add: sessionsOf_def)
  qed
  with Cons show ?case
    by (auto simp: x prunedSessions_def sessionsOf_def flagged_def)
qed (simp add: prunedSessions_def sessionsOf_def flagged_def)

text \<open>Drawing tokens: from a count of draws to another, a session list only keeps its tokens or
  takes newly drawn ones.\<close>

definition drawsOnly :: "(nat \<Rightarrow> string) \<Rightarrow> nat \<Rightarrow> Session list \<Rightarrow> nat \<Rightarrow> Session list \<Rightarrow> bool" where
  "drawsOnly fresh n vs n' vs' =
     (n \<le> n' \<and> se_token ` set vs' \<subseteq> se_token ` set vs \<union> fresh ` {n..<n'})"

lemma drawsOnly_refl [simp]: "drawsOnly fresh n vs n vs"
  by (simp add: drawsOnly_def)

lemma drawsOnly_trans:
  assumes "drawsOnly fresh n vs n' vs'" "drawsOnly fresh n' vs' n'' vs''"
  shows "drawsOnly fresh n vs n'' vs''"
proof -
  have chain: "A \<subseteq> B \<union> F2 \<Longrightarrow> B \<subseteq> T \<union> F1 \<Longrightarrow> F1 \<subseteq> F \<Longrightarrow> F2 \<subseteq> F \<Longrightarrow> A \<subseteq> T \<union> F" for A B F1 F2 F T :: "string set"
    by blast
  from assms have le: "n \<le> n'" "n' \<le> n''"
    and sub: "se_token ` set vs'' \<subseteq> se_token ` set vs' \<union> fresh ` {n'..<n''}" "se_token ` set vs' \<subseteq> se_token ` set vs \<union> fresh ` {n..<n'}"
    by (simp_all only: drawsOnly_def)
  have "fresh ` {n..<n'} \<subseteq> fresh ` {n..<n''}" "fresh ` {n'..<n''} \<subseteq> fresh ` {n..<n''}"
    using le by (intro image_mono, simp)+
  from chain [OF sub this] le show ?thesis by (simp add: drawsOnly_def)
qed

lemma drawsOnly_bound:
  assumes "drawsOnly fresh n vs n' vs'" "se_token ` set vs \<subseteq> fresh ` {..<n}"
  shows "se_token ` set vs' \<subseteq> fresh ` {..<n'}"
proof -
  have chain: "A \<subseteq> B \<union> F2 \<Longrightarrow> B \<subseteq> F1 \<Longrightarrow> F1 \<subseteq> F \<Longrightarrow> F2 \<subseteq> F \<Longrightarrow> A \<subseteq> F" for A B F1 F2 F :: "string set"
    by blast
  from assms have le: "n \<le> n'" and sub: "se_token ` set vs' \<subseteq> se_token ` set vs \<union> fresh ` {n..<n'}"
    by (simp_all only: drawsOnly_def)
  have "fresh ` {..<n} \<subseteq> fresh ` {..<n'}" "fresh ` {n..<n'} \<subseteq> fresh ` {..<n'}"
    using le by (intro image_mono, auto)+
  from chain [OF sub assms(2) this] show ?thesis .
qed

lemma rotateTokens_tokens: "se_token ` set (rotateTokens fresh n vs) = fresh ` {n..<n + length vs}"
proof (induction vs arbitrary: n)
  case (Cons v vs)
  have "{n..<n + length (v # vs)} = insert n {Suc n..<Suc n + length vs}" by auto
  with Cons [of "Suc n"] show ?case by simp
qed simp

lemma rotateTokens_sel [simp]:
  "map se_id (rotateTokens fresh n vs) = map se_id vs" "length (rotateTokens fresh n vs) = length vs"
  "map se_target (rotateTokens fresh n vs) = map se_target vs"
  by (induction vs arbitrary: n) auto

lemma markConflict_draws:
  assumes "markConflict fresh n vs = (vs', n')"
  shows "drawsOnly fresh n vs n' vs'" "map se_id vs' = map se_id vs"
    "distinct (map se_id vs) \<Longrightarrow> wellFlagged vs'"
    "length vs > 1 \<Longrightarrow> \<not> list_ex se_conflict vs \<Longrightarrow> se_token ` set vs' = fresh ` {n..<n'}"
proof -
  let ?ws = "if length vs > 1 \<and> \<not> list_ex se_conflict vs then rotateTokens fresh n vs else vs"
  have e: "vs' = flagged ?ws" "n' = (if length vs > 1 \<and> \<not> list_ex se_conflict vs then n + length vs else n)"
    using assms by (auto simp: markConflict_def Let_def flagged_def split: if_splits)
  show "map se_id vs' = map se_id vs" by (simp add: e)
  then show "distinct (map se_id vs) \<Longrightarrow> wellFlagged vs'"
    unfolding e(1) using wellFlagged_flagged by (simp split: if_splits)
  show "drawsOnly fresh n vs n' vs'" by (simp add: e drawsOnly_def rotateTokens_tokens)
  show "length vs > 1 \<Longrightarrow> \<not> list_ex se_conflict vs \<Longrightarrow> se_token ` set vs' = fresh ` {n..<n'}"
    by (simp add: e rotateTokens_tokens)
qed

lemma registerSession_draws:
  assumes "registerSession fresh n now session target vs = (vs', n')" "distinct (map se_id vs)"
  shows "drawsOnly fresh n vs n' vs'" "distinct (map se_id vs')" "session \<in> se_id ` set vs'"
    "se_id ` set vs' = insert session (se_id ` set vs)"
proof -
  have "drawsOnly fresh n vs n' vs' \<and> distinct (map se_id vs') \<and> se_id ` set vs' = insert session (se_id ` set vs)"
  proof (cases "row_get se_id session vs")
    case None
    with assms show ?thesis
      by (auto simp: registerSession_def row_get_None drawsOnly_def)
  next
    case (Some c)
    then have c: "c \<in> set vs" "se_id c = session" by (auto dest: row_get_Some)
    let ?f = "observe (fresh n) now target"
    have e: "vs' = row_update (\<lambda>v. se_id v = session) ?f vs" "n' = (if sameTarget (se_target c) target then n else Suc n)"
      using assms(1) Some by (simp_all add: registerSession_def)
    have ids: "map se_id vs' = map se_id vs" by (simp add: e row_update_def observe_def)
    have "se_token v \<in> se_token ` set vs \<union> fresh ` {n..<n'}" if "v \<in> set vs'" for v
    proof (cases "v \<in> set vs")
      case False
      with that obtain u where u: "u \<in> set vs" "se_id u = session" "v = ?f u" by (auto simp: e set_row_update)
      with c assms(2) have "u = c" by (auto simp: distinct_map inj_on_def)
      with u c show ?thesis by (auto simp: e(2) observe_def)
    qed simp
    then have "se_token ` set vs' \<subseteq> se_token ` set vs \<union> fresh ` {n..<n'}" by blast
    moreover have "n \<le> n'" by (simp add: e(2))
    ultimately have "drawsOnly fresh n vs n' vs'" unfolding drawsOnly_def by blast
    with ids assms(2) c show ?thesis by (metis image_eqI insert_absorb list.set_map)
  qed
  then show "drawsOnly fresh n vs n' vs'" "distinct (map se_id vs')" "session \<in> se_id ` set vs'"
    "se_id ` set vs' = insert session (se_id ` set vs)" by auto
qed

lemma sessionsOf_update: "sessionsOf w (AList.update u vs ss) = (if w = u then vs else sessionsOf w ss)"
  by (simp add: sessionsOf_def update_conv')

lemma sessionsOf_inv:
  assumes "sessionsInv fresh n ss"
  shows "wellFlagged (sessionsOf w ss)" "se_token ` set (sessionsOf w ss) \<subseteq> fresh ` {..<n}"
proof -
  have "sessionsOf w ss = [] \<or> (w, sessionsOf w ss) \<in> set ss"
    by (auto simp: sessionsOf_def dest: map_of_SomeD split: option.split)
  with sessionsInv_mem [OF assms, of w "sessionsOf w ss"]
  have "sessionsOf w ss = [] \<or> wellFlagged (sessionsOf w ss) \<and> se_token ` set (sessionsOf w ss) \<subseteq> fresh ` {..<n}"
    by blast
  then show "wellFlagged (sessionsOf w ss)" "se_token ` set (sessionsOf w ss) \<subseteq> fresh ` {..<n}"
    by (auto simp: wellFlagged_def)
qed

text \<open>Replacing one worker's sessions.\<close>

lemma update_inv:
  assumes "sessionsInv fresh n ss" "n \<le> n'" "vs \<noteq> []" "wellFlagged vs" "se_token ` set vs \<subseteq> fresh ` {..<n'}"
  shows "sessionsInv fresh n' (AList.update u vs ss)"
proof -
  have d: "distinct (map fst ss)" using assms(1) by (simp add: sessionsInv_def)
  then have d': "distinct (map fst (AList.update u vs ss))" by (rule distinct_update)
  have "xs \<noteq> [] \<and> wellFlagged xs \<and> se_token ` set xs \<subseteq> fresh ` {..<n'}" if "(w, xs) \<in> set (AList.update u vs ss)" for w xs
  proof (cases "w = u")
    case True
    with that d' have "xs = vs" by (metis map_of_is_SomeI update_conv' fun_upd_same option.inject)
    with assms show ?thesis by simp
  next
    case False
    with that d' have "map_of ss w = Some xs" by (metis map_of_is_SomeI update_conv' fun_upd_other)
    then have "(w, xs) \<in> set ss" by (rule map_of_SomeD)
    moreover have "fresh ` {..<n} \<subseteq> fresh ` {..<n'}" using assms(2) by auto
    ultimately show ?thesis using sessionsInv_mem [OF assms(1)] by blast
  qed
  with d' show ?thesis unfolding sessionsInv_def by blast
qed

text \<open>\<open>Register\<close> on the sessions.\<close>

lemma registerLive_inv:
  assumes "sessionsInv fresh (bd_drawn st) (bd_sessions st)"
  shows "sessionsInv fresh (bd_drawn (registerLive fresh ttl now u session target st))
      (bd_sessions (registerLive fresh ttl now u session target st))"
    "bd_drawn st \<le> bd_drawn (registerLive fresh ttl now u session target st)"
    "drawsOnly fresh (bd_drawn st) (sessionsOf w (bd_sessions st)) (bd_drawn (registerLive fresh ttl now u session target st))
      (sessionsOf w (bd_sessions (registerLive fresh ttl now u session target st)))"
    "bd_rows (registerLive fresh ttl now u session target st) = bd_rows st"
proof -
  let ?ss = "prunedSessions ttl now (bd_sessions st)"
  obtain vs1 n1 where r: "registerSession fresh (bd_drawn st) now session target (sessionsOf u ?ss) = (vs1, n1)" by fastforce
  obtain vs2 n2 where m: "markConflict fresh n1 vs1 = (vs2, n2)" by fastforce
  have e: "registerLive fresh ttl now u session target st = st\<lparr>bd_sessions := AList.update u vs2 ?ss, bd_drawn := n2\<rparr>"
    using prune_inv [OF assms] r m by (simp add: registerLive_def Let_def)
  have inv: "sessionsInv fresh (bd_drawn st) ?ss" by (rule prunedSessions_inv [OF assms])
  note of_u = sessionsOf_inv [OF inv, of u]
  have d0: "distinct (map se_id (sessionsOf u ?ss))" using of_u(1) by (simp add: wellFlagged_def)
  note r' = registerSession_draws [OF r d0] and m' = markConflict_draws [OF m]
  have draws: "drawsOnly fresh (bd_drawn st) (sessionsOf u ?ss) n2 vs2" by (rule drawsOnly_trans [OF r'(1) m'(1)])
  then have mono: "bd_drawn st \<le> n2" by (simp add: drawsOnly_def)
  have "vs2 \<noteq> []" using r'(3) m'(2) by auto
  moreover have "wellFlagged vs2" by (rule m'(3) [OF r'(2)])
  moreover note drawsOnly_bound [OF draws of_u(2)]
  ultimately have "sessionsInv fresh n2 (AList.update u vs2 ?ss)" by (intro update_inv [OF inv mono])
  then show "sessionsInv fresh (bd_drawn (registerLive fresh ttl now u session target st))
      (bd_sessions (registerLive fresh ttl now u session target st))" by (simp add: e)
  show "bd_drawn st \<le> bd_drawn (registerLive fresh ttl now u session target st)" using mono by (simp add: e)
  have dist: "distinct (map fst (bd_sessions st))" using assms by (simp add: sessionsInv_def)
  have sub: "se_token ` set (sessionsOf w ?ss) \<subseteq> se_token ` set (sessionsOf w (bd_sessions st))" for w
    unfolding sessionsOf_pruned [OF dist] by auto
  show "drawsOnly fresh (bd_drawn st) (sessionsOf w (bd_sessions st)) (bd_drawn (registerLive fresh ttl now u session target st))
      (sessionsOf w (bd_sessions (registerLive fresh ttl now u session target st)))"
    using draws mono sub [of w] by (auto simp: e sessionsOf_update drawsOnly_def)
  show "bd_rows (registerLive fresh ttl now u session target st) = bd_rows st" by (simp add: e)
qed

subsection \<open>Rows\<close>

definition laneOf :: "Binding \<Rightarrow> int \<times> string" where
  "laneOf b = (bi_project b, bi_lane b)"

definition targetOf :: "Binding \<Rightarrow> string \<times> string \<times> string \<times> string" where
  "targetOf b = (bi_worker b, tg_kind (bi_target b), tg_origin (bi_target b), tg_path (bi_target b))"

definition storedRow :: "Binding \<Rightarrow> bool" where
  "storedRow b = (bi_version b > 0 \<and> bi_readiness b = [] \<and> bi_session b = [] \<and> bi_token b = [] \<and> bi_seen b = None)"

definition rowsInv :: "(nat \<Rightarrow> string) \<Rightarrow> nat \<Rightarrow> Binding list \<Rightarrow> bool" where
  "rowsInv fresh n rows =
     (distinct (map bi_id rows) \<and> bi_id ` set rows \<subseteq> fresh ` {..<n} \<and> distinct (map laneOf rows) \<and>
      (\<forall>b \<in> set rows. storedRow b) \<and>
      (\<forall>a \<in> set rows. \<forall>b \<in> set rows. bi_enabled a \<and> bi_enabled b \<and> targetOf a = targetOf b \<longrightarrow> a = b))"

definition bindingInv :: "(nat \<Rightarrow> string) \<Rightarrow> Bindings \<Rightarrow> bool" where
  "bindingInv fresh st =
     (sessionsInv fresh (bd_drawn st) (bd_sessions st) \<and> rowsInv fresh (bd_drawn st) (bd_rows st))"

text \<open>What a step may do to a row: nothing, or give it a higher version.\<close>

definition rowLater :: "Binding \<Rightarrow> Binding \<Rightarrow> bool" where
  "rowLater b b' =
     (bi_id b' = bi_id b \<and> laneOf b' = laneOf b \<and> (b' = b \<or> bi_version b < bi_version b'))"

lemma rowLater_refl [simp]: "rowLater b b"
  by (simp add: rowLater_def)

lemma rowLater_trans: "rowLater a b \<Longrightarrow> rowLater b c \<Longrightarrow> rowLater a c"
  by (auto simp: rowLater_def)

lemma readBinding_Some:
  "readBinding p lane rows = Some b \<Longrightarrow> b \<in> set rows \<and> laneOf b = (p, lane)"
  by (auto simp: readBinding_def laneOf_def dest: find_Some_in)

lemma readBinding_None: "readBinding p lane rows = None \<longleftrightarrow> (p, lane) \<notin> laneOf ` set rows"
  by (auto simp: readBinding_def find_None_iff laneOf_def image_iff)

lemma readBinding_unique:
  assumes "rowsInv fresh n rows" "b \<in> set rows" "laneOf b = (p, lane)"
  shows "readBinding p lane rows = Some b"
proof -
  from assms(2,3) have "readBinding p lane rows \<noteq> None" by (metis readBinding_None image_eqI)
  then obtain c where c: "readBinding p lane rows = Some c" by blast
  have "inj_on laneOf (set rows)" using assms(1) by (simp add: rowsInv_def distinct_map)
  with readBinding_Some [OF c] assms(2,3) have "c = b" by (metis inj_onD)
  with c show ?thesis by simp
qed

lemma free_target:
  assumes "ensureTargetFree p lane w target rows" "b \<in> set rows" "bi_enabled b"
    "targetOf b = (w, tg_kind target, tg_origin target, tg_path target)"
  shows "laneOf b = (p, lane)"
  using assms by (auto simp: ensureTargetFree_def list_ex_iff takenBy_def targetOf_def laneOf_def)

text \<open>Overwriting one row.\<close>

lemma rowsInv_update:
  assumes "rowsInv fresh n rows" "b \<in> set rows" "\<And>r. bi_id (f r) = bi_id r" "\<And>r. laneOf (f r) = laneOf r"
    "storedRow (f b)"
    "\<And>a. a \<in> set rows \<Longrightarrow> bi_enabled a \<Longrightarrow> bi_enabled (f b) \<Longrightarrow> targetOf a = targetOf (f b) \<Longrightarrow> a = b"
  shows "rowsInv fresh n (row_update (\<lambda>r. bi_id r = bi_id b) f rows)"
proof -
  let ?g = "\<lambda>r. if bi_id r = bi_id b then f r else r" and ?rows = "row_update (\<lambda>r. bi_id r = bi_id b) f rows"
  have one: "r = b" if "r \<in> set rows" "bi_id r = bi_id b" for r
    using assms(1,2) that by (auto simp: rowsInv_def distinct_map dest: inj_onD)
  have ids: "map bi_id ?rows = map bi_id rows" and lanes: "map laneOf ?rows = map laneOf rows"
    by (simp_all add: row_update_def assms(3,4))
  have mem: "r = f b \<or> (r \<in> set rows \<and> r \<noteq> b)" if "r \<in> set ?rows" for r
  proof -
    from that obtain r0 where "r0 \<in> set rows" "r = ?g r0" by (auto simp: row_update_def)
    with one [of r0] show ?thesis by (cases "r0 = b") auto
  qed
  have "\<forall>r \<in> set ?rows. storedRow r" using mem assms(1,5) by (auto simp: rowsInv_def)
  moreover have "x = y" if xy: "x \<in> set ?rows" "y \<in> set ?rows" "bi_enabled x" "bi_enabled y" "targetOf x = targetOf y" for x y
    using mem [OF xy(1)] mem [OF xy(2)] xy(3-5) assms(1,6) unfolding rowsInv_def by metis
  moreover have "bi_id ` set ?rows = bi_id ` set rows" using ids by (metis list.set_map)
  ultimately show ?thesis using assms(1) ids lanes unfolding rowsInv_def by metis
qed

lemma later_update:
  assumes "rowsInv fresh n rows" "b \<in> set rows" "\<And>r. bi_id (f r) = bi_id r" "\<And>r. laneOf (f r) = laneOf r"
    "bi_version b < bi_version (f b)"
  shows "list_all2 rowLater rows (row_update (\<lambda>r. bi_id r = bi_id b) f rows)"
proof -
  have one: "r = b" if "r \<in> set rows" "bi_id r = bi_id b" for r
    using assms(1,2) that by (auto simp: rowsInv_def distinct_map dest: inj_onD)
  have "rowLater r (if bi_id r = bi_id b then f r else r)" if "r \<in> set rows" for r
    using one [OF that] assms(3-5) by (cases "r = b") (auto simp: rowLater_def)
  then show ?thesis
    by (simp add: row_update_def list_all2_map2 list_all2_same)
qed

lemma putRow_inv:
  assumes "rowsInv fresh (bd_drawn st) (bd_rows st)" "inj fresh" "putRow fresh now p lane input target st = (st', r)"
  shows "rowsInv fresh (bd_drawn st') (bd_rows st') \<and> bd_sessions st' = bd_sessions st \<and> bd_drawn st \<le> bd_drawn st' \<and>
    list_all2 rowLater (bd_rows st) (take (length (bd_rows st)) (bd_rows st'))"
proof -
  have same: ?thesis if "st' = st"
    using that assms(1) by (simp add: list_all2_same)
  show ?thesis
  proof (cases "readBinding p lane (bd_rows st)")
    case None
    show ?thesis
    proof (cases "(pt_expected input \<noteq> None \<and> pt_expected input \<noteq> Some 0) \<or> \<not> ensureTargetFree p lane (pt_worker input) target (bd_rows st)")
      case True
      with None assms(3) have "st' = st" by (auto simp: putRow_def split: if_splits)
      then show ?thesis by (rule same)
    next
      case False
      let ?n = "bd_drawn st"
      define b where "b = \<lparr>bi_id = fresh ?n, bi_version = 1, bi_project = p, bi_lane = lane,
                        bi_worker = pt_worker input, bi_target = target, bi_enabled = True, bi_readiness = [],
                        bi_session = [], bi_token = [], bi_seen = None, bi_updated = now\<rparr>"
      have st': "st' = st\<lparr>bd_rows := bd_rows st @ [b], bd_drawn := Suc ?n\<rparr>"
        using None False assms(3) by (auto simp: putRow_def b_def Let_def split: if_splits)
      have b: "bi_id b = fresh ?n" "laneOf b = (p, lane)" "storedRow b"
        "targetOf b = (pt_worker input, tg_kind target, tg_origin target, tg_path target)"
        by (simp_all add: b_def laneOf_def storedRow_def targetOf_def)
      have new: "fresh ?n \<notin> fresh ` {..<?n}" using assms(2) by (auto dest: injD)
      have "fresh ` {..<Suc ?n} = insert (fresh ?n) (fresh ` {..<?n})" by (simp add: lessThan_Suc)
      moreover have "bi_id b \<notin> bi_id ` set (bd_rows st)" using assms(1) new b(1) by (auto simp: rowsInv_def)
      moreover have "laneOf b \<notin> laneOf ` set (bd_rows st)" using None b(2) by (simp add: readBinding_None)
      moreover have "\<forall>a \<in> set (bd_rows st). bi_enabled a \<longrightarrow> targetOf a \<noteq> targetOf b \<and> targetOf b \<noteq> targetOf a"
        using free_target [of p lane "pt_worker input" target "bd_rows st"] False None b(4)
        by (auto simp: readBinding_None image_iff)
      ultimately have "rowsInv fresh (Suc ?n) (bd_rows st @ [b])"
        using assms(1) b(1,3) unfolding rowsInv_def by auto
      then show ?thesis by (simp add: st' list_all2_same)
    qed
  next
    case (Some e)
    show ?thesis
    proof (cases "pt_expected input \<noteq> Some (bi_version e) \<or> \<not> ensureTargetFree p lane (pt_worker input) target (bd_rows st)")
      case True
      with Some assms(3) have "st' = st" by (auto simp: putRow_def split: if_splits)
      then show ?thesis by (rule same)
    next
      case False
      let ?f = "\<lambda>b. (bindRow now (pt_worker input) target b)\<lparr>bi_version := bi_version e + 1\<rparr>"
      have st': "st' = st\<lparr>bd_rows := row_update (\<lambda>b. bi_id b = bi_id e) ?f (bd_rows st)\<rparr>"
        using Some False assms(3) by (auto simp: putRow_def)
      note e = readBinding_Some [OF Some]
      have f: "bi_id (?f r) = bi_id r" "laneOf (?f r) = laneOf r" for r by (simp_all add: bindRow_def laneOf_def)
      have "storedRow e" using assms(1) e by (simp add: rowsInv_def)
      then have s: "storedRow (?f e)" by (simp add: storedRow_def bindRow_def)
      have "a = e" if "a \<in> set (bd_rows st)" "bi_enabled a" "targetOf a = targetOf (?f e)" for a
      proof -
        have "laneOf a = (p, lane)"
          using free_target [of p lane "pt_worker input" target "bd_rows st" a] that False
          by (simp add: bindRow_def targetOf_def)
        moreover have "inj_on laneOf (set (bd_rows st))" using assms(1) by (simp add: rowsInv_def distinct_map)
        ultimately show ?thesis using e that(1) by (metis inj_onD)
      qed
      with rowsInv_update [OF assms(1) _ f s] e later_update [OF assms(1) _ f, of e] show ?thesis
        by (simp add: st' row_update_def)
    qed
  qed
qed

lemma disableRow_inv:
  assumes "rowsInv fresh (bd_drawn st) (bd_rows st)" "disableRow now p lane expected st = (st', r)"
  shows "rowsInv fresh (bd_drawn st') (bd_rows st') \<and> bd_sessions st' = bd_sessions st \<and> bd_drawn st \<le> bd_drawn st' \<and>
    list_all2 rowLater (bd_rows st) (take (length (bd_rows st)) (bd_rows st'))"
proof (cases "st' = st")
  case True
  with assms(1) show ?thesis by (simp add: list_all2_same)
next
  case False
  with assms(2) obtain b where get: "readBinding p lane (bd_rows st) = Some b"
    by (auto simp: disableRow_def split: option.splits)
  let ?f = "\<lambda>r. r\<lparr>bi_enabled := False, bi_version := bi_version b + 1, bi_updated := now\<rparr>"
  have st': "st' = st\<lparr>bd_rows := row_update (\<lambda>r. bi_id r = bi_id b) ?f (bd_rows st)\<rparr>"
    using get False assms(2) by (auto simp: disableRow_def Let_def split: if_splits)
  note b = readBinding_Some [OF get]
  have f: "bi_id (?f r) = bi_id r" "laneOf (?f r) = laneOf r" for r by (simp_all add: laneOf_def)
  have "storedRow b" using assms(1) b by (simp add: rowsInv_def)
  then have s: "storedRow (?f b)" by (simp add: storedRow_def)
  from rowsInv_update [OF assms(1) _ f s] b later_update [OF assms(1) _ f, of b] show ?thesis
    by (simp add: st' row_update_def)
qed

subsection \<open>Runs\<close>

text \<open>What a step, and so a run, keeps: the invariant, every row up to a higher version, and
  of each worker's tokens only the known or newly drawn ones.\<close>

definition carries :: "(nat \<Rightarrow> string) \<Rightarrow> Bindings \<Rightarrow> Bindings \<Rightarrow> bool" where
  "carries fresh st st' =
     (bindingInv fresh st' \<and> (\<forall>b \<in> set (bd_rows st). \<exists>b' \<in> set (bd_rows st'). rowLater b b') \<and>
      (\<forall>w. drawsOnly fresh (bd_drawn st) (sessionsOf w (bd_sessions st)) (bd_drawn st') (sessionsOf w (bd_sessions st'))))"

lemma list_later:
  "list_all2 rowLater xs (take n ys) \<Longrightarrow> b \<in> set xs \<Longrightarrow> \<exists>b' \<in> set ys. rowLater b b'"
proof -
  assume l: "list_all2 rowLater xs (take n ys)" and b: "b \<in> set xs"
  from b obtain i where i: "i < length xs" "xs ! i = b" by (auto simp: in_set_conv_nth)
  with l have "rowLater b (take n ys ! i)" "i < length (take n ys)" by (auto simp: list_all2_conv_all_nth)
  then show ?thesis by (meson in_set_takeD nth_mem)
qed

lemma rowsInv_mono: "rowsInv fresh n rows \<Longrightarrow> n \<le> n' \<Longrightarrow> rowsInv fresh n' rows"
proof -
  assume r: "rowsInv fresh n rows" and le: "n \<le> n'"
  from le have "fresh ` {..<n} \<subseteq> fresh ` {..<n'}" by (intro image_mono) simp
  with r show "rowsInv fresh n' rows" unfolding rowsInv_def by (meson order_trans)
qed

lemma sessionsInv_mono: "sessionsInv fresh n ss \<Longrightarrow> n \<le> n' \<Longrightarrow> sessionsInv fresh n' ss"
proof -
  assume s: "sessionsInv fresh n ss" and le: "n \<le> n'"
  from le have "fresh ` {..<n} \<subseteq> fresh ` {..<n'}" by (intro image_mono) simp
  with sessionsInv_mem [OF s] have "\<forall>(w, vs) \<in> set ss. vs \<noteq> [] \<and> wellFlagged vs \<and> se_token ` set vs \<subseteq> fresh ` {..<n'}"
    by blast
  with s show "sessionsInv fresh n' ss" unfolding sessionsInv_def by blast
qed

lemma carries_rows:
  assumes "bindingInv fresh st" "rowsInv fresh (bd_drawn st') (bd_rows st') \<and> bd_sessions st' = bd_sessions st \<and>
    bd_drawn st \<le> bd_drawn st' \<and> list_all2 rowLater (bd_rows st) (take (length (bd_rows st)) (bd_rows st'))"
  shows "carries fresh st st'"
  using assms list_later sessionsInv_mono unfolding carries_def bindingInv_def drawsOnly_def
  by (metis Un_upper1)

lemma carries_sessions:
  assumes "bindingInv fresh st" "bd_rows st' = bd_rows st" "sessionsInv fresh (bd_drawn st') (bd_sessions st')"
    "bd_drawn st \<le> bd_drawn st'"
    "\<And>w. drawsOnly fresh (bd_drawn st) (sessionsOf w (bd_sessions st)) (bd_drawn st') (sessionsOf w (bd_sessions st'))"
  shows "carries fresh st st'"
  using assms rowsInv_mono rowLater_refl unfolding carries_def bindingInv_def by metis

lemma carries_refl: "bindingInv fresh st \<Longrightarrow> carries fresh st st"
  unfolding carries_def using rowLater_refl drawsOnly_refl by blast

lemma carries_trans: "carries fresh st st' \<Longrightarrow> carries fresh st' st'' \<Longrightarrow> carries fresh st st''"
  unfolding carries_def using rowLater_trans drawsOnly_trans by meson

lemma Register_live:
  "fst (Register fresh ttl now input st) = st \<or>
   (\<exists>st0 u session target. fst (Register fresh ttl now input st) = registerLive fresh ttl now u session target st0 \<and>
      bd_sessions st0 = bd_sessions st \<and> bd_rows st0 = bd_rows st \<and> bd_drawn st0 = bd_drawn st)"
proof (cases "normalizeObserved (in_target input)")
  case (Inr target)
  show ?thesis unfolding Register_def Let_def Inr
    by (auto intro!: exI [of _ "st\<lparr>bd_workers := _\<rparr>"])
qed (simp add: Register_def Let_def)

lemma step_carries:
  assumes "binding_step fresh ttl st st'" "bindingInv fresh st" "inj fresh"
  shows "carries fresh st st'"
proof -
  have ses: "sessionsInv fresh (bd_drawn st) (bd_sessions st)" and rows: "rowsInv fresh (bd_drawn st) (bd_rows st)"
    using assms(2) by (simp_all add: bindingInv_def)
  from assms(1) show ?thesis
  proof (cases rule: binding_step.cases)
    case (register now input)
    consider "st' = st" | st0 u session target where "st' = registerLive fresh ttl now u session target st0"
      "bd_sessions st0 = bd_sessions st" "bd_rows st0 = bd_rows st" "bd_drawn st0 = bd_drawn st"
      using Register_live [of fresh ttl now input st] register by blast
    then show ?thesis
    proof cases
      case 1
      with assms(2) show ?thesis by (simp add: carries_refl)
    next
      case (2 st0 u session target)
      have "sessionsInv fresh (bd_drawn st0) (bd_sessions st0)" using 2 ses by simp
      note live = registerLive_inv [OF this, where ttl = ttl and now = now and u = u and session = session and target = target]
      show ?thesis
        by (rule carries_sessions [OF assms(2)]) (use live 2 in simp_all)
    qed
  next
    case (prune now)
    have dist: "distinct (map fst (bd_sessions st))" using ses by (simp add: sessionsInv_def)
    show ?thesis
      by (rule carries_sessions [OF assms(2)])
        (auto simp: prune prune_inv [OF ses] prunedSessions_inv [OF ses] sessionsOf_pruned [OF dist] drawsOnly_def)
  next
    case (put now p lane input target)
    obtain r where "putRow fresh now p lane input target st = (st', r)"
      using put by (cases "putRow fresh now p lane input target st") simp
    from carries_rows [OF assms(2) putRow_inv [OF rows assms(3) this]] show ?thesis .
  next
    case (disable now p lane expected)
    obtain r where "disableRow now p lane expected st = (st', r)"
      using disable by (cases "disableRow now p lane expected st") simp
    from carries_rows [OF assms(2) disableRow_inv [OF rows this]] show ?thesis .
  qed
qed

lemma run_carries:
  assumes "binding_run fresh ttl st st'" "bindingInv fresh st" "inj fresh"
  shows "carries fresh st st'"
  using assms(1)
proof (induction rule: rtranclp_induct)
  case base
  with assms(2) show ?case by (rule carries_refl)
next
  case (step y z)
  have "bindingInv fresh y" using step.IH by (simp add: carries_def)
  from carries_trans [OF step.IH step_carries [OF step.hyps(2) this assms(3)]] show ?case .
qed

lemma emptyBindings_inv [simp]: "bindingInv fresh emptyBindings"
  by (simp add: bindingInv_def sessionsInv_def rowsInv_def emptyBindings_def)

subsection \<open>The conversation path\<close>

lemma splitSlash_plain: "CHR ''/'' \<notin> set s \<Longrightarrow> splitSlash s = [s]"
  by (induction s) auto

lemma splitSlash_chat: "CHR ''/'' \<notin> set key \<Longrightarrow> splitSlash (''/c/'' @ key) = [[], ''c'', key]"
  by (simp add: splitSlash_plain)

lemma chatPath_key:
  assumes "CHR ''/'' \<notin> set key" "key \<noteq> []"
  shows "chatPath (''/c/'' @ key) \<longleftrightarrow> list_all plainPathChar key \<and> key \<noteq> ''.'' \<and> key \<noteq> ''..''"
proof -
  have "cleanRooted (''/c/'' @ key) =
      CHR ''/'' # joinWith ''/'' (cleanElems [] [[], ''c'', key])"
    unfolding cleanRooted_def splitSlash_chat [OF assms(1)] ..
  moreover have "list_all plainPathChar ''/c/''" by code_simp
  ultimately show ?thesis using assms(2)
    by (auto simp: chatPath_def hasPrefix_iff)
qed

text \<open>C16. What a conversation target is. \<open>NormalizeTarget\<close> accepts exactly the targets whose
  trimmed kind and origin are the fixed ones, whose trimmed label has at most 120 bytes and
  whose trimmed path is \<open>/c/\<close> and one nonempty segment of at most 200 bytes that is no dot
  segment and has no control character, escape, query or fragment; it returns that target
  without its label.\<close>

theorem NormalizeTarget_iff:
  "NormalizeTarget t = Inr t' \<longleftrightarrow>
     trimSpace (tg_kind t) = ''chatgpt_conversation'' \<and> trimSpace (tg_origin t) = ''https://chatgpt.com'' \<and>
     length (trimSpace (tg_label t)) \<le> 120 \<and>
     (\<exists>key. trimSpace (tg_path t) = ''/c/'' @ key \<and> key \<noteq> [] \<and> CHR ''/'' \<notin> set key \<and> length key \<le> 200 \<and>
        list_all plainPathChar key \<and> key \<noteq> ''.'' \<and> key \<noteq> ''..'' \<and>
        t' = \<lparr>tg_kind = ''chatgpt_conversation'', tg_origin = ''https://chatgpt.com'', tg_path = ''/c/'' @ key, tg_label = []\<rparr>)"
  (is "?l \<longleftrightarrow> ?r")
proof
  assume l: ?l
  let ?p = "trimSpace (tg_path t)" and ?key = "drop 3 (trimSpace (tg_path t))"
  from l have f: "trimSpace (tg_kind t) = ''chatgpt_conversation''" "trimSpace (tg_origin t) = ''https://chatgpt.com''"
    "length (trimSpace (tg_label t)) \<le> 120" "chatPath ?p" "?key \<noteq> []" "CHR ''/'' \<notin> set ?key" "length ?key \<le> 200"
    and t': "t' = \<lparr>tg_kind = trimSpace (tg_kind t), tg_origin = trimSpace (tg_origin t), tg_path = ?p, tg_label = []\<rparr>"
    by (auto simp: NormalizeTarget_def Let_def split: if_splits)
  from f(4) have p: "?p = ''/c/'' @ ?key" by (auto simp: chatPath_def hasPrefix_iff)
  from f(4) have "chatPath (''/c/'' @ ?key)" by (subst (asm) p)
  with chatPath_key [OF f(6,5)] have "list_all plainPathChar ?key \<and> ?key \<noteq> ''.'' \<and> ?key \<noteq> ''..''" by blast
  moreover have "t' = \<lparr>tg_kind = ''chatgpt_conversation'', tg_origin = ''https://chatgpt.com'', tg_path = ''/c/'' @ ?key, tg_label = []\<rparr>"
    unfolding t' f(1,2) by (subst p) (rule refl)
  ultimately show ?r using f p by blast
next
  assume ?r
  then obtain key where f: "trimSpace (tg_kind t) = ''chatgpt_conversation''" "trimSpace (tg_origin t) = ''https://chatgpt.com''"
    "length (trimSpace (tg_label t)) \<le> 120" "trimSpace (tg_path t) = ''/c/'' @ key" "key \<noteq> []" "CHR ''/'' \<notin> set key"
    "length key \<le> 200" "list_all plainPathChar key \<and> key \<noteq> ''.'' \<and> key \<noteq> ''..''"
    "t' = \<lparr>tg_kind = ''chatgpt_conversation'', tg_origin = ''https://chatgpt.com'', tg_path = ''/c/'' @ key, tg_label = []\<rparr>"
    by blast
  from f(8) chatPath_key [OF f(6,5)] have "chatPath (''/c/'' @ key)" by blast
  with f show ?l by (simp add: NormalizeTarget_def Let_def)
qed

text \<open>Normalising is idempotent: what the service stores and compares is a fixed point.\<close>

theorem NormalizeTarget_idem:
  assumes "NormalizeTarget t = Inr t'"
  shows "NormalizeTarget t' = Inr t'"
proof -
  from assms have "t' = \<lparr>tg_kind = trimSpace (tg_kind t), tg_origin = trimSpace (tg_origin t), tg_path = trimSpace (tg_path t), tg_label = []\<rparr>"
    by (auto simp: NormalizeTarget_def Let_def split: if_splits)
  moreover have "trimSpace [] = []" by code_simp
  ultimately show ?thesis using assms by (simp add: NormalizeTarget_def Let_def split: if_splits)
qed

definition sampleTarget :: TargetRef where
  "sampleTarget = \<lparr>tg_kind = '' chatgpt_conversation'', tg_origin = ''https://chatgpt.com'', tg_path = ''/c/abc '', tg_label = ''x''\<rparr>"

definition sampleNormal :: TargetRef where
  "sampleNormal = \<lparr>tg_kind = ''chatgpt_conversation'', tg_origin = ''https://chatgpt.com'', tg_path = ''/c/abc'', tg_label = []\<rparr>"

lemma sampleTarget_ok: "NormalizeTarget sampleTarget = Inr sampleNormal"
proof -
  have "trimSpace '' chatgpt_conversation'' = ''chatgpt_conversation''" "trimSpace ''https://chatgpt.com'' = ''https://chatgpt.com''"
    "trimSpace ''/c/abc '' = ''/c/abc''" "trimSpace ''x'' = ''x''" "chatPath ''/c/abc''"
    by code_simp+
  then show ?thesis by (simp add: NormalizeTarget_def sampleTarget_def sampleNormal_def Let_def)
qed

theorem NormalizeTarget_idem_witness: "NormalizeTarget sampleNormal = Inr sampleNormal"
  by (rule NormalizeTarget_idem [OF sampleTarget_ok])

text \<open>C17. The bindings a run can reach. From the empty state, whatever calls interleave, a lane
  has at most one binding row, no two enabled rows name the same worker and target, ids are
  distinct, versions are positive, and a row carries no presence.\<close>

theorem bindings_reachable:
  assumes "binding_run fresh ttl emptyBindings st" "inj fresh"
  shows "distinct (map bi_id (bd_rows st)) \<and> distinct (map laneOf (bd_rows st)) \<and>
    (\<forall>b \<in> set (bd_rows st). bi_version b > 0 \<and> bi_token b = [] \<and> bi_session b = []) \<and>
    (\<forall>a \<in> set (bd_rows st). \<forall>b \<in> set (bd_rows st).
       bi_enabled a \<and> bi_enabled b \<and> targetOf a = targetOf b \<longrightarrow> a = b)"
proof -
  have "bindingInv fresh st" using run_carries [OF assms(1) _ assms(2)] by (simp add: carries_def)
  then show ?thesis unfolding bindingInv_def rowsInv_def storedRow_def by blast
qed

theorem bindings_reachable_witness:
  "distinct (map bi_id (bd_rows (fst (putRow showNat 5 1 ''lane'' \<lparr>pt_expected = None, pt_worker = ''w'', pt_target = sampleNormal\<rparr>
     sampleNormal emptyBindings))))"
proof -
  have "inj showNat" by (simp add: inj_def)
  then show ?thesis
    using bindings_reachable [OF run_step [OF put, of showNat 1 emptyBindings], of 5 1 "''lane''"
      "\<lparr>pt_expected = None, pt_worker = ''w'', pt_target = sampleNormal\<rparr>" sampleNormal] by blast
qed

text \<open>C18. Versions protect a lane's binding. A successful \<open>Put\<close> was made with the version the row
  had (none or zero when there was none) and returns the next version; after it, whatever runs
  in between, no \<open>Put\<close> and no \<open>Disable\<close> with that same expected version succeeds again: a
  writer that read before it cannot overwrite it.\<close>

lemma putRow_Inr:
  assumes "putRow fresh now p lane input target st = (st', Inr b)" "rowsInv fresh (bd_drawn st) (bd_rows st)"
  shows "b \<in> set (bd_rows st') \<and> laneOf b = (p, lane) \<and>
    bi_version b = (case pt_expected input of None \<Rightarrow> 1 | Some v \<Rightarrow> v + 1) \<and> bi_enabled b \<and>
    bi_worker b = pt_worker input \<and> bi_target b = target \<and> storedRow b"
proof (cases "readBinding p lane (bd_rows st)")
  case None
  from assms(1) None have "pt_expected input = None \<or> pt_expected input = Some 0"
    and b: "b = \<lparr>bi_id = fresh (bd_drawn st), bi_version = 1, bi_project = p, bi_lane = lane,
                        bi_worker = pt_worker input, bi_target = target, bi_enabled = True, bi_readiness = [],
                        bi_session = [], bi_token = [], bi_seen = None, bi_updated = now\<rparr>" "b \<in> set (bd_rows st')"
    by (auto simp: putRow_def Let_def split: if_splits)
  then have "bi_version b = (case pt_expected input of None \<Rightarrow> 1 | Some v \<Rightarrow> v + 1)" by auto
  with b(2) show ?thesis by (simp add: b(1) laneOf_def storedRow_def)
next
  case (Some e)
  note e = readBinding_Some [OF Some]
  from assms(1) Some have v: "pt_expected input = Some (bi_version e)"
    and b: "b = bindRow now (pt_worker input) target e"
    and st': "st' = st\<lparr>bd_rows := row_update (\<lambda>b. bi_id b = bi_id e)
                      (\<lambda>b. (bindRow now (pt_worker input) target b)\<lparr>bi_version := bi_version e + 1\<rparr>) (bd_rows st)\<rparr>"
    by (auto simp: putRow_def split: if_splits)
  have "b = (bindRow now (pt_worker input) target e)\<lparr>bi_version := bi_version e + 1\<rparr>"
    by (simp add: b bindRow_def)
  then have "b \<in> set (bd_rows st')" using e by (auto simp: st' set_row_update)
  moreover have "storedRow e" using assms(2) e by (simp add: rowsInv_def)
  ultimately show ?thesis using e v by (simp add: b bindRow_def laneOf_def storedRow_def)
qed

lemma project_sel:
  assumes "project fresh ttl now b st = (st', r)"
  shows "bi_version r = bi_version b" "laneOf r = laneOf b" "bi_enabled r = bi_enabled b" "bi_id r = bi_id b"
    "bi_worker r = bi_worker b" "bi_target r = bi_target b"
  using assms by (auto simp: project_def Let_def laneOf_def split: if_splits list.splits)

lemma Put_Inr:
  assumes "Put fresh ttl now p lane input st = (st', Inr r)"
  obtains target st1 st2 b where "NormalizeTarget (pt_target input) = Inr target"
    "requireFreshTarget fresh ttl now (pt_worker input) target st = (st1, True)"
    "putRow fresh now p lane input target st1 = (st2, Inr b)" "project fresh ttl now b st2 = (st', r)"
  using assms by (auto simp: Put_def split: sum.splits if_splits prod.splits bool.splits)

lemma putRow_stale:
  assumes "rowsInv fresh n (bd_rows st)" "c \<in> set (bd_rows st)" "laneOf c = (p, lane)"
    "pt_expected input \<noteq> Some (bi_version c)"
  shows "putRow fresh now p lane input target st = (st, Inl BindingConflict)"
  using readBinding_unique [OF assms(1-3)] assms(4) by (simp add: putRow_def)


definition sampleRegister :: "string \<Rightarrow> RegisterInput" where
  "sampleRegister session = \<lparr>in_worker = ''w'', in_session = session, in_protocol = ''1'', in_capabilities = [],
     in_target = Some sampleTarget\<rparr>"

definition sampleLive :: Bindings where
  "sampleLive = fst (Register showNat 100 5 (sampleRegister ''s'') emptyBindings)"

definition samplePut :: PutInput where
  "samplePut = \<lparr>pt_expected = None, pt_worker = ''w'', pt_target = sampleTarget\<rparr>"

lemma inj_showNat: "inj showNat"
  by (simp add: inj_def)

lemma sampleLive_inv: "bindingInv showNat sampleLive"
  using run_carries [OF run_step [OF register] emptyBindings_inv inj_showNat, of 100 5 "sampleRegister ''s''"]
  by (simp add: carries_def sampleLive_def)

definition succeeded :: "('a \<times> ('e + 'b)) \<Rightarrow> bool" where
  "succeeded r = (case snd r of Inl _ \<Rightarrow> False | Inr _ \<Rightarrow> True)"

lemma succeeded_obtain:
  assumes "succeeded r"
  obtains st b where "r = (st, Inr b)"
  using assms by (cases r) (auto simp: succeeded_def split: sum.splits)


text \<open>C19. A conflict retires the presence token for good. When a worker has one live session and
  a second session of that worker registers, the worker is reported as in conflict and the
  token of the first session is never again a token of that worker, whatever runs afterwards -
  even if the second session dies and the first one is the only one left.\<close>

lemma registerLive_conflict:
  assumes "sessionsInv fresh (bd_drawn st) (bd_sessions st)" "inj fresh" "sessionsOf w (bd_sessions st) = [v]"
    "aliveAt ttl now v" "session \<noteq> se_id v"
  shows "bw_state (workerLocked w (bd_sessions (registerLive fresh ttl now w session target st))) = ''conflict''"
    "se_token v \<in> fresh ` {..<bd_drawn (registerLive fresh ttl now w session target st)}"
    "se_token v \<notin> se_token ` set (sessionsOf w (bd_sessions (registerLive fresh ttl now w session target st)))"
proof -
  let ?ss = "prunedSessions ttl now (bd_sessions st)" and ?n = "bd_drawn st"
  have dist: "distinct (map fst (bd_sessions st))" using assms(1) by (simp add: sessionsInv_def)
  have one: "sessionsOf w ?ss = [setConflict False v]"
    using sessionsOf_pruned [OF dist, of w ttl now] assms(3,4) by (simp add: flagged_def)
  let ?new = "\<lparr>se_id = session, se_seen = now, se_target = target, se_token = fresh ?n, se_conflict = False\<rparr>"
  have two: "registerSession fresh ?n now session target (sessionsOf w ?ss) = ([setConflict False v, ?new], Suc ?n)"
    using assms(5) by (simp add: registerSession_def one row_get_def)
  obtain vs n2 where m: "markConflict fresh (Suc ?n) [setConflict False v, ?new] = (vs, n2)" by fastforce
  have toks: "se_token ` set vs = fresh ` {Suc ?n..<n2}" by (rule markConflict_draws(4) [OF m]) simp_all
  have "map se_id vs = [se_id v, session]" using markConflict_draws(2) [OF m] by simp
  then obtain x y where vs: "vs = [x, y]" by auto
  have e: "registerLive fresh ttl now w session target st = st\<lparr>bd_sessions := AList.update w vs ?ss, bd_drawn := n2\<rparr>"
    using prune_inv [OF assms(1)] two m by (simp add: registerLive_def Let_def)
  show "bw_state (workerLocked w (bd_sessions (registerLive fresh ttl now w session target st))) = ''conflict''"
    by (simp add: e workerLocked_def sessionsOf_update vs Let_def)
  have "se_token v \<in> fresh ` {..<?n}" using sessionsOf_inv(2) [OF assms(1), of w] assms(3) by simp
  then obtain k where k: "k < ?n" "se_token v = fresh k" by auto
  have "Suc ?n \<le> n2" using markConflict_draws(1) [OF m] by (simp add: drawsOnly_def)
  with k show "se_token v \<in> fresh ` {..<bd_drawn (registerLive fresh ttl now w session target st)}" by (auto simp: e)
  show "se_token v \<notin> se_token ` set (sessionsOf w (bd_sessions (registerLive fresh ttl now w session target st)))"
    using k assms(2) by (auto simp: e sessionsOf_update toks dest: injD)
qed

lemma retired_token:
  assumes "binding_run fresh ttl st st'" "bindingInv fresh st" "inj fresh" "t \<in> fresh ` {..<bd_drawn st}"
    "t \<notin> se_token ` set (sessionsOf w (bd_sessions st))"
  shows "t \<notin> se_token ` set (sessionsOf w (bd_sessions st'))"
proof -
  have "drawsOnly fresh (bd_drawn st) (sessionsOf w (bd_sessions st)) (bd_drawn st') (sessionsOf w (bd_sessions st'))"
    using run_carries [OF assms(1-3)] by (simp add: carries_def)
  moreover have "t \<notin> fresh ` {bd_drawn st..<bd_drawn st'}" using assms(3,4) by (auto dest: injD)
  ultimately show ?thesis using assms(5) unfolding drawsOnly_def by blast
qed

theorem conflict_retires_token:
  assumes "Register fresh ttl now input st = (st1, Inr worker)" "bindingInv fresh st" "inj fresh"
    "sessionsOf (trimSpace (in_worker input)) (bd_sessions st) = [v]" "aliveAt ttl now v"
    "trimSpace (in_session input) \<noteq> se_id v" "binding_run fresh ttl st1 st2"
  shows "bw_state worker = ''conflict'' \<and>
    se_token v \<notin> se_token ` set (sessionsOf (trimSpace (in_worker input)) (bd_sessions st2))"
proof -
  let ?w = "trimSpace (in_worker input)"
  from assms(1) obtain target rows where
    st1: "st1 = registerLive fresh ttl now ?w (trimSpace (in_session input)) target (st\<lparr>bd_workers := rows\<rparr>)"
    and w: "worker = workerLocked ?w (bd_sessions st1)"
    by (auto simp: Register_def Let_def split: if_splits sum.splits)
  have "sessionsInv fresh (bd_drawn (st\<lparr>bd_workers := rows\<rparr>)) (bd_sessions (st\<lparr>bd_workers := rows\<rparr>))"
    using assms(2) by (simp add: bindingInv_def)
  note live = registerLive_conflict [OF this assms(3) _ assms(5,6), of ?w target]
  have "binding_step fresh ttl st st1" using register [of fresh ttl st now input] assms(1) by simp
  then have "bindingInv fresh st1" using step_carries assms(2,3) by (metis carries_def)
  from retired_token [OF assms(7) this assms(3)] live assms(4) show ?thesis by (simp add: st1 w)
qed

theorem conflict_retires_token_witness:
  "\<exists>v. sessionsOf ''w'' (bd_sessions sampleLive) = [v] \<and>
     se_token v \<notin> se_token ` set (sessionsOf ''w'' (bd_sessions (fst (Register showNat 100 6 (sampleRegister ''s2'') sampleLive))))"
proof -
  define v where "v = \<lparr>se_id = ''s'', se_seen = 5, se_target = Some sampleNormal, se_token = ''0'', se_conflict = False\<rparr>"
  have t: "trimSpace (in_worker (sampleRegister ''s2'')) = ''w''" "trimSpace (in_session (sampleRegister ''s2'')) \<noteq> se_id v"
    "sessionsOf ''w'' (bd_sessions sampleLive) = [v]" "aliveAt 100 6 v"
    unfolding v_def by code_simp+
  have "succeeded (Register showNat 100 6 (sampleRegister ''s2'') sampleLive)" by code_simp
  then obtain st1 b where r: "Register showNat 100 6 (sampleRegister ''s2'') sampleLive = (st1, Inr b)" by (rule succeeded_obtain)
  from conflict_retires_token [OF r sampleLive_inv inj_showNat _ t(4,2) rtranclp.rtrancl_refl] t(1,3) r
  show ?thesis by auto
qed

text \<open>What readiness means. A binding that \<open>Get\<close> reports as ready is stored, enabled and
  has exactly one live session of its worker, seen within the time to live, not in conflict and
  showing the bound target; it carries that session's id and token. Any other binding is
  returned without a token.\<close>

theorem ready_binding:
  assumes "GetBinding fresh ttl now p lane st = (st', Inr b)" "bindingInv fresh st"
  shows "laneOf b = (p, lane) \<and>
    (if bi_readiness b = ''ready''
     then bi_enabled b \<and> (\<exists>v. sessionsOf (bi_worker b) (bd_sessions st') = [v] \<and> now - se_seen v \<le> ttl \<and> \<not> se_conflict v \<and>
            sameTarget (se_target v) (Some (bi_target b)) \<and> bi_session b = se_id v \<and> bi_token b = se_token v)
     else bi_token b = [] \<and> bi_session b = [])"
proof -
  from assms(1) obtain row where row: "readBinding p lane (bd_rows st) = Some row" "project fresh ttl now row st = (st', b)"
    by (auto simp: GetBinding_def split: option.splits prod.splits)
  have ses: "sessionsInv fresh (bd_drawn st) (bd_sessions st)" using assms(2) by (simp add: bindingInv_def)
  have dist: "distinct (map fst (bd_sessions st))" using ses by (simp add: sessionsInv_def)
  have st': "bd_sessions st' = prunedSessions ttl now (bd_sessions st)"
    using row(2) by (auto simp: project_def Let_def prune_inv [OF ses])
  have alive: "now - se_seen v \<le> ttl" if "v \<in> set (sessionsOf w (bd_sessions st'))" for v w
    using that by (auto simp: st' sessionsOf_pruned [OF dist] flagged_def aliveAt_def)
  have stored: "storedRow row" "laneOf row = (p, lane)"
    using assms(2) readBinding_Some [OF row(1)] by (simp_all add: bindingInv_def rowsInv_def)
  have lane: "laneOf b = (p, lane)" using project_sel(2) [OF row(2)] stored(2) by simp
  have "prune fresh ttl now st = st'" using row(2) by (auto simp: project_def Let_def)
  then show ?thesis
    using row(2) stored(1) alive [of _ "bi_worker row"] lane
    by (auto simp: project_def Let_def storedRow_def split: if_splits list.splits)
qed

theorem ready_binding_witness:
  "\<exists>st b. laneOf b = (1, ''lane'') \<and> GetBinding showNat 100 7 1 ''lane'' (fst (Put showNat 100 6 1 ''lane'' samplePut sampleLive)) = (st, Inr b)"
proof -
  have "bindingInv showNat (fst (Put showNat 100 6 1 ''lane'' samplePut sampleLive))"
    using run_carries [OF Put_run sampleLive_inv inj_showNat] by (simp add: carries_def)
  moreover have "succeeded (GetBinding showNat 100 7 1 ''lane'' (fst (Put showNat 100 6 1 ''lane'' samplePut sampleLive)))"
    by code_simp
  ultimately show ?thesis using ready_binding succeeded_obtain by metis
qed

end
