(* ===== verification/Delivery_Binding.thy ===== *)
theory Delivery_Binding
  imports Delivery_Machine Binding_Machine
begin

text \<open>
  \<open>BrowserBindingResolver\<close> of \<open>delivery/types.go\<close>, where the delivery queue reads the browser
  bindings, and what follows for the two services together. The interface of the reader is
  the locale \<open>binding_reader\<close>; \<open>Service.Get\<close> of \<open>browserbinding\<close> is its instance.
\<close>

definition snapshotOf :: "Binding \<Rightarrow> BindingSnapshot" where
  "snapshotOf b =
     \<lparr>bs_lane = bi_lane b, bs_binding = bi_id b, bs_version = bi_version b, bs_worker = bi_worker b,
      bs_session = bi_session b, bs_kind = tg_kind (bi_target b), bs_ref = tg_origin (bi_target b) @ tg_path (bi_target b),
      bs_ready = True, bs_presence = bi_token b\<rparr>"

definition BrowserBindingResolve :: "(int \<Rightarrow> string \<Rightarrow> 'e + Binding) option \<Rightarrow> int \<Rightarrow> string \<Rightarrow> delivery_error + BindingSnapshot" where
  "BrowserBindingResolve reader projectID lane =
     (case reader of
        None \<Rightarrow> Inl DeliveryUnavailable
      | Some get \<Rightarrow>
          (case get projectID lane of
             Inl _ \<Rightarrow> Inl DeliveryUnavailable
           | Inr b \<Rightarrow> if bi_readiness b \<noteq> ''ready'' then Inl DeliveryUnavailable else Inr (snapshotOf b)))"

definition UnavailableResolve :: "int \<Rightarrow> string \<Rightarrow> delivery_error + BindingSnapshot" where
  "UnavailableResolve projectID lane = Inl (DeliveryError ''browser binding resolver is unavailable'')"

text \<open>The contract of \<open>BrowserBindingReader\<close>: a ready binding is the one asked for, stored with
  a positive version, and its token is one of the tokens its worker has now.\<close>

locale binding_reader =
  fixes get :: "'s \<Rightarrow> int \<Rightarrow> string \<Rightarrow> 'e + Binding"
    and ok :: "'s \<Rightarrow> bool"
    and tokens :: "'s \<Rightarrow> string \<Rightarrow> string set"
  assumes ready_lane: "ok st \<Longrightarrow> get st p lane = Inr b \<Longrightarrow> bi_readiness b = ''ready'' \<Longrightarrow> bi_project b = p \<and> bi_lane b = lane"
    and ready_version: "ok st \<Longrightarrow> get st p lane = Inr b \<Longrightarrow> bi_readiness b = ''ready'' \<Longrightarrow> bi_version b > 0"
    and ready_token: "ok st \<Longrightarrow> get st p lane = Inr b \<Longrightarrow> bi_readiness b = ''ready'' \<Longrightarrow> bi_token b \<in> tokens st (bi_worker b)"
begin

lemma resolved:
  assumes "ok st" "BrowserBindingResolve (Some (get st)) p lane = Inr s"
  shows "bs_lane s = lane \<and> bs_version s > 0 \<and> bs_ready s \<and> bs_presence s \<in> tokens st (bs_worker s)"
proof -
  from assms(2) obtain b where b: "get st p lane = Inr b" "bi_readiness b = ''ready''" "s = snapshotOf b"
    by (auto simp: BrowserBindingResolve_def split: sum.splits if_splits)
  from ready_lane [OF assms(1) b(1,2)] ready_version [OF assms(1) b(1,2)] ready_token [OF assms(1) b(1,2)] b(3)
  show ?thesis by (simp add: snapshotOf_def)
qed

text \<open>A command whose presence token its worker no longer has fails the check at claim time.\<close>

lemma stale_presence:
  assumes "ok st" "au_resolve au = Some (BrowserBindingResolve (Some (get st)))" "dc_presence c \<notin> tokens st (dc_worker c)"
  shows "currentCheck au c \<noteq> None"
proof
  assume "currentCheck au c = None"
  then obtain s where r: "resolve au (dc_project c) (dc_lane c) = Inr s" and s: "bindingCurrent c s"
    by (auto simp: currentCheck_def split: sum.splits if_splits)
  from r assms(2) have "BrowserBindingResolve (Some (get st)) (dc_project c) (dc_lane c) = Inr s"
    by (auto simp: resolve_def split: sum.splits if_splits)
  from resolved [OF assms(1) this] s assms(3) show False by (simp add: bindingCurrent_def)
qed

end

text \<open>The state the reader sees: the id source, the time to live, the clock and the service.\<close>

record Reading =
  rg_fresh :: "nat \<Rightarrow> string"
  rg_ttl :: int
  rg_now :: gotime
  rg_state :: Bindings

definition readingGet :: "Reading \<Rightarrow> int \<Rightarrow> string \<Rightarrow> binding_error + Binding" where
  "readingGet g projectID lane = snd (GetBinding (rg_fresh g) (rg_ttl g) (rg_now g) projectID lane (rg_state g))"

definition workerTokens :: "Reading \<Rightarrow> string \<Rightarrow> string set" where
  "workerTokens g w = se_token ` set (sessionsOf w (bd_sessions (rg_state g)))"

lemma readingGet_ready:
  assumes "bindingInv (rg_fresh g) (rg_state g)" "readingGet g p lane = Inr b" "bi_readiness b = ''ready''"
  shows "bi_project b = p \<and> bi_lane b = lane \<and> bi_version b > 0 \<and> bi_token b \<in> workerTokens g (bi_worker b)"
proof -
  let ?st = "rg_state g"
  obtain st' where get: "GetBinding (rg_fresh g) (rg_ttl g) (rg_now g) p lane ?st = (st', Inr b)"
    using assms(2) by (metis readingGet_def prod.collapse)
  obtain row where row: "readBinding p lane (bd_rows ?st) = Some row"
      "project (rg_fresh g) (rg_ttl g) (rg_now g) row ?st = (st', b)"
    using get by (auto simp: GetBinding_def split: option.splits prod.splits)
  have ses: "sessionsInv (rg_fresh g) (bd_drawn ?st) (bd_sessions ?st)" using assms(1) by (simp add: bindingInv_def)
  then have dist: "distinct (map fst (bd_sessions ?st))" by (simp add: sessionsInv_def)
  have stored: "storedRow row" "laneOf row = (p, lane)"
    using assms(1) readBinding_Some [OF row(1)] by (simp_all add: bindingInv_def rowsInv_def)
  note sel = project_sel [OF row(2)]
  have "bi_token b \<in> se_token ` set (sessionsOf (bi_worker row) (prunedSessions (rg_ttl g) (rg_now g) (bd_sessions ?st)))"
    using row(2) assms(3) stored(1)
    by (auto simp: project_def Let_def prune_inv [OF ses] storedRow_def split: if_splits list.splits)
  then have "bi_token b \<in> workerTokens g (bi_worker row)"
    by (auto simp: workerTokens_def sessionsOf_pruned [OF dist] flagged_def)
  then show ?thesis using sel stored by (simp add: laneOf_def storedRow_def)
qed

interpretation browser_reader: binding_reader readingGet "\<lambda>g. bindingInv (rg_fresh g) (rg_state g)" workerTokens
  by unfold_locales (use readingGet_ready in blast)+

text \<open>C7. A prompt confirmed before a conflict is never delivered after it. A command was
  confirmed with the presence token of the worker's only live session. A second session of
  that worker then registers. From then on, whatever the two services do, \<open>ClaimNext\<close> never
  newly hands out that command: at every later state of the bindings its authority check fails.\<close>

theorem conflict_blocks_delivery:
  assumes "Register fresh ttl now input st = (st1, Inr worker)" "bindingInv fresh st" "inj fresh"
    "sessionsOf (trimSpace (in_worker input)) (bd_sessions st) = [v]" "aliveAt ttl now v"
    "trimSpace (in_session input) \<noteq> se_id v"
    "dc_worker c = trimSpace (in_worker input)" "dc_presence c = se_token v"
    "\<And>m. binding_run fresh ttl st1 (later m)"
    "\<And>m. au_resolve (wd_authority (world m)) =
       Some (BrowserBindingResolve (Some (readingGet \<lparr>rg_fresh = fresh, rg_ttl = ttl, rg_now = clock m, rg_state = later m\<rparr>)))"
    "deliveryInv rows" "c \<in> set rows"
  shows "(\<forall>m. currentCheck (wd_authority (world m)) c \<noteq> None) \<and>
    (\<forall>req rows1 e. ClaimNext cfg world req rows = (rows1, Inr (Some e)) \<and>
       findClaim (cr_worker req) (cr_request req) rows = None \<longrightarrow> dc_id (ex_command e) \<noteq> dc_id c)"
proof -
  let ?w = "trimSpace (in_worker input)"
  from assms(1) obtain target ws where
    st1: "st1 = registerLive fresh ttl now ?w (trimSpace (in_session input)) target (st\<lparr>bd_workers := ws\<rparr>)"
    by (auto simp: Register_def Let_def split: if_splits sum.splits)
  have "sessionsInv fresh (bd_drawn (st\<lparr>bd_workers := ws\<rparr>)) (bd_sessions (st\<lparr>bd_workers := ws\<rparr>))"
    using assms(2) by (simp add: bindingInv_def)
  note live = registerLive_conflict [OF this assms(3) _ assms(5,6), of ?w target]
  have "binding_step fresh ttl st st1" using binding_step.register [of fresh ttl st now input] assms(1) by simp
  then have inv1: "bindingInv fresh st1" using step_carries assms(2,3) by (metis carries_def)
  have gone: "bindingInv fresh (later m) \<and> se_token v \<notin> se_token ` set (sessionsOf ?w (bd_sessions (later m)))" for m
    using run_carries [OF assms(9) inv1 assms(3)] retired_token [OF assms(9) inv1 assms(3)] live assms(4)
    by (simp add: carries_def st1)
  have check: "currentCheck (wd_authority (world m)) c \<noteq> None" for m
    by (rule browser_reader.stale_presence [OF _ assms(10)]) (use gone [of m] assms(7,8) in \<open>simp_all add: workerTokens_def\<close>)
  then have "\<forall>m. currentCheck (wd_authority (world m)) c \<noteq> None" ..
  with unclaimable [OF this assms(11,12)] show ?thesis by blast
qed

theorem conflict_blocks_delivery_witness:
  "\<exists>au. au_resolve au \<noteq> None \<and> currentCheck au (sampleCommand\<lparr>dc_presence := ''0''\<rparr>) \<noteq> None"
proof -
  define v where "v = \<lparr>se_id = ''s'', se_seen = 5, se_target = Some sampleNormal, se_token = ''0'', se_conflict = False\<rparr>"
  let ?in = "sampleRegister ''s2''" and ?c = "sampleCommand\<lparr>dc_presence := ''0''\<rparr>"
  have t: "trimSpace (in_worker ?in) = ''w''" "trimSpace (in_session ?in) \<noteq> se_id v"
    "sessionsOf ''w'' (bd_sessions sampleLive) = [v]" "aliveAt 100 6 v"
    unfolding v_def by code_simp+
  have "succeeded (Register showNat 100 6 ?in sampleLive)" by code_simp
  then obtain st1 b where r: "Register showNat 100 6 ?in sampleLive = (st1, Inr b)" by (rule succeeded_obtain)
  let ?reader = "\<lambda>m :: nat. Some (BrowserBindingResolve (Some (readingGet \<lparr>rg_fresh = showNat, rg_ttl = 100, rg_now = 7, rg_state = st1\<rparr>)))"
  let ?world = "\<lambda>m. \<lparr>wd_now = 60, wd_id = ''claim'', wd_authority = (sampleAuthority undefined)\<lparr>au_resolve := ?reader m\<rparr>\<rparr>"
  have c: "dc_worker ?c = trimSpace (in_worker ?in)" "dc_presence ?c = se_token v"
    by (simp_all add: t(1) v_def sampleCommand_def newCommand_def samplePresence_def)
  have inv: "deliveryInv [?c]"
    by (rule deliveryInv_single) (simp add: statusInv_def sampleCommand_def newCommand_def)
  have resolve: "au_resolve (wd_authority (?world m)) = ?reader m" for m by simp
  have live: "sessionsOf (trimSpace (in_worker ?in)) (bd_sessions sampleLive) = [v]" by (simp add: t(1,3))
  have "currentCheck (wd_authority (?world 0)) ?c \<noteq> None"
    using conflict_blocks_delivery [OF r sampleLive_inv inj_showNat live t(4,2) c rtranclp.rtrancl_refl resolve inv, of sampleConfig]
    by simp
  then show ?thesis by (intro exI [of _ "wd_authority (?world 0)"]) simp
qed

end
