(* ===== verification/Marker.thy ===== *)
theory Marker
  imports Json Markdown
begin

text \<open>
  \<open>workerloop/marker.go\<close> and the payload of \<open>workerloop/types.go\<close>: the result marker a worker
  publishes in a GitHub comment, its strict decoding, its validation by role, and the
  canonical JSON that is stored and hashed. SHA-256 is an argument. Strings are valid UTF-8,
  as they are when they come out of GitHub's JSON.
\<close>

subsection \<open>types.go\<close>

record MarkerPayload =
  mp_version :: int
  mp_role :: string
  mp_result :: string
  mp_command :: string
  mp_pr :: int
  mp_head :: string
  mp_reviewed :: string
  mp_approved :: string
  mp_findings :: "int option"
  mp_blocker :: string
  mp_reason :: string
  mp_cycle :: string
  mp_next :: string

definition zeroPayload :: MarkerPayload where
  "zeroPayload = \<lparr>mp_version = 0, mp_role = [], mp_result = [], mp_command = [], mp_pr = 0, mp_head = [], mp_reviewed = [],
     mp_approved = [], mp_findings = None, mp_blocker = [], mp_reason = [], mp_cycle = [], mp_next = []\<rparr>"

record ParsedMarker =
  pm_present :: bool
  pm_payload :: MarkerPayload
  pm_json :: string
  pm_hash :: string
  pm_status :: string
  pm_reason :: string

subsection \<open>The patterns\<close>

definition lowerHex :: "char \<Rightarrow> bool" where
  "lowerHex c = (c \<in> set ''0123456789abcdef'')"

definition fullSHA :: "string \<Rightarrow> bool" where
  "fullSHA s = (length s = 40 \<and> list_all lowerHex s)"

definition lowerAlnum :: "char \<Rightarrow> bool" where
  "lowerAlnum c = (c \<in> set ''abcdefghijklmnopqrstuvwxyz0123456789'')"

definition reasonChar :: "char \<Rightarrow> bool" where
  "reasonChar c = (lowerAlnum c \<or> c \<in> set ''_.-'')"

definition reasonCode :: "string \<Rightarrow> bool" where
  "reasonCode s = (case s of [] \<Rightarrow> False | c # cs \<Rightarrow> lowerAlnum c \<and> length cs \<le> 119 \<and> list_all reasonChar cs)"

definition commandChar :: "char \<Rightarrow> bool" where
  "commandChar c = (lowerAlnum c \<or> c \<in> set ''ABCDEFGHIJKLMNOPQRSTUVWXYZ._:-'')"

definition commandID :: "string \<Rightarrow> bool" where
  "commandID s = (1 \<le> length s \<and> length s \<le> 200 \<and> list_all commandChar s)"

definition blockerTypes :: "string list" where
  "blockerTypes = [''candidate'', ''process'', ''authority'', ''infrastructure'']"

subsection \<open>Decoding a struct\<close>

text \<open>\<open>encoding/json\<close> matches member names without regard to case: ASCII letters, and the two
  other characters that fold to ASCII, the long s and the Kelvin sign.\<close>

definition asciiUpper :: "char \<Rightarrow> char" where
  "asciiUpper c = (let n = of_char c :: nat in if 97 \<le> n \<and> n \<le> 122 then char_of (n - 32) else c)"

function foldKey :: "string \<Rightarrow> string" where
  "foldKey [] = []"
| "foldKey (c # cs) =
     (if hasPrefix (c # cs) [CHR 0xC5, CHR 0xBF] then CHR ''S'' # foldKey (drop 1 cs)
      else if hasPrefix (c # cs) [CHR 0xE2, CHR 0x84, CHR 0xAA] then CHR ''K'' # foldKey (drop 2 cs)
      else asciiUpper c # foldKey cs)"
  by pat_completeness auto
termination by (relation "measure length") simp_all

declare foldKey.simps [simp del]

text \<open>A member with a wrong type or an unknown name is an error, but decoding goes on: the
  payload keeps what could be read, and the flag tells whether all of it could. A pointer is
  allocated before its value is looked at.\<close>

type_synonym decoding = "MarkerPayload \<times> bool"

definition setString :: "json \<Rightarrow> (string \<Rightarrow> MarkerPayload) \<Rightarrow> decoding \<Rightarrow> decoding" where
  "setString v put d = (case v of JStr s \<Rightarrow> (put s, snd d) | JNull \<Rightarrow> d | _ \<Rightarrow> (fst d, False))"

definition setInt :: "json \<Rightarrow> (int \<Rightarrow> MarkerPayload) \<Rightarrow> decoding \<Rightarrow> decoding" where
  "setInt v put d =
     (case v of JNull \<Rightarrow> d | _ \<Rightarrow> (case jsonInt v of None \<Rightarrow> (fst d, False) | Some i \<Rightarrow> (put i, snd d)))"

definition setIntPtr :: "json \<Rightarrow> int option \<Rightarrow> (int option \<Rightarrow> MarkerPayload) \<Rightarrow> decoding \<Rightarrow> decoding" where
  "setIntPtr v old put d =
     (case v of JNull \<Rightarrow> (put None, snd d)
      | _ \<Rightarrow> (case jsonInt v of
               None \<Rightarrow> (put (Some (case old of None \<Rightarrow> 0 | Some n \<Rightarrow> n)), False)
             | Some i \<Rightarrow> (put (Some i), snd d)))"

definition setField :: "string \<times> json \<Rightarrow> decoding \<Rightarrow> decoding" where
  "setField kv d =
     (let key = foldKey (fst kv); v = snd kv; p = fst d in
      if key = ''VERSION'' then setInt v (\<lambda>x. p\<lparr>mp_version := x\<rparr>) d
      else if key = ''ROLE'' then setString v (\<lambda>x. p\<lparr>mp_role := x\<rparr>) d
      else if key = ''RESULT'' then setString v (\<lambda>x. p\<lparr>mp_result := x\<rparr>) d
      else if key = ''COMMAND_ID'' then setString v (\<lambda>x. p\<lparr>mp_command := x\<rparr>) d
      else if key = ''PR'' then setInt v (\<lambda>x. p\<lparr>mp_pr := x\<rparr>) d
      else if key = ''HEAD'' then setString v (\<lambda>x. p\<lparr>mp_head := x\<rparr>) d
      else if key = ''REVIEWED_HEAD'' then setString v (\<lambda>x. p\<lparr>mp_reviewed := x\<rparr>) d
      else if key = ''APPROVED_HEAD'' then setString v (\<lambda>x. p\<lparr>mp_approved := x\<rparr>) d
      else if key = ''BLOCKING_FINDINGS'' then setIntPtr v (mp_findings p) (\<lambda>x. p\<lparr>mp_findings := x\<rparr>) d
      else if key = ''BLOCKER_TYPE'' then setString v (\<lambda>x. p\<lparr>mp_blocker := x\<rparr>) d
      else if key = ''REASON_CODE'' then setString v (\<lambda>x. p\<lparr>mp_reason := x\<rparr>) d
      else if key = ''CYCLE_ESCALATION'' then setString v (\<lambda>x. p\<lparr>mp_cycle := x\<rparr>) d
      else if key = ''NEXT_ROLE'' then setString v (\<lambda>x. p\<lparr>mp_next := x\<rparr>) d
      else (p, False))"

fun setFields :: "jobject \<Rightarrow> decoding \<Rightarrow> decoding" where
  "setFields [] d = d"
| "setFields (kv # ms) d = setFields ms (setField kv d)"

definition decodePayload :: "json \<Rightarrow> decoding" where
  "decodePayload v =
     (case v of JNull \<Rightarrow> (zeroPayload, True) | JObj ms \<Rightarrow> setFields ms (zeroPayload, True) | _ \<Rightarrow> (zeroPayload, False))"

text \<open>\<open>Decode\<close> of the first value, and whether only white space follows.\<close>

definition decodeStrict :: "string \<Rightarrow> decoding" where
  "decodeStrict text =
     (case decodeFirst text of
        None \<Rightarrow> (zeroPayload, False)
      | Some (v, rest) \<Rightarrow> (case decodePayload v of (p, ok) \<Rightarrow> (p, ok \<and> skipWs rest = [])))"

definition decodeCanonicalMarker :: "string \<Rightarrow> MarkerPayload option" where
  "decodeCanonicalMarker text =
     (case decodeFirst text of
        None \<Rightarrow> None
      | Some (v, _) \<Rightarrow> (case decodePayload v of (p, True) \<Rightarrow> Some p | _ \<Rightarrow> None))"

text \<open>\<open>json.Unmarshal\<close>: the whole text, and members with unknown names are skipped.\<close>

definition markerFields :: "string list" where
  "markerFields = [''VERSION'', ''ROLE'', ''RESULT'', ''COMMAND_ID'', ''PR'', ''HEAD'', ''REVIEWED_HEAD'', ''APPROVED_HEAD'',
     ''BLOCKING_FINDINGS'', ''BLOCKER_TYPE'', ''REASON_CODE'', ''CYCLE_ESCALATION'', ''NEXT_ROLE'']"

definition knownMember :: "string \<times> json \<Rightarrow> bool" where
  "knownMember kv = (foldKey (fst kv) \<in> set markerFields)"

definition unmarshalPayload :: "string \<Rightarrow> decoding" where
  "unmarshalPayload text =
     (case unmarshal text of
        None \<Rightarrow> (zeroPayload, False)
      | Some (JObj ms) \<Rightarrow> setFields (filter knownMember ms) (zeroPayload, True)
      | Some v \<Rightarrow> decodePayload v)"

subsection \<open>Encoding a struct\<close>

definition stringMember :: "string \<Rightarrow> string \<Rightarrow> jobject" where
  "stringMember key s = (if s = [] then [] else [(key, JStr s)])"

definition markerMembers :: "MarkerPayload \<Rightarrow> jobject" where
  "markerMembers p =
     [(''version'', JNum (showInt (mp_version p))), (''role'', JStr (mp_role p)), (''result'', JStr (mp_result p)),
      (''command_id'', JStr (mp_command p))] @
     (if mp_pr p = 0 then [] else [(''pr'', JNum (showInt (mp_pr p)))]) @
     stringMember ''head'' (mp_head p) @ stringMember ''reviewed_head'' (mp_reviewed p) @
     stringMember ''approved_head'' (mp_approved p) @
     (case mp_findings p of None \<Rightarrow> [] | Some n \<Rightarrow> [(''blocking_findings'', JNum (showInt n))]) @
     stringMember ''blocker_type'' (mp_blocker p) @ stringMember ''reason_code'' (mp_reason p) @
     stringMember ''cycle_escalation'' (mp_cycle p) @ stringMember ''next_role'' (mp_next p)"

definition marshalMarker :: "MarkerPayload \<Rightarrow> string" where
  "marshalMarker p = jsonText (JObj (markerMembers p))"

subsection \<open>Validation\<close>

definition accepted :: "string \<times> string" where
  "accepted = (''accepted'', [])"

definition malformed :: "string \<Rightarrow> string \<times> string" where
  "malformed reason = (''malformed'', reason)"

definition validNextRole :: "string \<Rightarrow> bool" where
  "validNextRole role = (role = ''lead'' \<or> role = ''implementor'' \<or> role = ''qa'')"

definition validateImplementor :: "MarkerPayload \<Rightarrow> string \<times> string" where
  "validateImplementor p =
     (if mp_result p = ''candidate_ready''
      then if mp_pr p \<le> 0 \<or> \<not> fullSHA (mp_head p) then malformed ''candidate_identity_required'' else accepted
      else if mp_result p = ''continue'' then accepted
      else if mp_result p = ''blocked''
      then if \<not> oneOf (mp_blocker p) blockerTypes \<or> \<not> reasonCode (mp_reason p)
           then malformed ''blocker_identity_required'' else accepted
      else if mp_result p = ''no_op''
      then if \<not> reasonCode (mp_reason p) then malformed ''reason_code_required'' else accepted
      else (''unsupported'', ''unsupported_result''))"

definition validateQA :: "MarkerPayload \<Rightarrow> string \<times> string" where
  "validateQA p =
     (case mp_findings p of
        None \<Rightarrow> malformed ''qa_identity_required''
      | Some findings \<Rightarrow>
         if \<not> fullSHA (mp_reviewed p) then malformed ''qa_identity_required''
         else if mp_result p = ''approved''
         then if findings \<noteq> 0 then malformed ''approved_requires_zero_findings'' else accepted
         else if mp_result p = ''changes_required''
         then if findings \<le> 0 then malformed ''changes_required_needs_findings''
              else if \<not> oneOf (mp_cycle p) [''none'', ''lead_cycle_review'', ''owner_exception'']
              then malformed ''cycle_escalation_required'' else accepted
         else if mp_result p = ''blocked_inconclusive''
         then if findings \<noteq> 0 \<or> \<not> oneOf (mp_blocker p) blockerTypes \<or> \<not> reasonCode (mp_reason p)
              then malformed ''inconclusive_blocker_required'' else accepted
         else (''unsupported'', ''unsupported_result''))"

definition validateLead :: "MarkerPayload \<Rightarrow> string \<times> string" where
  "validateLead p =
     (if mp_result p = ''dispatch''
      then if \<not> validNextRole (mp_next p) then malformed ''next_role_required'' else accepted
      else if mp_result p = ''continue'' then accepted
      else if mp_result p = ''correct''
      then if mp_next p \<noteq> ''implementor'' then malformed ''implementor_next_role_required'' else accepted
      else if mp_result p = ''ready_to_merge''
      then if mp_pr p \<le> 0 \<or> \<not> fullSHA (mp_approved p) then malformed ''merge_identity_required'' else accepted
      else if mp_result p = ''owner_required'' \<or> mp_result p = ''hold''
      then if \<not> reasonCode (mp_reason p) then malformed ''reason_code_required'' else accepted
      else (''unsupported'', ''unsupported_result''))"

definition validatePayload :: "MarkerPayload \<Rightarrow> string \<times> string" where
  "validatePayload p =
     (if mp_version p \<noteq> 1 then (''unsupported'', ''unsupported_version'')
      else if \<not> commandID (mp_command p) then malformed ''invalid_command_id''
      else if mp_role p = ''implementor'' then validateImplementor p
      else if mp_role p = ''qa'' then validateQA p
      else if mp_role p = ''lead'' then validateLead p
      else (''unsupported'', ''unsupported_role''))"

subsection \<open>ParseMarker\<close>

definition absentMarker :: ParsedMarker where
  "absentMarker = \<lparr>pm_present = False, pm_payload = zeroPayload, pm_json = [], pm_hash = [], pm_status = [], pm_reason = []\<rparr>"

definition brokenMarker :: "MarkerPayload \<Rightarrow> string \<Rightarrow> ParsedMarker" where
  "brokenMarker p reason = absentMarker\<lparr>pm_present := True, pm_payload := p, pm_status := ''malformed'', pm_reason := reason\<rparr>"

definition markerContent :: "string \<Rightarrow> nat \<Rightarrow> string option" where
  "markerContent body start =
     (let rest = drop (start + length resultMarker) body
      in map_option (\<lambda>n. trimSpace (take n rest)) (indexOf rest ''-->''))"

definition judgeMarker :: "(string \<Rightarrow> string) \<Rightarrow> string \<Rightarrow> ParsedMarker" where
  "judgeMarker hash text =
     (if text = [] then brokenMarker zeroPayload ''empty_marker''
      else (case decodeStrict text of
              (p, False) \<Rightarrow> brokenMarker p ''invalid_json''
            | (p, True) \<Rightarrow>
                (let canonical = marshalMarker p; verdict = validatePayload p
                 in \<lparr>pm_present = True, pm_payload = p, pm_json = canonical, pm_hash = hash canonical,
                     pm_status = fst verdict, pm_reason = snd verdict\<rparr>)))"

definition ParseMarker :: "(string \<Rightarrow> string) \<Rightarrow> string \<Rightarrow> ParsedMarker" where
  "ParseMarker hash body =
     (case markerPositions body of
        [] \<Rightarrow> absentMarker
      | [start] \<Rightarrow>
          (case markerContent body start of
             None \<Rightarrow> brokenMarker zeroPayload ''marker_not_closed''
           | Some text \<Rightarrow> judgeMarker hash text)
      | _ \<Rightarrow> brokenMarker zeroPayload ''multiple_markers'')"

subsection \<open>Reading back what the writer wrote\<close>

lemma hexVal_hexChar: "d < 16 \<Longrightarrow> hexVal (hexChar d) = Some d"
proof -
  have "list_all (\<lambda>d. hexVal (hexChar d) = Some d) [0..<16]" by code_simp
  moreover assume "d < 16"
  ultimately show ?thesis by (simp add: list_all_iff)
qed

lemma scanStr_unit:
  assumes "scanStr SPlain r = Some (us, r')"
  shows "\<exists>u. scanStr SPlain (escapeUnit c @ r) = Some (u # us, r') \<and> (\<forall>vs. decodeUnits (u # vs) = c # decodeUnits vs)"
proof -
  let ?n = "of_char c :: nat"
  consider (hex) "ctlChar c \<or> c \<in> set ''<>&''" "c \<notin> {CHR 0x22, CHR 0x5C, CHR 0x08, CHR 0x0C, CHR 0x0A, CHR 0x0D, CHR 0x09}"
    | (short) "c \<in> {CHR 0x22, CHR 0x5C, CHR 0x08, CHR 0x0C, CHR 0x0A, CHR 0x0D, CHR 0x09}"
    | (plain) "\<not> ctlChar c" "c \<notin> set ''<>&''" "c \<notin> {CHR 0x22, CHR 0x5C, CHR 0x08, CHR 0x0C, CHR 0x0A, CHR 0x0D, CHR 0x09}"
    by blast
  then show ?thesis
  proof cases
    case hex
    have n: "?n < 64" using hex(1) by (auto simp: ctlChar_def)
    then have e: "escapeUnit c = [CHR 0x5C, CHR ''u'', CHR ''0'', CHR ''0'', hexChar (?n div 16), hexChar (?n mod 16)]"
      using hex by (simp add: escapeUnit_def Let_def)
    have zero: "hexVal (CHR ''0'') = Some 0" by code_simp
    have d: "hexVal (hexChar (?n div 16)) = Some (?n div 16)" "hexVal (hexChar (?n mod 16)) = Some (?n mod 16)"
      using n by (simp_all add: hexVal_hexChar)
    have v: "16 * (?n div 16) + ?n mod 16 = ?n" by simp
    have s: "scanStr SPlain (escapeUnit c @ r) = Some (U16 ?n # us, r')"
      using assms by (simp add: e zero d v)
    have "decodeUnits (U16 ?n # vs) = c # decodeUnits vs" for vs
      using n by (simp add: highSurrogate_def lowSurrogate_def utf8_def)
    with s show ?thesis by blast
  next
    case short
    then have "scanStr SPlain (escapeUnit c @ r) = Some (Byte c # us, r')"
      using assms by (elim insertE emptyE) (simp_all add: escapeUnit_def unescapeChar_def)
    then show ?thesis by (intro exI [of _ "Byte c"]) simp
  next
    case plain
    then have "escapeUnit c = [c]" by (simp add: escapeUnit_def Let_def)
    with plain assms have "scanStr SPlain (escapeUnit c @ r) = Some (Byte c # us, r')" by simp
    then show ?thesis by (intro exI [of _ "Byte c"]) simp
  qed
qed

lemma scanStr_escape:
  "\<exists>us. scanStr SPlain (escapeStr s @ CHR 0x22 # r) = Some (us, r) \<and> decodeUnits us = s"
proof (induction s rule: escapeStr.induct)
  case (2 c cs)
  show ?case
  proof (cases "lineSeparator (c # cs)")
    case True
    then obtain d ds where cs: "cs = CHR 0x80 # d # ds" "c = CHR 0xE2" "d = CHR 0xA8 \<or> d = CHR 0xA9"
      by (auto simp: lineSeparator_def hasPrefix_iff)
    with "2.IH"(1) [OF True] obtain us where us: "scanStr SPlain (escapeStr ds @ CHR 0x22 # r) = Some (us, r)" "decodeUnits us = ds"
      by auto
    have h: "hexVal (CHR ''0'') = Some 0" "hexVal (CHR ''2'') = Some 2" "hexVal (CHR ''8'') = Some 8" "hexVal (CHR ''9'') = Some 9"
      by code_simp+
    have u: "utf8 8232 = [CHR 0xE2, CHR 0x80, CHR 0xA8]" "utf8 8233 = [CHR 0xE2, CHR 0x80, CHR 0xA9]"
      by (simp_all add: utf8_def char_of_def bit_0)
    from cs(3) show ?thesis
    proof
      assume "d = CHR 0xA8"
      with cs us True h u show ?thesis
        by (intro exI [of _ "U16 8232 # us"]) (simp add: highSurrogate_def lowSurrogate_def)
    next
      assume "d = CHR 0xA9"
      with cs us True h u show ?thesis
        by (intro exI [of _ "U16 8233 # us"]) (simp add: highSurrogate_def lowSurrogate_def)
    qed
  next
    case False
    from "2.IH"(2) [OF False] obtain us where us: "scanStr SPlain (escapeStr cs @ CHR 0x22 # r) = Some (us, r)" "decodeUnits us = cs"
      by blast
    from scanStr_unit [OF us(1), of c] obtain u where
      "scanStr SPlain (escapeUnit c @ escapeStr cs @ CHR 0x22 # r) = Some (u # us, r)" "decodeUnits (u # us) = c # decodeUnits us"
      by blast
    with False us(2) show ?thesis by auto
  qed
qed simp

text \<open>The number at the front of a text.\<close>

lemma isDigit_iff: "isDigit c \<longleftrightarrow> digitVal c \<noteq> None"
proof -
  have "dom (map_of (zip ''0123456789'' [0 :: nat, 1, 2, 3, 4, 5, 6, 7, 8, 9])) = set ''0123456789''"
    by (simp add: dom_map_of_conv_image_fst)
  then show ?thesis unfolding isDigit_def digitVal_def by (metis domIff)
qed

lemma takeWhile_digits:
  assumes "\<forall>c \<in> set ds. isDigit c" "r = [] \<or> \<not> isDigit (hd r)"
  shows "takeWhile isDigit (ds @ r) = ds" "dropWhile isDigit (ds @ r) = r"
  using assms by (induction ds) (cases r; simp)+

definition numberEnd :: "string \<Rightarrow> bool" where
  "numberEnd r = (case r of [] \<Rightarrow> True | c # _ \<Rightarrow> \<not> isDigit c \<and> c \<noteq> CHR ''.'' \<and> c \<noteq> CHR ''e'' \<and> c \<noteq> CHR ''E'')"

lemma showNat_zero_head: "showNat n = CHR ''0'' # cs \<Longrightarrow> n = 0 \<and> cs = []"
proof (induction n arbitrary: cs rule: showNat.induct)
  case (1 n)
  show ?case
  proof (cases "n < 10")
    case True
    with "1.prems" have d: "digitChar n = CHR ''0''" "cs = []" by (simp_all add: showNat.simps [of n])
    from digitVal_digitChar [OF True] d(1) have "digitVal (CHR ''0'') = Some n" by simp
    moreover have "digitVal (CHR ''0'') = Some 0" by code_simp
    ultimately show ?thesis using d by simp
  next
    case False
    then have s: "showNat n = showNat (n div 10) @ [digitChar (n mod 10)]" by (simp add: showNat.simps [of n])
    obtain c' ds where h: "showNat (n div 10) = c' # ds" by (rule showNat_head)
    with s "1.prems" have "showNat (n div 10) = CHR ''0'' # ds" by simp
    from "1.IH" [OF False this] False show ?thesis by (simp add: div_eq_0_iff)
  qed
qed

lemma scanIntPart_showNat:
  assumes "numberEnd r"
  shows "scanIntPart (showNat n @ r) = Some (showNat n, r)"
proof -
  have ds: "\<forall>c \<in> set (showNat n). isDigit c" using showNat_digits by (simp add: isDigit_iff)
  obtain c cs where s: "showNat n = c # cs" by (rule showNat_head)
  show ?thesis
  proof (cases "c = CHR ''0''")
    case True
    with showNat_zero_head s have "cs = []" by blast
    with s True show ?thesis by (simp add: scanIntPart_def)
  next
    case False
    moreover have "r = [] \<or> \<not> isDigit (hd r)" using assms by (cases r) (auto simp: numberEnd_def)
    from takeWhile_digits [OF ds this] have "takeWhile isDigit (c # cs @ r) = c # cs" "dropWhile isDigit (c # cs @ r) = r"
      by (simp_all only: s append_Cons)
    moreover have "isDigit c" using ds s by simp
    ultimately show ?thesis unfolding scanIntPart_def s append_Cons list.case by (simp only: if_True if_False)
  qed
qed

lemma scanFrac_end: "numberEnd r \<Longrightarrow> scanFrac r = Some ([], r)"
  by (cases r) (simp_all add: scanFrac_def numberEnd_def)

lemma scanExp_end: "numberEnd r \<Longrightarrow> scanExp r = Some ([], r)"
  by (cases r) (simp_all add: scanExp_def numberEnd_def)

lemma scanNumber_showInt:
  assumes "numberEnd r"
  shows "scanNumber (showInt i @ r) = Some (showInt i, r)"
proof (cases "i < 0")
  case True
  then show ?thesis
    using scanIntPart_showNat [OF assms] scanFrac_end [OF assms] scanExp_end [OF assms]
    by (simp add: scanNumber_def showInt_def)
next
  case False
  obtain c cs where s: "showNat (nat i) = c # cs" by (rule showNat_head)
  then have "c \<noteq> CHR ''-''" using showNat_not_minus by metis
  with False s scanIntPart_showNat [OF assms, of "nat i"] scanFrac_end [OF assms] scanExp_end [OF assms] show ?thesis
    by (simp add: scanNumber_def showInt_def)
qed

text \<open>Scalars, members and the object.\<close>

definition scalar :: "json \<Rightarrow> bool" where
  "scalar v = (case v of JStr _ \<Rightarrow> True | JNum t \<Rightarrow> (\<exists>i. t = showInt i) | _ \<Rightarrow> False)"

lemma showInt_head:
  obtains c cs where "showInt i = c # cs" "isDigit c \<or> c = CHR ''-''"
proof -
  obtain d ds where "showNat (nat i) = d # ds" by (rule showNat_head)
  then obtain c cs where s: "showInt i = c # cs" by (cases "i < 0") (simp_all add: showInt_def)
  then have "c \<in> set (showInt i)" by simp
  with showInt_digits [of c i] s that show thesis by (auto simp: isDigit_iff)
qed

lemma parseValue_scalar:
  assumes "scalar v" "numberEnd r" "0 < n"
  shows "parseValue n (jsonText v @ r) = Some (v, r)"
proof -
  obtain f where n: "n = Suc f" using assms(3) by (cases n) auto
  from assms(1) consider (str) s where "v = JStr s" | (num) i where "v = JNum (showInt i)"
    by (cases v) (auto simp: scalar_def)
  then show ?thesis
  proof cases
    case str
    obtain us where "scanStr SPlain (escapeStr s @ CHR 0x22 # r) = Some (us, r)" "decodeUnits us = s"
      using scanStr_escape by blast
    then show ?thesis by (simp add: n str quoteJson_def skipWs_def jsonSpace_def)
  next
    case num
    obtain c cs where c: "showInt i = c # cs" "isDigit c \<or> c = CHR ''-''" by (rule showInt_head)
    have d: "c \<in> set ''-0123456789''" using c(2) by (auto simp: isDigit_def)
    then have "\<not> jsonSpace c" "c \<noteq> CHR 0x22" "c \<noteq> CHR 0x7B" "c \<noteq> CHR 0x5B" "c \<noteq> CHR ''t''" "c \<noteq> CHR ''f''" "c \<noteq> CHR ''n''"
      by (auto simp: jsonSpace_def)
    with scanNumber_showInt [OF assms(2), of i] show ?thesis
      by (simp add: n num c(1) skipWs_def scanLiteral_def)
  qed
qed

definition memberText :: "string \<times> json \<Rightarrow> string" where
  "memberText kv = quoteJson (fst kv) @ '':'' @ jsonText (snd kv)"

lemma jsonText_obj: "jsonText (JObj ms) = CHR 0x7B # joinWith '','' (map memberText ms) @ [CHR 0x7D]"
proof -
  have "(\<lambda>(k, v). quoteJson k @ '':'' @ jsonText v) = memberText" by (auto simp: memberText_def)
  then show ?thesis by simp
qed

lemma parseMember:
  assumes "scalar v" "0 < f" "c = CHR 0x2C \<or> c = CHR 0x7D"
  shows "parseMembers (Suc f) (memberText (k, v) @ c # r) =
    (if c = CHR 0x2C then map_option (apfst (Cons (k, v))) (parseMembers f r) else Some ([(k, v)], r))"
proof -
  obtain us where us: "scanStr SPlain (escapeStr k @ CHR 0x22 # (CHR '':'' # jsonText v @ c # r)) = Some (us, CHR '':'' # jsonText v @ c # r)"
    "decodeUnits us = k"
    using scanStr_escape by blast
  have "numberEnd (c # r)" using assms(3) by (auto simp: numberEnd_def isDigit_def)
  from parseValue_scalar [OF assms(1) this assms(2)] us assms(3) show ?thesis
    by (auto simp: memberText_def quoteJson_def skipWs_def jsonSpace_def)
qed

lemma parseMembers_text:
  assumes "\<forall>kv \<in> set ms. scalar (snd kv)" "ms \<noteq> []" "length ms < n"
  shows "parseMembers n (joinWith '','' (map memberText ms) @ CHR 0x7D # r) = Some (ms, r)"
  using assms
proof (induction ms arbitrary: n)
  case (Cons kv ms)
  obtain k v where kv: "kv = (k, v)" by fastforce
  obtain f where n: "n = Suc f" "0 < f" using Cons.prems(3) by (cases n) auto
  show ?case
  proof (cases ms)
    case Nil
    with Cons.prems kv n parseMember [of v f "CHR 0x7D" k r] show ?thesis by simp
  next
    case (Cons a ls)
    from Cons.IH [of f] Cons.prems n Cons
    have "parseMembers f (joinWith '','' (map memberText ms) @ CHR 0x7D # r) = Some (ms, r)" by simp
    with parseMember [of v f "CHR 0x2C" k "joinWith '','' (map memberText ms) @ CHR 0x7D # r"] Cons.prems(1) kv n Cons
    show ?thesis by simp
  qed
qed simp

lemma joinWith_length: "\<forall>x \<in> set xs. x \<noteq> [] \<Longrightarrow> length xs \<le> length (joinWith sep xs)"
proof (induction sep xs rule: joinWith.induct)
  case (3 sep x y xs)
  then have "length (y # xs) \<le> length (joinWith sep (y # xs))" "x \<noteq> []" by auto
  then show ?case by (cases x) auto
qed (auto simp: Suc_le_eq)

lemma decodeFirst_obj:
  assumes "\<forall>kv \<in> set ms. scalar (snd kv)" "ms \<noteq> []"
  shows "decodeFirst (jsonText (JObj ms)) = Some (JObj ms, [])"
proof -
  let ?t = "joinWith '','' (map memberText ms)"
  have "length (map memberText ms) \<le> length ?t" by (rule joinWith_length) (simp add: memberText_def quoteJson_def)
  then have "length ms < 2 * length (jsonText (JObj ms))" by (simp add: jsonText_obj del: jsonText.simps)
  from parseMembers_text [OF assms this, of "[]"]
  have m: "parseMembers (2 * length (jsonText (JObj ms))) (?t @ [CHR 0x7D]) = Some (ms, [])" by simp
  obtain kv ls where ms: "ms = kv # ls" using assms(2) by (cases ms) auto
  have "\<exists>cs. ?t = CHR 0x22 # cs" by (cases ls) (simp_all add: ms memberText_def quoteJson_def)
  then obtain cs where "?t = CHR 0x22 # cs" by blast
  then have "\<not> hasPrefix (skipWs (?t @ [CHR 0x7D])) [CHR 0x7D]" by (simp add: skipWs_def jsonSpace_def)
  with m show ?thesis
    unfolding decodeFirst_def by (simp add: jsonText_obj skipWs_def jsonSpace_def del: jsonText.simps)
qed

subsection \<open>The payload read back\<close>

definition int64 :: "int \<Rightarrow> bool" where
  "int64 i = (- (2 ^ 63) \<le> i \<and> i < 2 ^ 63)"

definition goPayload :: "MarkerPayload \<Rightarrow> bool" where
  "goPayload p = (int64 (mp_version p) \<and> int64 (mp_pr p) \<and> (case mp_findings p of None \<Rightarrow> True | Some n \<Rightarrow> int64 n))"

lemma jsonInt_showInt: "int64 i \<Longrightarrow> jsonInt (JNum (showInt i)) = Some i"
  by (simp add: jsonInt_def parseInt64_showInt int64_def)

lemma field_names:
  "foldKey ''version'' = ''VERSION''" "foldKey ''role'' = ''ROLE''" "foldKey ''result'' = ''RESULT''"
  "foldKey ''command_id'' = ''COMMAND_ID''" "foldKey ''pr'' = ''PR''" "foldKey ''head'' = ''HEAD''"
  "foldKey ''reviewed_head'' = ''REVIEWED_HEAD''" "foldKey ''approved_head'' = ''APPROVED_HEAD''"
  "foldKey ''blocking_findings'' = ''BLOCKING_FINDINGS''" "foldKey ''blocker_type'' = ''BLOCKER_TYPE''"
  "foldKey ''reason_code'' = ''REASON_CODE''" "foldKey ''cycle_escalation'' = ''CYCLE_ESCALATION''"
  "foldKey ''next_role'' = ''NEXT_ROLE''"
  by code_simp+

lemma setFields_append [simp]: "setFields (xs @ ys) d = setFields ys (setFields xs d)"
  by (induction xs arbitrary: d) simp_all

lemma set_optional:
  "mp_head p = [] \<Longrightarrow> setFields (stringMember ''head'' s) (p, b) = (p\<lparr>mp_head := s\<rparr>, b)"
  "mp_reviewed p = [] \<Longrightarrow> setFields (stringMember ''reviewed_head'' s) (p, b) = (p\<lparr>mp_reviewed := s\<rparr>, b)"
  "mp_approved p = [] \<Longrightarrow> setFields (stringMember ''approved_head'' s) (p, b) = (p\<lparr>mp_approved := s\<rparr>, b)"
  "mp_blocker p = [] \<Longrightarrow> setFields (stringMember ''blocker_type'' s) (p, b) = (p\<lparr>mp_blocker := s\<rparr>, b)"
  "mp_reason p = [] \<Longrightarrow> setFields (stringMember ''reason_code'' s) (p, b) = (p\<lparr>mp_reason := s\<rparr>, b)"
  "mp_cycle p = [] \<Longrightarrow> setFields (stringMember ''cycle_escalation'' s) (p, b) = (p\<lparr>mp_cycle := s\<rparr>, b)"
  "mp_next p = [] \<Longrightarrow> setFields (stringMember ''next_role'' s) (p, b) = (p\<lparr>mp_next := s\<rparr>, b)"
  by (cases p; simp add: stringMember_def setField_def setString_def field_names Let_def)+

lemma set_pr:
  "mp_pr p = 0 \<Longrightarrow> int64 n \<Longrightarrow> setFields (if n = 0 then [] else [(''pr'', JNum (showInt n))]) (p, b) = (p\<lparr>mp_pr := n\<rparr>, b)"
  by (cases p) (simp add: setField_def setInt_def field_names jsonInt_showInt Let_def)

lemma set_findings:
  assumes "mp_findings p = None" "case f of None \<Rightarrow> True | Some n \<Rightarrow> int64 n"
  shows "setFields (case f of None \<Rightarrow> [] | Some n \<Rightarrow> [(''blocking_findings'', JNum (showInt n))]) (p, b) = (p\<lparr>mp_findings := f\<rparr>, b)"
  using assms by (cases p; cases f) (simp_all add: setField_def setIntPtr_def field_names jsonInt_showInt Let_def)

lemma set_required:
  "int64 v \<Longrightarrow> setFields [(''version'', JNum (showInt v)), (''role'', JStr r), (''result'', JStr res), (''command_id'', JStr c)] (p, b) =
     (p\<lparr>mp_version := v, mp_role := r, mp_result := res, mp_command := c\<rparr>, b)"
  by (simp add: setField_def setInt_def setString_def field_names jsonInt_showInt Let_def)

lemma setFields_members:
  assumes "goPayload p"
  shows "setFields (markerMembers p) (zeroPayload, True) = (p, True)"
  using assms unfolding goPayload_def markerMembers_def setFields_append
  by (simp add: set_required set_pr set_findings set_optional zeroPayload_def del: setFields.simps split del: if_split)

lemma markerMembers_scalar: "\<forall>kv \<in> set (markerMembers p). scalar (snd kv)"
  by (auto simp: markerMembers_def stringMember_def scalar_def split: option.splits)

lemma decodeFirst_marshal: "decodeFirst (marshalMarker p) = Some (JObj (markerMembers p), [])"
  unfolding marshalMarker_def by (rule decodeFirst_obj [OF markerMembers_scalar]) (simp add: markerMembers_def)

lemma decodeStrict_marshal: "goPayload p \<Longrightarrow> decodeStrict (marshalMarker p) = (p, True)"
  by (simp add: decodeStrict_def decodeFirst_marshal decodePayload_def setFields_members skipWs_def)

lemma known_members:
  "knownMember (''version'', v)" "knownMember (''role'', v)" "knownMember (''result'', v)" "knownMember
  (''command_id'', v)" "knownMember (''pr'', v)" "knownMember (''head'', v)" "knownMember (''reviewed_head'',
  v)" "knownMember (''approved_head'', v)" "knownMember (''blocking_findings'', v)" "knownMember
  (''blocker_type'', v)" "knownMember (''reason_code'', v)" "knownMember (''cycle_escalation'', v)" "knownMember
  (''next_role'', v)"
  by (simp_all add: knownMember_def field_names markerFields_def)

lemma stringMember_known: "knownMember (k, JStr s) \<Longrightarrow> list_all knownMember (stringMember k s)"
  by (simp add: stringMember_def)

lemma unmarshalPayload_marshal:
  assumes "goPayload p"
  shows "unmarshalPayload (marshalMarker p) = (p, True)"
proof -
  have "list_all knownMember (markerMembers p)"
    unfolding markerMembers_def list_all_append
    by (simp add: known_members stringMember_known split: option.split)
  then have "filter knownMember (markerMembers p) = markerMembers p" by (simp add: filter_id_conv list_all_iff)
  with setFields_members [OF assms] show ?thesis
    by (simp add: unmarshalPayload_def unmarshal_def decodeFirst_marshal skipWs_def)
qed

text \<open>What the decoder produces is always such a payload.\<close>

lemma setField_go: "goPayload (fst d) \<Longrightarrow> goPayload (fst (setField kv d))"
proof -
  assume g: "goPayload (fst d)"
  have i: "int64 n" if "jsonInt v = Some n" for v n
    using that parseInt64_range by (cases v) (auto simp: jsonInt_def int64_def)
  have "goPayload (fst (setString v put d))" if "\<And>s. goPayload (put s)" for v put
    using that g by (cases v) (simp_all add: setString_def)
  moreover have "goPayload (fst (setInt v put d))" if "\<And>n. int64 n \<Longrightarrow> goPayload (put n)" for v put
    using that g i by (cases v) (auto simp: setInt_def split: option.split)
  moreover have "goPayload (fst (setIntPtr v (mp_findings (fst d)) (\<lambda>x. fst d\<lparr>mp_findings := x\<rparr>) d))" for v
    using g i by (cases v) (auto simp: setIntPtr_def goPayload_def int64_def split: option.splits)
  ultimately show ?thesis
    using g unfolding setField_def Let_def by (simp add: goPayload_def split: if_split)
qed

lemma decodePayload_go: "goPayload (fst (decodePayload v))"
proof -
  have "goPayload zeroPayload" by (simp add: goPayload_def zeroPayload_def int64_def)
  moreover have "goPayload (fst (setFields ms d))" if "goPayload (fst d)" for ms d
    using that by (induction ms d rule: setFields.induct) (simp_all add: setField_go)
  ultimately show ?thesis by (cases v) (simp_all add: decodePayload_def)
qed

lemma decodeStrict_go: "decodeStrict t = (p, True) \<Longrightarrow> goPayload p"
proof -
  assume "decodeStrict t = (p, True)"
  then obtain v rest where "decodeFirst t = Some (v, rest)" "fst (decodePayload v) = p"
    by (auto simp: decodeStrict_def split: option.splits prod.splits)
  with decodePayload_go [of v] show "goPayload p" by simp
qed

lemma decodeCanonical_marshal: "goPayload p \<Longrightarrow> decodeCanonicalMarker (marshalMarker p) = Some p"
  by (simp add: decodeCanonicalMarker_def decodeFirst_marshal decodePayload_def setFields_members)

definition plainVerdict :: "string \<times> string \<Rightarrow> bool" where
  "plainVerdict v = (fst v = ''accepted'' \<longrightarrow> v = accepted)"

lemma plainVerdict_if [intro]: "plainVerdict x \<Longrightarrow> plainVerdict y \<Longrightarrow> plainVerdict (if b then x else y)"
  by simp

lemma plainVerdict_base [intro, simp]:
  "plainVerdict accepted" "plainVerdict (malformed r)" "plainVerdict (''unsupported'', r)"
  by (simp_all add: plainVerdict_def malformed_def accepted_def)

lemma plainVerdict_implementor: "plainVerdict (validateImplementor p)"
  unfolding validateImplementor_def by (intro plainVerdict_if plainVerdict_base)

lemma plainVerdict_qa: "plainVerdict (validateQA p)"
proof (cases "mp_findings p")
  case None
  then show ?thesis by (simp add: validateQA_def)
next
  case (Some n)
  show ?thesis unfolding validateQA_def Some option.case by (intro plainVerdict_if plainVerdict_base)
qed

lemma plainVerdict_lead: "plainVerdict (validateLead p)"
  unfolding validateLead_def by (intro plainVerdict_if plainVerdict_base)

lemma verdict_accepted: "fst (validatePayload p) = ''accepted'' \<Longrightarrow> validatePayload p = accepted"
proof -
  have "plainVerdict (validatePayload p)"
    unfolding validatePayload_def by (intro plainVerdict_if plainVerdict_base plainVerdict_implementor plainVerdict_qa plainVerdict_lead)
  then show "fst (validatePayload p) = ''accepted'' \<Longrightarrow> validatePayload p = accepted"
    by (simp add: plainVerdict_def)
qed

lemma accepted_role: "validatePayload p = accepted \<Longrightarrow> mp_role p = ''implementor'' \<or> mp_role p = ''qa'' \<or> mp_role p = ''lead''"
  unfolding validatePayload_def accepted_def by (simp add: malformed_def split: if_split_asm)

text \<open>An accepted marker is a decoded payload of one of the three roles, stored as its
  canonical text.\<close>

lemma ParseMarker_accepted:
  assumes "pm_status (ParseMarker hash body) = ''accepted''"
  obtains p where "goPayload p" "validatePayload p = accepted" "oneOf (mp_role p) [''implementor'', ''qa'', ''lead'']"
    "ParseMarker hash body = \<lparr>pm_present = True, pm_payload = p, pm_json = marshalMarker p, pm_hash = hash (marshalMarker p),
       pm_status = ''accepted'', pm_reason = []\<rparr>"
proof -
  from assms obtain t where j: "ParseMarker hash body = judgeMarker hash t"
    unfolding ParseMarker_def by (auto simp: brokenMarker_def absentMarker_def split: list.splits option.splits)
  with assms obtain p where p: "decodeStrict t = (p, True)" "t \<noteq> []"
    by (auto simp: judgeMarker_def brokenMarker_def absentMarker_def split: if_splits prod.splits bool.splits)
  with j assms have v: "fst (validatePayload p) = ''accepted''" by (simp add: judgeMarker_def Let_def)
  note a = verdict_accepted [OF v]
  have "oneOf (mp_role p) [''implementor'', ''qa'', ''lead'']"
    using accepted_role [OF a] by simp
  with that [OF decodeStrict_go [OF p(1)] a] j p a show thesis by (simp add: judgeMarker_def Let_def accepted_def)
qed

subsection \<open>A published marker\<close>

text \<open>The comment a worker is asked to publish, as far as the marker goes.\<close>

definition markerComment :: "MarkerPayload \<Rightarrow> string" where
  "markerComment p = resultMarker @ '' '' @ marshalMarker p @ '' -->''"

definition plainOut :: "char \<Rightarrow> bool" where
  "plainOut c = (c \<noteq> CHR 0x0A \<and> c \<noteq> CHR ''>'')"

lemma hexChar_plain: "d < 16 \<Longrightarrow> plainOut (hexChar d)"
proof -
  have "list_all (\<lambda>d. plainOut (hexChar d)) [0..<16]" by code_simp
  moreover assume "d < 16"
  ultimately show ?thesis by (simp add: list_all_iff)
qed

lemma escapeUnit_plain: "list_all plainOut (escapeUnit c)"
proof -
  have "(of_char c :: nat) div 16 < 16" by (simp add: less_mult_imp_div_less)
  then have "plainOut (hexChar (of_char c div 16))" "plainOut (hexChar (of_char c mod 16))"
    by (simp_all add: hexChar_plain)
  moreover have "plainOut c" if "\<not> ctlChar c" "c \<notin> set ''<>&''"
    using that by (auto simp: plainOut_def ctlChar_def)
  ultimately show ?thesis by (simp add: escapeUnit_def Let_def plainOut_def)
qed

lemma escapeStr_plain: "list_all plainOut (escapeStr s)"
  by (induction s rule: escapeStr.induct) (simp_all add: escapeUnit_plain, simp add: plainOut_def)

lemma showInt_plain: "list_all plainOut (showInt i)"
proof -
  have "plainOut c" if "c \<in> set (showInt i)" for c
  proof -
    from that have "c \<in> set ''-0123456789''" using showInt_digits [OF that] isDigit_iff [of c] by (auto simp: isDigit_def)
    then show ?thesis by (auto simp: plainOut_def)
  qed
  then show ?thesis by (simp add: list_all_iff)
qed

lemma joinWith_plain: "list_all (list_all P) xs \<Longrightarrow> list_all P sep \<Longrightarrow> list_all P (joinWith sep xs)"
  by (induction sep xs rule: joinWith.induct) simp_all

lemma marshal_plain: "list_all plainOut (marshalMarker p)"
proof -
  have "list_all plainOut (memberText kv)" if "kv \<in> set (markerMembers p)" for kv
  proof -
    have "scalar (snd kv)" using markerMembers_scalar that by blast
    then have "list_all plainOut (jsonText (snd kv))"
      by (cases "snd kv") (auto simp: scalar_def quoteJson_def escapeStr_plain showInt_plain, simp_all add: plainOut_def)
    then show ?thesis by (simp add: memberText_def quoteJson_def escapeStr_plain) (simp add: plainOut_def)
  qed
  then have "list_all (list_all plainOut) (map memberText (markerMembers p))" by (simp add: list_all_iff)
  then have "list_all plainOut (joinWith '','' (map memberText (markerMembers p)))"
    by (rule joinWith_plain) (simp add: plainOut_def)
  then show ?thesis by (simp add: marshalMarker_def jsonText_obj del: jsonText.simps) (simp add: plainOut_def)
qed

lemma splitLines_single: "CHR 0x0A \<notin> set s \<Longrightarrow> splitLines s = [s]"
  by (induction s) auto

lemma stripLead_keeps:
  "c \<in> set s \<Longrightarrow> \<forall>e \<in> set encs. c \<notin> set e \<Longrightarrow> c \<in> set (stripLead encs s)"
proof (induction encs s rule: stripLead.induct)
  case (1 encs s)
  show ?case
  proof (cases "leadLen encs s = 0")
    case False
    then obtain e where f: "find (hasPrefix s) encs = Some e" by (auto simp: leadLen_def split: option.splits)
    then have e: "e \<in> set encs" "hasPrefix s e" by (auto simp: find_Some_iff)
    have len: "leadLen encs s = length e" using f by (simp add: leadLen_def)
    from e(2) obtain t where "s = e @ t" by (auto simp: hasPrefix_iff)
    with "1.prems" e len have "c \<in> set (drop (leadLen encs s) s)" by auto
    from "1.IH" [OF False this "1.prems"(2)] False show ?thesis by (simp add: stripLead.simps [of encs s])
  qed (use "1.prems" in \<open>simp add: stripLead_id\<close>)
qed

lemma not_blank:
  assumes "c \<in> set s" "c \<in> {CHR ''<'', CHR ''{''}"
  shows "\<not> blank s"
proof -
  have n: "\<forall>e \<in> set goSpaces. c \<notin> set e" using assms(2) by (auto simp: goSpaces_def)
  then have r: "\<forall>e \<in> set (map rev goSpaces). c \<notin> set e" by simp
  have "c \<in> set (trimLeftSpace s)" unfolding trimLeftSpace_def by (rule stripLead_keeps [OF assms(1) n])
  then have "c \<in> set (rev (trimLeftSpace s))" by simp
  from stripLead_keeps [OF this r] have "c \<in> set (trimSpace s)" by (simp add: trimSpace_def trimRightSpace_def)
  then show ?thesis by (auto simp: blank_def)
qed

lemma indexOf_close:
  assumes "list_all plainOut xs"
  shows "indexOf (xs @ ''-->'') ''-->'' = Some (length xs)"
  using assms
proof (induction xs)
  case (Cons c xs)
  have "\<not> hasPrefix (c # xs @ ''-->'') ''-->''"
    using Cons.prems by (cases xs; cases "tl xs") (auto simp: plainOut_def)
  with Cons show ?case by simp
qed simp

lemma markersIn_first:
  assumes "hasPrefix ln marker" "marker \<noteq> []" "\<And>i. 0 < i \<Longrightarrow> i \<le> length ln \<Longrightarrow> \<not> blank (take i ln)"
  shows "markersIn marker ln 0 = [0]"
proof -
  have "indexOf ln marker = Some 0" using assms(1,2) by (cases ln; cases marker) auto
  moreover have "markersIn marker ln (length marker) = []"
  proof (rule ccontr)
    assume "markersIn marker ln (length marker) \<noteq> []"
    then obtain i where "i \<in> set (markersIn marker ln (length marker))" by (cases "markersIn marker ln (length marker)") auto
    note i = markersIn_sound [OF this]
    with assms(2) have "0 < i" by (cases marker) auto
    with i assms(3) [of i] show False by simp
  qed
  ultimately show ?thesis using assms(2) by (simp add: markersIn.simps [of marker ln 0])
qed

lemma trimSpace_padded:
  assumes "s = CHR ''{'' # t @ [CHR ''}'']"
  shows "trimSpace (CHR 0x20 # s @ [CHR 0x20]) = s"
proof -
  have lead: "leadLen goSpaces (CHR 0x20 # u) = 1" "leadLen goSpaces (CHR ''{'' # u) = 0" for u
    by (simp_all add: leadLen_def goSpaces_def)
  have tail: "leadLen (map rev goSpaces) (CHR 0x20 # u) = 1" "leadLen (map rev goSpaces) (CHR ''}'' # u) = 0" for u
    by (simp_all add: leadLen_def goSpaces_def)
  have "trimLeftSpace (CHR 0x20 # s @ [CHR 0x20]) = s @ [CHR 0x20]"
    using lead by (simp add: trimLeftSpace_def stripLead.simps [of goSpaces "CHR 0x20 # _"] stripLead_id assms)
  moreover have "stripLead (map rev goSpaces) (CHR 0x20 # rev s) = rev s"
    using tail by (simp add: stripLead.simps [of "map rev goSpaces" "CHR 0x20 # _"] stripLead_id assms)
  ultimately show ?thesis by (simp add: trimSpace_def trimRightSpace_def)
qed

lemma markerComment_scan:
  "markerPositions (markerComment p) = [0]"
  "markerContent (markerComment p) 0 = Some (marshalMarker p)"
proof -
  let ?body = "markerComment p"
  obtain tl where tl: "?body = CHR ''<'' # tl" by (simp add: markerComment_def resultMarker_def)
  have nl: "CHR 0x0A \<notin> set ?body"
    using marshal_plain [of p] by (auto simp: markerComment_def resultMarker_def list_all_iff plainOut_def)
  have nosuffix: "trimSuffix ?body [CHR 0x0D] = ?body"
    by (simp add: trimSuffix_def hasSuffix_def markerComment_def)
  have "markdownFence ?body = None" "\<not> markdownIndentedCode ?body"
    by (simp_all add: tl markdownFence_def markdownIndentedCode_def markdownLeadingIndent_def)
  moreover have "\<not> hasPrefix (trimSpace ?body) ''>''"
  proof
    assume "hasPrefix (trimSpace ?body) ''>''"
    moreover have "leadLen goSpaces ?body = 0" by (simp add: tl leadLen_def goSpaces_def)
    then have "trimLeftSpace ?body = ?body" by (simp add: trimLeftSpace_def stripLead_id)
    then have t: "trimSpace ?body = rev (stripLead (map rev goSpaces) (rev ?body))" by (simp add: trimSpace_def trimRightSpace_def)
    obtain u where "rev ?body = u @ stripLead (map rev goSpaces) (rev ?body)" using stripLead_suffix by blast
    then have "?body = trimSpace ?body @ rev u" by (metis t rev_append rev_rev_ident)
    ultimately show False using tl by (cases "trimSpace ?body") auto
  qed
  ultimately have spans: "liveLineSpans ?body = [(0, length ?body)]"
    by (simp add: liveLineSpans_def splitLines_single [OF nl] nosuffix)
  have "hasPrefix ?body resultMarker" by (simp add: markerComment_def)
  moreover have "\<not> blank (take i ?body)" if "0 < i" for i
    using that by (intro not_blank [of "CHR ''<''"]) (cases i; simp add: tl)+
  ultimately have "markersIn resultMarker ?body 0 = [0]"
    by (intro markersIn_first) (simp_all add: resultMarker_def)
  then show "markerPositions ?body = [0]"
    by (simp add: markerPositions_def markersOf_def spans slice_def)
  let ?rest = "CHR 0x20 # marshalMarker p @ [CHR 0x20]"
  have "list_all plainOut ?rest" using marshal_plain [of p] by (simp add: plainOut_def)
  from indexOf_close [OF this] have i: "indexOf (?rest @ ''-->'') ''-->'' = Some (length ?rest)" .
  have d: "drop (length resultMarker) ?body = ?rest @ ''-->''" by (simp add: markerComment_def)
  have "\<exists>t. marshalMarker p = CHR ''{'' # t @ [CHR ''}'']" by (simp add: marshalMarker_def jsonText_obj del: jsonText.simps)
  then have "trimSpace ?rest = marshalMarker p" using trimSpace_padded by blast
  moreover have "markerContent ?body 0 = Some (trimSpace (take (length ?rest) (?rest @ ''-->'')))"
    unfolding markerContent_def Let_def add_0 d i by simp
  ultimately show "markerContent ?body 0 = Some (marshalMarker p)" by simp
qed

lemma parse_markerComment:
  assumes "goPayload p"
  shows "ParseMarker hash (markerComment p) =
    \<lparr>pm_present = True, pm_payload = p, pm_json = marshalMarker p, pm_hash = hash (marshalMarker p),
     pm_status = fst (validatePayload p), pm_reason = snd (validatePayload p)\<rparr>"
proof -
  have "marshalMarker p \<noteq> []" by (simp add: marshalMarker_def jsonText_obj del: jsonText.simps)
  then show ?thesis
    by (simp add: ParseMarker_def markerComment_scan judgeMarker_def decodeStrict_marshal [OF assms] Let_def)
qed

subsection \<open>Properties\<close>

text \<open>C26. A published marker is read back exactly. A comment that carries the canonical text of
  a payload between the marker's delimiters has one live marker, and \<open>ParseMarker\<close> returns that
  payload, its canonical text and the verdict of its validation: no string inside the payload
  can close the marker early or break the line.\<close>

theorem published_marker_parsed:
  assumes "goPayload p"
  shows "ParseMarker hash (markerComment p) =
    \<lparr>pm_present = True, pm_payload = p, pm_json = marshalMarker p, pm_hash = hash (marshalMarker p),
     pm_status = fst (validatePayload p), pm_reason = snd (validatePayload p)\<rparr>"
  using assms by (rule parse_markerComment)

definition samplePayload :: MarkerPayload where
  "samplePayload = zeroPayload\<lparr>mp_version := 1, mp_role := ''implementor'', mp_result := ''continue'', mp_command := ''cmd-1''\<rparr>"

lemma samplePayload_ok: "goPayload samplePayload" "validatePayload samplePayload = accepted"
proof -
  show "goPayload samplePayload" by (simp add: samplePayload_def goPayload_def zeroPayload_def int64_def)
  have "fst (validatePayload samplePayload) = ''accepted''" by code_simp
  then show "validatePayload samplePayload = accepted" by (rule verdict_accepted)
qed

theorem published_marker_parsed_witness:
  "pm_status (ParseMarker id (markerComment samplePayload)) = ''accepted''"
  by (simp add: published_marker_parsed samplePayload_ok accepted_def)

text \<open>C27. The canonical text stands for the payload. Whatever text a marker was decoded from,
  the canonical text decodes, strictly and leniently, to the same payload; so two markers with
  the same canonical text assert the same thing.\<close>

theorem canonical_roundtrip:
  assumes "decodeStrict text = (p, True)"
  shows "decodeStrict (marshalMarker p) = (p, True) \<and> decodeCanonicalMarker (marshalMarker p) = Some p \<and>
    (\<forall>text' q. decodeStrict text' = (q, True) \<and> marshalMarker q = marshalMarker p \<longrightarrow> q = p)"
proof -
  note p = decodeStrict_go [OF assms]
  have "q = p" if "decodeStrict t = (q, True)" "marshalMarker q = marshalMarker p" for t q
    using decodeStrict_marshal [OF decodeStrict_go [OF that(1)]] decodeStrict_marshal [OF p] that(2) by (metis prod.inject)
  with decodeStrict_marshal [OF p] decodeCanonical_marshal [OF p] show ?thesis by blast
qed

theorem canonical_roundtrip_witness: "decodeCanonicalMarker (marshalMarker zeroPayload) = Some zeroPayload"
proof -
  have ws: "skipWs ''{ } '' = ''{ } ''" "skipWs '' } '' = ''} ''" "skipWs '' '' = []" by (simp_all add: skipWs_def jsonSpace_def)
  have "parseValue (Suc n) ''{ } '' = Some (JObj [], '' '')" for n by (simp add: ws)
  from this [of 8] have "decodeFirst ''{ } '' = Some (JObj [], '' '')" by (simp add: decodeFirst_def)
  then have "decodeStrict ''{ } '' = (zeroPayload, True)" by (simp add: decodeStrict_def decodePayload_def ws)
  from canonical_roundtrip [OF this] show ?thesis by blast
qed

end
