(* ===== verification/Command_Store.thy ===== *)
theory Command_Store
  imports Marker Workflow_Types Go_Time
begin

text \<open>
  \<open>workerloop/types.go\<close>, \<open>store.go\<close>, \<open>result_lookup.go\<close> and \<open>result_queries.go\<close>: the
  workflow commands and the worker results observed on GitHub, two tables whose every
  statement commits on its own. The tables are lists of rows; the clock and the random ids
  are arguments; database faults are not modelled. Text columns with the time of completion
  or acceptance are empty when there is none.
\<close>

subsection \<open>types.go\<close>

record WorkflowCommand =
  wc_id :: string
  wc_project :: int
  wc_issue :: int
  wc_identity :: string
  wc_role :: string
  wc_action :: string
  wc_resource :: string
  wc_context :: string
  wc_head :: string
  wc_status :: string
  wc_created :: gotime
  wc_completed :: "gotime option"

record CreateCommandInput =
  ci_id :: string
  ci_project :: int
  ci_issue :: int
  ci_identity :: string
  ci_role :: string
  ci_action :: string
  ci_resource :: string
  ci_context :: string
  ci_expected :: string
  ci_initial :: string

record WorkerResult =
  wr_project :: int
  wr_comment :: int
  wr_issue :: int
  wr_command :: string
  wr_role :: string
  wr_result :: string
  wr_payload :: string
  wr_hash :: string
  wr_status :: string
  wr_reason :: string
  wr_accepted :: "gotime option"
  wr_observed :: gotime

datatype store_error = CommandNotFound | CommandConflict | StoreError string

record LoopStore =
  sl_commands :: "WorkflowCommand list"
  sl_results :: "WorkerResult list"

subsection \<open>The statuses of a command\<close>

definition terminalCommandStatus :: "string \<Rightarrow> bool" where
  "terminalCommandStatus s = oneOf s [''completed'', ''blocked'', ''inconclusive'', ''failed'', ''ambiguous'', ''superseded'']"

definition activeCommandStatus :: "string \<Rightarrow> bool" where
  "activeCommandStatus s = (s = ''created'' \<or> s = ''delivery_pending'' \<or> s = ''awaiting_result'')"

definition knownCommandStatus :: "string \<Rightarrow> bool" where
  "knownCommandStatus s = (s = ''created'' \<or> s = ''delivery_pending'' \<or> s = ''awaiting_result'' \<or> terminalCommandStatus s)"

definition allowedTransition :: "string \<Rightarrow> string \<Rightarrow> bool" where
  "allowedTransition old new =
     (if new = ''ambiguous'' \<and> old \<noteq> ''ambiguous'' \<and> old \<noteq> ''superseded'' then True
      else if old = ''created''
      then oneOf new [''delivery_pending'', ''awaiting_result'', ''completed'', ''blocked'', ''inconclusive'', ''failed'', ''superseded'']
      else if old = ''delivery_pending''
      then oneOf new [''awaiting_result'', ''completed'', ''blocked'', ''inconclusive'', ''failed'', ''superseded'']
      else if old = ''awaiting_result''
      then oneOf new [''completed'', ''blocked'', ''inconclusive'', ''failed'', ''superseded'']
      else False)"

definition closedStatus :: "string \<Rightarrow> bool" where
  "closedStatus s = (s = ''ambiguous'' \<or> s = ''superseded'')"

interpretation command_status: status_machine allowedTransition closedStatus
  by unfold_locales (auto simp: closedStatus_def allowedTransition_def)

subsection \<open>Commands\<close>

definition GetCommand :: "string \<Rightarrow> LoopStore \<Rightarrow> store_error + WorkflowCommand" where
  "GetCommand i st = (case row_get wc_id i (sl_commands st) of None \<Rightarrow> Inl CommandNotFound | Some c \<Rightarrow> Inr c)"

definition commandByIdentity :: "int \<Rightarrow> int \<Rightarrow> string \<Rightarrow> LoopStore \<Rightarrow> WorkflowCommand option" where
  "commandByIdentity projectID issueNumber identity st =
     find (\<lambda>c. wc_project c = projectID \<and> wc_issue c = issueNumber \<and> wc_identity c = identity) (sl_commands st)"

definition sameCommandInput :: "WorkflowCommand \<Rightarrow> CreateCommandInput \<Rightarrow> bool" where
  "sameCommandInput c inp =
     (wc_project c = ci_project inp \<and> wc_issue c = ci_issue inp \<and> wc_identity c = ci_identity inp \<and>
      wc_role c = ci_role inp \<and> wc_action c = ci_action inp \<and> wc_resource c = ci_resource inp \<and>
      wc_context c = ci_context inp \<and> wc_head c = ci_expected inp)"

definition normalizeInput :: "string \<Rightarrow> CreateCommandInput \<Rightarrow> CreateCommandInput" where
  "normalizeInput newID inp =
     \<lparr>ci_id = (if trimSpace (ci_id inp) = [] then newID else trimSpace (ci_id inp)), ci_project = ci_project inp,
      ci_issue = ci_issue inp, ci_identity = trimSpace (ci_identity inp), ci_role = trimSpace (ci_role inp),
      ci_action = trimSpace (ci_action inp), ci_resource = trimSpace (ci_resource inp),
      ci_context = trimSpace (ci_context inp), ci_expected = trimSpace (ci_expected inp),
      ci_initial = (if trimSpace (ci_initial inp) = [] then ''created'' else trimSpace (ci_initial inp))\<rparr>"

definition inputError :: "CreateCommandInput \<Rightarrow> string option" where
  "inputError inp =
     (if ci_project inp \<le> 0 \<or> ci_issue inp \<le> 0 \<or> ci_identity inp = [] \<or> ci_action inp = [] \<or> ci_resource inp = [] \<or> ci_context inp = []
      then Some ''project, issue, identity, action, resource profile and context hash are required''
      else if \<not> commandID (ci_id inp) \<or> \<not> validNextRole (ci_role inp) \<or> \<not> knownCommandStatus (ci_initial inp)
      then Some ''invalid workflow command identity, role or status''
      else if ci_expected inp \<noteq> [] \<and> \<not> fullSHA (ci_expected inp)
      then Some ''expected Head must be empty or a full SHA''
      else None)"

definition commandRow :: "gotime \<Rightarrow> CreateCommandInput \<Rightarrow> WorkflowCommand" where
  "commandRow now inp =
     \<lparr>wc_id = ci_id inp, wc_project = ci_project inp, wc_issue = ci_issue inp, wc_identity = ci_identity inp,
      wc_role = ci_role inp, wc_action = ci_action inp, wc_resource = ci_resource inp, wc_context = ci_context inp,
      wc_head = ci_expected inp, wc_status = ci_initial inp, wc_created = now, wc_completed = None\<rparr>"

text \<open>A violation of a unique constraint can only be the primary key here: the identity was
  just looked up.\<close>

definition CreateCommand :: "string \<Rightarrow> gotime \<Rightarrow> CreateCommandInput \<Rightarrow> LoopStore \<Rightarrow> LoopStore \<times> (store_error + WorkflowCommand)" where
  "CreateCommand newID now input st =
     (let inp = normalizeInput newID input in
      case inputError inp of
        Some message \<Rightarrow> (st, Inl (StoreError message))
      | None \<Rightarrow>
          (case commandByIdentity (ci_project inp) (ci_issue inp) (ci_identity inp) st of
             Some existing \<Rightarrow> (st, if sameCommandInput existing inp then Inr existing else Inl CommandConflict)
           | None \<Rightarrow>
               if ci_id inp \<in> wc_id ` set (sl_commands st) then (st, Inl CommandConflict)
               else (let st' = st\<lparr>sl_commands := sl_commands st @ [commandRow now inp]\<rparr> in (st', GetCommand (ci_id inp) st'))))"

definition commandOrder :: "WorkflowCommand \<Rightarrow> string \<times> string" where
  "commandOrder c = (stamp (wc_created c), wc_id c)"

definition ListCommands :: "int \<Rightarrow> int \<Rightarrow> LoopStore \<Rightarrow> WorkflowCommand list" where
  "ListCommands projectID issueNumber st =
     sort_key commandOrder (filter (\<lambda>c. wc_project c = projectID \<and> wc_issue c = issueNumber) (sl_commands st))"

definition setStatusRow :: "gotime \<Rightarrow> string \<Rightarrow> WorkflowCommand \<Rightarrow> WorkflowCommand" where
  "setStatusRow now status c =
     c\<lparr>wc_status := status, wc_completed := (if terminalCommandStatus status then Some now else None)\<rparr>"

definition SetCommandStatus :: "gotime \<Rightarrow> string \<Rightarrow> string \<Rightarrow> LoopStore \<Rightarrow> LoopStore \<times> (store_error + WorkflowCommand)" where
  "SetCommandStatus now i status st =
     (case GetCommand i st of
        Inl e \<Rightarrow> (st, Inl e)
      | Inr command \<Rightarrow>
          if wc_status command = status then (st, Inr command)
          else if \<not> allowedTransition (wc_status command) status then (st, Inl CommandConflict)
          else
            let hit = (\<lambda>c. wc_id c = i \<and> wc_status c = wc_status command);
                st' = st\<lparr>sl_commands := row_update hit (setStatusRow now status) (sl_commands st)\<rparr>
            in if rows_affected hit (sl_commands st) \<noteq> 1 then (st', Inl CommandConflict) else (st', GetCommand i st'))"

subsection \<open>Results\<close>

definition resultKey :: "WorkerResult \<Rightarrow> int \<times> int" where
  "resultKey r = (wr_project r, wr_comment r)"

definition ResultByComment :: "int \<Rightarrow> int \<Rightarrow> LoopStore \<Rightarrow> WorkerResult option" where
  "ResultByComment projectID commentID st = row_get resultKey (projectID, commentID) (sl_results st)"

definition upsertRow :: "WorkerResult \<Rightarrow> WorkerResult list \<Rightarrow> WorkerResult list" where
  "upsertRow r rows =
     (if resultKey r \<in> resultKey ` set rows then row_update (\<lambda>x. resultKey x = resultKey r) (\<lambda>_. r) rows else rows @ [r])"

definition UpsertResult :: "WorkerResult \<Rightarrow> LoopStore \<Rightarrow> LoopStore" where
  "UpsertResult r st = st\<lparr>sl_results := upsertRow r (sl_results st)\<rparr>"

definition DeleteResult :: "int \<Rightarrow> int \<Rightarrow> LoopStore \<Rightarrow> LoopStore" where
  "DeleteResult projectID commentID st =
     st\<lparr>sl_results := filter (\<lambda>r. resultKey r \<noteq> (projectID, commentID)) (sl_results st)\<rparr>"

definition DeleteMissingResults :: "int \<Rightarrow> int list \<Rightarrow> LoopStore \<Rightarrow> LoopStore" where
  "DeleteMissingResults projectID seen st =
     st\<lparr>sl_results := filter (\<lambda>r. wr_project r \<noteq> projectID \<or> wr_comment r \<in> set seen) (sl_results st)\<rparr>"

definition ResultsForCommand :: "int \<Rightarrow> string \<Rightarrow> LoopStore \<Rightarrow> WorkerResult list" where
  "ResultsForCommand projectID command st =
     sort_key wr_comment (filter (\<lambda>r. wr_project r = projectID \<and> wr_command r = command) (sl_results st))"

definition ResultsForProject :: "int \<Rightarrow> LoopStore \<Rightarrow> WorkerResult list" where
  "ResultsForProject projectID st = sort_key wr_comment (filter (\<lambda>r. wr_project r = projectID) (sl_results st))"

definition ResultsForIssue :: "int \<Rightarrow> int \<Rightarrow> LoopStore \<Rightarrow> WorkerResult list" where
  "ResultsForIssue projectID issueNumber st =
     sort_key wr_comment (filter (\<lambda>r. wr_project r = projectID \<and> wr_issue r = issueNumber) (sl_results st))"

definition conflicting :: "int \<Rightarrow> string \<Rightarrow> WorkerResult \<Rightarrow> bool" where
  "conflicting projectID command r = (wr_project r = projectID \<and> wr_command r = command \<and> wr_status r = ''accepted'')"

definition ambiguousRow :: "string \<Rightarrow> WorkerResult \<Rightarrow> WorkerResult" where
  "ambiguousRow reason r = r\<lparr>wr_status := ''ambiguous'', wr_reason := reason, wr_accepted := None\<rparr>"

definition MarkCommandResultsAmbiguous :: "int \<Rightarrow> string \<Rightarrow> LoopStore \<Rightarrow> LoopStore" where
  "MarkCommandResultsAmbiguous projectID command st =
     st\<lparr>sl_results := row_update (conflicting projectID command) (ambiguousRow ''conflicting_terminal_results'') (sl_results st)\<rparr>"

interpretation command_table: keyed_table wc_id "row_get wc_id" row_update
  by unfold_locales (simp_all add: row_get_def row_update_def)

interpretation result_table: keyed_table resultKey "row_get resultKey" row_update
  by unfold_locales (simp_all add: row_get_def row_update_def)

end
