(* ===== verification/Worker_Service.thy ===== *)
theory Worker_Service
  imports Command_Store Workspace
begin

text \<open>
  \<open>workerloop/service.go\<close>, \<open>state.go\<close> and \<open>sync_observer.go\<close>: how the comments of a
  synchronized snapshot become validated worker results, how the results end the workflow
  commands that asked for them, and how both are projected into the workflow derivation.
  The clock of one observation and SHA-256 are arguments. A failing statement ends an
  operation with an error and keeps what was committed before it.
\<close>

subsection \<open>service.go\<close>

definition markerStaleForCommand :: "WorkflowCommand \<Rightarrow> MarkerPayload \<Rightarrow> bool" where
  "markerStaleForCommand c p =
     (if wc_head c = [] then False
      else if mp_role p = ''qa'' then mp_reviewed p \<noteq> wc_head c
      else if mp_role p = ''lead'' \<and> mp_result p = ''ready_to_merge'' then mp_approved p \<noteq> wc_head c
      else False)"

definition emptyPayload :: string where
  "emptyPayload = ''{}''"

definition assertedResult :: "(string \<Rightarrow> string) \<Rightarrow> gotime \<Rightarrow> int \<Rightarrow> int \<Rightarrow> Comment \<Rightarrow> ParsedMarker \<Rightarrow> WorkerResult" where
  "assertedResult hash now projectID issueNumber comment parsed =
     \<lparr>wr_project = projectID, wr_comment = cm_id comment, wr_issue = issueNumber,
      wr_command = mp_command (pm_payload parsed), wr_role = mp_role (pm_payload parsed),
      wr_result = mp_result (pm_payload parsed),
      wr_payload = (if pm_json parsed = [] then emptyPayload else pm_json parsed),
      wr_hash = (if pm_json parsed = [] then hash emptyPayload else pm_hash parsed),
      wr_status = pm_status parsed, wr_reason = pm_reason parsed, wr_accepted = None,
      wr_observed = (if cm_updated comment = 0 then now else cm_updated comment)\<rparr>"

definition rejected :: "string \<Rightarrow> string \<Rightarrow> WorkerResult \<Rightarrow> WorkerResult" where
  "rejected status reason r = r\<lparr>wr_status := status, wr_reason := reason\<rparr>"

definition correlate :: "(string \<Rightarrow> string) \<Rightarrow> gotime \<Rightarrow> LoopStore \<Rightarrow> int \<Rightarrow> int \<Rightarrow> Comment \<Rightarrow> ParsedMarker \<Rightarrow> WorkerResult" where
  "correlate hash now st projectID issueNumber comment parsed =
     (let result = assertedResult hash now projectID issueNumber comment parsed in
      if pm_status parsed \<noteq> ''accepted'' then result
      else (case GetCommand (mp_command (pm_payload parsed)) st of
              Inl _ \<Rightarrow> rejected ''unbound'' ''unknown_command'' result
            | Inr command \<Rightarrow>
                if wc_project command \<noteq> projectID \<or> wc_issue command \<noteq> issueNumber
                then rejected ''unbound'' ''command_scope_mismatch'' result
                else if wc_role command \<noteq> mp_role (pm_payload parsed)
                then rejected ''wrong_role'' ''command_role_mismatch'' result
                else if markerStaleForCommand command (pm_payload parsed)
                then rejected ''stale'' ''expected_head_mismatch'' result
                else result\<lparr>wr_accepted := Some now\<rparr>))"

definition persistResult :: "WorkerResult \<Rightarrow> LoopStore \<Rightarrow> LoopStore" where
  "persistResult result st =
     (case ResultByComment (wr_project result) (wr_comment result) st of
        None \<Rightarrow> UpsertResult result st
      | Some existing \<Rightarrow>
          if wr_status existing = ''accepted'' \<and> (wr_status result \<noteq> ''accepted'' \<or> wr_hash existing \<noteq> wr_hash result)
          then UpsertResult (ambiguousRow ''accepted_result_mutated'' result) st
          else UpsertResult result st)"

definition observeComment :: "(string \<Rightarrow> string) \<Rightarrow> gotime \<Rightarrow> int \<Rightarrow> int \<Rightarrow> Comment \<Rightarrow> LoopStore \<Rightarrow> LoopStore" where
  "observeComment hash now projectID issueNumber comment st =
     (let parsed = ParseMarker hash (cm_body comment) in
      if \<not> pm_present parsed then DeleteResult projectID (cm_id comment) st
      else persistResult (correlate hash now st projectID issueNumber comment parsed) st)"

fun observeComments :: "(string \<Rightarrow> string) \<Rightarrow> gotime \<Rightarrow> int \<Rightarrow> (int \<times> Comment) list \<Rightarrow> LoopStore \<Rightarrow> LoopStore" where
  "observeComments hash now projectID [] st = st"
| "observeComments hash now projectID ((issueNumber, comment) # rest) st =
     observeComments hash now projectID rest (observeComment hash now projectID issueNumber comment st)"

definition issueComments :: "Issue list \<Rightarrow> (int \<times> Comment) list" where
  "issueComments issues = concat (map (\<lambda>i. map (Pair (is_number i)) (is_comments i)) issues)"

definition seenComments :: "(string \<Rightarrow> string) \<Rightarrow> (int \<times> Comment) list \<Rightarrow> int list" where
  "seenComments hash comments =
     map (\<lambda>(_, c). cm_id c) (filter (\<lambda>(_, c). pm_present (ParseMarker hash (cm_body c))) comments)"

definition statusForResult :: "WorkerResult \<Rightarrow> store_error + string" where
  "statusForResult r =
     (case decodeCanonicalMarker (wr_payload r) of
        None \<Rightarrow> Inl (StoreError ''invalid payload'')
      | Some p \<Rightarrow>
          if mp_role p = ''implementor'' then Inr (if mp_result p = ''blocked'' then ''blocked'' else ''completed'')
          else if mp_role p = ''qa'' then Inr (if mp_result p = ''blocked_inconclusive'' then ''inconclusive'' else ''completed'')
          else if mp_role p = ''lead''
          then Inr (if mp_result p = ''owner_required'' \<or> mp_result p = ''hold'' then ''blocked'' else ''completed'')
          else Inl (StoreError ''unsupported accepted role''))"

definition setStatus :: "gotime \<Rightarrow> string \<Rightarrow> string \<Rightarrow> LoopStore \<Rightarrow> LoopStore \<times> store_error option" where
  "setStatus now i status st =
     (case SetCommandStatus now i status st of (st', Inl e) \<Rightarrow> (st', Some e) | (st', Inr _) \<Rightarrow> (st', None))"

definition acceptedResults :: "WorkflowCommand \<Rightarrow> LoopStore \<Rightarrow> WorkerResult list" where
  "acceptedResults c st = filter (\<lambda>r. wr_status r = ''accepted'') (ResultsForCommand (wc_project c) (wc_id c) st)"

definition reconcileCommand :: "gotime \<Rightarrow> WorkflowCommand \<Rightarrow> LoopStore \<Rightarrow> LoopStore \<times> store_error option" where
  "reconcileCommand now command st =
     (if wc_status command = ''ambiguous'' \<or> wc_status command = ''superseded'' then (st, None)
      else
        let accepted = acceptedResults command st in
        if card (wr_hash ` set accepted) > 1
        then setStatus now (wc_id command) ''ambiguous'' (MarkCommandResultsAmbiguous (wc_project command) (wc_id command) st)
        else (case accepted of
                [] \<Rightarrow> if terminalCommandStatus (wc_status command) then setStatus now (wc_id command) ''ambiguous'' st else (st, None)
              | r # _ \<Rightarrow>
                  (case statusForResult r of
                     Inl e \<Rightarrow> (st, Some e)
                   | Inr desired \<Rightarrow>
                       if wc_status command = desired then (st, None)
                       else if terminalCommandStatus (wc_status command) then setStatus now (wc_id command) ''ambiguous'' st
                       else setStatus now (wc_id command) desired st)))"

fun reconcileCommands :: "gotime \<Rightarrow> WorkflowCommand list \<Rightarrow> LoopStore \<Rightarrow> LoopStore \<times> store_error option" where
  "reconcileCommands now [] st = (st, None)"
| "reconcileCommands now (c # cs) st =
     (case reconcileCommand now c st of
        (st', Some e) \<Rightarrow> (st', Some e)
      | (st', None) \<Rightarrow> reconcileCommands now cs st')"

fun reconcileIssues :: "gotime \<Rightarrow> int \<Rightarrow> Issue list \<Rightarrow> LoopStore \<Rightarrow> LoopStore \<times> store_error option" where
  "reconcileIssues now projectID [] st = (st, None)"
| "reconcileIssues now projectID (i # is) st =
     (case reconcileCommands now (ListCommands projectID (is_number i) st) st of
        (st', Some e) \<Rightarrow> (st', Some e)
      | (st', None) \<Rightarrow> reconcileIssues now projectID is st')"

definition ObserveProjectSnapshot :: "(string \<Rightarrow> string) \<Rightarrow> gotime \<Rightarrow> ProjectSnapshot \<Rightarrow> LoopStore \<Rightarrow> LoopStore \<times> store_error option" where
  "ObserveProjectSnapshot hash now snapshot st =
     (let projectID = pj_id (ps_project snapshot); comments = issueComments (ps_issues snapshot);
          st1 = observeComments hash now projectID comments st;
          st2 = DeleteMissingResults projectID (seenComments hash comments) st1
      in reconcileIssues now projectID (ps_issues snapshot) st2)"

subsection \<open>state.go\<close>

definition putString :: "string \<Rightarrow> string \<Rightarrow> jobject" where
  "putString key s = (if s = [] then [] else [(key, JStr s)])"

definition putInt :: "string \<Rightarrow> int \<Rightarrow> jobject" where
  "putInt key i = (if i = 0 then [] else [(key, JNum (showInt i))])"

definition putIntPtr :: "string \<Rightarrow> int option \<Rightarrow> jobject" where
  "putIntPtr key v = (case v of None \<Rightarrow> [] | Some i \<Rightarrow> [(key, JNum (showInt i))])"

definition markerExtensions :: "MarkerPayload \<Rightarrow> jobject" where
  "markerExtensions p =
     putString ''command_id'' (mp_command p) @ putString ''result'' (mp_result p) @ putInt ''pr'' (mp_pr p) @
     putIntPtr ''blocking_findings'' (mp_findings p) @ putString ''blocker_type'' (mp_blocker p) @
     putString ''reason_code'' (mp_reason p) @ putString ''cycle_escalation'' (mp_cycle p)"

definition openPulls :: "Issue \<Rightarrow> PullRequest list" where
  "openPulls issue = sort_key pr_number (filter (\<lambda>p. equalFold (pr_state p) ''open'') (is_pulls issue))"

definition candidateMatches :: "ProjectSnapshot \<Rightarrow> int \<Rightarrow> int \<Rightarrow> string \<Rightarrow> bool" where
  "candidateMatches snapshot issueNumber number head =
     (case find (\<lambda>i. is_number i = issueNumber) (ps_issues snapshot) of
        None \<Rightarrow> False
      | Some issue \<Rightarrow> (case openPulls issue of [p] \<Rightarrow> pr_number p = number \<and> pr_head_sha p = head | _ \<Rightarrow> False))"

definition baseEvent :: "MarkerPayload \<Rightarrow> WorkerEvent" where
  "baseEvent p =
     \<lparr>we_version = 1, we_event = ''worker_result'', we_role = mp_role p, we_status = [], we_head = [], we_verdict = [],
      we_decision = [], we_resume_role = [], we_resolves = None, we_escalate_to = [], we_extensions = markerExtensions p\<rparr>"

definition implementorEvent :: "ProjectSnapshot \<Rightarrow> int \<Rightarrow> int \<Rightarrow> MarkerPayload \<Rightarrow> WorkerEvent \<Rightarrow> WorkerEvent \<times> Warning list" where
  "implementorEvent snapshot issueNumber commentID p event =
     (if mp_result p = ''candidate_ready''
      then (event\<lparr>we_status := ''completed'', we_head := mp_head p\<rparr>,
            if candidateMatches snapshot issueNumber (mp_pr p) (mp_head p) then []
            else [mkWarning commentID ''worker_result_candidate_mismatch''
                    ''Implementor Candidate claim does not match the current linked primary PR and exact Head''])
      else if mp_result p = ''continue'' then (event\<lparr>we_status := ''continue''\<rparr>, [])
      else if mp_result p = ''blocked'' then (event\<lparr>we_status := ''blocked''\<rparr>, [])
      else if mp_result p = ''no_op'' then (event\<lparr>we_status := ''no_op''\<rparr>, [])
      else (event, []))"

definition qaEvent :: "MarkerPayload \<Rightarrow> WorkerEvent \<Rightarrow> WorkerEvent" where
  "qaEvent p event0 =
     (let event = event0\<lparr>we_head := mp_reviewed p\<rparr> in
      if mp_result p = ''approved'' then event\<lparr>we_status := ''completed'', we_verdict := ''approved''\<rparr>
      else if mp_result p = ''changes_required'' then event\<lparr>we_status := ''completed'', we_verdict := ''changes_required''\<rparr>
      else if mp_result p = ''blocked_inconclusive'' then event\<lparr>we_status := ''inconclusive'', we_verdict := ''inconclusive''\<rparr>
      else event)"

definition leadEvent :: "ProjectSnapshot \<Rightarrow> int \<Rightarrow> int \<Rightarrow> MarkerPayload \<Rightarrow> WorkerEvent \<Rightarrow> WorkerEvent \<times> Warning list" where
  "leadEvent snapshot issueNumber commentID p event0 =
     (let event = event0\<lparr>we_decision := mp_result p\<rparr> in
      if mp_result p = ''dispatch'' then (event\<lparr>we_status := ''completed'', we_resume_role := mp_next p\<rparr>, [])
      else if mp_result p = ''continue'' then (event\<lparr>we_status := ''completed'', we_resume_role := ''lead''\<rparr>, [])
      else if mp_result p = ''correct'' then (event\<lparr>we_status := ''completed'', we_resume_role := ''implementor''\<rparr>, [])
      else if mp_result p = ''ready_to_merge''
      then (event\<lparr>we_status := ''completed'', we_head := mp_approved p\<rparr>,
            if candidateMatches snapshot issueNumber (mp_pr p) (mp_approved p) then []
            else [mkWarning commentID ''worker_result_merge_candidate_mismatch''
                    ''Lead merge claim does not match the current linked primary PR and approved Head''])
      else if mp_result p = ''owner_required'' then (event\<lparr>we_status := ''blocked'', we_escalate_to := ''owner''\<rparr>, [])
      else if mp_result p = ''hold'' then (event\<lparr>we_status := ''blocked''\<rparr>, [])
      else (event, []))"

definition eventFromMarker :: "ProjectSnapshot \<Rightarrow> int \<Rightarrow> int \<Rightarrow> MarkerPayload \<Rightarrow> WorkerEvent \<times> Warning list" where
  "eventFromMarker snapshot issueNumber commentID p =
     (if mp_role p = ''implementor'' then implementorEvent snapshot issueNumber commentID p (baseEvent p)
      else if mp_role p = ''qa'' then (qaEvent p (baseEvent p), [])
      else if mp_role p = ''lead'' then leadEvent snapshot issueNumber commentID p (baseEvent p)
      else (baseEvent p, []))"

definition projectResult :: "ProjectSnapshot \<Rightarrow> WorkerResult \<Rightarrow> ExternalResult" where
  "projectResult snapshot r =
     (if wr_status r \<noteq> ''accepted''
      then \<lparr>xr_comment = wr_comment r, xr_event = None, xr_safe = False,
            xr_warnings = [mkWarning (wr_comment r) (''worker_result_'' @ wr_status r) (wr_reason r)],
            xr_hard_error =
              (if wr_status r = ''malformed'' \<or> wr_status r = ''ambiguous''
               then Some \<lparr>pe_code = ''worker_result_'' @ wr_status r, pe_message = wr_reason r\<rparr> else None)\<rparr>
      else (case unmarshalPayload (wr_payload r) of
              (p, False) \<Rightarrow>
                \<lparr>xr_comment = wr_comment r, xr_event = None, xr_safe = False, xr_warnings = [],
                 xr_hard_error = Some \<lparr>pe_code = ''worker_result_malformed'',
                                       pe_message = ''persisted accepted marker is not valid JSON''\<rparr>\<rparr>
            | (p, True) \<Rightarrow>
                (case eventFromMarker snapshot (wr_issue r) (wr_comment r) p of
                   (event, warnings) \<Rightarrow>
                     \<lparr>xr_comment = wr_comment r, xr_event = Some event, xr_safe = (warnings = []),
                      xr_warnings = warnings, xr_hard_error = None\<rparr>)))"

subsection \<open>sync_observer.go\<close>

definition singleCurrentHead :: "PullRequest list \<Rightarrow> string" where
  "singleCurrentHead pulls =
     (case filter (\<lambda>p. equalFold (pr_state p) ''open'') pulls of [p] \<Rightarrow> pr_head_sha p | _ \<Rightarrow> [])"

text \<open>The loop over the commands: the active ones, superseding those that expect another Head,
  and the latest exceptional one.\<close>

record Selection =
  sc_active :: "WorkflowCommand list"
  sc_exceptional :: "WorkflowCommand option"

definition selectCommand :: "WorkflowCommand \<Rightarrow> Selection \<Rightarrow> Selection" where
  "selectCommand c sel =
     (let sel1 = (if activeCommandStatus (wc_status c) then sel\<lparr>sc_active := sc_active sel @ [c]\<rparr> else sel)
      in if wc_status c = ''ambiguous'' \<or> wc_status c = ''failed'' then sel1\<lparr>sc_exceptional := Some c\<rparr> else sel1)"

fun selectCommands :: "gotime \<Rightarrow> string \<Rightarrow> WorkflowCommand list \<Rightarrow> Selection \<Rightarrow> LoopStore \<Rightarrow> LoopStore \<times> (store_error + Selection)" where
  "selectCommands now currentHead [] sel st = (st, Inr sel)"
| "selectCommands now currentHead (c # cs) sel st =
     (if activeCommandStatus (wc_status c) \<and> wc_head c \<noteq> [] \<and> wc_head c \<noteq> currentHead
      then (case SetCommandStatus now (wc_id c) ''superseded'' st of
              (st', Inl e) \<Rightarrow> (st', Inl e)
            | (st', Inr c') \<Rightarrow> selectCommands now currentHead cs (selectCommand c' sel) st')
      else selectCommands now currentHead cs (selectCommand c sel) st)"

fun markAmbiguous :: "gotime \<Rightarrow> WorkflowCommand list \<Rightarrow> LoopStore \<Rightarrow> LoopStore \<times> (store_error + WorkflowCommand list)" where
  "markAmbiguous now [] st = (st, Inr [])"
| "markAmbiguous now (c # cs) st =
     (case SetCommandStatus now (wc_id c) ''ambiguous'' st of
        (st', Inl e) \<Rightarrow> (st', Inl e)
      | (st', Inr c') \<Rightarrow>
          (case markAmbiguous now cs st' of
             (st'', Inl e) \<Rightarrow> (st'', Inl e)
           | (st'', Inr cs') \<Rightarrow> (st'', Inr (c' # cs'))))"

definition currentCommand :: "gotime \<Rightarrow> Issue \<Rightarrow> WorkflowCommand list \<Rightarrow> LoopStore \<Rightarrow> LoopStore \<times> (store_error + WorkflowCommand option)" where
  "currentCommand now issue commands st =
     (case selectCommands now (singleCurrentHead (is_pulls issue)) commands \<lparr>sc_active = [], sc_exceptional = None\<rparr> st of
        (st1, Inl e) \<Rightarrow> (st1, Inl e)
      | (st1, Inr sel) \<Rightarrow>
          if length (sc_active sel) > 1
          then (case markAmbiguous now (sc_active sel) st1 of
                  (st2, Inl e) \<Rightarrow> (st2, Inl e)
                | (st2, Inr cs) \<Rightarrow> (st2, Inr (Some (last cs))))
          else (case sc_active sel of
                  c # _ \<Rightarrow> (st1, Inr (Some c))
                | [] \<Rightarrow> (st1, Inr (sc_exceptional sel))))"

definition externalCommand :: "WorkflowCommand \<Rightarrow> ExternalCommand" where
  "externalCommand c =
     \<lparr>xc_id = wc_id c, xc_issue = wc_issue c, xc_role = wc_role c, xc_action = wc_action c,
      xc_resource_profile = wc_resource c, xc_context_hash = wc_context c, xc_expected_head = wc_head c,
      xc_status = wc_status c, xc_created = wc_created c\<rparr>"

fun refreshCommands :: "gotime \<Rightarrow> int \<Rightarrow> Issue list \<Rightarrow> externalCommands \<Rightarrow> LoopStore \<Rightarrow> LoopStore \<times> (store_error + externalCommands)" where
  "refreshCommands now projectID [] ext st = (st, Inr ext)"
| "refreshCommands now projectID (i # is) ext st =
     (case currentCommand now i (ListCommands projectID (is_number i) st) st of
        (st', Inl e) \<Rightarrow> (st', Inl e)
      | (st', Inr None) \<Rightarrow> refreshCommands now projectID is ext st'
      | (st', Inr (Some c)) \<Rightarrow> refreshCommands now projectID is (ext(is_number i \<mapsto> externalCommand c)) st')"

definition externalResultsOf :: "ProjectSnapshot \<Rightarrow> WorkerResult list \<Rightarrow> externalResults" where
  "externalResultsOf snapshot rows = map_of (rev (map (\<lambda>r. (wr_comment r, projectResult snapshot r)) rows))"

definition RefreshProject :: "gotime \<Rightarrow> int \<Rightarrow> ProjectSnapshot \<Rightarrow> LoopStore \<Rightarrow> externalCache \<Rightarrow> LoopStore \<times> externalCache \<times> store_error option" where
  "RefreshProject now projectID snapshot st cache =
     (let results = externalResultsOf snapshot (ResultsForProject projectID st) in
      case refreshCommands now projectID (ps_issues snapshot) Map.empty st of
        (st', Inl e) \<Rightarrow> (st', cache, Some e)
      | (st', Inr commands) \<Rightarrow> (st', SetProjectExternalState projectID results commands cache, None))"

definition ProjectWorkflowState :: "gotime \<Rightarrow> ProjectSnapshot \<Rightarrow> LoopStore \<Rightarrow> externalCache
    \<Rightarrow> LoopStore \<times> externalCache \<times> (store_error + ProjectSnapshot \<times> ProjectState)" where
  "ProjectWorkflowState now snapshot st cache =
     (case RefreshProject now (pj_id (ps_project snapshot)) snapshot st cache of
        (st', cache', Some e) \<Rightarrow> (st', cache', Inl e)
      | (st', cache', None) \<Rightarrow> (st', cache', Inr (snapshot, DeriveProject cache' snapshot)))"

end
