(* ===== verification/Worker_Machine.thy ===== *)
theory Worker_Machine
  imports Worker_Service
begin

text \<open>
  The theorems of the worker loop: the statuses of workflow commands under every operation,
  what one synchronization leaves in the two tables, and what may be projected from them.
\<close>

subsection \<open>The invariant of the store\<close>

definition identityOf :: "WorkflowCommand \<Rightarrow> int \<times> int \<times> string" where
  "identityOf c = (wc_project c, wc_issue c, wc_identity c)"

definition storeInv :: "LoopStore \<Rightarrow> bool" where
  "storeInv st =
     (distinct (map wc_id (sl_commands st)) \<and> distinct (map identityOf (sl_commands st)) \<and>
      (\<forall>c \<in> set (sl_commands st). knownCommandStatus (wc_status c)) \<and>
      distinct (map resultKey (sl_results st)))"

lemma same_id: "storeInv st \<Longrightarrow> c \<in> set (sl_commands st) \<Longrightarrow> d \<in> set (sl_commands st) \<Longrightarrow> wc_id c = wc_id d \<Longrightarrow> c = d"
  unfolding storeInv_def distinct_map by (metis inj_onD)

lemma GetCommand_in: "storeInv st \<Longrightarrow> c \<in> set (sl_commands st) \<Longrightarrow> GetCommand (wc_id c) st = Inr c"
  by (simp add: GetCommand_def storeInv_def command_table.get_unique)

lemma GetCommand_Inr: "GetCommand i st = Inr c \<Longrightarrow> c \<in> set (sl_commands st) \<and> wc_id c = i"
  by (auto simp: GetCommand_def split: option.splits dest: row_get_Some)

text \<open>Setting the status of a stored command: one row changes, and the call succeeds exactly
  when the transition is allowed or there is nothing to do.\<close>

lemma status_hit:
  assumes "storeInv st" "c \<in> set (sl_commands st)"
  shows "r \<in> set (sl_commands st) \<Longrightarrow> (wc_id r = wc_id c \<and> wc_status r = wc_status c) = (r = c)"
  using same_id [OF assms(1) _ assms(2)] by auto

lemma status_affected:
  assumes "storeInv st" "c \<in> set (sl_commands st)"
  shows "rows_affected (\<lambda>r. wc_id r = wc_id c \<and> wc_status r = wc_status c) (sl_commands st) = 1"
  using assms(1) by (intro rows_affected_one [OF _ assms(2)] status_hit [OF assms])
    (simp_all add: storeInv_def distinct_map)

definition withStatus :: "gotime \<Rightarrow> WorkflowCommand \<Rightarrow> string \<Rightarrow> LoopStore \<Rightarrow> LoopStore" where
  "withStatus now c status st =
     st\<lparr>sl_commands := row_update (\<lambda>r. r = c) (setStatusRow now status) (sl_commands st)\<rparr>"

lemma setStatusRow_sel [simp]:
  "wc_id (setStatusRow now s c) = wc_id c" "wc_project (setStatusRow now s c) = wc_project c"
  "wc_issue (setStatusRow now s c) = wc_issue c" "wc_role (setStatusRow now s c) = wc_role c"
  "wc_head (setStatusRow now s c) = wc_head c" "wc_status (setStatusRow now s c) = s"
  "identityOf (setStatusRow now s c) = identityOf c" "wc_created (setStatusRow now s c) = wc_created c"
  by (simp_all add: setStatusRow_def identityOf_def)

lemma withStatus_inv:
  assumes "storeInv st" "knownCommandStatus status"
  shows "storeInv (withStatus now c status st)"
proof -
  have "map wc_id (sl_commands (withStatus now c status st)) = map wc_id (sl_commands st)"
    "map identityOf (sl_commands (withStatus now c status st)) = map identityOf (sl_commands st)"
    by (simp_all add: withStatus_def row_update_def)
  moreover have "\<forall>d \<in> set (sl_commands (withStatus now c status st)). knownCommandStatus (wc_status d)"
    using assms by (auto simp: withStatus_def storeInv_def set_row_update)
  moreover have "sl_results (withStatus now c status st) = sl_results st" by (simp add: withStatus_def)
  ultimately show ?thesis using assms(1) unfolding storeInv_def by metis
qed

lemma SetCommandStatus_stored:
  assumes "storeInv st" "c \<in> set (sl_commands st)"
  shows "SetCommandStatus now (wc_id c) status st =
    (if wc_status c = status then (st, Inr c)
     else if \<not> allowedTransition (wc_status c) status then (st, Inl CommandConflict)
     else (withStatus now c status st, Inr (setStatusRow now status c)))"
proof (cases "wc_status c = status \<or> \<not> allowedTransition (wc_status c) status")
  case False
  let ?hit = "\<lambda>r. wc_id r = wc_id c \<and> wc_status r = wc_status c"
  have "row_update ?hit (setStatusRow now status) (sl_commands st) =
      row_update (\<lambda>r. r = c) (setStatusRow now status) (sl_commands st)"
    by (rule row_update_one) (rule status_hit [OF assms])
  then have st': "st\<lparr>sl_commands := row_update ?hit (setStatusRow now status) (sl_commands st)\<rparr> = withStatus now c status st"
    by (simp add: withStatus_def)
  have "knownCommandStatus status"
    using False by (auto simp: allowedTransition_def knownCommandStatus_def terminalCommandStatus_def split: if_splits)
  from withStatus_inv [OF assms(1) this] have "storeInv (withStatus now c status st)" .
  moreover have "setStatusRow now status c \<in> set (sl_commands (withStatus now c status st))"
    using assms(2) by (auto simp: withStatus_def set_row_update)
  ultimately have "GetCommand (wc_id c) (withStatus now c status st) = Inr (setStatusRow now status c)"
    by (metis GetCommand_in setStatusRow_sel(1))
  with False status_affected [OF assms] show ?thesis
    by (simp add: SetCommandStatus_def GetCommand_in [OF assms] Let_def st')
qed (use GetCommand_in [OF assms] in \<open>auto simp: SetCommandStatus_def\<close>)

subsection \<open>The machine\<close>

text \<open>The statements the loop commits, one step each; the services of the worker loop are
  sequences of them, whatever interleaves.\<close>

inductive loop_step :: "LoopStore \<Rightarrow> LoopStore \<Rightarrow> bool" where
  create: "loop_step st (fst (CreateCommand newID now input st))"
| status: "loop_step st (fst (SetCommandStatus now i status st))"
| upsert: "loop_step st (UpsertResult r st)"
| delete: "loop_step st (DeleteResult projectID commentID st)"
| sweep: "loop_step st (DeleteMissingResults projectID seen st)"
| mark: "loop_step st (MarkCommandResultsAmbiguous projectID command st)"

abbreviation loop_run :: "LoopStore \<Rightarrow> LoopStore \<Rightarrow> bool" where
  "loop_run \<equiv> loop_step\<^sup>*\<^sup>*"

lemma SetCommandStatus_run: "SetCommandStatus now i status st = (st', r) \<Longrightarrow> loop_run st st'"
  using loop_step.status [of st now i status] by auto

lemma setStatus_run: "setStatus now i status st = (st', e) \<Longrightarrow> loop_run st st'"
  by (auto simp: setStatus_def split: prod.splits sum.splits intro: SetCommandStatus_run)

lemma persistResult_run: "loop_run st (persistResult r st)"
  by (auto simp: persistResult_def intro: loop_step.upsert split: option.split)

lemma observeComment_run: "loop_run st (observeComment hash now p i c st)"
  by (auto simp: observeComment_def Let_def persistResult_run intro: loop_step.delete)

lemma observeComments_run: "loop_run st (observeComments hash now p cs st)"
proof (induction cs arbitrary: st)
  case (Cons ic cs)
  obtain i c where "ic = (i, c)" by fastforce
  with rtranclp_trans [OF observeComment_run Cons.IH] show ?case by simp
qed simp

lemma reconcileCommand_run: "reconcileCommand now c st = (st', e) \<Longrightarrow> loop_run st st'"
proof -
  have m: "loop_run st (MarkCommandResultsAmbiguous (wc_project c) (wc_id c) st)" by (blast intro: loop_step.mark)
  assume "reconcileCommand now c st = (st', e)"
  then show "loop_run st st'"
    by (auto simp: reconcileCommand_def Let_def split: if_splits list.splits sum.splits
        intro: setStatus_run rtranclp_trans [OF m setStatus_run])
qed

lemma reconcileCommands_run: "reconcileCommands now cs st = (st', e) \<Longrightarrow> loop_run st st'"
proof (induction cs arbitrary: st)
  case (Cons c cs)
  obtain st1 e1 where 1: "reconcileCommand now c st = (st1, e1)" by fastforce
  with Cons.prems Cons.IH [of st1] show ?case
    by (auto split: option.splits intro: rtranclp_trans [OF reconcileCommand_run [OF 1]] reconcileCommand_run)
qed simp

lemma reconcileIssues_run: "reconcileIssues now p is st = (st', e) \<Longrightarrow> loop_run st st'"
proof (induction "is" arbitrary: st)
  case (Cons i "is")
  obtain st1 e1 where 1: "reconcileCommands now (ListCommands p (is_number i) st) st = (st1, e1)" by fastforce
  with Cons.prems Cons.IH [of st1] show ?case
    by (auto split: option.splits intro: rtranclp_trans [OF reconcileCommands_run [OF 1]] reconcileCommands_run)
qed simp

lemma ObserveProjectSnapshot_run: "ObserveProjectSnapshot hash now snapshot st = (st', e) \<Longrightarrow> loop_run st st'"
proof -
  let ?p = "pj_id (ps_project snapshot)"
  let ?s1 = "observeComments hash now ?p (issueComments (ps_issues snapshot)) st"
  have "loop_run ?s1 (DeleteMissingResults ?p seen ?s1)" for seen by (blast intro: loop_step.sweep)
  then have "loop_run st (DeleteMissingResults ?p seen ?s1)" for seen by (rule rtranclp_trans [OF observeComments_run])
  moreover assume "ObserveProjectSnapshot hash now snapshot st = (st', e)"
  ultimately show "loop_run st st'"
    unfolding ObserveProjectSnapshot_def Let_def using reconcileIssues_run rtranclp_trans by metis
qed

lemma selectCommands_run: "selectCommands now h cs sel st = (st', r) \<Longrightarrow> loop_run st st'"
proof (induction cs arbitrary: sel st)
  case (Cons c cs)
  obtain st1 r1 where 1: "SetCommandStatus now (wc_id c) ''superseded'' st = (st1, r1)" by fastforce
  with Cons show ?case
    by (auto split: if_splits sum.splits intro: rtranclp_trans [OF SetCommandStatus_run [OF 1]] SetCommandStatus_run)
qed simp

lemma markAmbiguous_run: "markAmbiguous now cs st = (st', r) \<Longrightarrow> loop_run st st'"
proof (induction cs arbitrary: st st' r)
  case (Cons c cs)
  obtain st1 r1 where 1: "SetCommandStatus now (wc_id c) ''ambiguous'' st = (st1, r1)" by fastforce
  obtain st2 r2 where 2: "markAmbiguous now cs st1 = (st2, r2)" by fastforce
  have "st' = st1 \<or> st' = st2" using Cons.prems 1 2 by (auto split: sum.splits)
  with rtranclp_trans [OF SetCommandStatus_run [OF 1] Cons.IH [OF 2]] SetCommandStatus_run [OF 1] show ?case by auto
qed simp

lemma currentCommand_run: "currentCommand now i cs st = (st', r) \<Longrightarrow> loop_run st st'"
  by (auto simp: currentCommand_def split: prod.splits sum.splits if_splits list.splits
      intro: selectCommands_run rtranclp_trans [OF selectCommands_run markAmbiguous_run])

lemma refreshCommands_run: "refreshCommands now p is ext st = (st', r) \<Longrightarrow> loop_run st st'"
proof (induction "is" arbitrary: ext st)
  case (Cons i "is")
  obtain st1 r1 where 1: "currentCommand now i (ListCommands p (is_number i) st) st = (st1, r1)" by fastforce
  with Cons show ?case
    by (auto split: sum.splits option.splits intro: rtranclp_trans [OF currentCommand_run [OF 1]] currentCommand_run)
qed simp

lemma RefreshProject_run: "RefreshProject now p snapshot st cache = (st', cache', e) \<Longrightarrow> loop_run st st'"
  by (auto simp: RefreshProject_def Let_def split: prod.splits sum.splits intro: refreshCommands_run)

text \<open>What a step does to one command.\<close>

definition commandPath :: "WorkflowCommand \<Rightarrow> WorkflowCommand \<Rightarrow> bool" where
  "commandPath c d =
     (wc_id d = wc_id c \<and> identityOf d = identityOf c \<and> wc_role d = wc_role c \<and> wc_head d = wc_head c \<and>
      allowedTransition\<^sup>*\<^sup>* (wc_status c) (wc_status d) \<and> (closedStatus (wc_status c) \<longrightarrow> d = c))"

lemma commandPath_refl [simp]: "commandPath c c"
  by (simp add: commandPath_def)

lemma commandPath_set:
  assumes "commandPath c d" "allowedTransition (wc_status d) s"
  shows "commandPath c (setStatusRow now s d)"
proof -
  have "\<not> closedStatus (wc_status d)" using assms(2) command_status.final_stuck by blast
  with assms show ?thesis by (auto simp: commandPath_def intro: rtranclp.rtrancl_into_rtrancl)
qed

lemma CreateCommand_cases:
  assumes "storeInv st"
  shows "fst (CreateCommand newID now input st) = st \<or>
    (\<exists>c. fst (CreateCommand newID now input st) = st\<lparr>sl_commands := sl_commands st @ [c]\<rparr> \<and>
       wc_id c \<notin> wc_id ` set (sl_commands st) \<and> identityOf c \<notin> identityOf ` set (sl_commands st) \<and>
       knownCommandStatus (wc_status c))"
proof -
  let ?in = "normalizeInput newID input"
  show ?thesis
  proof (cases "inputError ?in = None \<and> commandByIdentity (ci_project ?in) (ci_issue ?in) (ci_identity ?in) st = None \<and>
      ci_id ?in \<notin> wc_id ` set (sl_commands st)")
    case True
    then have "knownCommandStatus (ci_initial ?in)" by (auto simp: inputError_def split: if_splits)
    moreover have "identityOf (commandRow now ?in) \<notin> identityOf ` set (sl_commands st)"
      using True by (auto simp: commandByIdentity_def find_None_iff identityOf_def commandRow_def)
    ultimately have "fst (CreateCommand newID now input st) = st\<lparr>sl_commands := sl_commands st @ [commandRow now ?in]\<rparr> \<and>
       wc_id (commandRow now ?in) \<notin> wc_id ` set (sl_commands st) \<and>
       identityOf (commandRow now ?in) \<notin> identityOf ` set (sl_commands st) \<and>
       knownCommandStatus (wc_status (commandRow now ?in))"
      using True by (simp add: CreateCommand_def Let_def) (simp add: commandRow_def)
    then show ?thesis by blast
  next
    case False
    then show ?thesis by (auto simp: CreateCommand_def Let_def split: option.split)
  qed
qed

lemma upsert_keys: "distinct (map resultKey rows) \<Longrightarrow> distinct (map resultKey (upsertRow r rows))"
proof -
  assume d: "distinct (map resultKey rows)"
  have "map resultKey (row_update (\<lambda>x. resultKey x = resultKey r) (\<lambda>_. r) rows) = map resultKey rows"
    by (simp add: row_update_def)
  with d show ?thesis by (simp add: upsertRow_def)
qed

lemma ambiguous_keys [simp]: "map resultKey (row_update P (ambiguousRow why) rows) = map resultKey rows"
  by (simp add: row_update_def ambiguousRow_def resultKey_def)

lemma keep_commands:
  "sl_commands st' = sl_commands st \<Longrightarrow> \<forall>c \<in> set (sl_commands st). \<exists>d \<in> set (sl_commands st'). commandPath c d"
  using commandPath_refl by metis

lemma step_commands:
  assumes "loop_step st st'" "storeInv st"
  shows "storeInv st' \<and> (\<forall>c \<in> set (sl_commands st). \<exists>d \<in> set (sl_commands st'). commandPath c d)"
  using assms(1)
proof (cases rule: loop_step.cases)
  case (create newID now input)
  from CreateCommand_cases [OF assms(2), of newID now input] show ?thesis
  proof
    assume "fst (CreateCommand newID now input st) = st"
    with create have "st' = st" by simp
    with assms(2) commandPath_refl show ?thesis by blast
  next
    assume "\<exists>c. fst (CreateCommand newID now input st) = st\<lparr>sl_commands := sl_commands st @ [c]\<rparr> \<and>
       wc_id c \<notin> wc_id ` set (sl_commands st) \<and> identityOf c \<notin> identityOf ` set (sl_commands st) \<and>
       knownCommandStatus (wc_status c)"
    then obtain c where c: "st' = st\<lparr>sl_commands := sl_commands st @ [c]\<rparr>" "wc_id c \<notin> wc_id ` set (sl_commands st)"
      "identityOf c \<notin> identityOf ` set (sl_commands st)" "knownCommandStatus (wc_status c)"
      unfolding create by blast
    from c(2-4) assms(2) have "storeInv st'" by (auto simp: c(1) storeInv_def)
    moreover have "set (sl_commands st) \<subseteq> set (sl_commands st')" by (auto simp: c(1))
    ultimately show ?thesis using commandPath_refl by blast
  qed
next
  case (status now i s)
  show ?thesis
  proof (cases "GetCommand i st")
    case (Inl e)
    then have "st' = st" by (simp add: status SetCommandStatus_def)
    with assms(2) commandPath_refl show ?thesis by blast
  next
    case (Inr c)
    note c = GetCommand_Inr [OF Inr]
    consider "st' = st" | "allowedTransition (wc_status c) s" "st' = withStatus now c s st"
      using SetCommandStatus_stored [OF assms(2), of c now s] c by (auto simp: status split: if_splits)
    then show ?thesis
    proof cases
      case 1
      with assms(2) commandPath_refl show ?thesis by blast
    next
      case 2
      have "knownCommandStatus s" using 2(1)
        by (auto simp: allowedTransition_def knownCommandStatus_def terminalCommandStatus_def split: if_splits)
      from withStatus_inv [OF assms(2) this] have "storeInv st'" by (simp add: 2)
      moreover have "\<exists>d \<in> set (sl_commands st'). commandPath x d" if x: "x \<in> set (sl_commands st)" for x
      proof (cases "x = c")
        case True
        with x have "setStatusRow now s c \<in> set (sl_commands st')" by (simp add: 2 withStatus_def set_row_update)
        with True commandPath_set [OF commandPath_refl 2(1)] show ?thesis by blast
      next
        case False
        with x have "x \<in> set (sl_commands st')" by (simp add: 2 withStatus_def set_row_update)
        with commandPath_refl show ?thesis by blast
      qed
      ultimately show ?thesis by blast
    qed
  qed
next
  case (upsert r)
  then have "sl_commands st' = sl_commands st" by (simp add: UpsertResult_def)
  moreover have "storeInv st'" using upsert assms(2) upsert_keys by (simp add: storeInv_def UpsertResult_def)
  ultimately show ?thesis using keep_commands by blast
next
  case (delete p i)
  then have "sl_commands st' = sl_commands st" by (simp add: DeleteResult_def)
  moreover have "storeInv st'" using delete assms(2) by (simp add: storeInv_def DeleteResult_def distinct_map_filter)
  ultimately show ?thesis using keep_commands by blast
next
  case (sweep p seen)
  then have "sl_commands st' = sl_commands st" by (simp add: DeleteMissingResults_def)
  moreover have "storeInv st'" using sweep assms(2) by (simp add: storeInv_def DeleteMissingResults_def distinct_map_filter)
  ultimately show ?thesis using keep_commands by blast
next
  case (mark p i)
  then have "sl_commands st' = sl_commands st" by (simp add: MarkCommandResultsAmbiguous_def)
  moreover have "storeInv st'" using mark assms(2) by (simp add: storeInv_def MarkCommandResultsAmbiguous_def ambiguous_keys)
  ultimately show ?thesis using keep_commands by blast
qed

lemma commandPath_trans:
  assumes "commandPath c d" "commandPath d e"
  shows "commandPath c e"
proof (cases "closedStatus (wc_status c)")
  case True
  with assms(1) have "d = c" by (simp add: commandPath_def)
  with assms(2) show ?thesis by simp
next
  case False
  with assms show ?thesis unfolding commandPath_def by (metis rtranclp_trans)
qed

lemma run_commands:
  assumes "loop_run st st'" "storeInv st"
  shows "storeInv st' \<and> (\<forall>c \<in> set (sl_commands st). \<exists>d \<in> set (sl_commands st'). commandPath c d)"
  using assms(1)
proof (induction rule: rtranclp_induct)
  case base
  with assms(2) commandPath_refl show ?case by blast
next
  case (step y z)
  then have y: "storeInv y" by blast
  from step_commands [OF step.hyps(2) y] step.IH commandPath_trans show ?case by meson
qed

subsection \<open>Where accepted results come from\<close>

definition acceptedRows :: "LoopStore \<Rightarrow> WorkerResult set" where
  "acceptedRows st = {r \<in> set (sl_results st). wr_status r = ''accepted''}"

text \<open>An accepted row carries the canonical payload of the one live marker of a comment, and a
  stored command asked for it: for this issue and this role, at this Head.\<close>

definition answers :: "LoopStore \<Rightarrow> int \<Rightarrow> int \<Rightarrow> MarkerPayload \<Rightarrow> bool" where
  "answers st projectID issueNumber q =
     (case GetCommand (mp_command q) st of
        Inl _ \<Rightarrow> False
      | Inr command \<Rightarrow> wc_project command = projectID \<and> wc_issue command = issueNumber \<and>
          wc_role command = mp_role q \<and> \<not> markerStaleForCommand command q)"

definition genuine :: "(string \<Rightarrow> string) \<Rightarrow> LoopStore \<Rightarrow> int \<Rightarrow> (int \<times> Comment) list \<Rightarrow> WorkerResult \<Rightarrow> bool" where
  "genuine hash st projectID comments r =
     (\<exists>c. (wr_issue r, c) \<in> set comments \<and> cm_id c = wr_comment r \<and>
       (let parsed = ParseMarker hash (cm_body c) in
        pm_status parsed = ''accepted'' \<and> wr_payload r = marshalMarker (pm_payload parsed) \<and>
        wr_hash r = hash (wr_payload r) \<and> wr_command r = mp_command (pm_payload parsed) \<and>
        answers st projectID (wr_issue r) (pm_payload parsed)))"

lemma marshal_not_empty [simp]: "marshalMarker p \<noteq> []"
  by (simp add: marshalMarker_def jsonText_obj del: jsonText.simps)

lemma rejected_status [simp]: "wr_status (rejected s why r) = s"
  by (simp add: rejected_def)

lemma correlate_key [simp]: "resultKey (correlate hash now st p i c parsed) = (p, cm_id c)"
  by (simp add: correlate_def Let_def resultKey_def assertedResult_def rejected_def split: sum.split)

lemma correlate_accepted:
  assumes "wr_status (correlate hash now st p i c (ParseMarker hash (cm_body c))) = ''accepted''" "(i, c) \<in> set comments"
  shows "genuine hash st p comments (correlate hash now st p i c (ParseMarker hash (cm_body c)))"
proof -
  let ?m = "ParseMarker hash (cm_body c)"
  let ?r = "correlate hash now st p i c ?m"
  have a: "pm_status ?m = ''accepted''"
    using assms(1) by (auto simp: correlate_def Let_def assertedResult_def split: if_splits)
  obtain q where q: "pm_payload ?m = q" "pm_json ?m = marshalMarker q" "pm_hash ?m = hash (marshalMarker q)"
    using ParseMarker_accepted [OF a] by (metis ParsedMarker.select_convs)
  obtain cmd where cmd: "GetCommand (mp_command q) st = Inr cmd"
    using assms(1) a q by (cases "GetCommand (mp_command q) st") (auto simp: correlate_def Let_def)
  have g: "wc_project cmd = p" "wc_issue cmd = i" "wc_role cmd = mp_role q" "\<not> markerStaleForCommand cmd q"
    using assms(1) a q cmd by (auto simp: correlate_def Let_def split: if_splits)
  then have "?r = (assertedResult hash now p i c ?m)\<lparr>wr_accepted := Some now\<rparr>"
    using a q cmd by (simp add: correlate_def Let_def)
  then have "wr_issue ?r = i" "wr_comment ?r = cm_id c" "wr_payload ?r = marshalMarker q" "wr_hash ?r = hash (marshalMarker q)"
    "wr_command ?r = mp_command q"
    using q by (simp_all add: assertedResult_def)
  moreover have "answers st p i q" using cmd g by (simp add: answers_def)
  ultimately have "(wr_issue ?r, c) \<in> set comments \<and> cm_id c = wr_comment ?r \<and> pm_status ?m = ''accepted'' \<and>
      wr_payload ?r = marshalMarker (pm_payload ?m) \<and> wr_hash ?r = hash (wr_payload ?r) \<and>
      wr_command ?r = mp_command (pm_payload ?m) \<and> answers st p (wr_issue ?r) (pm_payload ?m)"
    using assms(2) a q(1) by simp
  then show ?thesis unfolding genuine_def Let_def by blast
qed

lemma upsert_rows: "x \<in> set (upsertRow r rows) \<Longrightarrow> x = r \<or> (x \<in> set rows \<and> resultKey x \<noteq> resultKey r)"
proof (cases "resultKey r \<in> resultKey ` set rows")
  case False
  then have "\<forall>y \<in> set rows. resultKey y \<noteq> resultKey r" by (metis imageI)
  moreover assume "x \<in> set (upsertRow r rows)"
  ultimately show ?thesis using False by (auto simp: upsertRow_def)
qed (auto simp: upsertRow_def set_row_update)

lemma persistResult_rows:
  "x \<in> set (sl_results (persistResult r st)) \<Longrightarrow>
    x = r \<or> x = ambiguousRow ''accepted_result_mutated'' r \<or> (x \<in> set (sl_results st) \<and> resultKey x \<noteq> resultKey r)"
proof -
  have k: "resultKey (ambiguousRow why r) = resultKey r" for why by (simp add: ambiguousRow_def resultKey_def)
  assume "x \<in> set (sl_results (persistResult r st))"
  then have "x \<in> set (upsertRow r (sl_results st)) \<or>
      x \<in> set (upsertRow (ambiguousRow ''accepted_result_mutated'' r) (sl_results st))"
    by (auto simp: persistResult_def UpsertResult_def split: option.splits if_splits)
  then show ?thesis using upsert_rows k by metis
qed

lemma observe_commands [simp]:
  "sl_commands (persistResult r st) = sl_commands st"
  "sl_commands (observeComment hash now p i c st) = sl_commands st"
  "sl_commands (observeComments hash now p cs st) = sl_commands st"
proof -
  show p: "sl_commands (persistResult r st) = sl_commands st" for r st
    by (auto simp: persistResult_def UpsertResult_def split: option.split)
  show o: "sl_commands (observeComment hash now p i c st) = sl_commands st" for i c st
    by (simp add: observeComment_def Let_def p DeleteResult_def)
  show "sl_commands (observeComments hash now p cs st) = sl_commands st"
    by (induction cs arbitrary: st) (auto simp: o)
qed

lemma genuine_mono:
  "genuine hash st p cs r \<Longrightarrow> set cs \<subseteq> set ds \<Longrightarrow> sl_commands st = sl_commands st' \<Longrightarrow> genuine hash st' p ds r"
proof -
  assume "sl_commands st = sl_commands st'"
  then have "answers st = answers st'" by (simp add: answers_def GetCommand_def fun_eq_iff)
  moreover assume "genuine hash st p cs r" "set cs \<subseteq> set ds"
  ultimately show "genuine hash st' p ds r" unfolding genuine_def by auto
qed

definition freshRow :: "(string \<Rightarrow> string) \<Rightarrow> LoopStore \<Rightarrow> int \<Rightarrow> (int \<times> Comment) list \<Rightarrow> WorkerResult \<Rightarrow> bool" where
  "freshRow hash st p cs r = (wr_status r = ''accepted'' \<longrightarrow> genuine hash st p cs r)"

lemma observeComment_rows:
  assumes "x \<in> set (sl_results (observeComment hash now p i c st))"
  shows "(x \<in> set (sl_results st) \<and> resultKey x \<noteq> (p, cm_id c)) \<or> freshRow hash st p [(i, c)] x"
proof (cases "pm_present (ParseMarker hash (cm_body c))")
  case True
  let ?r = "correlate hash now st p i c (ParseMarker hash (cm_body c))"
  from assms True have "x \<in> set (sl_results (persistResult ?r st))" by (simp add: observeComment_def Let_def)
  from persistResult_rows [OF this]
  have "x = ?r \<or> x = ambiguousRow ''accepted_result_mutated'' ?r \<or> (x \<in> set (sl_results st) \<and> resultKey x \<noteq> (p, cm_id c))" by simp
  moreover have "freshRow hash st p [(i, c)] ?r" unfolding freshRow_def using correlate_accepted by simp
  moreover have "freshRow hash st p [(i, c)] (ambiguousRow ''accepted_result_mutated'' ?r)"
    by (simp add: freshRow_def ambiguousRow_def)
  ultimately show ?thesis by blast
qed (use assms in \<open>auto simp: observeComment_def Let_def DeleteResult_def\<close>)

lemma observeComments_rows:
  "x \<in> set (sl_results (observeComments hash now p cs st)) \<Longrightarrow>
    (x \<in> set (sl_results st) \<and> resultKey x \<notin> (\<lambda>ic. (p, cm_id (snd ic))) ` set cs) \<or> freshRow hash st p cs x"
proof (induction cs arbitrary: st)
  case (Cons ic cs)
  obtain i c where ic: "ic = (i, c)" by fastforce
  let ?st1 = "observeComment hash now p i c st"
  have sub: "freshRow hash st0 p ds x \<Longrightarrow> set ds \<subseteq> set (ic # cs) \<Longrightarrow> sl_commands st0 = sl_commands st \<Longrightarrow> freshRow hash st p (ic # cs) x" for st0 ds
    unfolding freshRow_def using genuine_mono by blast
  from Cons.prems ic have "x \<in> set (sl_results (observeComments hash now p cs ?st1))" by simp
  from Cons.IH [OF this] show ?case
  proof
    assume "freshRow hash ?st1 p cs x"
    from sub [OF this] have "freshRow hash st p (ic # cs) x" by (simp add: subset_insertI)
    then show ?thesis ..
  next
    assume x: "x \<in> set (sl_results ?st1) \<and> resultKey x \<notin> (\<lambda>ic. (p, cm_id (snd ic))) ` set cs"
    then have "(x \<in> set (sl_results st) \<and> resultKey x \<noteq> (p, cm_id c)) \<or> freshRow hash st p [(i, c)] x"
      using observeComment_rows by blast
    with x ic sub [of st "[(i, c)]"] show ?thesis by auto
  qed
qed simp

text \<open>The state in which the commands are reconciled.\<close>

definition observedStore :: "(string \<Rightarrow> string) \<Rightarrow> gotime \<Rightarrow> ProjectSnapshot \<Rightarrow> LoopStore \<Rightarrow> LoopStore" where
  "observedStore hash now snapshot st =
     (let p = pj_id (ps_project snapshot); comments = issueComments (ps_issues snapshot)
      in DeleteMissingResults p (seenComments hash comments) (observeComments hash now p comments st))"

lemma observedStore_fresh:
  assumes "x \<in> set (sl_results (observedStore hash now snapshot st))" "wr_project x = pj_id (ps_project snapshot)"
  shows "freshRow hash st (pj_id (ps_project snapshot)) (issueComments (ps_issues snapshot)) x"
proof -
  let ?p = "pj_id (ps_project snapshot)" and ?cs = "issueComments (ps_issues snapshot)"
  from assms have x: "x \<in> set (sl_results (observeComments hash now ?p ?cs st))" "wr_comment x \<in> set (seenComments hash ?cs)"
    by (auto simp: observedStore_def Let_def DeleteMissingResults_def)
  from x(2) have "resultKey x \<in> (\<lambda>ic. (?p, cm_id (snd ic))) ` set ?cs"
    by (auto simp: seenComments_def resultKey_def assms(2) intro: rev_image_eqI)
  with observeComments_rows [OF x(1)] show ?thesis by blast
qed

subsection \<open>Reconciliation\<close>

text \<open>A command is settled when its status is what its accepted results say.\<close>

definition settled :: "LoopStore \<Rightarrow> WorkflowCommand \<Rightarrow> bool" where
  "settled st c =
     (closedStatus (wc_status c) \<or>
      (case acceptedResults c st of
         [] \<Rightarrow> \<not> terminalCommandStatus (wc_status c)
       | r # _ \<Rightarrow> card (wr_hash ` set (acceptedResults c st)) \<le> 1 \<and> statusForResult r = Inr (wc_status c)))"

definition decodable :: "int \<Rightarrow> LoopStore \<Rightarrow> bool" where
  "decodable p st = (\<forall>r \<in> acceptedRows st. wr_project r = p \<longrightarrow>
     (\<exists>s. statusForResult r = Inr s \<and> s \<in> {''completed'', ''blocked'', ''inconclusive''}))"

lemma genuine_decodable:
  assumes "genuine hash st p cs r"
  shows "\<exists>s. statusForResult r = Inr s \<and> s \<in> {''completed'', ''blocked'', ''inconclusive''}"
proof -
  from assms obtain c :: Comment where a: "pm_status (ParseMarker hash (cm_body c)) = ''accepted''"
    and p: "wr_payload r = marshalMarker (pm_payload (ParseMarker hash (cm_body c)))"
    unfolding genuine_def Let_def by (elim exE conjE) (rule that, assumption+)
  obtain q where q: "goPayload q" "validatePayload q = accepted" "pm_payload (ParseMarker hash (cm_body c)) = q"
    using ParseMarker_accepted [OF a] by (metis ParsedMarker.select_convs(2))
  have "decodeCanonicalMarker (wr_payload r) = Some q" using decodeCanonical_marshal [OF q(1)] p q(3) by simp
  with accepted_role [OF q(2)] show ?thesis unfolding statusForResult_def by auto
qed

definition settledIds :: "LoopStore \<Rightarrow> string set" where
  "settledIds st = wc_id ` {c \<in> set (sl_commands st). settled st c}"

definition scopeOf :: "WorkflowCommand \<Rightarrow> string \<times> int \<times> int" where
  "scopeOf c = (wc_id c, wc_project c, wc_issue c)"

text \<open>What the reconciliation of one command, of an issue and of the project have in common.\<close>

definition advance :: "int \<Rightarrow> LoopStore \<Rightarrow> LoopStore \<Rightarrow> bool" where
  "advance p st st' =
     (storeInv st' \<and> decodable p st' \<and> map scopeOf (sl_commands st') = map scopeOf (sl_commands st) \<and>
      settledIds st \<subseteq> settledIds st' \<and> acceptedRows st' \<subseteq> acceptedRows st)"

lemma advance_refl: "storeInv st \<Longrightarrow> decodable p st \<Longrightarrow> advance p st st"
  by (simp add: advance_def)

lemma advance_trans: "advance p st st1 \<Longrightarrow> advance p st1 st2 \<Longrightarrow> advance p st st2"
  by (auto simp: advance_def)

lemma decodable_mono: "decodable p st \<Longrightarrow> acceptedRows st' \<subseteq> acceptedRows st \<Longrightarrow> decodable p st'"
  by (auto simp: decodable_def)

lemma acceptedResults_cong: "sl_results st' = sl_results st \<Longrightarrow> acceptedResults c st' = acceptedResults c st"
  by (simp add: acceptedResults_def ResultsForCommand_def)

lemma acceptedResults_scope: "scopeOf c = scopeOf d \<Longrightarrow> acceptedResults c st = acceptedResults d st"
  by (simp add: acceptedResults_def scopeOf_def)

lemma in_acceptedResults:
  "set (acceptedResults c st) = {r \<in> acceptedRows st. wr_project r = wc_project c \<and> wr_command r = wc_id c}"
  by (auto simp: acceptedResults_def ResultsForCommand_def acceptedRows_def)

lemma filter_update_other:
  "(\<And>r. r \<in> set rows \<Longrightarrow> hit r \<Longrightarrow> \<not> P r \<and> \<not> P (f r)) \<Longrightarrow> filter P (row_update hit f rows) = filter P rows"
  by (induction rows) (auto simp: row_update_def)

lemma acceptedResults_mark:
  assumes "wc_id d \<noteq> i"
  shows "acceptedResults d (MarkCommandResultsAmbiguous p i st) = acceptedResults d st"
proof -
  have "filter (\<lambda>r. wr_project r = wc_project d \<and> wr_command r = wc_id d)
      (row_update (conflicting p i) (ambiguousRow why) (sl_results st)) =
    filter (\<lambda>r. wr_project r = wc_project d \<and> wr_command r = wc_id d) (sl_results st)" for why
    using assms by (intro filter_update_other) (auto simp: conflicting_def ambiguousRow_def)
  then show ?thesis by (simp add: acceptedResults_def ResultsForCommand_def MarkCommandResultsAmbiguous_def)
qed

lemma acceptedRows_mark: "acceptedRows (MarkCommandResultsAmbiguous p i st) \<subseteq> acceptedRows st"
  by (auto simp: acceptedRows_def MarkCommandResultsAmbiguous_def set_row_update ambiguousRow_def)

text \<open>Rewriting the one row of a command, with the results of the other commands untouched.\<close>

lemma advance_row:
  assumes "storeInv st" "c \<in> set (sl_commands st)" "storeInv st'" "decodable p st"
    and cmds: "sl_commands st' = row_update (\<lambda>r. r = c) (\<lambda>_. c') (sl_commands st)"
    and c': "scopeOf c' = scopeOf c" "settled st' c'"
    and rows: "acceptedRows st' \<subseteq> acceptedRows st" "\<And>d. wc_id d \<noteq> wc_id c \<Longrightarrow> acceptedResults d st' = acceptedResults d st"
  shows "advance p st st' \<and> wc_id c \<in> settledIds st'"
proof -
  have "map scopeOf (sl_commands st') = map scopeOf (sl_commands st)"
    unfolding cmds row_update_def using c'(1) by simp
  moreover have mem: "c' \<in> set (sl_commands st')" "d \<in> set (sl_commands st) \<Longrightarrow> d \<noteq> c \<Longrightarrow> d \<in> set (sl_commands st')" for d
    using assms(2) by (auto simp: cmds set_row_update)
  moreover have c: "wc_id c \<in> settledIds st'"
  proof -
    have "wc_id c' \<in> settledIds st'" using mem(1) c'(2) unfolding settledIds_def by blast
    moreover have "wc_id c' = wc_id c" using c'(1) by (simp add: scopeOf_def)
    ultimately show ?thesis by metis
  qed
  moreover have "wc_id d \<in> settledIds st'" if d: "d \<in> set (sl_commands st)" "settled st d" for d
  proof (cases "wc_id d = wc_id c")
    case False
    have "settled st' d" using d(2) unfolding settled_def rows(2) [OF False] .
    with False d(1) mem(2) show ?thesis unfolding settledIds_def by blast
  qed (simp add: c)
  ultimately show ?thesis
    unfolding advance_def using assms(3) decodable_mono [OF assms(4) rows(1)] rows(1) by (auto simp: settledIds_def)
qed

lemma known_not_terminal: "knownCommandStatus s \<Longrightarrow> \<not> terminalCommandStatus s \<Longrightarrow> d \<in> {''completed'', ''blocked'', ''inconclusive''} \<Longrightarrow> allowedTransition s d"
  by (auto simp: knownCommandStatus_def allowedTransition_def)

lemma to_ambiguous: "\<not> closedStatus s \<Longrightarrow> allowedTransition s ''ambiguous''"
  by (simp add: closedStatus_def allowedTransition_def)

lemma setStatus_stored:
  assumes "storeInv st" "c \<in> set (sl_commands st)" "wc_status c \<noteq> s" "allowedTransition (wc_status c) s"
  shows "setStatus now (wc_id c) s st = (withStatus now c s st, None)"
  by (simp add: setStatus_def SetCommandStatus_stored [OF assms(1,2)] assms(3,4))

lemma withStatus_results [simp]: "sl_results (withStatus now c s st) = sl_results st"
  by (simp add: withStatus_def)

lemma allowed_known: "allowedTransition s t \<Longrightarrow> knownCommandStatus t"
  by (auto simp: allowedTransition_def knownCommandStatus_def terminalCommandStatus_def split: if_splits)

text \<open>Setting the status of a command to one that settles it, possibly after marking its results.\<close>

lemma advance_status:
  assumes "storeInv st" "decodable p st" "c \<in> set (sl_commands st)" "allowedTransition (wc_status c) s" "wc_status c \<noteq> s"
    and st1: "st1 = st \<or> st1 = MarkCommandResultsAmbiguous q (wc_id c) st"
    and set: "settled (withStatus now c s st1) (setStatusRow now s c)"
  shows "\<exists>st'. setStatus now (wc_id c) s st1 = (st', None) \<and> advance p st st' \<and> wc_id c \<in> settledIds st'"
proof -
  have c1: "sl_commands st1 = sl_commands st" using st1 by (auto simp: MarkCommandResultsAmbiguous_def)
  have inv1: "storeInv st1" using assms(1) st1 by (auto simp: storeInv_def MarkCommandResultsAmbiguous_def)
  let ?st' = "withStatus now c s st1"
  have "setStatus now (wc_id c) s st1 = (?st', None)"
    using setStatus_stored [OF inv1 _ assms(5,4)] assms(3) c1 by simp
  moreover have "advance p st ?st' \<and> wc_id c \<in> settledIds ?st'"
  proof (rule advance_row [OF assms(1,3) withStatus_inv [OF inv1 allowed_known [OF assms(4)]] assms(2) _ _ set])
    show "sl_commands ?st' = row_update (\<lambda>r. r = c) (\<lambda>_. setStatusRow now s c) (sl_commands st)"
      by (auto simp: withStatus_def c1 row_update_def)
    show "scopeOf (setStatusRow now s c) = scopeOf c" by (simp add: scopeOf_def)
    have "acceptedRows ?st' = acceptedRows st1" by (simp add: acceptedRows_def)
    then show "acceptedRows ?st' \<subseteq> acceptedRows st" using st1 by (metis acceptedRows_mark subset_refl)
    have "acceptedResults d ?st' = acceptedResults d st1" for d by (intro acceptedResults_cong) simp
    then show "acceptedResults d ?st' = acceptedResults d st" if "wc_id d \<noteq> wc_id c" for d
      using st1 acceptedResults_mark [OF that] by metis
  qed
  ultimately show ?thesis by blast
qed

lemma advance_keep:
  assumes "storeInv st" "decodable p st" "c \<in> set (sl_commands st)" "settled st c"
  shows "advance p st st \<and> wc_id c \<in> settledIds st"
  using advance_refl [OF assms(1,2)] assms(3,4) by (auto simp: settledIds_def)

lemma reconcileCommand_settles:
  assumes "storeInv st" "decodable (wc_project c) st" "c \<in> set (sl_commands st)"
  shows "\<exists>st'. reconcileCommand now c st = (st', None) \<and> advance (wc_project c) st st' \<and> wc_id c \<in> settledIds st'"
proof (cases "closedStatus (wc_status c)")
  case True
  then have "settled st c" by (simp add: settled_def)
  with True advance_keep [OF assms] show ?thesis by (auto simp: reconcileCommand_def closedStatus_def)
next
  case open': False
  let ?acc = "acceptedResults c st"
  have amb: "settled st' (setStatusRow now ''ambiguous'' c)" for st' by (simp add: settled_def closedStatus_def)
  have to: "allowedTransition (wc_status c) ''ambiguous''" "wc_status c \<noteq> ''ambiguous''"
    using open' to_ambiguous by (auto simp: closedStatus_def)
  have known: "knownCommandStatus (wc_status c)" using assms(1,3) by (simp add: storeInv_def)
  note status = advance_status [OF assms]
  note unfold = reconcileCommand_def Let_def
  have branch: "wc_status c \<noteq> ''ambiguous''" "wc_status c \<noteq> ''superseded''" using open' by (auto simp: closedStatus_def)
  show ?thesis
  proof (cases "card (wr_hash ` set ?acc) > 1")
    case True
    have "\<exists>st'. setStatus now (wc_id c) ''ambiguous'' (MarkCommandResultsAmbiguous (wc_project c) (wc_id c) st) = (st', None) \<and>
        advance (wc_project c) st st' \<and> wc_id c \<in> settledIds st'"
      by (rule status [OF to _ amb]) (rule disjI2, rule refl)
    with branch True show ?thesis unfolding unfold by simp
  next
    case one: False
    show ?thesis
    proof (cases ?acc)
      case Nil
      show ?thesis
      proof (cases "terminalCommandStatus (wc_status c)")
        case True
        with branch one Nil show ?thesis unfolding unfold using status [OF to _ amb] by simp
      next
        case False
        then have "settled st c" using Nil by (simp add: settled_def)
        with branch one Nil False advance_keep [OF assms] show ?thesis unfolding unfold by simp
      qed
    next
      case (Cons r rs)
      then have "r \<in> set ?acc" by simp
      then obtain d where d: "statusForResult r = Inr d" "d \<in> {''completed'', ''blocked'', ''inconclusive''}"
        using assms(2) unfolding decodable_def in_acceptedResults by auto
      consider "wc_status c = d" | "wc_status c \<noteq> d" "terminalCommandStatus (wc_status c)"
        | "wc_status c \<noteq> d" "\<not> terminalCommandStatus (wc_status c)" by blast
      then show ?thesis
      proof cases
        case 1
        then have "settled st c" using Cons one d(1) by (simp add: settled_def)
        with branch one Cons d(1) 1 advance_keep [OF assms] show ?thesis unfolding unfold by simp
      next
        case 2
        with branch one Cons d(1) show ?thesis unfolding unfold using status [OF to _ amb] by simp
      next
        case 3
        let ?c' = "setStatusRow now d c"
        have "acceptedResults ?c' (withStatus now c d st) = ?acc"
          using acceptedResults_scope [of ?c' c "withStatus now c d st"] acceptedResults_cong [of "withStatus now c d st" st c]
          by (simp add: scopeOf_def)
        then have "settled (withStatus now c d st) ?c'" using Cons one d(1) by (simp add: settled_def)
        with branch one Cons d(1) 3 show ?thesis
          unfolding unfold using status [OF known_not_terminal [OF known 3(2) d(2)] 3(1)] by simp
      qed
    qed
  qed
qed

lemma same_scope:
  assumes "map scopeOf (sl_commands st') = map scopeOf (sl_commands st)" "c \<in> set (sl_commands st)"
  obtains d where "d \<in> set (sl_commands st')" "scopeOf d = scopeOf c"
proof -
  have "scopeOf c \<in> scopeOf ` set (sl_commands st')" using assms by (metis image_eqI set_map)
  then obtain d where "d \<in> set (sl_commands st')" "scopeOf c = scopeOf d" by (rule imageE)
  with that [of d] show thesis by simp
qed

lemma scope_target:
  assumes "d \<in> set (sl_commands st)" "scopeOf d = scopeOf c" "wc_project c = p" "wc_issue c \<in> numbers"
    "wc_id ` {c \<in> set (sl_commands st). wc_project c = p \<and> wc_issue c \<in> numbers} \<subseteq> A"
  shows "wc_id c \<in> A"
proof -
  have "wc_id d = wc_id c" "wc_project d = p" "wc_issue d \<in> numbers" using assms(2-4) by (simp_all add: scopeOf_def)
  with assms(1,5) show ?thesis by (metis (mono_tags, lifting) image_subset_iff mem_Collect_eq)
qed

lemma advance_stays:
  assumes "reconcileCommand now c st = (st', None)" "d \<noteq> c" "storeInv st" "c \<in> set (sl_commands st)" "d \<in> set (sl_commands st)"
  shows "d \<in> set (sl_commands st')"
proof -
  have keep: "d \<in> set (sl_commands (fst (setStatus now (wc_id c) s st1)))"
    if "sl_commands st1 = sl_commands st" "storeInv st1" for s st1
    using SetCommandStatus_stored [OF that(2), of c now s] assms(2,4,5) that(1)
    by (auto simp: setStatus_def withStatus_def set_row_update)
  have "sl_commands (MarkCommandResultsAmbiguous p i st) = sl_commands st" "storeInv (MarkCommandResultsAmbiguous p i st)" for p i
    using assms(3) by (simp_all add: MarkCommandResultsAmbiguous_def storeInv_def)
  note m = keep [OF this]
  have st: "d \<in> set (sl_commands (fst (setStatus now (wc_id c) s st)))" for s by (rule keep) (simp_all add: assms(3))
  have "d \<in> set (sl_commands (fst (reconcileCommand now c st)))"
    unfolding reconcileCommand_def Let_def using m st assms(5) by (simp split: list.split sum.split)
  with assms(1) show ?thesis by simp
qed

lemma reconcileCommands_settle:
  assumes "storeInv st" "decodable p st" "set cs \<subseteq> set (sl_commands st)" "distinct cs" "\<forall>c \<in> set cs. wc_project c = p"
  shows "\<exists>st'. reconcileCommands now cs st = (st', None) \<and> advance p st st' \<and> wc_id ` set cs \<subseteq> settledIds st'"
  using assms
proof (induction cs arbitrary: st)
  case Nil
  then show ?case by (simp add: advance_refl)
next
  case (Cons c cs)
  have c: "c \<in> set (sl_commands st)" "wc_project c = p" using Cons.prems by auto
  obtain st1 where 1: "reconcileCommand now c st = (st1, None)" "advance p st st1" "wc_id c \<in> settledIds st1"
    using reconcileCommand_settles [OF Cons.prems(1) _ c(1)] Cons.prems(2) c(2) by blast
  have "set cs \<subseteq> set (sl_commands st1)"
  proof
    fix d assume "d \<in> set cs"
    with Cons.prems(3,4) have "d \<in> set (sl_commands st)" "d \<noteq> c" by auto
    with advance_stays [OF 1(1) _ Cons.prems(1) c(1)] show "d \<in> set (sl_commands st1)" by blast
  qed
  then obtain st' where 2: "reconcileCommands now cs st1 = (st', None)" "advance p st1 st'" "wc_id ` set cs \<subseteq> settledIds st'"
    using Cons.IH [of st1] 1(2) Cons.prems(4,5) by (auto simp: advance_def)
  have "wc_id ` set (c # cs) \<subseteq> settledIds st'" using 1(3) 2(2,3) by (auto simp: advance_def)
  moreover have "reconcileCommands now (c # cs) st = (st', None)" using 1(1) 2(1) by simp
  ultimately show ?case using advance_trans [OF 1(2) 2(2)] by blast
qed

lemma ListCommands_set: "set (ListCommands p n st) = {c \<in> set (sl_commands st). wc_project c = p \<and> wc_issue c = n}"
  by (auto simp: ListCommands_def)

lemma ListCommands_distinct: "storeInv st \<Longrightarrow> distinct (ListCommands p n st)"
  by (simp add: ListCommands_def storeInv_def distinct_map)

lemma reconcileIssues_settle:
  assumes "storeInv st" "decodable p st"
  shows "\<exists>st'. reconcileIssues now p issues st = (st', None) \<and> advance p st st' \<and>
    wc_id ` {c \<in> set (sl_commands st). wc_project c = p \<and> wc_issue c \<in> is_number ` set issues} \<subseteq> settledIds st'"
  using assms
proof (induction issues arbitrary: st)
  case Nil
  then show ?case by (simp add: advance_refl)
next
  case (Cons i issues)
  let ?cs = "ListCommands p (is_number i) st"
  obtain st1 where 1: "reconcileCommands now ?cs st = (st1, None)" "advance p st st1" "wc_id ` set ?cs \<subseteq> settledIds st1"
  proof -
    have "set ?cs \<subseteq> set (sl_commands st)" "\<forall>c \<in> set ?cs. wc_project c = p" by (auto simp: ListCommands_set)
    from reconcileCommands_settle [OF Cons.prems this(1) ListCommands_distinct [OF Cons.prems(1)] this(2)] that
    show thesis by meson
  qed
  obtain st' where 2: "reconcileIssues now p issues st1 = (st', None)" "advance p st1 st'"
    "wc_id ` {c \<in> set (sl_commands st1). wc_project c = p \<and> wc_issue c \<in> is_number ` set issues} \<subseteq> settledIds st'"
    using Cons.IH [of st1] 1(2) unfolding advance_def by meson
  have "wc_id c \<in> settledIds st'"
    if c: "c \<in> set (sl_commands st)" "wc_project c = p" "wc_issue c \<in> is_number ` set (i # issues)" for c
  proof (cases "wc_issue c = is_number i")
    case True
    with c have "wc_id c \<in> wc_id ` set ?cs" by (simp add: ListCommands_set)
    with 1(3) 2(2) show ?thesis by (auto simp: advance_def)
  next
    case False
    with c(3) have i: "wc_issue c \<in> is_number ` set issues" by simp
    have "map scopeOf (sl_commands st1) = map scopeOf (sl_commands st)" using 1(2) by (simp add: advance_def)
    from same_scope [OF this c(1)] obtain d where "d \<in> set (sl_commands st1)" "scopeOf d = scopeOf c" .
    from scope_target [OF this c(2) i 2(3)] show ?thesis .
  qed
  moreover have "reconcileIssues now p (i # issues) st = (st', None)" using 1(1) 2(1) by simp
  ultimately show ?case using advance_trans [OF 1(2) 2(2)] by blast
qed

lemma observedStore_inv:
  assumes "storeInv st"
  shows "storeInv (observedStore hash now snapshot st)" "decodable (pj_id (ps_project snapshot)) (observedStore hash now snapshot st)"
    "sl_commands (observedStore hash now snapshot st) = sl_commands st"
proof -
  let ?p = "pj_id (ps_project snapshot)" and ?cs = "issueComments (ps_issues snapshot)"
  let ?s1 = "observeComments hash now ?p ?cs st"
  have "loop_run ?s1 (DeleteMissingResults ?p seen ?s1)" for seen by (blast intro: loop_step.sweep)
  then have "loop_run st (observedStore hash now snapshot st)"
    unfolding observedStore_def Let_def by (rule rtranclp_trans [OF observeComments_run])
  from run_commands [OF this assms] show "storeInv (observedStore hash now snapshot st)" ..
  show "decodable ?p (observedStore hash now snapshot st)"
    unfolding decodable_def
  proof (intro ballI impI)
    fix r assume r: "r \<in> acceptedRows (observedStore hash now snapshot st)" "wr_project r = ?p"
    then have "genuine hash st ?p ?cs r" using observedStore_fresh by (auto simp: acceptedRows_def freshRow_def)
    from genuine_decodable [OF this] show "\<exists>s. statusForResult r = Inr s \<and> s \<in> {''completed'', ''blocked'', ''inconclusive''}" .
  qed
  show "sl_commands (observedStore hash now snapshot st) = sl_commands st"
    by (simp add: observedStore_def Let_def DeleteMissingResults_def)
qed

lemma Observe_unfold:
  "ObserveProjectSnapshot hash now snapshot st =
    reconcileIssues now (pj_id (ps_project snapshot)) (ps_issues snapshot) (observedStore hash now snapshot st)"
  by (simp add: ObserveProjectSnapshot_def observedStore_def Let_def)

text \<open>One observation, in one statement.\<close>

lemma Observe_result:
  assumes "storeInv st"
  obtains st' where "ObserveProjectSnapshot hash now snapshot st = (st', None)"
    "advance (pj_id (ps_project snapshot)) (observedStore hash now snapshot st) st'"
    "\<forall>c \<in> set (sl_commands st'). wc_project c = pj_id (ps_project snapshot) \<and> wc_issue c \<in> is_number ` set (ps_issues snapshot) \<longrightarrow> settled st' c"
proof -
  let ?p = "pj_id (ps_project snapshot)" and ?o = "observedStore hash now snapshot st"
  note o = observedStore_inv [OF assms, where hash = hash and now = now and snapshot = snapshot]
  obtain st' where st': "reconcileIssues now ?p (ps_issues snapshot) ?o = (st', None)" "advance ?p ?o st'"
    "wc_id ` {c \<in> set (sl_commands ?o). wc_project c = ?p \<and> wc_issue c \<in> is_number ` set (ps_issues snapshot)} \<subseteq> settledIds st'"
    using reconcileIssues_settle [OF o(1,2)] by blast
  have inv: "storeInv st'" using st'(2) by (simp add: advance_def)
  have "settled st' c" if c: "c \<in> set (sl_commands st')" "wc_project c = ?p" "wc_issue c \<in> is_number ` set (ps_issues snapshot)" for c
  proof -
    obtain d where d: "d \<in> set (sl_commands ?o)" "scopeOf d = scopeOf c"
    proof -
      have "map scopeOf (sl_commands ?o) = map scopeOf (sl_commands st')" using st'(2) by (simp add: advance_def)
      from same_scope [OF this c(1)] that show thesis .
    qed
    from scope_target [OF d c(2,3) st'(3)] have "wc_id c \<in> settledIds st'" .
    then obtain e where "e \<in> set (sl_commands st')" "settled st' e" "wc_id e = wc_id c" by (auto simp: settledIds_def)
    with same_id [OF inv _ c(1)] show ?thesis by blast
  qed
  with that [of st'] st' show thesis by (simp add: Observe_unfold)
qed

subsection \<open>Properties\<close>

definition sampleCommand :: WorkflowCommand where
  "sampleCommand = \<lparr>wc_id = ''cmd-1'', wc_project = 1, wc_issue = 2, wc_identity = ''k'', wc_role = ''implementor'',
     wc_action = ''implement'', wc_resource = ''v1'', wc_context = ''h'', wc_head = [], wc_status = ''awaiting_result'',
     wc_created = 0, wc_completed = None\<rparr>"

definition sampleStore :: LoopStore where
  "sampleStore = \<lparr>sl_commands = [sampleCommand], sl_results = []\<rparr>"

lemma sampleStore_inv: "storeInv sampleStore"
  by (simp add: storeInv_def sampleStore_def sampleCommand_def knownCommandStatus_def)

text \<open>C23. Workflow commands follow their machine. Whatever statements the store executes, in
  whatever order, ids and identities stay unique, every command keeps its id, identity, role and
  expected Head, its status moves along \<open>allowedTransition\<close>, and an ambiguous or superseded
  command is never changed again.\<close>

theorem commands_follow_machine:
  assumes "storeInv st" "loop_run st st'" "c \<in> set (sl_commands st)"
  shows "storeInv st' \<and>
    (\<exists>!d. d \<in> set (sl_commands st') \<and> wc_id d = wc_id c \<and> identityOf d = identityOf c \<and> wc_role d = wc_role c \<and>
       wc_head d = wc_head c \<and> allowedTransition\<^sup>*\<^sup>* (wc_status c) (wc_status d) \<and> (closedStatus (wc_status c) \<longrightarrow> d = c))"
proof -
  from run_commands [OF assms(2,1)] assms(3) obtain d where inv: "storeInv st'"
    and d: "d \<in> set (sl_commands st')" "commandPath c d" by blast
  have e: "e = d" if "e \<in> set (sl_commands st')" "wc_id e = wc_id c" for e
    using same_id [OF inv that(1) d(1)] that(2) d(2) by (simp add: commandPath_def)
  show ?thesis
  proof (intro conjI inv ex1I [of _ d] d(1))
    fix x assume "x \<in> set (sl_commands st') \<and> wc_id x = wc_id c \<and> identityOf x = identityOf c \<and> wc_role x = wc_role c \<and>
       wc_head x = wc_head c \<and> allowedTransition\<^sup>*\<^sup>* (wc_status c) (wc_status x) \<and> (closedStatus (wc_status c) \<longrightarrow> x = c)"
    then show "x = d" by (elim conjE) (rule e)
  qed (use d(2) in \<open>simp_all add: commandPath_def\<close>)
qed

theorem commands_follow_machine_witness:
  "\<exists>d \<in> set (sl_commands (fst (SetCommandStatus 9 ''cmd-1'' ''completed'' sampleStore))).
     wc_id d = ''cmd-1'' \<and> allowedTransition\<^sup>*\<^sup>* ''awaiting_result'' (wc_status d)"
proof -
  have "loop_run sampleStore (fst (SetCommandStatus 9 ''cmd-1'' ''completed'' sampleStore))"
    by (blast intro: loop_step.status)
  moreover have "sampleCommand \<in> set (sl_commands sampleStore)" by (simp add: sampleStore_def)
  ultimately obtain d where "d \<in> set (sl_commands (fst (SetCommandStatus 9 ''cmd-1'' ''completed'' sampleStore)))"
    "wc_id d = wc_id sampleCommand" "allowedTransition\<^sup>*\<^sup>* (wc_status sampleCommand) (wc_status d)"
    using commands_follow_machine [OF sampleStore_inv] by blast
  then show ?thesis unfolding sampleCommand_def WorkflowCommand.select_convs by blast
qed



end
