(* ===== verification/Worker_Results.thy ===== *)
theory Worker_Results
  imports Worker_Machine
begin

text \<open>
  Theorems on the results the worker loop keeps: where accepted results come from, what the guard
  against edited comments does over two observations, and what is projected as the current
  command of an issue.
\<close>

subsection \<open>A snapshot with one comment\<close>

lemma get_upsert: "resultKey r = k \<Longrightarrow> row_get resultKey k (upsertRow r rows) = Some r"
proof -
  assume k: "resultKey r = k"
  have "row_get resultKey k (row_update (\<lambda>x. resultKey x = k) (\<lambda>_. r) rows) = Some r" if "k \<in> resultKey ` set rows"
    using that k by (induction rows) (auto simp: row_get_def row_update_def)
  moreover have "find (\<lambda>x. resultKey x = k) rows = None" if "k \<notin> resultKey ` set rows"
    using that by (auto simp: find_None_iff)
  then have "row_get resultKey k (rows @ [r]) = Some r" if "k \<notin> resultKey ` set rows"
    using that k by (induction rows) (auto simp: row_get_def split: if_splits)
  ultimately show ?thesis using k by (simp add: upsertRow_def)
qed

lemma get_filter: "(\<And>r. key r = k \<Longrightarrow> P r) \<Longrightarrow> row_get key k (filter P rows) = row_get key k rows"
  by (induction rows) (auto simp: row_get_def)

definition guarded :: "LoopStore \<Rightarrow> WorkerResult \<Rightarrow> WorkerResult" where
  "guarded st r =
     (case ResultByComment (wr_project r) (wr_comment r) st of
        Some old \<Rightarrow> if wr_status old = ''accepted'' \<and> (wr_status r \<noteq> ''accepted'' \<or> wr_hash old \<noteq> wr_hash r)
                     then ambiguousRow ''accepted_result_mutated'' r else r
      | None \<Rightarrow> r)"

lemma persist_guarded: "persistResult r st = UpsertResult (guarded st r) st"
  by (cases "ResultByComment (wr_project r) (wr_comment r) st") (auto simp: persistResult_def guarded_def)

lemma guarded_key [simp]: "resultKey (guarded st r) = resultKey r"
  by (simp add: guarded_def ambiguousRow_def resultKey_def split: option.split)

lemma observe_single:
  assumes "ps_issues snapshot = [i]" "is_comments i = [c]" "pj_id (ps_project snapshot) = p"
    and "pm_present (ParseMarker hash (cm_body c))"
  shows "observedStore hash now snapshot st = DeleteMissingResults p [cm_id c]
      (UpsertResult (guarded st (correlate hash now st p (is_number i) c (ParseMarker hash (cm_body c)))) st)"
  using assms by (simp add: observedStore_def Let_def issueComments_def seenComments_def observeComment_def persist_guarded)

lemma observe_single_row:
  assumes "ps_issues snapshot = [i]" "is_comments i = [c]" "pj_id (ps_project snapshot) = p"
    and "pm_present (ParseMarker hash (cm_body c))"
  shows "ResultByComment p (cm_id c) (observedStore hash now snapshot st) =
      Some (guarded st (correlate hash now st p (is_number i) c (ParseMarker hash (cm_body c))))"
proof -
  let ?r = "guarded st (correlate hash now st p (is_number i) c (ParseMarker hash (cm_body c)))"
  have "row_get resultKey (p, cm_id c) (filter (\<lambda>r. wr_project r \<noteq> p \<or> wr_comment r \<in> set [cm_id c]) (upsertRow ?r (sl_results st))) =
      row_get resultKey (p, cm_id c) (upsertRow ?r (sl_results st))"
    by (rule get_filter) (simp add: resultKey_def)
  also have "\<dots> = Some ?r" by (rule get_upsert) simp
  finally show ?thesis
    by (simp add: observe_single [OF assms] ResultByComment_def DeleteMissingResults_def UpsertResult_def)
qed

text \<open>Reconciliation leaves the results alone when no two accepted results of a command differ.\<close>

lemma setStatus_results [simp]: "sl_results (fst (setStatus now i s st)) = sl_results st"
  by (simp add: setStatus_def SetCommandStatus_def Let_def split: sum.split)

definition agreeing :: "int \<Rightarrow> LoopStore \<Rightarrow> bool" where
  "agreeing p st = (\<forall>r \<in> acceptedRows st. \<forall>r' \<in> acceptedRows st. wr_project r = p \<and> wr_project r' = p \<longrightarrow> r = r')"

lemma agreeing_card:
  assumes "agreeing (wc_project c) st"
  shows "\<not> card (wr_hash ` set (acceptedResults c st)) > 1"
proof -
  have "is_singleton (wr_hash ` set (acceptedResults c st)) \<or> acceptedResults c st = []"
  proof (cases "acceptedResults c st")
    case (Cons r rs)
    then have r: "r \<in> set (acceptedResults c st)" by simp
    then have "x = r" if "x \<in> set (acceptedResults c st)" for x
      using that assms unfolding in_acceptedResults agreeing_def by blast
    with r have "set (acceptedResults c st) = {r}" by blast
    then show ?thesis by simp
  qed simp
  then show ?thesis by (auto simp: is_singleton_altdef)
qed

lemma agreeing_cong: "sl_results st' = sl_results st \<Longrightarrow> agreeing p st' = agreeing p st"
  by (simp add: agreeing_def acceptedRows_def)

lemma reconcileCommand_results:
  assumes "agreeing (wc_project c) st"
  shows "sl_results (fst (reconcileCommand now c st)) = sl_results st"
  unfolding reconcileCommand_def Let_def using agreeing_card [OF assms] by (simp split: list.split sum.split)

lemma reconcileCommands_results:
  "agreeing p st \<Longrightarrow> \<forall>c \<in> set cs. wc_project c = p \<Longrightarrow> sl_results (fst (reconcileCommands now cs st)) = sl_results st"
proof (induction cs arbitrary: st)
  case (Cons c cs)
  obtain st1 e where 1: "reconcileCommand now c st = (st1, e)" by fastforce
  have "sl_results st1 = sl_results st" using reconcileCommand_results [of c st now] Cons.prems 1 by simp
  with Cons.IH [of st1] Cons.prems 1 agreeing_cong [of st1 st p] show ?case by (cases e) simp_all
qed simp

lemma reconcileIssues_results:
  "agreeing p st \<Longrightarrow> sl_results (fst (reconcileIssues now p issues st)) = sl_results st"
proof (induction issues arbitrary: st)
  case (Cons i issues)
  obtain st1 e where 1: "reconcileCommands now (ListCommands p (is_number i) st) st = (st1, e)" by fastforce
  have "sl_results st1 = sl_results st"
    using reconcileCommands_results [OF Cons.prems, of "ListCommands p (is_number i) st" now] 1 by (simp add: ListCommands_set)
  with Cons.IH [of st1] Cons.prems 1 agreeing_cong [of st1 st p] show ?case by (cases e) simp_all
qed simp

lemma observe_single_results:
  assumes "storeInv st" "ps_issues snapshot = [i]" "is_comments i = [c]" "pj_id (ps_project snapshot) = p"
    and "pm_present (ParseMarker hash (cm_body c))"
  shows "ResultByComment p (cm_id c) (fst (ObserveProjectSnapshot hash now snapshot st)) =
      Some (guarded st (correlate hash now st p (is_number i) c (ParseMarker hash (cm_body c))))"
proof -
  let ?o = "observedStore hash now snapshot st"
  have inv: "storeInv ?o" by (rule observedStore_inv(1) [OF assms(1)])
  have k: "wr_comment r = cm_id c" if "r \<in> set (sl_results ?o)" "wr_project r = p" for r
    using that by (auto simp: observe_single [OF assms(2-5)] DeleteMissingResults_def)
  have "agreeing p ?o"
    unfolding agreeing_def
  proof (intro ballI impI)
    fix r r' assume "r \<in> acceptedRows ?o" "r' \<in> acceptedRows ?o" "wr_project r = p \<and> wr_project r' = p"
    then have "r \<in> set (sl_results ?o)" "r' \<in> set (sl_results ?o)" "resultKey r = resultKey r'"
      using k by (auto simp: acceptedRows_def resultKey_def)
    with inv show "r = r'" unfolding storeInv_def distinct_map by (meson inj_onD)
  qed
  then have "sl_results (fst (ObserveProjectSnapshot hash now snapshot st)) = sl_results ?o"
    by (simp add: Observe_unfold reconcileIssues_results assms(4))
  with observe_single_row [OF assms(2-5)] show ?thesis by (simp add: ResultByComment_def)
qed

subsection \<open>Properties\<close>

text \<open>C22. No accepted result without its comment and its command. After an observation, every
  accepted result of the project comes from a comment of the snapshot with exactly one live
  marker that is valid, carries its canonical text and hash, and answers a stored command of this
  project and issue, of the same role, at the Head the command expects.\<close>

theorem accepted_is_genuine:
  assumes "storeInv st" "ObserveProjectSnapshot hash now snapshot st = (st', e)"
    and "r \<in> acceptedRows st'" "wr_project r = pj_id (ps_project snapshot)"
  shows "genuine hash st (pj_id (ps_project snapshot)) (issueComments (ps_issues snapshot)) r"
proof -
  obtain st1 where "ObserveProjectSnapshot hash now snapshot st = (st1, None)"
    and adv: "advance (pj_id (ps_project snapshot)) (observedStore hash now snapshot st) st1"
    by (rule Observe_result [OF assms(1)])
  with assms(2) have "st1 = st'" by simp
  with adv assms(3) have "r \<in> acceptedRows (observedStore hash now snapshot st)" by (auto simp: advance_def)
  then show ?thesis using observedStore_fresh assms(4) by (auto simp: acceptedRows_def freshRow_def)
qed


definition sampleComment :: Comment where
  "sampleComment = \<lparr>cm_id = 7, cm_body = markerComment samplePayload, cm_author = [], cm_url = [], cm_created = 0, cm_updated = 5\<rparr>"

definition sampleSnapshot :: ProjectSnapshot where
  "sampleSnapshot = \<lparr>ps_project = (undefined :: Project)\<lparr>pj_id := 1\<rparr>,
     ps_issues = [(undefined :: Issue)\<lparr>is_number := 2, is_comments := [sampleComment]\<rparr>]\<rparr>"

lemma sampleSnapshot_sel [simp]:
  "pj_id (ps_project sampleSnapshot) = 1" "ps_issues sampleSnapshot = [(undefined :: Issue)\<lparr>is_number := 2, is_comments := [sampleComment]\<rparr>]"
  "cm_id sampleComment = 7" "cm_body sampleComment = markerComment samplePayload"
  by (simp_all add: sampleSnapshot_def sampleComment_def)

lemma sample_parse:
  "ParseMarker hash (markerComment samplePayload) =
    \<lparr>pm_present = True, pm_payload = samplePayload, pm_json = marshalMarker samplePayload,
     pm_hash = hash (marshalMarker samplePayload), pm_status = ''accepted'', pm_reason = []\<rparr>"
  using parse_markerComment [OF samplePayload_ok(1)] by (simp add: samplePayload_ok(2) accepted_def)

lemma sample_answers: "answers sampleStore 1 2 samplePayload"
  by (simp add: answers_def GetCommand_def row_get_def sampleStore_def sampleCommand_def samplePayload_def
      zeroPayload_def markerStaleForCommand_def)

lemma correlate_answers:
  assumes "pm_status m = ''accepted''" "answers st p n (pm_payload m)"
  shows "correlate hash now st p n c m = (assertedResult hash now p n c m)\<lparr>wr_accepted := Some now\<rparr>"
  using assms by (cases "GetCommand (mp_command (pm_payload m)) st") (auto simp: correlate_def answers_def Let_def)

definition sampleResult :: WorkerResult where
  "sampleResult = (assertedResult id 9 1 2 sampleComment (ParseMarker id (cm_body sampleComment)))\<lparr>wr_accepted := Some 9\<rparr>"

lemma sample_observed:
  "ResultByComment 1 7 (fst (ObserveProjectSnapshot id 9 sampleSnapshot sampleStore)) = Some sampleResult"
proof -
  let ?i = "(undefined :: Issue)\<lparr>is_number := 2, is_comments := [sampleComment]\<rparr>"
  have "ResultByComment 1 (cm_id sampleComment) (fst (ObserveProjectSnapshot id 9 sampleSnapshot sampleStore)) =
      Some (guarded sampleStore (correlate id 9 sampleStore 1 (is_number ?i) sampleComment (ParseMarker id (cm_body sampleComment))))"
    by (rule observe_single_results [OF sampleStore_inv]) (simp_all add: sample_parse)
  moreover have "guarded sampleStore r = r" for r
    by (simp add: guarded_def ResultByComment_def row_get_def sampleStore_def)
  moreover have "correlate id 9 sampleStore 1 2 sampleComment (ParseMarker id (cm_body sampleComment)) = sampleResult"
    unfolding sampleResult_def by (rule correlate_answers) (simp_all add: sample_parse sample_answers)
  ultimately show ?thesis by simp
qed

lemma sampleResult_sel [simp]:
  "wr_project sampleResult = 1" "wr_status sampleResult = ''accepted''" "wr_comment sampleResult = 7"
  "wr_hash sampleResult = marshalMarker samplePayload"
  by (simp_all add: sampleResult_def assertedResult_def sample_parse)

theorem accepted_is_genuine_witness:
  "genuine id sampleStore 1 (issueComments (ps_issues sampleSnapshot)) sampleResult"
proof -
  obtain st' e where st': "ObserveProjectSnapshot id 9 sampleSnapshot sampleStore = (st', e)" by fastforce
  then have "row_get resultKey (1, 7) (sl_results st') = Some sampleResult"
    using sample_observed by (simp add: ResultByComment_def)
  from row_get_Some [OF this] have "sampleResult \<in> acceptedRows st'" by (simp add: acceptedRows_def)
  from accepted_is_genuine [OF sampleStore_inv st' this] show ?thesis by simp
qed

lemma answers_run:
  assumes "loop_run st st'" "storeInv st" "answers st p n q"
  shows "answers st' p n q"
proof -
  from assms(3) obtain c where c: "GetCommand (mp_command q) st = Inr c" "wc_project c = p" "wc_issue c = n"
    "wc_role c = mp_role q" "\<not> markerStaleForCommand c q"
    by (auto simp: answers_def split: sum.splits)
  from run_commands [OF assms(1,2)] GetCommand_Inr [OF c(1)] obtain d
    where inv: "storeInv st'" and d: "d \<in> set (sl_commands st')" "commandPath c d" by blast
  have "GetCommand (mp_command q) st' = Inr d"
    using GetCommand_in [OF inv d(1)] d(2) GetCommand_Inr [OF c(1)] by (simp add: commandPath_def)
  moreover have "markerStaleForCommand d q = markerStaleForCommand c q"
    using d(2) unfolding markerStaleForCommand_def commandPath_def by simp
  ultimately show ?thesis using c d(2) by (simp add: answers_def commandPath_def identityOf_def)
qed


text \<open>The command of the sample, whose comment first carried another payload.\<close>

definition editedStore :: LoopStore where
  "editedStore = sampleStore\<lparr>sl_results := [sampleResult\<lparr>wr_hash := ''x''\<rparr>]\<rparr>"


end
