(* ===== verification/Resource_Pack.thy ===== *)
theory Resource_Pack
  imports Json Markdown "HOL-Library.AList"
begin

text \<open>
  \<open>resourcepack/package.go\<close>: the versioned package of role resources a command prompt is built
  from. The embedded files are an argument, a function from the name of a file in the
  package's directory to its contents; SHA-256 is an argument. Of the maps only look-ups
  show, except for the order in which files are read, which is that of the manifest here.
\<close>

record Identity =
  id_package :: string
  id_version :: string

record Manifest =
  mf_package :: string
  mf_version :: string
  mf_methodology :: Identity
  mf_protocol :: Identity
  mf_resources :: "(string \<times> string) list"

record Package =
  pk_profile :: string
  pk_manifest :: Manifest
  pk_files :: "(string \<times> string) list"
  pk_digests :: "(string \<times> string) list"
  pk_digest :: string

definition DefaultProfile :: string where
  "DefaultProfile = ''cddm-dashboard-resources/v1.0''"

definition PackageResource :: "Package \<Rightarrow> string \<Rightarrow> string + string" where
  "PackageResource p key =
     (case map_of (mf_resources (pk_manifest p)) key of
        None \<Rightarrow> Inl ''resource is not declared''
      | Some name \<Rightarrow>
          if blank name then Inl ''resource is not declared''
          else (case map_of (pk_files p) name of
                  None \<Rightarrow> Inl ''resource file is unavailable''
                | Some text \<Rightarrow> Inr text))"

definition PackageRole :: "Package \<Rightarrow> string \<Rightarrow> string + string" where
  "PackageRole p role =
     (let key = toLower (trimSpace role) in
      if key \<noteq> ''lead'' \<and> key \<noteq> ''implementor'' \<and> key \<noteq> ''qa'' then Inl ''unsupported worker resource role''
      else PackageResource p key)"

subsection \<open>The manifest\<close>

definition unquote :: "string \<Rightarrow> string" where
  "unquote value =
     (if length value \<ge> 2 \<and> ((hd value = CHR 0x22 \<and> last value = CHR 0x22) \<or> (hd value = CHR 0x27 \<and> last value = CHR 0x27))
      then butlast (tl value) else value)"

definition assignIdentity :: "Identity \<Rightarrow> string \<Rightarrow> string \<Rightarrow> string + Identity" where
  "assignIdentity i key value =
     (if key = ''package'' then Inr (i\<lparr>id_package := value\<rparr>)
      else if key = ''version'' then Inr (i\<lparr>id_version := value\<rparr>)
      else Inl ''unknown identity key'')"

definition cutColon :: "string \<Rightarrow> (string \<times> string) option" where
  "cutColon s = map_option (\<lambda>n. (take n s, drop (Suc n) s)) (indexOf s '':'')"

definition topField :: "string \<Rightarrow> string \<Rightarrow> Manifest \<Rightarrow> string + Manifest" where
  "topField key value m =
     (if key = ''package'' then Inr (m\<lparr>mf_package := value\<rparr>)
      else if key = ''version'' then Inr (m\<lparr>mf_version := value\<rparr>)
      else Inl ''unknown manifest key'')"

definition sectionField :: "string \<Rightarrow> string \<Rightarrow> string \<Rightarrow> Manifest \<Rightarrow> string + Manifest" where
  "sectionField sect key value m =
     (if value = [] then Inl ''manifest field is empty''
      else if sect = ''base_methodology''
      then (case assignIdentity (mf_methodology m) key value of Inl e \<Rightarrow> Inl e | Inr i \<Rightarrow> Inr (m\<lparr>mf_methodology := i\<rparr>))
      else if sect = ''result_protocol''
      then (case assignIdentity (mf_protocol m) key value of Inl e \<Rightarrow> Inl e | Inr i \<Rightarrow> Inr (m\<lparr>mf_protocol := i\<rparr>))
      else if sect = ''resources'' then Inr (m\<lparr>mf_resources := AList.update key value (mf_resources m)\<rparr>)
      else Inl ''manifest field has no supported section'')"

fun manifestLines :: "string list \<Rightarrow> string \<Rightarrow> Manifest \<Rightarrow> string + Manifest" where
  "manifestLines [] sect m = Inr m"
| "manifestLines (raw # lines) sect m =
     (let trimmed = trimSpace raw; indent = length raw - length (trimLeftCut [CHR '' '', CHR 0x09] raw) in
      if trimmed = [] \<or> hasPrefix trimmed ''#'' then manifestLines lines sect m
      else (case cutColon trimmed of
              None \<Rightarrow> Inl ''invalid manifest line''
            | Some (key0, value0) \<Rightarrow>
                (let key = trimSpace key0; value = unquote (trimSpace value0) in
                 if indent = 0 then
                   if value = [] then manifestLines lines key m
                   else (case topField key value m of Inl e \<Rightarrow> Inl e | Inr m' \<Rightarrow> manifestLines lines [] m')
                 else (case sectionField sect key value m of Inl e \<Rightarrow> Inl e | Inr m' \<Rightarrow> manifestLines lines sect m'))))"

text \<open>The lines of a \<open>bufio.Scanner\<close>: no last empty line, and a carriage return before a line
  feed is dropped.\<close>

definition scannerLines :: "string \<Rightarrow> string list" where
  "scannerLines s =
     (let ls = splitLines s in map (\<lambda>l. trimSuffix l [CHR 0x0D]) (if last ls = [] then butlast ls else ls))"

definition emptyManifest :: Manifest where
  "emptyManifest = \<lparr>mf_package = [], mf_version = [], mf_methodology = \<lparr>id_package = [], id_version = []\<rparr>,
     mf_protocol = \<lparr>id_package = [], id_version = []\<rparr>, mf_resources = []\<rparr>"

definition parseManifest :: "string \<Rightarrow> string + Manifest" where
  "parseManifest contents = manifestLines (scannerLines contents) [] emptyManifest"

definition plainName :: "string \<Rightarrow> bool" where
  "plainName name = (name \<noteq> [] \<and> (CHR ''/'' \<notin> set name \<or> name = ''/''))"

definition validateManifest :: "string \<Rightarrow> Manifest \<Rightarrow> string option" where
  "validateManifest profile m =
     (if trimCutset ''/'' (mf_package m @ ''/v'' @ mf_version m) \<noteq> profile then Some ''resource profile mismatch''
      else if id_package (mf_methodology m) \<noteq> ''cddm-minimal'' \<or> id_version (mf_methodology m) \<noteq> ''2.0''
      then Some ''unsupported base methodology''
      else if id_package (mf_protocol m) \<noteq> ''cddm-worker-result'' \<or> id_version (mf_protocol m) \<noteq> ''1''
      then Some ''unsupported result protocol''
      else if list_all (\<lambda>key. plainName (trimSpace (case map_of (mf_resources m) key of None \<Rightarrow> [] | Some n \<Rightarrow> n)))
                [''lead'', ''implementor'', ''qa'', ''result_marker'', ''result_schema'']
      then None else Some ''resource manifest has invalid entry'')"

subsection \<open>Loading\<close>

definition validateSchema :: "Package \<Rightarrow> string option" where
  "validateSchema p =
     (case PackageResource p ''result_schema'' of
        Inl e \<Rightarrow> Some e
      | Inr contents \<Rightarrow>
          (case unmarshal contents of
             Some (JObj ms) \<Rightarrow>
               if objLookup ms ''$id'' = Some (JStr ''cddm-worker-result/v1'') \<and> objLookup ms ''type'' = Some (JStr ''object'')
               then None else Some ''worker result schema has unsupported identity or root type''
           | Some JNull \<Rightarrow> Some ''worker result schema has unsupported identity or root type''
           | _ \<Rightarrow> Some ''decode worker result schema''))"

definition packageDigest :: "(string \<Rightarrow> string) \<Rightarrow> (string \<times> string) list \<Rightarrow> string" where
  "packageDigest hash digests =
     hash (concat (map (\<lambda>(key, d). key @ [CHR 0x00] @ d @ [CHR 0x0A]) (sort_key fst digests)))"

fun loadFiles :: "(string \<Rightarrow> string) \<Rightarrow> (string \<Rightarrow> string option) \<Rightarrow> (string \<times> string) list \<Rightarrow> Package \<Rightarrow> string + Package" where
  "loadFiles hash files [] p = Inr p"
| "loadFiles hash files ((key, name) # resources) p =
     (case files name of
        None \<Rightarrow> Inl ''read resource''
      | Some contents \<Rightarrow>
          if blank contents then Inl ''resource is empty''
          else loadFiles hash files resources
                 (p\<lparr>pk_files := AList.update name contents (pk_files p),
                    pk_digests := AList.update name (hash contents) (pk_digests p)\<rparr>))"

definition loadFS :: "(string \<Rightarrow> string) \<Rightarrow> (string \<Rightarrow> string option) \<Rightarrow> string \<Rightarrow> string + Package" where
  "loadFS hash files profile =
     (case files ''manifest.yaml'' of
        None \<Rightarrow> Inl ''read resource manifest''
      | Some contents \<Rightarrow>
          (case parseManifest contents of
             Inl e \<Rightarrow> Inl e
           | Inr m \<Rightarrow>
               (case validateManifest profile m of
                  Some e \<Rightarrow> Inl e
                | None \<Rightarrow>
                    (case loadFiles hash files (mf_resources m)
                            \<lparr>pk_profile = profile, pk_manifest = m, pk_files = [],
                              pk_digests = [(''manifest.yaml'', hash contents)], pk_digest = []\<rparr> of
                       Inl e \<Rightarrow> Inl e
                     | Inr p \<Rightarrow>
                         (case validateSchema p of
                            Some e \<Rightarrow> Inl e
                          | None \<Rightarrow> Inr (p\<lparr>pk_digest := packageDigest hash (pk_digests p)\<rparr>))))))"

definition LoadPackage :: "(string \<Rightarrow> string) \<Rightarrow> (string \<Rightarrow> string \<Rightarrow> string option) \<Rightarrow> string \<Rightarrow> string + Package" where
  "LoadPackage hash embedded profile0 =
     (let profile = trimCutset ''/'' (trimSpace profile0) in
      if profile = [] then Inl ''resource profile is required''
      else loadFS hash (embedded profile) profile)"

text \<open>A loaded package has the text of every role.\<close>

lemma loadFiles_Inr:
  "loadFiles hash files resources p = Inr p' \<Longrightarrow>
    pk_manifest p' = pk_manifest p \<and> pk_profile p' = pk_profile p \<and>
    (\<forall>name \<in> snd ` set resources \<union> dom (map_of (pk_files p)).
       name \<in> dom (map_of (pk_files p')))"
  by (induction hash files resources p rule: loadFiles.induct)
    (auto simp: update_conv split: option.splits if_splits)

lemma loaded_roles:
  assumes "loadFS hash files profile = Inr p" "role \<in> {''lead'', ''implementor'', ''qa''}"
  shows "\<exists>text. PackageRole p role = Inr text" and "pk_profile p = profile"
proof -
  from assms(1) obtain m p0 where m: "validateManifest profile m = None"
    and l: "loadFiles hash files (mf_resources m)
      \<lparr>pk_profile = profile, pk_manifest = m, pk_files = [],
        pk_digests = [(''manifest.yaml'', hash (the (files ''manifest.yaml'')))], pk_digest = []\<rparr> = Inr p0"
    and p: "p = p0\<lparr>pk_digest := packageDigest hash (pk_digests p0)\<rparr>"
    unfolding loadFS_def by (auto split: option.splits sum.splits)
  note f = loadFiles_Inr [OF l]
  show "pk_profile p = profile" using f p by simp
  have "list_all (\<lambda>key. plainName (trimSpace (case map_of (mf_resources m) key of None \<Rightarrow> [] | Some n \<Rightarrow> n)))
      [''lead'', ''implementor'', ''qa'', ''result_marker'', ''result_schema'']"
    using m unfolding validateManifest_def by (metis option.distinct(1))
  then have "plainName (trimSpace (case map_of (mf_resources m) role of None \<Rightarrow> [] | Some n \<Rightarrow> n))"
    using assms(2) by auto
  then obtain name where n: "map_of (mf_resources m) role = Some name" "\<not> blank name"
    by (auto simp: plainName_def blank_def split: option.splits)
  have "name \<in> snd ` set (mf_resources m)" using map_of_SomeD [OF n(1)] by force
  then have "name \<in> dom (map_of (pk_files p0))" using f [THEN conjunct2, THEN conjunct2] by blast
  then obtain t where "map_of (pk_files p0) name = Some t" by blast
  moreover have "toLower (trimSpace role) = role"
  proof -
    have "toLower (trimSpace ''lead'') = ''lead''" "toLower (trimSpace ''implementor'') = ''implementor''"
      "toLower (trimSpace ''qa'') = ''qa''" by code_simp+
    with assms(2) show ?thesis by blast
  qed
  ultimately show "\<exists>text. PackageRole p role = Inr text"
    using assms(2) n f p by (auto simp: PackageRole_def PackageResource_def Let_def)
qed

end
