(* ===== verification/Coordinator.thy ===== *)
theory Coordinator
  imports Worker_Machine Delivery Binding Resource_Pack
begin

text \<open>
  \<open>workerloop/prompt.go\<close>, \<open>delivery.go\<close> and \<open>qa_binding.go\<close>: the command engine, which makes a
  workflow command and its prompt from an approved plan, the coordinator, which creates the
  browser delivery of a confirmed prompt together with its workflow command and carries the
  outcome of the delivery over, and the retirement of the chat a finished QA worker used.
  The coordinator works on three tables: deliveries, workflow commands with their results, and
  the links between them. SHA-256 and the indented JSON text of a context
  (\<open>json.MarshalIndent\<close>) are arguments; each statement commits on its own.
\<close>

subsection \<open>prompt.go\<close>

record PreparedCommand =
  pr_input :: CreateCommandInput
  pr_prompt :: string

datatype coordinator_error = FromDelivery delivery_error | FromStore store_error | CoordinatorError string

definition commandIdentity :: "(string \<Rightarrow> string) \<Rightarrow> GenerationResult \<Rightarrow> PromptPlan \<Rightarrow> Package \<Rightarrow> string" where
  "commandIdentity hash generation plan resources =
     hash (joinWith [CHR 0x00]
       [showInt (gr_plan_id generation), pd_plan_hash (gr_decision generation), px_hash (gr_context generation),
        pp_action plan, pp_target_role plan, pp_lane plan, pp_expected_head plan, pk_profile resources, pk_digest resources])"

definition deterministicCommandID :: "string \<Rightarrow> string" where
  "deterministicCommandID identity = ''cmd-'' @ take 32 identity"

definition valueOrNone :: "string \<Rightarrow> string" where
  "valueOrNone value = (if blank value then ''none'' else value)"

definition renderCommandPrompt :: "(PromptContext \<Rightarrow> string) \<Rightarrow> CreateCommandInput \<Rightarrow> GenerationResult \<Rightarrow> PromptPlan
    \<Rightarrow> Package \<Rightarrow> string \<Rightarrow> string" where
  "renderCommandPrompt indented command generation plan resources roleResource =
     (let context = gr_context generation; m = pk_manifest resources in
      bulletin [''# Dashboard Command Header'', [], ''```text'',
        ''Command ID: '' @ ci_id command,
        ''Repository: '' @ ri_owner (px_repository context) @ ''/'' @ ri_repository (px_repository context),
        ''Issue: #'' @ showInt (ii_number (px_issue context)),
        ''Role: '' @ ci_role command,
        ''Action: '' @ ci_action command,
        ''Resources: '' @ pk_profile resources,
        ''Base methodology: '' @ id_package (mf_methodology m) @ ''/v'' @ id_version (mf_methodology m),
        ''Result protocol: '' @ id_package (mf_protocol m) @ ''/v'' @ id_version (mf_protocol m),
        ''Expected Head: '' @ valueOrNone (ci_expected command), ''```'', [], ''## Versioned Role Resource'', []] @
      trimSpace roleResource @
      bulletin [[], [], ''## Bounded Context Pack'', [], ''```json''] @ indented context @
      bulletin [[], ''```'', [], ''## Bounded Planned Action'', []] @ trimSpace (pp_prompt plan) @
      bulletin [[], [], ''## Terminal Publication Contract'', [],
        ''Publish exactly one GitHub Issue comment containing a human-readable role handoff and one live marker conforming to `cddm-worker-result/v1`. The marker MUST use `command_id` = `'' @
        ci_id command @ ''`. Do not launch the next worker manually. Dashboard will verify the external facts and derive the next route.''])"

definition commandInput :: "(string \<Rightarrow> string) \<Rightarrow> int \<Rightarrow> int \<Rightarrow> GenerationResult \<Rightarrow> PromptPlan \<Rightarrow> Package \<Rightarrow> CreateCommandInput" where
  "commandInput hash projectID issueNumber generation plan resources =
     (let identity = commandIdentity hash generation plan resources in
      \<lparr>ci_id = deterministicCommandID identity, ci_project = projectID, ci_issue = issueNumber, ci_identity = identity,
       ci_role = pp_target_role plan, ci_action = pp_action plan, ci_resource = pk_profile resources,
       ci_context = px_hash (gr_context generation), ci_expected = pp_expected_head plan, ci_initial = ''delivery_pending''\<rparr>)"

definition BuildWorkflowCommand :: "(string \<Rightarrow> string) \<Rightarrow> (PromptContext \<Rightarrow> string) \<Rightarrow> Package \<Rightarrow> int \<Rightarrow> int \<Rightarrow> GenerationResult
    \<Rightarrow> string + PreparedCommand" where
  "BuildWorkflowCommand hash indented resources projectID issueNumber generation =
     (case gr_plan generation of
        None \<Rightarrow> Inl ''workflow command requires a policy-approved Prompt Plan''
      | Some plan \<Rightarrow>
          if pd_status (gr_decision generation) \<noteq> ''approved''
          then Inl ''workflow command requires a policy-approved Prompt Plan''
          else if pp_action plan \<noteq> ''dispatch'' \<or> pp_target_role plan = [] \<or> pp_lane plan = []
          then Inl ''workflow command requires a dispatchable role plan''
          else (case PackageRole resources (pp_target_role plan) of
                  Inl e \<Rightarrow> Inl e
                | Inr resource \<Rightarrow>
                    (let inp = commandInput hash projectID issueNumber generation plan resources in
                     Inr \<lparr>pr_input = inp, pr_prompt = renderCommandPrompt indented inp generation plan resources resource\<rparr>)))"

text \<open>\<open>PersistWorkflowCommand\<close> is \<open>CreateCommand\<close> on the prepared input; the random id it draws
  is never used, since the input has one.\<close>

definition PersistWorkflowCommand :: "string \<Rightarrow> gotime \<Rightarrow> PreparedCommand \<Rightarrow> LoopStore \<Rightarrow> LoopStore \<times> (store_error + WorkflowCommand)" where
  "PersistWorkflowCommand newID now prepared st = CreateCommand newID now (pr_input prepared) st"

definition outcomeStatus :: "string \<Rightarrow> string option" where
  "outcomeStatus outcome =
     (if outcome = ''pending'' \<or> outcome = ''claimed'' then Some ''delivery_pending''
      else if outcome = ''delivered'' then Some ''awaiting_result''
      else if outcome = ''uncertain'' then Some ''ambiguous''
      else if outcome = ''invalidated'' then Some ''superseded''
      else if oneOf outcome [''failed'', ''cancelled'', ''expired''] then Some ''failed''
      else None)"

definition RecordDeliveryOutcome :: "gotime \<Rightarrow> string \<Rightarrow> string \<Rightarrow> LoopStore \<Rightarrow> LoopStore \<times> store_error option" where
  "RecordDeliveryOutcome now workflowID outcome st =
     (if workflowID = [] then (st, None)
      else (case outcomeStatus outcome of
              None \<Rightarrow> (st, Some (StoreError ''unsupported delivery outcome''))
            | Some status \<Rightarrow>
                (case GetCommand workflowID st of
                   Inl e \<Rightarrow> (st, Some e)
                 | Inr command \<Rightarrow>
                     if wc_status command = status then (st, None)
                     else if terminalCommandStatus (wc_status command) then (st, None)
                     else setStatus now workflowID status st)))"

subsection \<open>delivery.go\<close>

text \<open>The adapter through which the delivery queue reads plans: the prompt of the plan is the
  prompt of the command.\<close>

definition AdapterGet :: "(string \<Rightarrow> string) \<Rightarrow> (PromptContext \<Rightarrow> string) \<Rightarrow> Package \<Rightarrow> (int \<Rightarrow> int \<Rightarrow> int \<Rightarrow> delivery_error + GenerationResult)
    \<Rightarrow> int \<Rightarrow> int \<Rightarrow> int \<Rightarrow> delivery_error + GenerationResult" where
  "AdapterGet hash indented resources base projectID issueNumber planID =
     (case base projectID issueNumber planID of
        Inl e \<Rightarrow> Inl e
      | Inr result \<Rightarrow>
          (case gr_plan result of
             None \<Rightarrow> Inr result
           | Some plan \<Rightarrow>
               (case BuildWorkflowCommand hash indented resources projectID issueNumber result of
                  Inl e \<Rightarrow> Inl (DeliveryError e)
                | Inr prepared \<Rightarrow> Inr (result\<lparr>gr_plan := Some (plan\<lparr>pp_prompt := pr_prompt prepared\<rparr>)\<rparr>))))"

record Link =
  lk_workflow :: string
  lk_delivery :: string
  lk_created :: gotime

record CoordState =
  cd_deliveries :: deliveryRows
  cd_loop :: LoopStore
  cd_links :: "Link list"
  cd_cache :: externalCache

text \<open>What the coordinator was built with: the configuration and authority of the queue, the
  plans, the engine, the snapshots behind \<open>RefreshProject\<close> (\<open>None\<close> without a state service),
  the random ids and the clock of one call.\<close>

record CoordEnv =
  ce_hash :: "string \<Rightarrow> string"
  ce_indented :: "PromptContext \<Rightarrow> string"
  ce_config :: DeliveryConfig
  ce_authority :: Authority
  ce_plans :: "int \<Rightarrow> int \<Rightarrow> int \<Rightarrow> delivery_error + GenerationResult"
  ce_resources :: Package
  ce_snapshots :: "(int \<Rightarrow> ProjectSnapshot) option"
  ce_deliveryID :: string
  ce_commandID :: string
  ce_now :: gotime

definition refreshProject :: "CoordEnv \<Rightarrow> int \<Rightarrow> CoordState \<Rightarrow> CoordState \<times> store_error option" where
  "refreshProject env projectID st =
     (case ce_snapshots env of
        None \<Rightarrow> (st, None)
      | Some snapshots \<Rightarrow>
          (case RefreshProject (ce_now env) projectID (snapshots projectID) (cd_loop st) (cd_cache st) of
             (loop, cache, e) \<Rightarrow> (st\<lparr>cd_loop := loop, cd_cache := cache\<rparr>, e)))"

definition linkedDelivery :: "string \<Rightarrow> Link list \<Rightarrow> string" where
  "linkedDelivery workflowID links =
     (case row_get lk_workflow workflowID links of None \<Rightarrow> [] | Some l \<Rightarrow> lk_delivery l)"

text \<open>\<open>INSERT ... ON CONFLICT DO NOTHING\<close>: both columns are unique. The foreign keys hold, since
  the coordinator has just read or written both rows.\<close>

definition insertLink :: "gotime \<Rightarrow> string \<Rightarrow> string \<Rightarrow> Link list \<Rightarrow> Link list" where
  "insertLink now workflowID deliveryID links =
     (if workflowID \<in> lk_workflow ` set links \<or> deliveryID \<in> lk_delivery ` set links then links
      else links @ [\<lparr>lk_workflow = workflowID, lk_delivery = deliveryID, lk_created = now\<rparr>])"

definition link :: "gotime \<Rightarrow> string \<Rightarrow> string \<Rightarrow> Link list \<Rightarrow> Link list \<times> store_error option" where
  "link now workflowID deliveryID links =
     (let links' = insertLink now workflowID deliveryID links in
      (links', if linkedDelivery workflowID links' \<noteq> deliveryID then Some CommandConflict else None))"

definition invalidatePendingDelivery :: "gotime \<Rightarrow> string \<Rightarrow> string \<Rightarrow> deliveryRows \<Rightarrow> deliveryRows" where
  "invalidatePendingDelivery now deliveryID reason rows =
     row_update (\<lambda>r. dc_id r = deliveryID \<and> dc_status r = ''pending'') (endedAs ''invalidated'' reason now) rows"

definition abandon :: "CoordEnv \<Rightarrow> DeliveryCommand \<Rightarrow> string \<Rightarrow> CoordState \<Rightarrow> CoordState" where
  "abandon env c reason st =
     st\<lparr>cd_deliveries := invalidatePendingDelivery (ce_now env) (dc_id c) reason (cd_deliveries st)\<rparr>"

text \<open>\<open>Create\<close> after the browser command exists: the plan, the workflow command, the link, the
  status, the projection.\<close>

definition attachCommand :: "CoordEnv \<Rightarrow> int \<Rightarrow> DeliveryCommand \<Rightarrow> PreparedCommand \<Rightarrow> CoordState
    \<Rightarrow> CoordState \<times> (coordinator_error + DeliveryCommand)" where
  "attachCommand env projectID browserCommand prepared st =
     (case PersistWorkflowCommand (ce_commandID env) (ce_now env) prepared (cd_loop st) of
        (loop1, Inl e) \<Rightarrow> (abandon env browserCommand ''workflow_command_unavailable'' (st\<lparr>cd_loop := loop1\<rparr>), Inl (FromStore e))
      | (loop1, Inr workflowCommand) \<Rightarrow>
          (case link (ce_now env) (wc_id workflowCommand) (dc_id browserCommand) (cd_links st) of
             (links1, Some e) \<Rightarrow>
               (abandon env browserCommand ''workflow_command_already_linked'' (st\<lparr>cd_loop := loop1, cd_links := links1\<rparr>),
                Inl (FromStore e))
           | (links1, None) \<Rightarrow>
               (case RecordDeliveryOutcome (ce_now env) (wc_id workflowCommand) (dc_status browserCommand) loop1 of
                  (loop2, Some e) \<Rightarrow>
                    (abandon env browserCommand ''workflow_status_failed'' (st\<lparr>cd_loop := loop2, cd_links := links1\<rparr>),
                     Inl (FromStore e))
                | (loop2, None) \<Rightarrow>
                    (case refreshProject env projectID (st\<lparr>cd_loop := loop2, cd_links := links1\<rparr>) of
                       (st', Some e) \<Rightarrow> (st', Inl (FromStore e))
                     | (st', None) \<Rightarrow> (st', Inr browserCommand)))))"

definition CoordinatorCreate :: "CoordEnv \<Rightarrow> int \<Rightarrow> int \<Rightarrow> Confirmation \<Rightarrow> CoordState \<Rightarrow> CoordState \<times> (coordinator_error + DeliveryCommand)" where
  "CoordinatorCreate env projectID issueNumber confirmation st0 =
     (case CreateDelivery (ce_hash env) (ce_config env) (ce_authority env) (ce_now env) (ce_deliveryID env)
             projectID issueNumber confirmation (cd_deliveries st0) of
        (rows, Inl e) \<Rightarrow> (st0\<lparr>cd_deliveries := rows\<rparr>, Inl (FromDelivery e))
      | (rows, Inr browserCommand) \<Rightarrow>
          (let st = st0\<lparr>cd_deliveries := rows\<rparr> in
           (case ce_plans env projectID issueNumber (cf_plan confirmation) of
              Inl e \<Rightarrow> (abandon env browserCommand ''workflow_plan_unavailable'' st, Inl (FromDelivery e))
            | Inr generation \<Rightarrow>
                (case BuildWorkflowCommand (ce_hash env) (ce_indented env) (ce_resources env) projectID issueNumber generation of
                   Inl e \<Rightarrow> (abandon env browserCommand ''workflow_prompt_invalid'' st, Inl (CoordinatorError e))
                 | Inr prepared \<Rightarrow> attachCommand env projectID browserCommand prepared st))))"

definition syncCommand :: "gotime \<Rightarrow> DeliveryCommand \<Rightarrow> CoordState \<Rightarrow> CoordState \<times> store_error option" where
  "syncCommand now command st =
     (case find (\<lambda>l. lk_delivery l = dc_id command) (cd_links st) of
        None \<Rightarrow> (st, None)
      | Some l \<Rightarrow>
          (case RecordDeliveryOutcome now (lk_workflow l) (dc_status command) (cd_loop st) of
             (loop, e) \<Rightarrow> (st\<lparr>cd_loop := loop\<rparr>, e)))"

definition CoordinatorComplete :: "CoordEnv \<Rightarrow> Completion \<Rightarrow> CoordState \<Rightarrow> CoordState \<times> (coordinator_error + DeliveryCommand)" where
  "CoordinatorComplete env completion st0 =
     (case Complete (ce_now env) completion (cd_deliveries st0) of
        (rows, Inl e) \<Rightarrow> (st0\<lparr>cd_deliveries := rows\<rparr>, Inl (FromDelivery e))
      | (rows, Inr command) \<Rightarrow>
          (case syncCommand (ce_now env) command (st0\<lparr>cd_deliveries := rows\<rparr>) of
             (st1, Some e) \<Rightarrow> (st1, Inl (FromStore e))
           | (st1, None) \<Rightarrow>
               (case refreshProject env (dc_project command) st1 of
                  (st2, Some e) \<Rightarrow> (st2, Inl (FromStore e))
                | (st2, None) \<Rightarrow> (st2, Inr command))))"

text \<open>\<open>Reconcile\<close>: the queue first, then the outcome of every linked delivery; a conflict of a
  single command is skipped. The projects are refreshed in the order they first appear, where
  the code walks a map.\<close>

definition linkedStatuses :: "Link list \<Rightarrow> deliveryRows \<Rightarrow> (string \<times> int \<times> string) list" where
  "linkedStatuses links rows =
     concat (map (\<lambda>l. map (\<lambda>d. (lk_workflow l, dc_project d, dc_status d)) (filter (\<lambda>d. dc_id d = lk_delivery l) rows)) links)"

fun recordOutcomes :: "gotime \<Rightarrow> (string \<times> int \<times> string) list \<Rightarrow> LoopStore \<Rightarrow> LoopStore \<times> store_error option" where
  "recordOutcomes now [] st = (st, None)"
| "recordOutcomes now ((workflowID, projectID, status) # linked) st =
     (case RecordDeliveryOutcome now workflowID status st of
        (st', None) \<Rightarrow> recordOutcomes now linked st'
      | (st', Some e) \<Rightarrow> if e = CommandConflict then recordOutcomes now linked st' else (st', Some e))"

fun refreshProjects :: "CoordEnv \<Rightarrow> int list \<Rightarrow> CoordState \<Rightarrow> CoordState \<times> store_error option" where
  "refreshProjects env [] st = (st, None)"
| "refreshProjects env (p # ps) st =
     (case refreshProject env p st of
        (st', Some e) \<Rightarrow> (st', Some e)
      | (st', None) \<Rightarrow> refreshProjects env ps st')"

definition CoordinatorReconcile :: "CoordEnv \<Rightarrow> CoordState \<Rightarrow> CoordState \<times> store_error option" where
  "CoordinatorReconcile env st0 =
     (let rows = Reconcile (ce_now env) (cd_deliveries st0); linked = linkedStatuses (cd_links st0) rows in
      case recordOutcomes (ce_now env) linked (cd_loop st0) of
        (loop, Some e) \<Rightarrow> (st0\<lparr>cd_deliveries := rows, cd_loop := loop\<rparr>, Some e)
      | (loop, None) \<Rightarrow>
          refreshProjects env (dedup_on id [] (map (\<lambda>(_, p, _). p) linked)) (st0\<lparr>cd_deliveries := rows, cd_loop := loop\<rparr>))"

subsection \<open>qa_binding.go\<close>

definition retiredPairs :: "int \<Rightarrow> CoordState \<Rightarrow> (string \<times> int) list" where
  "retiredPairs projectID st =
     remdups (concat (map (\<lambda>c. concat (map (\<lambda>l. map (\<lambda>d. (dc_binding d, dc_version d))
         (filter (\<lambda>d. dc_id d = lk_delivery l) (cd_deliveries st)))
       (filter (\<lambda>l. lk_workflow l = wc_id c) (cd_links st))))
     (filter (\<lambda>c. wc_project c = projectID \<and> wc_role c = ''qa'' \<and>
        oneOf (wc_status c) [''completed'', ''blocked'', ''inconclusive'', ''failed'', ''ambiguous''] \<and>
        list_ex (conflicting (wc_project c) (wc_id c)) (sl_results (cd_loop st)))
      (sl_commands (cd_loop st)))))"

definition retireBinding :: "gotime \<Rightarrow> string \<times> int \<Rightarrow> Binding list \<Rightarrow> Binding list" where
  "retireBinding now v rows =
     row_update (\<lambda>b. bi_id b = fst v \<and> bi_version b = snd v \<and> bi_enabled b)
       (\<lambda>b. b\<lparr>bi_enabled := False, bi_version := bi_version b + 1, bi_updated := now\<rparr>) rows"

definition RetireAcceptedTerminalQA :: "gotime \<Rightarrow> int \<Rightarrow> CoordState \<Rightarrow> Binding list \<Rightarrow> Binding list" where
  "RetireAcceptedTerminalQA now projectID st rows = foldl (\<lambda>rs v. retireBinding now v rs) rows (retiredPairs projectID st)"

text \<open>\<open>SyncObserver.ObserveProjectSnapshot\<close>: results, QA chats, projection.\<close>

definition SyncObserve :: "(string \<Rightarrow> string) \<Rightarrow> gotime \<Rightarrow> ProjectSnapshot \<Rightarrow> CoordState \<Rightarrow> Binding list
    \<Rightarrow> CoordState \<times> Binding list \<times> store_error option" where
  "SyncObserve hash now snapshot st rows =
     (let p = pj_id (ps_project snapshot) in
      case ObserveProjectSnapshot hash now snapshot (cd_loop st) of
        (loop, Some e) \<Rightarrow> (st\<lparr>cd_loop := loop\<rparr>, rows, Some e)
      | (loop, None) \<Rightarrow>
          (let st1 = st\<lparr>cd_loop := loop\<rparr>; rows1 = RetireAcceptedTerminalQA now p st1 rows in
           case RefreshProject now p snapshot loop (cd_cache st) of
             (loop2, cache, e) \<Rightarrow> (st1\<lparr>cd_loop := loop2, cd_cache := cache\<rparr>, rows1, e)))"

end
