(* ===== verification/Coordinator_Machine.thy ===== *)
theory Coordinator_Machine
  imports Coordinator Delivery_Machine
begin

text \<open>
  The theorems of the coordinator: what the transport of a prompt can do to the execution it
  belongs to, and what a failed \<open>Create\<close> leaves behind.
\<close>

subsection \<open>Commands that have ended stay as they are\<close>

definition keepsEnded :: "LoopStore \<Rightarrow> LoopStore \<Rightarrow> bool" where
  "keepsEnded st st' =
     (storeInv st' \<and> (\<forall>c \<in> set (sl_commands st). terminalCommandStatus (wc_status c) \<longrightarrow> c \<in> set (sl_commands st')))"

lemma keepsEnded_refl: "storeInv st \<Longrightarrow> keepsEnded st st"
  by (simp add: keepsEnded_def)

lemma keepsEnded_trans: "keepsEnded st st1 \<Longrightarrow> keepsEnded st1 st2 \<Longrightarrow> keepsEnded st st2"
  by (auto simp: keepsEnded_def)

lemma keepsEnded_inv: "keepsEnded st st' \<Longrightarrow> storeInv st'"
  by (simp add: keepsEnded_def)

text \<open>One change of status: the other rows stay.\<close>

lemma set_open:
  assumes "storeInv st" "c \<in> set (sl_commands st)" "\<not> terminalCommandStatus (wc_status c)" "allowedTransition (wc_status c) s"
    "wc_status c \<noteq> s"
  shows "SetCommandStatus now (wc_id c) s st = (withStatus now c s st, Inr (setStatusRow now s c))"
    and "keepsEnded st (withStatus now c s st)"
    and "d \<in> set (sl_commands st) \<Longrightarrow> d \<noteq> c \<Longrightarrow> d \<in> set (sl_commands (withStatus now c s st))"
proof -
  show "SetCommandStatus now (wc_id c) s st = (withStatus now c s st, Inr (setStatusRow now s c))"
    using SetCommandStatus_stored [OF assms(1,2)] assms(4,5) by simp
  show other: "d \<in> set (sl_commands (withStatus now c s st))" if "d \<in> set (sl_commands st)" "d \<noteq> c" for d
    using that by (simp add: withStatus_def set_row_update)
  show "keepsEnded st (withStatus now c s st)"
    unfolding keepsEnded_def using withStatus_inv [OF assms(1) allowed_known [OF assms(4)]] other assms(3) by blast
qed

lemma active_open: "activeCommandStatus s \<Longrightarrow> \<not> terminalCommandStatus s"
  by (auto simp: activeCommandStatus_def terminalCommandStatus_def)

lemma active_moves:
  "activeCommandStatus s \<Longrightarrow> allowedTransition s ''superseded'' \<and> s \<noteq> ''superseded''"
  "activeCommandStatus s \<Longrightarrow> allowedTransition s ''ambiguous'' \<and> s \<noteq> ''ambiguous''"
  by (auto simp: activeCommandStatus_def allowedTransition_def)

definition activeStored :: "LoopStore \<Rightarrow> WorkflowCommand list \<Rightarrow> bool" where
  "activeStored st cs = (distinct cs \<and> (\<forall>c \<in> set cs. c \<in> set (sl_commands st) \<and> activeCommandStatus (wc_status c)))"

text \<open>The selection: a current active command is selected, an active one that expects another
  Head is superseded, and the rows outside the list stay.\<close>

definition expectsHead :: "string \<Rightarrow> WorkflowCommand \<Rightarrow> bool" where
  "expectsHead h c = (activeCommandStatus (wc_status c) \<and> (wc_head c = [] \<or> wc_head c = h))"

definition keepsOthers :: "WorkflowCommand list \<Rightarrow> LoopStore \<Rightarrow> LoopStore \<Rightarrow> bool" where
  "keepsOthers cs st st' = (\<forall>d \<in> set (sl_commands st). d \<notin> set cs \<longrightarrow> d \<in> set (sl_commands st'))"

definition selected :: "string \<Rightarrow> WorkflowCommand list \<Rightarrow> Selection \<Rightarrow> Selection \<Rightarrow> bool" where
  "selected h cs sel sel' =
     (set (sc_active sel) \<subseteq> set (sc_active sel') \<and> set (sc_active sel') \<subseteq> set (sc_active sel) \<union> set cs \<and>
      (\<forall>c \<in> set cs. expectsHead h c \<longrightarrow> c \<in> set (sc_active sel')))"

lemma selectCommands_ok:
  assumes "storeInv st" "set cs \<subseteq> set (sl_commands st)" "distinct cs" "activeStored st (sc_active sel)" "set cs \<inter> set (sc_active sel) = {}"
  shows "\<exists>st' sel'. selectCommands now h cs sel st = (st', Inr sel') \<and> keepsEnded st st' \<and> activeStored st' (sc_active sel') \<and>
    selected h cs sel sel' \<and> keepsOthers cs st st'"
  using assms
proof (induction cs arbitrary: sel st)
  case Nil
  then show ?case by (simp add: keepsEnded_refl selected_def keepsOthers_def)
next
  case (Cons c cs)
  have c: "c \<in> set (sl_commands st)" using Cons.prems(2) by simp
  show ?case
  proof (cases "activeCommandStatus (wc_status c) \<and> wc_head c \<noteq> [] \<and> wc_head c \<noteq> h")
    case True
    note a = conjunct1 [OF True]
    note s = set_open [OF Cons.prems(1) c active_open [OF a] conjunct1 [OF active_moves(1) [OF a]] conjunct2 [OF active_moves(1) [OF a]],
        where now = now]
    let ?st1 = "withStatus now c ''superseded'' st" and ?sel1 = "selectCommand (setStatusRow now ''superseded'' c) sel"
    have sel1: "sc_active ?sel1 = sc_active sel"
      by (simp add: selectCommand_def Let_def activeCommandStatus_def)
    have "set cs \<subseteq> set (sl_commands ?st1)" using s(3) Cons.prems(2,3) by auto
    moreover have "activeStored ?st1 (sc_active ?sel1)"
      using Cons.prems(4,5) s(3) unfolding sel1 activeStored_def by auto
    ultimately obtain st' sel' where n: "selectCommands now h cs ?sel1 ?st1 = (st', Inr sel')" "keepsEnded ?st1 st'"
      "activeStored st' (sc_active sel')" "selected h cs ?sel1 sel'" "keepsOthers cs ?st1 st'"
      using Cons.IH [OF keepsEnded_inv [OF s(2)], of ?sel1] Cons.prems(3,5) sel1 by auto
    have "selected h (c # cs) sel sel'" using n(4) True unfolding selected_def sel1 expectsHead_def by auto
    moreover have "keepsOthers (c # cs) st st'" using n(5) s(3) unfolding keepsOthers_def by auto
    ultimately show ?thesis using True s(1) n keepsEnded_trans [OF s(2)] by auto
  next
    case False
    let ?sel1 = "selectCommand c sel"
    have sel1: "sc_active ?sel1 = sc_active sel @ (if activeCommandStatus (wc_status c) then [c] else [])"
      by (simp add: selectCommand_def Let_def)
    then have "activeStored st (sc_active ?sel1)" "set cs \<inter> set (sc_active ?sel1) = {}"
      using Cons.prems c by (auto simp: activeStored_def)
    then obtain st' sel' where n: "selectCommands now h cs ?sel1 st = (st', Inr sel')" "keepsEnded st st'"
      "activeStored st' (sc_active sel')" "selected h cs ?sel1 sel'" "keepsOthers cs st st'"
      using Cons.IH [OF Cons.prems(1), of ?sel1] Cons.prems(2,3) by auto
    have "selected h (c # cs) sel sel'" using n(4) unfolding selected_def sel1 expectsHead_def by (auto split: if_splits)
    moreover have "keepsOthers (c # cs) st st'" using n(5) unfolding keepsOthers_def by auto
    ultimately show ?thesis using False n by auto
  qed
qed

lemma markAmbiguous_ok:
  assumes "storeInv st" "activeStored st cs"
  shows "\<exists>st' cs'. markAmbiguous now cs st = (st', Inr cs') \<and> length cs' = length cs \<and> keepsEnded st st' \<and>
    keepsOthers cs st st' \<and> (\<forall>c \<in> set cs'. wc_status c = ''ambiguous'')"
  using assms
proof (induction cs arbitrary: st)
  case Nil
  then show ?case by (simp add: keepsEnded_refl keepsOthers_def)
next
  case (Cons c cs)
  have c: "c \<in> set (sl_commands st)" "activeCommandStatus (wc_status c)" using Cons.prems(2) by (simp_all add: activeStored_def)
  note s = set_open [OF Cons.prems(1) c(1) active_open [OF c(2)] conjunct1 [OF active_moves(2) [OF c(2)]]
      conjunct2 [OF active_moves(2) [OF c(2)]], where now = now]
  have "activeStored (withStatus now c ''ambiguous'' st) cs"
    using Cons.prems(2) s(3) unfolding activeStored_def by auto
  from Cons.IH [OF keepsEnded_inv [OF s(2)] this] obtain st' cs' where
    n: "markAmbiguous now cs (withStatus now c ''ambiguous'' st) = (st', Inr cs')" "length cs' = length cs"
      "keepsEnded (withStatus now c ''ambiguous'' st) st'" "keepsOthers cs (withStatus now c ''ambiguous'' st) st'"
      "\<forall>c \<in> set cs'. wc_status c = ''ambiguous''" by blast
  have "keepsOthers (c # cs) st st'" using n(4) s(3) unfolding keepsOthers_def by auto
  with n s(1) keepsEnded_trans [OF s(2) n(3)] show ?case by auto
qed

text \<open>A unit with a current active command has that command, or an ambiguous one, as its own.\<close>

definition holdsUnit :: "ExternalCommand \<Rightarrow> bool" where
  "holdsUnit x = (activeCommandStatus (xc_status x) \<or> xc_status x = ''ambiguous'')"

lemma currentCommand_ok:
  assumes "storeInv st" "set cs \<subseteq> set (sl_commands st)" "distinct cs"
  shows "\<exists>st' c. currentCommand now i cs st = (st', Inr c) \<and> keepsEnded st st' \<and> keepsOthers cs st st' \<and>
    ((\<exists>d \<in> set cs. expectsHead (singleCurrentHead (is_pulls i)) d) \<longrightarrow> (\<exists>d. c = Some d \<and> holdsUnit (externalCommand d)))"
proof -
  let ?h = "singleCurrentHead (is_pulls i)" and ?sel0 = "\<lparr>sc_active = [], sc_exceptional = None\<rparr>"
  have "\<exists>st1 sel. selectCommands now ?h cs ?sel0 st = (st1, Inr sel) \<and>
      keepsEnded st st1 \<and> activeStored st1 (sc_active sel) \<and> selected ?h cs ?sel0 sel \<and> keepsOthers cs st st1"
    by (rule selectCommands_ok [OF assms]) (simp_all add: activeStored_def)
  then obtain st1 sel where 1: "selectCommands now ?h cs ?sel0 st = (st1, Inr sel)"
    "keepsEnded st st1" "activeStored st1 (sc_active sel)" "selected ?h cs ?sel0 sel" "keepsOthers cs st st1" by blast
  obtain st2 cs' where 2: "markAmbiguous now (sc_active sel) st1 = (st2, Inr cs')" "keepsEnded st1 st2" "length cs' = length (sc_active sel)"
    "keepsOthers (sc_active sel) st1 st2" "\<forall>c \<in> set cs'. wc_status c = ''ambiguous''"
    using markAmbiguous_ok [OF keepsEnded_inv [OF 1(2)] 1(3)] by blast
  have sub: "set (sc_active sel) \<subseteq> set cs" using 1(4) by (auto simp: selected_def)
  show ?thesis
  proof (cases "length (sc_active sel) > 1")
    case True
    then have c: "currentCommand now i cs st = (st2, Inr (Some (last cs')))" using 1 2 by (simp add: currentCommand_def)
    have "last cs' \<in> set cs'" using True 2(3) by (intro last_in_set) auto
    then have "holdsUnit (externalCommand (last cs'))" using 2(5) by (simp add: holdsUnit_def externalCommand_def)
    moreover have "keepsOthers cs st st2" using 1(5) 2(4) sub unfolding keepsOthers_def by blast
    ultimately show ?thesis using c keepsEnded_trans [OF 1(2) 2(2)] by blast
  next
    case False
    then have c: "currentCommand now i cs st =
        (st1, Inr (case sc_active sel of d # _ \<Rightarrow> Some d | [] \<Rightarrow> sc_exceptional sel))"
      using 1 by (simp add: currentCommand_def split: list.split)
    have "\<exists>d. (case sc_active sel of d # _ \<Rightarrow> Some d | [] \<Rightarrow> sc_exceptional sel) = Some d \<and> holdsUnit (externalCommand d)"
      if "\<exists>d \<in> set cs. expectsHead ?h d"
    proof -
      from that 1(4) have "sc_active sel \<noteq> []" by (auto simp: selected_def)
      then obtain d ds where d: "sc_active sel = d # ds" by (cases "sc_active sel") auto
      with 1(3) show ?thesis by (auto simp: activeStored_def holdsUnit_def externalCommand_def)
    qed
    with c 1(2,5) show ?thesis by blast
  qed
qed

lemma refreshCommands_ok:
  assumes "storeInv st"
  shows "\<exists>st' ext'. refreshCommands now p issues ext st = (st', Inr ext') \<and> keepsEnded st st'"
  using assms
proof (induction issues arbitrary: ext st)
  case Nil
  then show ?case by (simp add: keepsEnded_refl)
next
  case (Cons i issues)
  have "set (ListCommands p (is_number i) st) \<subseteq> set (sl_commands st)" by (auto simp: ListCommands_set)
  from currentCommand_ok [OF Cons.prems this ListCommands_distinct [OF Cons.prems], of now i]
  obtain st1 c where 1: "currentCommand now i (ListCommands p (is_number i) st) st = (st1, Inr c)" "keepsEnded st st1" by auto
  obtain ext1 where e: "refreshCommands now p (i # issues) ext st = refreshCommands now p issues ext1 st1"
    using 1(1) by (cases c) simp_all
  from Cons.IH [OF keepsEnded_inv [OF 1(2)], of ext1] keepsEnded_trans [OF 1(2)] show ?case unfolding e by blast
qed

text \<open>A refresh never fails and never touches a command that has ended.\<close>

lemma RefreshProject_ok:
  assumes "storeInv st"
  shows "\<exists>st' cache'. RefreshProject now p snapshot st cache = (st', cache', None) \<and> keepsEnded st st'"
proof -
  obtain st' ext where "refreshCommands now p (ps_issues snapshot) Map.empty st = (st', Inr ext)" "keepsEnded st st'"
    using refreshCommands_ok [OF assms] by blast
  then show ?thesis by (simp add: RefreshProject_def Let_def)
qed

lemma refreshProject_ok:
  assumes "storeInv (cd_loop st)"
  obtains st' where "refreshProject env p st = (st', None)" "keepsEnded (cd_loop st) (cd_loop st')"
    "cd_deliveries st' = cd_deliveries st" "cd_links st' = cd_links st"
proof (cases "ce_snapshots env")
  case None
  with that [of st] keepsEnded_refl [OF assms] show thesis by (simp add: refreshProject_def)
next
  case (Some snapshots)
  obtain loop cache where "RefreshProject (ce_now env) p (snapshots p) (cd_loop st) (cd_cache st) = (loop, cache, None)"
    "keepsEnded (cd_loop st) loop"
    using RefreshProject_ok [OF assms] by blast
  with that [of "st\<lparr>cd_loop := loop, cd_cache := cache\<rparr>"] Some show thesis by (simp add: refreshProject_def)
qed

lemma refreshProjects_ok:
  "storeInv (cd_loop st) \<Longrightarrow> \<exists>st'. refreshProjects env ps st = (st', None) \<and> keepsEnded (cd_loop st) (cd_loop st') \<and>
     cd_deliveries st' = cd_deliveries st \<and> cd_links st' = cd_links st"
proof (induction ps arbitrary: st)
  case Nil
  then show ?case by (simp add: keepsEnded_refl)
next
  case (Cons p ps)
  obtain st1 where 1: "refreshProject env p st = (st1, None)" "keepsEnded (cd_loop st) (cd_loop st1)"
    "cd_deliveries st1 = cd_deliveries st" "cd_links st1 = cd_links st"
    by (rule refreshProject_ok [OF Cons.prems])
  from Cons.IH [OF keepsEnded_inv [OF 1(2)]] 1 keepsEnded_trans [OF 1(2)] show ?case by auto
qed

lemma RecordDeliveryOutcome_cases:
  "fst (RecordDeliveryOutcome now i outcome st) = st \<or>
    (\<exists>c s. GetCommand i st = Inr c \<and> \<not> terminalCommandStatus (wc_status c) \<and> wc_status c \<noteq> s \<and>
       RecordDeliveryOutcome now i outcome st = setStatus now i s st)"
proof (cases "outcomeStatus outcome")
  case (Some s)
  show ?thesis
  proof (cases "GetCommand i st")
    case (Inr c)
    show ?thesis
    proof (cases "i = [] \<or> wc_status c = s \<or> terminalCommandStatus (wc_status c)")
      case True
      with Some Inr have "fst (RecordDeliveryOutcome now i outcome st) = st"
        unfolding RecordDeliveryOutcome_def by (elim disjE) simp_all
      then show ?thesis ..
    next
      case False
      with Some Inr have "RecordDeliveryOutcome now i outcome st = setStatus now i s st" by (simp add: RecordDeliveryOutcome_def)
      with False Inr show ?thesis by blast
    qed
  qed (simp add: RecordDeliveryOutcome_def Some)
qed (simp add: RecordDeliveryOutcome_def)

lemma setStatus_keeps:
  assumes "storeInv st" "GetCommand i st = Inr c" "\<not> terminalCommandStatus (wc_status c)" "wc_status c \<noteq> s"
  shows "keepsEnded st (fst (setStatus now i s st))"
proof (cases "allowedTransition (wc_status c) s")
  case True
  from GetCommand_Inr [OF assms(2)] have c: "c \<in> set (sl_commands st)" "wc_id c = i" by blast+
  from set_open(1,2) [OF assms(1) c(1) assms(3) True assms(4)] show ?thesis by (simp add: setStatus_def c(2))
next
  case False
  with SetCommandStatus_stored [OF assms(1), of c now s] GetCommand_Inr [OF assms(2)] assms(4) keepsEnded_refl [OF assms(1)]
  show ?thesis by (simp add: setStatus_def)
qed

lemma RecordDeliveryOutcome_keeps:
  assumes "storeInv st" "RecordDeliveryOutcome now i outcome st = (st', e)"
  shows "keepsEnded st st'"
  using RecordDeliveryOutcome_cases [of now i outcome st]
proof
  assume "fst (RecordDeliveryOutcome now i outcome st) = st"
  with assms keepsEnded_refl show ?thesis by simp
next
  assume "\<exists>c s. GetCommand i st = Inr c \<and> \<not> terminalCommandStatus (wc_status c) \<and> wc_status c \<noteq> s \<and>
    RecordDeliveryOutcome now i outcome st = setStatus now i s st"
  then obtain c s where "GetCommand i st = Inr c" "\<not> terminalCommandStatus (wc_status c)" "wc_status c \<noteq> s"
    and r: "RecordDeliveryOutcome now i outcome st = setStatus now i s st" by blast
  from setStatus_keeps [OF assms(1) this(1-3), of now] show ?thesis using r assms(2) by (metis fst_conv)
qed

lemma recordOutcomes_keeps:
  "storeInv st \<Longrightarrow> recordOutcomes now linked st = (st', e) \<Longrightarrow> keepsEnded st st'"
proof (induction now linked st rule: recordOutcomes.induct)
  case (1 now st)
  then show ?case by (simp add: keepsEnded_refl)
next
  case (2 now w p s linked st)
  obtain st1 e1 where 1: "RecordDeliveryOutcome now w s st = (st1, e1)" by fastforce
  note k = RecordDeliveryOutcome_keeps [OF "2.prems"(1) 1]
  show ?case
  proof (cases e1)
    case None
    with 1 "2.prems"(2) "2.IH"(1) keepsEnded_inv [OF k] keepsEnded_trans [OF k] show ?thesis by simp
  next
    case (Some err)
    with 1 "2.prems"(2) "2.IH"(2) keepsEnded_inv [OF k] keepsEnded_trans [OF k] k show ?thesis by (auto split: if_splits)
  qed
qed

lemma CreateCommand_keeps:
  assumes "storeInv st"
  shows "keepsEnded st (fst (CreateCommand newID now inp st))"
proof -
  have "storeInv (fst (CreateCommand newID now inp st))"
    using step_commands [OF loop_step.create assms] by blast
  moreover have "set (sl_commands st) \<subseteq> set (sl_commands (fst (CreateCommand newID now inp st)))"
    using CreateCommand_cases [OF assms, of newID now inp] by auto
  ultimately show ?thesis by (auto simp: keepsEnded_def)
qed

subsection \<open>One call of the coordinator\<close>

lemma abandon_sel [simp]:
  "cd_loop (abandon env c why st) = cd_loop st" "cd_links (abandon env c why st) = cd_links st"
  by (simp_all add: abandon_def)

lemma attachCommand_keeps:
  assumes "storeInv (cd_loop st)"
  shows "keepsEnded (cd_loop st) (cd_loop (fst (attachCommand env p d prepared st)))"
proof -
  obtain loop1 r1 where 1: "PersistWorkflowCommand (ce_commandID env) (ce_now env) prepared (cd_loop st) = (loop1, r1)" by fastforce
  have k1: "keepsEnded (cd_loop st) loop1"
    using CreateCommand_keeps [OF assms, of "ce_commandID env" "ce_now env" "pr_input prepared"] 1
    by (simp add: PersistWorkflowCommand_def)
  show ?thesis
  proof (cases r1)
    case (Inl e)
    with 1 k1 show ?thesis by (simp add: attachCommand_def)
  next
    case (Inr c)
    obtain links1 e2 where 2: "link (ce_now env) (wc_id c) (dc_id d) (cd_links st) = (links1, e2)" by fastforce
    obtain loop2 e3 where 3: "RecordDeliveryOutcome (ce_now env) (wc_id c) (dc_status d) loop1 = (loop2, e3)" by fastforce
    note k2 = keepsEnded_trans [OF k1 RecordDeliveryOutcome_keeps [OF keepsEnded_inv [OF k1] 3]]
    let ?st2 = "st\<lparr>cd_loop := loop2, cd_links := links1\<rparr>"
    obtain st3 where "refreshProject env p ?st2 = (st3, None)" "keepsEnded loop2 (cd_loop st3)"
      by (rule refreshProject_ok [of ?st2 env p]) (use keepsEnded_inv [OF k2] in simp_all)
    with 1 2 3 Inr k1 k2 keepsEnded_trans [OF k2] show ?thesis
      by (simp add: attachCommand_def split: option.split)
  qed
qed

lemma CoordinatorCreate_keeps:
  assumes "storeInv (cd_loop st)"
  shows "keepsEnded (cd_loop st) (cd_loop (fst (CoordinatorCreate env p n conf st)))"
proof -
  note r = keepsEnded_refl [OF assms]
  have a: "keepsEnded (cd_loop st) (cd_loop (fst (attachCommand env p d prepared (st\<lparr>cd_deliveries := rows\<rparr>))))" for rows d prepared
    using attachCommand_keeps [of "st\<lparr>cd_deliveries := rows\<rparr>"] assms by simp
  show ?thesis
    unfolding CoordinatorCreate_def Let_def using r a by (simp split: prod.split sum.split)
qed

lemma CoordinatorComplete_keeps:
  assumes "storeInv (cd_loop st)"
  shows "keepsEnded (cd_loop st) (cd_loop (fst (CoordinatorComplete env cmp st)))"
proof -
  obtain rows r where r: "Complete (ce_now env) cmp (cd_deliveries st) = (rows, r)" by fastforce
  show ?thesis
  proof (cases r)
    case (Inl e)
    with r keepsEnded_refl [OF assms] show ?thesis by (simp add: CoordinatorComplete_def)
  next
    case (Inr d)
    let ?st = "st\<lparr>cd_deliveries := rows\<rparr>"
    obtain st1 e1 where 1: "syncCommand (ce_now env) d ?st = (st1, e1)" by fastforce
    have k: "keepsEnded (cd_loop st) (cd_loop st1)"
    proof (cases "find (\<lambda>l. lk_delivery l = dc_id d) (cd_links ?st)")
      case None
      with 1 keepsEnded_refl [OF assms] show ?thesis by (auto simp: syncCommand_def)
    next
      case (Some l)
      obtain loop e where "RecordDeliveryOutcome (ce_now env) (lk_workflow l) (dc_status d) (cd_loop st) = (loop, e)" by fastforce
      with RecordDeliveryOutcome_keeps [OF assms this] Some 1 show ?thesis by (auto simp: syncCommand_def)
    qed
    obtain st2 where "refreshProject env (dc_project d) st1 = (st2, None)" "keepsEnded (cd_loop st1) (cd_loop st2)"
      by (rule refreshProject_ok [OF keepsEnded_inv [OF k]])
    with r Inr 1 k keepsEnded_trans [OF k] show ?thesis by (simp add: CoordinatorComplete_def split: option.split)
  qed
qed

lemma CoordinatorReconcile_keeps:
  assumes "storeInv (cd_loop st)"
  shows "keepsEnded (cd_loop st) (cd_loop (fst (CoordinatorReconcile env st)))"
proof -
  let ?rows = "Reconcile (ce_now env) (cd_deliveries st)"
  obtain loop e where 1: "recordOutcomes (ce_now env) (linkedStatuses (cd_links st) ?rows) (cd_loop st) = (loop, e)" by fastforce
  note k = recordOutcomes_keeps [OF assms 1]
  let ?st = "st\<lparr>cd_deliveries := ?rows, cd_loop := loop\<rparr>"
  have "\<exists>st2. refreshProjects env ps ?st = (st2, None) \<and> keepsEnded loop (cd_loop st2)" for ps
    using refreshProjects_ok [of ?st env ps] keepsEnded_inv [OF k] by auto
  then obtain st2 where "refreshProjects env (dedup_on id [] (map (\<lambda>(_, p, _). p) (linkedStatuses (cd_links st) ?rows))) ?st = (st2, None)"
    "keepsEnded loop (cd_loop st2)" by blast
  with 1 k keepsEnded_trans [OF k] show ?thesis by (cases e) (simp_all add: CoordinatorReconcile_def Let_def)
qed

subsection \<open>What \<open>Create\<close> leaves behind\<close>

lemma CreateDelivery_result:
  assumes "CreateDelivery hash cfg au now newID p n conf rows = (rows', r)"
  shows "(\<forall>e. r = Inl e \<longrightarrow> rows' = rows) \<and>
    (\<forall>c. r = Inr c \<longrightarrow> c \<in> set rows' \<and> (dc_id c = newID \<or> c \<in> set rows) \<and>
       (\<forall>d \<in> set rows'. d \<in> set rows \<or> dc_id d = dc_id c))"
proof -
  have "dc_id c = newID" if "authorize hash cfg au now newID p n conf = Inr c" for c
    using that by (auto simp: authorize_def newCommand_def Let_def split: sum.splits option.splits if_splits)
  moreover have "c \<in> set rows" if "findByKey p n (cf_key conf) rows = Some c" for c
    using that by (auto simp: findByKey_def dest: find_Some_in)
  ultimately show ?thesis
    using assms unfolding CreateDelivery_def Let_def by (auto split: if_splits option.splits sum.splits)
qed

lemma abandon_pending:
  "d \<in> set (cd_deliveries (abandon env c why st)) \<Longrightarrow> dc_status d = ''pending'' \<Longrightarrow> d \<in> set (cd_deliveries st) \<and> dc_id d \<noteq> dc_id c"
  by (auto simp: abandon_def invalidatePendingDelivery_def set_row_update endedAs_def)

lemma CreateCommand_Inr:
  assumes "storeInv st" "CreateCommand newID now inp st = (st', Inr c)"
  shows "c \<in> set (sl_commands st')" "sameCommandInput c (normalizeInput newID inp)"
proof -
  let ?in = "normalizeInput newID inp"
  have e: "inputError ?in = None" using assms(2) by (auto simp: CreateCommand_def Let_def split: option.splits)
  show "c \<in> set (sl_commands st')"
  proof (cases "commandByIdentity (ci_project ?in) (ci_issue ?in) (ci_identity ?in) st")
    case (Some x)
    then have "x \<in> set (sl_commands st)" by (auto simp: commandByIdentity_def dest: find_Some_in)
    with Some e assms(2) show ?thesis by (auto simp: CreateCommand_def Let_def split: if_splits)
  next
    case None
    with e assms(2) have "GetCommand (ci_id ?in) st' = Inr c" by (auto simp: CreateCommand_def Let_def split: if_splits)
    from GetCommand_Inr [OF this] show ?thesis ..
  qed
  show "sameCommandInput c ?in"
  proof (cases "commandByIdentity (ci_project ?in) (ci_issue ?in) (ci_identity ?in) st")
    case (Some x)
    with e assms(2) show ?thesis by (auto simp: CreateCommand_def Let_def split: if_splits)
  next
    case None
    let ?row = "commandRow now ?in"
    have st': "st' = st\<lparr>sl_commands := sl_commands st @ [?row]\<rparr>" "GetCommand (ci_id ?in) st' = Inr c"
      using None e assms(2) by (auto simp: CreateCommand_def Let_def split: if_splits)
    have "storeInv st'" using step_commands [OF loop_step.create assms(1), of newID now inp] assms(2) by simp
    moreover have "?row \<in> set (sl_commands st')" "wc_id ?row = ci_id ?in" by (simp_all add: st'(1) commandRow_def)
    ultimately have "c = ?row" using GetCommand_in st'(2) by fastforce
    then show ?thesis by (simp add: sameCommandInput_def commandRow_def)
  qed
qed

lemma linked_after:
  assumes "link now w d links = (links', None)" "d \<noteq> []"
  shows "linkedDelivery w links' = d"
  using assms by (simp add: link_def Let_def split: if_splits)

lemma RecordDeliveryOutcome_run:
  assumes "RecordDeliveryOutcome now i outcome st = (st', e)"
  shows "loop_run st st'"
  using RecordDeliveryOutcome_cases [of now i outcome st]
proof
  assume "fst (RecordDeliveryOutcome now i outcome st) = st"
  with assms show ?thesis by simp
next
  assume "\<exists>c s. GetCommand i st = Inr c \<and> \<not> terminalCommandStatus (wc_status c) \<and> wc_status c \<noteq> s \<and>
    RecordDeliveryOutcome now i outcome st = setStatus now i s st"
  with assms setStatus_run show ?thesis by metis
qed

lemma refreshProject_run: "refreshProject env p st = (st', e) \<Longrightarrow> loop_run (cd_loop st) (cd_loop st')"
proof (cases "ce_snapshots env")
  case (Some snapshots)
  obtain loop cache e1 where 1: "RefreshProject (ce_now env) p (snapshots p) (cd_loop st) (cd_cache st) = (loop, cache, e1)"
    by (metis prod_cases3)
  assume "refreshProject env p st = (st', e)"
  with 1 Some RefreshProject_run [OF 1] show ?thesis by (auto simp: refreshProject_def)
qed (auto simp: refreshProject_def)

text \<open>The command a successful attachment ends with.\<close>

lemma attachCommand_result:
  assumes inv: "storeInv (cd_loop st)" and ids: "dc_id d \<noteq> []" and att: "attachCommand env p d prepared st = (st', r)"
  shows "(\<forall>e. r = Inl e \<longrightarrow> (\<forall>x \<in> set (cd_deliveries st'). dc_status x = ''pending'' \<longrightarrow> x \<in> set (cd_deliveries st) \<and> dc_id x \<noteq> dc_id d)) \<and>
    (\<forall>d'. r = Inr d' \<longrightarrow> d' = d \<and> cd_deliveries st' = cd_deliveries st \<and>
       (\<exists>c0 \<in> set (sl_commands (cd_loop st')). linkedDelivery (wc_id c0) (cd_links st') = dc_id d \<and>
          (\<exists>c. sameCommandInput c (normalizeInput (ce_commandID env) (pr_input prepared)) \<and> commandPath c c0)))"
proof -
  obtain loop1 r1 where 1: "PersistWorkflowCommand (ce_commandID env) (ce_now env) prepared (cd_loop st) = (loop1, r1)" by fastforce
  have k1: "keepsEnded (cd_loop st) loop1"
    using CreateCommand_keeps [OF inv, of "ce_commandID env" "ce_now env" "pr_input prepared"] 1
    by (simp add: PersistWorkflowCommand_def)
  show ?thesis
  proof (cases r1)
    case (Inl e)
    then have "st' = abandon env d ''workflow_command_unavailable'' (st\<lparr>cd_loop := loop1\<rparr>)" "r = Inl (FromStore e)"
      using att 1 by (simp_all add: attachCommand_def)
    with abandon_pending [of _ env d "''workflow_command_unavailable''" "st\<lparr>cd_loop := loop1\<rparr>"] show ?thesis by auto
  next
    case (Inr c)
    have c: "c \<in> set (sl_commands loop1)" "sameCommandInput c (normalizeInput (ce_commandID env) (pr_input prepared))"
      using CreateCommand_Inr [OF inv] 1 Inr by (simp_all add: PersistWorkflowCommand_def)
    obtain links1 e2 where 2: "link (ce_now env) (wc_id c) (dc_id d) (cd_links st) = (links1, e2)" by fastforce
    obtain loop2 e3 where 3: "RecordDeliveryOutcome (ce_now env) (wc_id c) (dc_status d) loop1 = (loop2, e3)" by fastforce
    note k2 = keepsEnded_trans [OF k1 RecordDeliveryOutcome_keeps [OF keepsEnded_inv [OF k1] 3]]
    let ?st2 = "st\<lparr>cd_loop := loop2, cd_links := links1\<rparr>"
    obtain st3 where f: "refreshProject env p ?st2 = (st3, None)" "cd_deliveries st3 = cd_deliveries ?st2" "cd_links st3 = cd_links ?st2"
      by (rule refreshProject_ok [of ?st2 env p]) (use keepsEnded_inv [OF k2] in simp_all)
    consider (linked) e where "e2 = Some e" | (status) e where "e2 = None" "e3 = Some e" | (fin) "e2 = None" "e3 = None" by blast
    then show ?thesis
    proof cases
      case linked
      then have "st' = abandon env d ''workflow_command_already_linked'' (st\<lparr>cd_loop := loop1, cd_links := links1\<rparr>)" "r = Inl (FromStore e)"
        using att 1 2 Inr by (simp_all add: attachCommand_def)
      with abandon_pending [of _ env d "''workflow_command_already_linked''" "st\<lparr>cd_loop := loop1, cd_links := links1\<rparr>"]
      show ?thesis by auto
    next
      case status
      then have "st' = abandon env d ''workflow_status_failed'' ?st2" "r = Inl (FromStore e)"
        using att 1 2 3 Inr by (simp_all add: attachCommand_def)
      with abandon_pending [of _ env d "''workflow_status_failed''" ?st2] show ?thesis by auto
    next
      case fin
      then have st': "st' = st3" "r = Inr d" using att 1 2 3 f(1) Inr by (simp_all add: attachCommand_def)
      have run: "loop_run loop1 (cd_loop st3)"
        using rtranclp_trans [OF RecordDeliveryOutcome_run [OF 3]] refreshProject_run [OF f(1)] by simp
      from run_commands [OF run keepsEnded_inv [OF k1]] c(1)
      obtain c0 where c0: "c0 \<in> set (sl_commands (cd_loop st3))" "commandPath c c0" by blast
      have "linkedDelivery (wc_id c) links1 = dc_id d" by (rule linked_after [OF 2 [unfolded fin(1)] ids])
      then have "linkedDelivery (wc_id c0) (cd_links st3) = dc_id d" using c0(2) f(3) by (simp add: commandPath_def)
      with c0 c(2) st' f(2) show ?thesis by auto
    qed
  qed
qed

text \<open>A \<open>Create\<close> that returns a delivery went through all its steps.\<close>

lemma CoordinatorCreate_Inr:
  assumes "CoordinatorCreate env p n conf st = (st', Inr d)" "storeInv (cd_loop st)"
  shows "\<exists>rows g prepared. CreateDelivery (ce_hash env) (ce_config env) (ce_authority env) (ce_now env) (ce_deliveryID env)
      p n conf (cd_deliveries st) = (rows, Inr d) \<and> ce_plans env p n (cf_plan conf) = Inr g \<and>
      BuildWorkflowCommand (ce_hash env) (ce_indented env) (ce_resources env) p n g = Inr prepared \<and>
      attachCommand env p d prepared (st\<lparr>cd_deliveries := rows\<rparr>) = (st', Inr d)"
proof -
  obtain rows r0 where base: "CreateDelivery (ce_hash env) (ce_config env) (ce_authority env) (ce_now env) (ce_deliveryID env)
      p n conf (cd_deliveries st) = (rows, r0)" by fastforce
  from assms(1) base obtain d0 g prepared where r: "r0 = Inr d0" "ce_plans env p n (cf_plan conf) = Inr g"
    "BuildWorkflowCommand (ce_hash env) (ce_indented env) (ce_resources env) p n g = Inr prepared"
    "attachCommand env p d0 prepared (st\<lparr>cd_deliveries := rows\<rparr>) = (st', Inr d)"
    by (auto simp: CoordinatorCreate_def Let_def split: sum.splits)
  from r(4) have "d0 = d" by (auto simp: attachCommand_def split: prod.splits sum.splits option.splits)
  with base r show ?thesis by blast
qed

subsection \<open>Properties\<close>

text \<open>C28. Transport never changes finished execution. Whatever the coordinator does with a
  delivery - creating it, recording its completion, or reconciling all deliveries, with the
  refresh of the projections included - a workflow command that has ended (a terminal marker may
  arrive before the browser's callback) stays exactly as it is, and the store keeps its
  invariant.\<close>

theorem execution_never_regresses:
  assumes "storeInv (cd_loop st)"
    and "st' \<in> {fst (CoordinatorCreate env p n conf st), fst (CoordinatorComplete env cmp st), fst (CoordinatorReconcile env st)}"
    and "c \<in> set (sl_commands (cd_loop st))" "terminalCommandStatus (wc_status c)"
  shows "c \<in> set (sl_commands (cd_loop st')) \<and> storeInv (cd_loop st')"
proof -
  have "keepsEnded (cd_loop st) (cd_loop st')"
    using assms(2) CoordinatorCreate_keeps [OF assms(1)] CoordinatorComplete_keeps [OF assms(1)] CoordinatorReconcile_keeps [OF assms(1)]
    by blast
  with assms(3,4) show ?thesis unfolding keepsEnded_def by blast
qed


definition endedCommand :: WorkflowCommand where
  "endedCommand = Worker_Machine.sampleCommand\<lparr>wc_status := ''completed'', wc_completed := Some 5\<rparr>"

text \<open>A completed command whose delivery is only now found to be uncertain.\<close>

definition lateState :: CoordState where
  "lateState = \<lparr>cd_deliveries = [Delivery_Machine.sampleCommand\<lparr>dc_status := ''uncertain''\<rparr>],
     cd_loop = \<lparr>sl_commands = [endedCommand], sl_results = []\<rparr>,
     cd_links = [\<lparr>lk_workflow = ''cmd-1'', lk_delivery = ''d1'', lk_created = 1\<rparr>], cd_cache = Map.empty\<rparr>"

theorem execution_never_regresses_witness:
  "endedCommand \<in> set (sl_commands (cd_loop (fst (CoordinatorReconcile undefined lateState))))"
proof -
  have "storeInv (cd_loop lateState)"
    by (simp add: lateState_def storeInv_def endedCommand_def knownCommandStatus_def terminalCommandStatus_def)
  moreover have "endedCommand \<in> set (sl_commands (cd_loop lateState))" by (simp add: lateState_def)
  moreover have "terminalCommandStatus (wc_status endedCommand)" by (simp add: endedCommand_def terminalCommandStatus_def)
  ultimately show ?thesis
    using execution_never_regresses [of lateState "fst (CoordinatorReconcile undefined lateState)" undefined undefined undefined
        undefined undefined endedCommand] by blast
qed

definition sampleEnv :: CoordEnv where
  "sampleEnv = \<lparr>ce_hash = id, ce_indented = \<lambda>_. [], ce_config = sampleConfig, ce_authority = sampleAuthority undefined,
     ce_plans = \<lambda>_ _ _. Inl DeliveryNotFound, ce_resources = undefined, ce_snapshots = None, ce_deliveryID = ''d1'',
     ce_commandID = ''c'', ce_now = 50\<rparr>"

definition emptyState :: CoordState where
  "emptyState = \<lparr>cd_deliveries = [], cd_loop = \<lparr>sl_commands = [], sl_results = []\<rparr>, cd_links = [], cd_cache = Map.empty\<rparr>"


subsection \<open>Retiring the chat of a finished QA worker\<close>

lemma retireBinding_ids [simp]: "map bi_id (retireBinding now v rows) = map bi_id rows"
  by (simp add: retireBinding_def row_update_def)

text \<open>A binding is switched off exactly when one of the captured versions is its version now.\<close>

definition switchedOff :: "gotime \<Rightarrow> Binding \<Rightarrow> Binding" where
  "switchedOff now b = b\<lparr>bi_enabled := False, bi_version := bi_version b + 1, bi_updated := now\<rparr>"

lemma retireBinding_map: "retireBinding now v rows = map (\<lambda>b. if bi_enabled b \<and> (bi_id b, bi_version b) = v then switchedOff now b else b) rows"
  by (cases v) (auto simp: retireBinding_def row_update_def switchedOff_def)

lemma switchedOff_off [simp]: "\<not> bi_enabled (switchedOff now b)"
  by (simp add: switchedOff_def)

lemma foldl_retire:
  "foldl (\<lambda>rs v. retireBinding now v rs) rows vs =
    map (\<lambda>b. if bi_enabled b \<and> (bi_id b, bi_version b) \<in> set vs then switchedOff now b else b) rows"
  by (induction vs arbitrary: rows) (auto simp: retireBinding_map)

lemma RetireAcceptedTerminalQA_rows:
  "RetireAcceptedTerminalQA now p st rows =
    map (\<lambda>b. if bi_enabled b \<and> (bi_id b, bi_version b) \<in> set (retiredPairs p st) then switchedOff now b else b) rows"
  by (simp add: RetireAcceptedTerminalQA_def foldl_retire)

text \<open>So the order of the captured rows does not matter, and repeating the call does nothing.\<close>

lemma RetireAcceptedTerminalQA_idem:
  "RetireAcceptedTerminalQA now' p st (RetireAcceptedTerminalQA now p st rows) = RetireAcceptedTerminalQA now p st rows"
  by (auto simp: RetireAcceptedTerminalQA_rows)

lemma linked_pairs:
  "(b, v) \<in> set (concat (map (\<lambda>l. map (\<lambda>d. (dc_binding d, dc_version d)) (filter (\<lambda>d. dc_id d = lk_delivery l) rows))
      (filter (\<lambda>l. lk_workflow l = w) links))) \<longleftrightarrow>
    (\<exists>l \<in> set links. \<exists>d \<in> set rows. lk_workflow l = w \<and> lk_delivery l = dc_id d \<and> dc_binding d = b \<and> dc_version d = v)"
  by (auto simp: image_iff) metis+

lemma in_concat_filter: "x \<in> set (concat (map g (filter P ys))) \<longleftrightarrow> (\<exists>y \<in> set ys. P y \<and> x \<in> set (g y))"
  by auto

definition finishedQA :: "int \<Rightarrow> LoopStore \<Rightarrow> WorkflowCommand \<Rightarrow> bool" where
  "finishedQA p st c =
     (wc_project c = p \<and> wc_role c = ''qa'' \<and>
      oneOf (wc_status c) [''completed'', ''blocked'', ''inconclusive'', ''failed'', ''ambiguous''] \<and> acceptedResults c st \<noteq> [])"

lemma retiredPairs_iff:
  "(b, v) \<in> set (retiredPairs p st) \<longleftrightarrow>
    (\<exists>c \<in> set (sl_commands (cd_loop st)). finishedQA p (cd_loop st) c \<and>
       (\<exists>l \<in> set (cd_links st). \<exists>d \<in> set (cd_deliveries st).
          lk_workflow l = wc_id c \<and> lk_delivery l = dc_id d \<and> dc_binding d = b \<and> dc_version d = v))"
proof -
  have acc: "list_ex (conflicting (wc_project c) (wc_id c)) (sl_results (cd_loop st)) \<longleftrightarrow> acceptedResults c (cd_loop st) \<noteq> []" for c
  proof -
    have "acceptedResults c (cd_loop st) \<noteq> [] \<longleftrightarrow> set (acceptedResults c (cd_loop st)) \<noteq> {}" by simp
    then show ?thesis unfolding in_acceptedResults by (auto simp: list_ex_iff conflicting_def acceptedRows_def)
  qed
  have f: "filter (\<lambda>c. wc_project c = p \<and> wc_role c = ''qa'' \<and>
        oneOf (wc_status c) [''completed'', ''blocked'', ''inconclusive'', ''failed'', ''ambiguous''] \<and> acceptedResults c (cd_loop st) \<noteq> [])
      (sl_commands (cd_loop st)) = filter (finishedQA p (cd_loop st)) (sl_commands (cd_loop st))"
    by (rule filter_cong) (simp_all add: finishedQA_def)
  show ?thesis unfolding retiredPairs_def set_remdups acc f by (subst in_concat_filter) (simp only: linked_pairs)
qed

end
