(* ===== verification/Planning_Json.thy ===== *)
theory Planning_Json
  imports Planning_Types Go_Time
begin

text \<open>
  The JSON text of a prompt context and of a prompt plan, after the struct tags of
  \<open>planning/types.go\<close>, \<open>workflow/types.go\<close> and \<open>supervisor/types.go\<close>: members in the order of the
  fields, empty ones left out where the tag says \<open>omitempty\<close>. A nil slice is written \<open>null\<close> and an
  empty one \<open>[]\<close>; where the code can have either, the text of the empty list is an argument. The
  text of a float64 (\<open>strconv.FormatFloat\<close>, shortest form) is an argument.
\<close>

definition attentionText :: "AttentionKind \<Rightarrow> string" where
  "attentionText k = (case k of
     AttentionNormal \<Rightarrow> ''normal'' | AttentionWaiting \<Rightarrow> ''waiting'' | AttentionActionRequired \<Rightarrow> ''action_required''
   | AttentionCIFailed \<Rightarrow> ''ci_failed'' | AttentionBlocked \<Rightarrow> ''blocked'' | AttentionOwnerRequired \<Rightarrow> ''owner_required''
   | AttentionQAInvalidated \<Rightarrow> ''qa_invalidated'' | AttentionAmbiguous \<Rightarrow> ''ambiguous''
   | AttentionProtocolWarning \<Rightarrow> ''protocol_warning'' | AttentionTerminal \<Rightarrow> ''terminal'')"

definition levelText :: "ParseLevel \<Rightarrow> string" where
  "levelText l = (case l of
     ParseLevelEnvelope \<Rightarrow> ''authoritative'' | ParseLevelHeading \<Rightarrow> ''legacy_heading''
   | ParseLevelActivity \<Rightarrow> ''unclassified'' | ParseLevelNoActivity \<Rightarrow> ''empty'')"

lemma attentionText_inject: "attentionText a = attentionText b \<longleftrightarrow> a = b"
  by (cases a; cases b) (simp_all add: attentionText_def)

subsection \<open>Members\<close>

definition intMember :: "string \<Rightarrow> int \<Rightarrow> jobject" where
  "intMember key i = [(key, JNum (showInt i))]"

definition strMember :: "string \<Rightarrow> string \<Rightarrow> jobject" where
  "strMember key s = [(key, JStr s)]"

definition boolMember :: "string \<Rightarrow> bool \<Rightarrow> jobject" where
  "boolMember key b = [(key, JBool b)]"

definition timeMember :: "string \<Rightarrow> gotime \<Rightarrow> jobject" where
  "timeMember key t = [(key, JStr (stamp t))]"

definition optMember :: "string \<Rightarrow> ('a \<Rightarrow> json) \<Rightarrow> 'a option \<Rightarrow> jobject" where
  "optMember key f v = (case v of None \<Rightarrow> [] | Some x \<Rightarrow> [(key, f x)])"

definition omitStr :: "string \<Rightarrow> string \<Rightarrow> jobject" where
  "omitStr key s = (if s = [] then [] else strMember key s)"

text \<open>A raw message of a context has been through \<open>sanitizeRawJSON\<close>, which only returns valid
  ones (\<open>sanitizeRawJSON_valid\<close>).\<close>

definition rawJson :: "rawmsg \<Rightarrow> json" where
  "rawJson m = (case m of Raw j \<Rightarrow> j | RawInvalid s \<Rightarrow> JNull)"

definition sliceMember :: "json \<Rightarrow> string \<Rightarrow> ('a \<Rightarrow> json) \<Rightarrow> 'a list \<Rightarrow> jobject" where
  "sliceMember none key f xs = [(key, if xs = [] then none else JArr (map f xs))]"

subsection \<open>The structs of a context\<close>

definition warningJson :: "Warning \<Rightarrow> json" where
  "warningJson w = JObj (strMember ''code'' (w_code w) @ strMember ''message'' (w_message w) @
     (if w_comment w = 0 then [] else intMember ''comment_id'' (w_comment w)))"

definition protocolErrorJson :: "ProtocolError \<Rightarrow> json" where
  "protocolErrorJson e = JObj (strMember ''code'' (pe_code e) @ strMember ''message'' (pe_message e))"

definition ciJson :: "CISummary \<Rightarrow> json" where
  "ciJson c = JObj (strMember ''head_sha'' (ci_head c) @ strMember ''status'' (ci_status c) @
     strMember ''conclusion'' (ci_conclusion c) @ strMember ''source'' (ci_source c) @
     omitStr ''details_url'' (ci_details c) @ timeMember ''updated_at'' (ci_updated c))"

definition candidateJson :: "Candidate \<Rightarrow> json" where
  "candidateJson c = JObj (intMember ''github_id'' (cd_github_id c) @ intMember ''number'' (cd_number c) @
     strMember ''title'' (cd_title c) @ boolMember ''draft'' (cd_draft c) @ omitStr ''mergeable_state'' (cd_mergeable c) @
     strMember ''base_ref'' (cd_base_ref c) @ strMember ''head_ref'' (cd_head_ref c) @ strMember ''head_sha'' (cd_head_sha c) @
     strMember ''url'' (cd_url c) @ [(''ci'', ciJson (cd_ci c))])"

definition candidateStateJson :: "CandidateState \<Rightarrow> json" where
  "candidateStateJson s = JObj (optMember ''current'' candidateJson (cs_current s) @
     sliceMember (JArr []) ''alternatives'' candidateJson (cs_alternatives s) @ boolMember ''ambiguous'' (cs_ambiguous s))"

definition eventJson :: "WorkerEvent \<Rightarrow> json" where
  "eventJson e = JObj (intMember ''v'' (we_version e) @ strMember ''event'' (we_event e) @ strMember ''role'' (we_role e) @
     strMember ''status'' (we_status e) @ omitStr ''head'' (we_head e) @ omitStr ''verdict'' (we_verdict e) @
     omitStr ''decision'' (we_decision e) @ omitStr ''resume_role'' (we_resume_role e) @
     optMember ''resolves'' rawJson (we_resolves e) @ omitStr ''escalate_to'' (we_escalate_to e) @
     (if we_extensions e = [] then [] else [(''extensions'', JObj (sort_key fst (we_extensions e)))]))"

definition attentionJson :: "Attention \<Rightarrow> json" where
  "attentionJson a = JObj (strMember ''kind'' (attentionText (at_kind a)) @ strMember ''code'' (at_code a) @
     strMember ''explanation'' (at_explanation a))"

definition routeJson :: "Route \<Rightarrow> json" where
  "routeJson r = JObj (strMember ''action'' (rt_action r) @ omitStr ''target_role'' (rt_target_role r) @
     omitStr ''lane_key'' (rt_lane r) @ strMember ''reason_code'' (rt_reason_code r) @ strMember ''reason'' (rt_reason r) @
     omitStr ''expected_head'' (rt_expected_head r) @ sliceMember (JArr []) ''guards'' JStr (rt_guards r) @
     sliceMember (JArr []) ''warnings'' warningJson (rt_warnings r))"

definition summaryJson :: "ResultSummary \<Rightarrow> json" where
  "summaryJson r = JObj (intMember ''comment_id'' (rs_comment r) @ strMember ''role'' (rs_role r) @
     strMember ''status'' (rs_status r) @ omitStr ''head'' (rs_head r) @ omitStr ''verdict'' (rs_verdict r) @
     omitStr ''decision'' (rs_decision r) @ omitStr ''resume_role'' (rs_resume_role r) @
     optMember ''resolves'' rawJson (rs_resolves r) @ omitStr ''escalate_to'' (rs_escalate_to r) @
     boolMember ''stale'' (rs_stale r) @ boolMember ''effective'' (rs_effective r) @ timeMember ''created_at'' (rs_created r))"

definition latestJson :: "LatestResultSummary \<Rightarrow> json" where
  "latestJson l = JObj (optMember ''lead'' summaryJson (ls_lead l) @ optMember ''implementor'' summaryJson (ls_implementor l) @
     optMember ''qa'' summaryJson (ls_qa l))"

definition evidenceJson :: "Evidence \<Rightarrow> json" where
  "evidenceJson e = JObj (intMember ''comment_id'' (ev_comment e) @ strMember ''author'' (ev_author e) @
     strMember ''url'' (ev_url e) @ timeMember ''created_at'' (ev_created e) @ timeMember ''updated_at'' (ev_updated e) @
     omitStr ''heading'' (ev_heading e) @ strMember ''markdown'' (ev_markdown e) @ strMember ''level'' (levelText (ev_level e)) @
     optMember ''event'' eventJson (ev_event e) @ sliceMember (JArr []) ''warnings'' warningJson (ev_warnings e) @
     optMember ''hard_error'' protocolErrorJson (ev_hard_error e))"

definition repositoryJson :: "RepositoryIdentity \<Rightarrow> json" where
  "repositoryJson r = JObj (intMember ''project_id'' (ri_project r) @ strMember ''owner'' (ri_owner r) @
     strMember ''repository'' (ri_repository r) @ strMember ''workflow_mode'' (ri_workflow_mode r))"

definition issueJson :: "IssueIdentity \<Rightarrow> json" where
  "issueJson i = JObj (intMember ''github_id'' (ii_github_id i) @ intMember ''number'' (ii_number i) @
     strMember ''title'' (ii_title i) @ strMember ''body'' (ii_body i) @ strMember ''url'' (ii_url i) @
     strMember ''lifecycle'' (ii_lifecycle i) @ [(''attention'', attentionJson (ii_attention i))])"

definition contextJson :: "json \<Rightarrow> PromptContext \<Rightarrow> json" where
  "contextJson none c = JObj (intMember ''v'' (px_version c) @ [(''repository'', repositoryJson (px_repository c))] @
     [(''issue'', issueJson (px_issue c))] @ [(''candidate'', candidateStateJson (px_candidate c))] @
     strMember ''current_head'' (px_head c) @ [(''ci'', ciJson (px_ci c))] @
     [(''latest_worker_results'', latestJson (px_latest c))] @ optMember ''active_blocker'' summaryJson (px_blocker c) @
     [(''route'', routeJson (px_route c))] @ strMember ''expected_event'' (px_expected_event c) @
     sliceMember none ''warnings'' warningJson (px_warnings c) @ sliceMember none ''evidence'' evidenceJson (px_evidence c) @
     strMember ''context_hash'' (px_hash c))"

subsection \<open>A plan\<close>

definition sourceJson :: "SourceMetadata \<Rightarrow> json" where
  "sourceJson s = JObj (strMember ''kind'' (sm_kind s) @ strMember ''runtime'' (sm_runtime s) @
     omitStr ''provider'' (sm_provider s) @ omitStr ''model'' (sm_model s) @ omitStr ''agent'' (sm_agent s) @
     strMember ''mode'' (sm_mode s) @ strMember ''context_hash'' (sm_context_hash s))"

definition planJson :: "(rat \<Rightarrow> string) \<Rightarrow> PromptPlan \<Rightarrow> json" where
  "planJson showFloat p = JObj (intMember ''v'' (pp_version p) @ strMember ''action'' (pp_action p) @
     strMember ''target_role'' (pp_target_role p) @ strMember ''lane_key'' (pp_lane p) @ strMember ''summary'' (pp_summary p) @
     strMember ''reason'' (pp_reason p) @ strMember ''risk'' (pp_risk p) @ boolMember ''requires_owner'' (pp_requires_owner p) @
     strMember ''expected_head'' (pp_expected_head p) @ strMember ''expected_event'' (pp_expected_event p) @
     sliceMember (JArr []) ''guards'' JStr (pp_guards p) @ sliceMember (JArr []) ''prohibited_actions'' JStr (pp_prohibited p) @
     strMember ''prompt'' (pp_prompt p) @ [(''confidence'', JNum (showFloat (pp_confidence p)))] @
     [(''source'', sourceJson (pp_source p))] @
     (if pp_extensions p = [] then [] else [(''extensions'', JObj (sort_key fst (pp_extensions p)))]))"

end
