(* ===== verification/Redact.thy ===== *)
theory Redact
  imports Go_Strings
begin

text \<open>
  The redaction of credentials, \<open>redactText\<close> of \<open>planning/context.go\<close>, with its four regular
  expressions. An expression denotes, from a position of the text, the list of positions where
  it can end in the order a backtracking matcher tries them, so the head of the list is the
  match of Go's \<open>regexp\<close> (leftmost-first). Texts are bytes; the expressions treat every byte above
  0x7F alike except for the two runes that \<open>(?i)\<close> folds to ASCII letters (U+017F to \<open>s\<close>, U+212A to
  \<open>k\<close>), which are spelled out.
\<close>

datatype rx =
    RSet string
  | RNot string
  | REmpty
  | RBound
  | RSeq rx rx
  | RAlt rx rx
  | RStar rx

text \<open>A position: the byte before it, if any, and the text after it.\<close>

type_synonym position = "char option \<times> string"

definition wordChars :: string where
  "wordChars = ''ABCDEFGHIJKLMNOPQRSTUVWXYZabcdefghijklmnopqrstuvwxyz0123456789_''"

definition isWord :: "char option \<Rightarrow> bool" where
  "isWord c = (case c of None \<Rightarrow> False | Some d \<Rightarrow> d \<in> set wordChars)"

definition nextChar :: "string \<Rightarrow> char option" where
  "nextChar s = (case s of [] \<Rightarrow> None | c # _ \<Rightarrow> Some c)"

fun stepIf :: "(char \<Rightarrow> bool) \<Rightarrow> position \<Rightarrow> position list" where
  "stepIf P (prev, []) = []"
| "stepIf P (prev, c # cs) = (if P c then [(Some c, cs)] else [])"

text \<open>A greedy star: first the longest runs. The second argument bounds the number of rounds; a
  round that consumes nothing is not repeated.\<close>

fun starEnds :: "(position \<Rightarrow> position list) \<Rightarrow> string \<Rightarrow> position \<Rightarrow> position list" where
  "starEnds f [] p = [p]"
| "starEnds f (_ # fuel) p =
     concat (map (\<lambda>q. if snd q = snd p then [] else starEnds f fuel q) (f p)) @ [p]"

primrec ends :: "rx \<Rightarrow> position \<Rightarrow> position list" where
  "ends (RSet cs) = stepIf (\<lambda>c. c \<in> set cs)"
| "ends (RNot cs) = stepIf (\<lambda>c. c \<notin> set cs)"
| "ends REmpty = (\<lambda>p. [p])"
| "ends RBound = (\<lambda>p. if isWord (fst p) \<noteq> isWord (nextChar (snd p)) then [p] else [])"
| "ends (RSeq a b) = (\<lambda>p. concat (map (ends b) (ends a p)))"
| "ends (RAlt a b) = (\<lambda>p. ends a p @ ends b p)"
| "ends (RStar a) = (\<lambda>p. starEnds (ends a) (snd p) p)"

text \<open>Every end lies further on in the text.\<close>

lemma stepIf_suffix: "q \<in> set (stepIf P p) \<Longrightarrow> \<exists>t. snd p = t @ snd q"
  by (cases "(P, p)" rule: stepIf.cases) (auto split: if_splits)

lemma starEnds_suffix:
  assumes "\<And>p q. q \<in> set (f p) \<Longrightarrow> \<exists>t. snd p = t @ snd q"
  shows "q \<in> set (starEnds f fuel p) \<Longrightarrow> \<exists>t. snd p = t @ snd q"
proof (induction fuel arbitrary: p)
  case (Cons c fuel)
  show ?case
  proof (cases "q = p")
    case False
    with Cons.prems obtain m where m: "m \<in> set (f p)" "q \<in> set (starEnds f fuel m)" by (auto split: if_splits)
    from assms [OF m(1)] Cons.IH [OF m(2)] show ?thesis by auto
  qed simp
qed simp

lemma ends_suffix: "q \<in> set (ends r p) \<Longrightarrow> \<exists>t. snd p = t @ snd q"
proof (induction r arbitrary: p q)
  case (RSeq a b)
  from RSeq.prems obtain m where m: "m \<in> set (ends a p)" "q \<in> set (ends b m)" by auto
  from RSeq.IH(1) [OF m(1)] RSeq.IH(2) [OF m(2)] show ?case by auto
next
  case (RStar a)
  show ?case by (rule starEnds_suffix [OF RStar.IH]) (use RStar.prems in simp_all)
qed (auto dest: stepIf_suffix split: if_splits)

subsection \<open>Building expressions\<close>

fun rSeq :: "rx list \<Rightarrow> rx" where
  "rSeq [] = REmpty"
| "rSeq [r] = r"
| "rSeq (r # rs) = RSeq r (rSeq rs)"

fun rAlt :: "rx list \<Rightarrow> rx" where
  "rAlt [] = RSet []"
| "rAlt [r] = r"
| "rAlt (r # rs) = RAlt r (rAlt rs)"

definition rOpt :: "rx \<Rightarrow> rx" where
  "rOpt r = RAlt r REmpty"

definition rPlus :: "rx \<Rightarrow> rx" where
  "rPlus r = RSeq r (RStar r)"

definition rTwice :: "rx \<Rightarrow> rx" where
  "rTwice r = RSeq r r"

definition lower :: string where
  "lower = ''abcdefghijklmnopqrstuvwxyz''"

definition upper :: string where
  "upper = ''ABCDEFGHIJKLMNOPQRSTUVWXYZ''"

text \<open>A letter under \<open>(?i)\<close>, and a word spelled with such letters.\<close>

definition rLetter :: "char \<Rightarrow> rx" where
  "rLetter c =
     (case map_of (zip lower upper) c of
        None \<Rightarrow> RSet [c]
      | Some d \<Rightarrow>
          if c = CHR ''s'' then RAlt (RSet [c, d]) (RSeq (RSet [CHR 0xC5]) (RSet [CHR 0xBF]))
          else if c = CHR ''k'' then RAlt (RSet [c, d]) (RSeq (RSet [CHR 0xE2]) (RSeq (RSet [CHR 0x84]) (RSet [CHR 0xAA])))
          else RSet [c, d])"

definition rText :: "string \<Rightarrow> rx" where
  "rText s = rSeq (map rLetter s)"

definition rFolded :: "string \<Rightarrow> rx" where
  "rFolded cs = rAlt [RSet cs, RSeq (RSet [CHR 0xC5]) (RSet [CHR 0xBF]),
     RSeq (RSet [CHR 0xE2]) (RSeq (RSet [CHR 0x84]) (RSet [CHR 0xAA]))]"

definition spaceChars :: string where
  "spaceChars = [CHR 0x09, CHR 0x0A, CHR 0x0C, CHR 0x0D, CHR '' '']"

definition rSpaces :: rx where
  "rSpaces = RStar (RSet spaceChars)"

subsection \<open>The patterns: what precedes the first group, the group, what follows it\<close>

definition authorizationPattern :: "rx \<times> rx \<times> rx" where
  "authorizationPattern =
     (REmpty, rSeq [rText ''authorization'', rSpaces, RSet '':'', rSpaces], rPlus (RNot [CHR 0x0D, CHR 0x0A]))"

definition tokenPattern :: "rx \<times> rx \<times> rx" where
  "tokenPattern =
     (let sixteen = (\<lambda>r. RSeq (rTwice (rTwice (rTwice (rTwice r)))) (RStar r)) in
      (REmpty, REmpty,
       rSeq [RBound,
         RAlt (rSeq [RSet ''g'', RSet ''h'', RSet ''pousr'', RSet ''_'', sixteen (RSet wordChars)])
              (rSeq [RSet ''s'', RSet ''k'', RSet ''-'', sixteen (RSet (CHR ''-'' # wordChars))]),
         RBound]))"

definition assignmentPattern :: "rx \<times> rx \<times> rx" where
  "assignmentPattern =
     (RBound,
      rSeq [rFolded (upper @ lower), RStar (rFolded wordChars),
            rAlt [rText ''token'', rText ''secret'', rText ''password'', rText ''api_key'']],
      rSeq [rSpaces, RSet '':='', rSpaces, rPlus (RNot (spaceChars @ '',;''))])"

definition credentialValuePattern :: "rx \<times> rx \<times> rx" where
  "credentialValuePattern =
     (let quote = rOpt (RSet [CHR 0x22, CHR 0x27]) in
      (REmpty,
       rSeq [quote,
         rAlt [rText ''authorization'', rText ''credential'', rText ''password'', rText ''secret'', rText ''token'',
               rSeq [rText ''api'', rOpt (RSet ''_-''), rText ''key'']],
         quote, rSpaces, RSet '':='', rSpaces],
       rAlt [rSeq [RSet [CHR 0x22], RStar (RNot [CHR 0x22]), RSet [CHR 0x22]],
             rSeq [RSet [CHR 0x27], RStar (RNot [CHR 0x27]), RSet [CHR 0x27]],
             rPlus (RNot (spaceChars @ '',;}]''))]))"

subsection \<open>Replacing\<close>

text \<open>The match at a position: the text of the first group, and the position after the match.\<close>

definition matchAt :: "rx \<times> rx \<times> rx \<Rightarrow> position \<Rightarrow> (string \<times> position) option" where
  "matchAt pattern p =
     (case pattern of (front, grp, behind) \<Rightarrow>
        (case concat (map (\<lambda>a. concat (map (\<lambda>b. map (\<lambda>c. (take (length (snd a) - length (snd b)) (snd a), c)) (ends behind b))
                                        (ends grp a)))
                     (ends front p)) of
           [] \<Rightarrow> None
         | m # _ \<Rightarrow> Some m))"

text \<open>\<open>ReplaceAllString\<close> for patterns that never match the empty text (the guard).\<close>

function replaceAll :: "rx \<times> rx \<times> rx \<Rightarrow> (string \<Rightarrow> string) \<Rightarrow> char option \<Rightarrow> string \<Rightarrow> string" where
  "replaceAll pattern repl prev [] = []"
| "replaceAll pattern repl prev (c # cs) =
     (case matchAt pattern (prev, c # cs) of
        Some (captured, (prev', rest)) \<Rightarrow>
          if length rest \<le> length cs then repl captured @ replaceAll pattern repl prev' rest
          else c # replaceAll pattern repl (Some c) cs
      | None \<Rightarrow> c # replaceAll pattern repl (Some c) cs)"
  by pat_completeness auto
termination by (relation "measure (\<lambda>(_, _, _, s). length s)") auto

definition redacted :: string where
  "redacted = ''[REDACTED]''"

definition redactText :: "string \<Rightarrow> string" where
  "redactText value =
     (let v1 = replaceAll authorizationPattern (\<lambda>g. g @ redacted) None value;
          v2 = replaceAll tokenPattern (\<lambda>_. redacted) None v1;
          v3 = replaceAll assignmentPattern (\<lambda>g. g @ ''='' @ redacted) None v2
      in replaceAll credentialValuePattern (\<lambda>g. g @ redacted) None v3)"

text \<open>Examples, after the repository's tests, and one more: redacting twice is not redacting once.\<close>

lemma redactText_samples:
  "redactText ''GITHUB_TOKEN=ghp_12345678901234567890'' = ''GITHUB_TOKEN=[REDACTED]]''"
  by code_simp

lemma redactText_again:
  "redactText ''token: abc'' = ''token: [REDACTED]''"
  "redactText ''token: [REDACTED]'' = ''token: [REDACTED]]''"
  by code_simp+

end
