(* ===== verification/Context_Pack.thy ===== *)
theory Context_Pack
  imports Planning_Json Redact "HOL-Library.AList"
begin

text \<open>
  \<open>planning/context.go\<close>: the bounded, redacted and canonically ordered context of a work unit that a
  prompt is planned from, and its hash. SHA-256 is an argument. The maps that select comments are
  association lists whose order does not show, since the evidence is sorted by time and id.
\<close>

record ContextOptions =
  co_evidence :: int
  co_chars :: int
  co_issue_chars :: int

subsection \<open>Truncation\<close>

text \<open>\<open>utf8.ValidString\<close>.\<close>

definition byteIn :: "nat \<Rightarrow> nat \<Rightarrow> char \<Rightarrow> bool" where
  "byteIn lo hi c = (lo \<le> of_char c \<and> of_char c \<le> hi)"

fun tailLen :: "(char \<Rightarrow> bool) list \<Rightarrow> string \<Rightarrow> bool" where
  "tailLen [] s = True"
| "tailLen (P # Ps) s = (case s of [] \<Rightarrow> False | c # cs \<Rightarrow> P c \<and> tailLen Ps cs)"

definition runeTail :: "char \<Rightarrow> (char \<Rightarrow> bool) list option" where
  "runeTail c =
     (let cont = byteIn 0x80 0xBF in
      if byteIn 0 0x7F c then Some []
      else if byteIn 0xC2 0xDF c then Some [cont]
      else if byteIn 0xE0 0xE0 c then Some [byteIn 0xA0 0xBF, cont]
      else if byteIn 0xED 0xED c then Some [byteIn 0x80 0x9F, cont]
      else if byteIn 0xE1 0xEF c then Some [cont, cont]
      else if byteIn 0xF0 0xF0 c then Some [byteIn 0x90 0xBF, cont, cont]
      else if byteIn 0xF1 0xF3 c then Some [cont, cont, cont]
      else if byteIn 0xF4 0xF4 c then Some [byteIn 0x80 0x8F, cont, cont]
      else None)"

function validUtf8 :: "string \<Rightarrow> bool" where
  "validUtf8 [] = True"
| "validUtf8 (c # cs) =
     (case runeTail c of None \<Rightarrow> False
      | Some Ps \<Rightarrow> tailLen Ps cs \<and> validUtf8 (drop (length Ps) cs))"
  by pat_completeness auto
termination by (relation "measure length") auto

function trimInvalid :: "string \<Rightarrow> string" where
  "trimInvalid s = (if validUtf8 s then s else trimInvalid (butlast s))"
  by pat_completeness auto
termination
proof (relation "measure length")
  fix s :: string assume "\<not> validUtf8 s"
  then show "(butlast s, s) \<in> measure length" by (cases s) auto
qed simp

declare trimInvalid.simps [simp del]

definition truncatedMark :: string where
  "truncatedMark = CHR 0x0A # [CHR 0xE2, CHR 0x80, CHR 0xA6] @ ''[truncated]''"

definition truncateUTF8 :: "string \<Rightarrow> int \<Rightarrow> string" where
  "truncateUTF8 value limit =
     (if limit \<le> 0 \<or> int (length value) \<le> limit then value
      else trimSpace (trimInvalid (take (nat limit) value)) @ truncatedMark)"

subsection \<open>Sanitizing\<close>

definition sortedUnique :: "string list \<Rightarrow> string list" where
  "sortedUnique values = sort (dedup_on id [] (filter (\<lambda>v. v \<noteq> []) (map trimSpace values)))"

definition credentialMarkers :: "string list" where
  "credentialMarkers = [''authorization'', ''credential'', ''password'', ''secret'', ''token'', ''api_key'', ''apikey'']"

definition credentialKey :: "string \<Rightarrow> bool" where
  "credentialKey key = list_ex (containsStr (toLower (trimSpace key))) credentialMarkers"

text \<open>An object is decoded into a map, which keeps the last value of a key and is written with
  its keys sorted.\<close>

definition lastMembers :: "(string \<times> 'a) list \<Rightarrow> (string \<times> 'a) list" where
  "lastMembers ms = sort_key fst (dedup_on fst [] (rev ms))"

fun sanitizeJSONValue :: "json \<Rightarrow> json" where
  "sanitizeJSONValue (JStr s) = JStr (redactText s)"
| "sanitizeJSONValue (JArr vs) = JArr (map sanitizeJSONValue vs)"
| "sanitizeJSONValue (JObj ms) =
     JObj (lastMembers (map (\<lambda>(k, v). (k, if credentialKey k then JStr redacted else sanitizeJSONValue v)) ms))"
| "sanitizeJSONValue v = v"

definition sanitizeRawJSON :: "rawmsg option \<Rightarrow> rawmsg option" where
  "sanitizeRawJSON raw =
     (case raw of
        None \<Rightarrow> None
      | Some (RawInvalid s) \<Rightarrow> Some (Raw (JStr redacted))
      | Some (Raw value) \<Rightarrow> Some (Raw (sanitizeJSONValue value)))"

lemma sanitizeRawJSON_valid: "sanitizeRawJSON raw \<noteq> Some (RawInvalid s)"
  by (auto simp: sanitizeRawJSON_def split: option.splits rawmsg.splits)

definition sanitizeWarnings :: "Warning list \<Rightarrow> Warning list" where
  "sanitizeWarnings warnings =
     sort_key warningOrder (dedup_on warningKey [] (map (\<lambda>w. w\<lparr>w_message := redactText (w_message w)\<rparr>) warnings))"

definition sanitizeEvent :: "WorkerEvent option \<Rightarrow> WorkerEvent option" where
  "sanitizeEvent event =
     map_option (\<lambda>e. e\<lparr>we_decision := redactText (we_decision e), we_resolves := sanitizeRawJSON (we_resolves e),
       we_extensions := []\<rparr>) event"

definition sanitizeProtocolError :: "ProtocolError option \<Rightarrow> ProtocolError option" where
  "sanitizeProtocolError v = map_option (\<lambda>e. e\<lparr>pe_message := redactText (pe_message e)\<rparr>) v"

definition sanitizeCI :: "CISummary \<Rightarrow> CISummary" where
  "sanitizeCI ci = ci\<lparr>ci_source := redactText (ci_source ci), ci_details := redactText (ci_details ci)\<rparr>"

definition sanitizeCandidate :: "Candidate \<Rightarrow> Candidate" where
  "sanitizeCandidate c = c\<lparr>cd_title := redactText (cd_title c), cd_url := redactText (cd_url c), cd_ci := sanitizeCI (cd_ci c)\<rparr>"

definition sanitizeCandidateState :: "CandidateState \<Rightarrow> CandidateState" where
  "sanitizeCandidateState state =
     \<lparr>cs_current = map_option sanitizeCandidate (cs_current state),
      cs_alternatives = sort_key cd_number (map sanitizeCandidate (cs_alternatives state)),
      cs_ambiguous = cs_ambiguous state\<rparr>"

definition sanitizeRoute :: "Route \<Rightarrow> Route" where
  "sanitizeRoute route = route\<lparr>rt_reason := redactText (rt_reason route), rt_guards := sortedUnique (rt_guards route),
     rt_warnings := sanitizeWarnings (rt_warnings route)\<rparr>"

definition redactAttention :: "Attention \<Rightarrow> Attention" where
  "redactAttention a = a\<lparr>at_explanation := redactText (at_explanation a)\<rparr>"

definition resultSummary :: "ResultEvidence \<Rightarrow> ResultSummary" where
  "resultSummary r =
     \<lparr>rs_comment = re_comment r, rs_role = re_role r, rs_status = re_status r, rs_head = re_head r, rs_verdict = re_verdict r,
      rs_decision = redactText (re_decision r), rs_resume_role = re_resume_role r, rs_resolves = sanitizeRawJSON (re_resolves r),
      rs_escalate_to = re_escalate_to r, rs_stale = re_stale r, rs_effective = re_effective r, rs_created = re_created r\<rparr>"

definition latestSummary :: "LatestResults \<Rightarrow> LatestResultSummary" where
  "latestSummary results =
     \<lparr>ls_lead = map_option resultSummary (lr_lead results), ls_implementor = map_option resultSummary (lr_implementor results),
      ls_qa = map_option resultSummary (lr_qa results)\<rparr>"

subsection \<open>Evidence\<close>

definition containsOperationalHeading :: "string \<Rightarrow> string \<Rightarrow> bool" where
  "containsOperationalHeading markdown expected =
     list_ex (\<lambda>line. let trimmed = trimSpace line in
        hasPrefix trimmed ''#'' \<and> equalFold (trimSpace (trimLeftCut ''#'' trimmed)) expected) (splitLines markdown)"

definition leadComment :: "ParsedComment \<Rightarrow> bool" where
  "leadComment p = (containsOperationalHeading (pc_markdown p) ''Lead Dispatch'' \<or>
     containsOperationalHeading (pc_markdown p) ''Lead Decision'' \<or>
     containsOperationalHeading (pc_markdown p) ''Lead Escalation'')"

definition minimumSafeEvidenceLimit :: int where
  "minimumSafeEvidenceLimit = 8"

text \<open>Sets of comment ids: a list without repetition.\<close>

definition addID :: "int \<Rightarrow> int list \<Rightarrow> int list" where
  "addID i ids = (if i \<in> set ids then ids else ids @ [i])"

definition resultIDs :: "WorkUnitState \<Rightarrow> int list" where
  "resultIDs st =
     concat (map (\<lambda>r. case r of None \<Rightarrow> [] | Some e \<Rightarrow> [re_comment e])
       [lr_lead (wu_latest st), lr_implementor (wu_latest st), lr_qa (wu_latest st), wu_blocker st])"

text \<open>The walk from the newest comment back, given newest first.\<close>

fun mandatoryLeads :: "ParsedComment list \<Rightarrow> int list \<Rightarrow> int list" where
  "mandatoryLeads [] ids = ids"
| "mandatoryLeads (p # ps) ids =
     (if leadComment p
      then (let ids' = addID (pc_comment p) ids in
            if int (length ids') \<ge> minimumSafeEvidenceLimit - 1 then ids' else mandatoryLeads ps ids')
      else mandatoryLeads ps ids)"

definition mandatoryIDs :: "WorkUnitState \<Rightarrow> int list" where
  "mandatoryIDs st = mandatoryLeads (rev (wu_comments st)) (foldl (\<lambda>ids i. addID i ids) [] (resultIDs st))"

type_synonym selection = "(int \<times> ParsedComment) list"

definition selectMandatory :: "int list \<Rightarrow> ParsedComment list \<Rightarrow> selection" where
  "selectMandatory ids ps = foldl (\<lambda>sel p. if pc_comment p \<in> set ids then AList.update (pc_comment p) p sel else sel) [] ps"

fun fillNewest :: "int \<Rightarrow> ParsedComment list \<Rightarrow> selection \<Rightarrow> selection" where
  "fillNewest limit [] sel = sel"
| "fillNewest limit (p # ps) sel =
     (if int (length sel) < limit
      then fillNewest limit ps (if map_of sel (pc_comment p) = None then sel @ [(pc_comment p, p)] else sel)
      else sel)"

definition evidenceItem :: "int \<Rightarrow> ParsedComment \<Rightarrow> Evidence" where
  "evidenceItem chars p =
     \<lparr>ev_comment = pc_comment p, ev_author = redactText (pc_author p), ev_url = redactText (pc_url p),
      ev_created = pc_created p, ev_updated = pc_updated p, ev_heading = redactText (pc_heading p),
      ev_markdown = truncateUTF8 (redactText (pc_markdown p)) chars, ev_level = pc_level p,
      ev_event = sanitizeEvent (pc_event p), ev_warnings = sanitizeWarnings (pc_warnings p),
      ev_hard_error = sanitizeProtocolError (pc_hard_error p)\<rparr>"

definition evidenceOrder :: "Evidence \<Rightarrow> int \<times> int" where
  "evidenceOrder e = (ev_created e, ev_comment e)"

definition boundedEvidence :: "WorkUnitState \<Rightarrow> int \<Rightarrow> int \<Rightarrow> Evidence list" where
  "boundedEvidence st limit chars =
     (let selected = fillNewest limit (rev (wu_comments st)) (selectMandatory (mandatoryIDs st) (wu_comments st));
          items = sort_key evidenceOrder (map (\<lambda>(_, p). evidenceItem chars p) selected)
      in if int (length items) > limit then drop (length items - nat limit) items else items)"

subsection \<open>The context\<close>

definition findSnapshotIssue :: "Issue list \<Rightarrow> int \<Rightarrow> int \<Rightarrow> Issue option" where
  "findSnapshotIssue issues githubID issueNumber =
     find (\<lambda>i. is_github_id i = githubID \<and> is_number i = issueNumber) issues"

definition expectedEvent :: "Route \<Rightarrow> string" where
  "expectedEvent route =
     (if rt_target_role route = ''qa'' then ''qa verdict and terminal worker_result''
      else if rt_target_role route = ''lead'' \<or> rt_target_role route = ''implementor'' then ''terminal worker_result''
      else ''none'')"

definition canonicalContext :: "PromptContext \<Rightarrow> PromptContext" where
  "canonicalContext c =
     c\<lparr>px_hash := [], px_warnings := sort_key warningOrder (px_warnings c),
       px_route := (px_route c)\<lparr>rt_guards := sortedUnique (rt_guards (px_route c)),
                                rt_warnings := sanitizeWarnings (rt_warnings (px_route c))\<rparr>,
       px_evidence := sort_key evidenceOrder (px_evidence c)\<rparr>"

definition canonicalContextBytes :: "PromptContext \<Rightarrow> string" where
  "canonicalContextBytes c = jsonText (contextJson JNull (canonicalContext c))"

definition incompleteWarning :: "int \<Rightarrow> Warning" where
  "incompleteWarning issueChars = mkWarning 0 ''issue_contract_incomplete''
     (''authoritative Issue body exceeds PromptContext contract budget of '' @ showInt issueChars @ '' characters'')"

text \<open>The body of the Issue the unit came from, empty when the snapshot has no such Issue.\<close>

definition issueBody :: "ProjectSnapshot \<Rightarrow> WorkUnitState \<Rightarrow> string" where
  "issueBody snapshot st =
     redactText (case findSnapshotIssue (ps_issues snapshot) (wi_issue_github_id (wu_identity st)) (wi_issue_number (wu_identity st)) of
        None \<Rightarrow> [] | Some issue \<Rightarrow> is_body issue)"

definition contextOf :: "ProjectSnapshot \<Rightarrow> WorkUnitState \<Rightarrow> int \<Rightarrow> int \<Rightarrow> int \<Rightarrow> PromptContext" where
  "contextOf snapshot st limit chars issueChars =
     (let p = ps_project snapshot; body = issueBody snapshot st; complete = (int (length body) \<le> issueChars);
          warnings = sanitizeWarnings (wu_warnings st) in
      \<lparr>px_version = 1,
       px_repository = \<lparr>ri_project = pj_id p, ri_owner = redactText (pj_owner p), ri_repository = redactText (pj_repository p),
          ri_workflow_mode = redactText (pj_workflow_mode p)\<rparr>,
       px_issue = \<lparr>ii_github_id = wi_issue_github_id (wu_identity st), ii_number = wi_issue_number (wu_identity st),
          ii_title = redactText (wi_title (wu_identity st)), ii_body = (if complete then body else truncateUTF8 body issueChars),
          ii_url = redactText (wi_url (wu_identity st)), ii_lifecycle = wu_lifecycle st,
          ii_attention = redactAttention (wu_attention st)\<rparr>,
       px_candidate = sanitizeCandidateState (wu_candidate st), px_head = wu_head st, px_ci = sanitizeCI (wu_ci st),
       px_latest = latestSummary (wu_latest st), px_blocker = map_option resultSummary (wu_blocker st),
       px_route = sanitizeRoute (wu_route st), px_expected_event = expectedEvent (wu_route st),
       px_warnings = (if complete then warnings else sanitizeWarnings (warnings @ [incompleteWarning issueChars])),
       px_evidence = boundedEvidence st limit chars, px_hash = []\<rparr>)"

definition withDefault :: "int \<Rightarrow> int \<Rightarrow> int" where
  "withDefault d v = (if v = 0 then d else v)"

definition BuildContext :: "(string \<Rightarrow> string) \<Rightarrow> ProjectSnapshot \<Rightarrow> WorkUnitState \<Rightarrow> ContextOptions \<Rightarrow> string + PromptContext \<times> string" where
  "BuildContext hash snapshot st options =
     (let limit = withDefault 12 (co_evidence options);
          chars = withDefault 4000 (co_chars options);
          issueChars = withDefault 65536 (co_issue_chars options) in
      if limit < minimumSafeEvidenceLimit then Inl ''evidence limit must be at least 8''
      else if chars < 256 then Inl ''evidence character limit must be at least 256''
      else if issueChars < 1024 then Inl ''Issue contract character limit must be at least 1024''
      else (let c = contextOf snapshot st limit chars issueChars;
                c' = c\<lparr>px_hash := hash (canonicalContextBytes c)\<rparr>
            in Inr (c', jsonText (contextJson (JArr []) c'))))"

end
