(* ===== verification/Context_Facts.thy ===== *)
theory Context_Facts
  imports Context_Pack "HOL-Library.Multiset"
begin

text \<open>
  The context is bounded, ordered and complete where it has to be: the limits on comments and
  characters hold, the latest results and the active blocker always stay in the evidence.
\<close>

lemma trimSpace_length: "length (trimSpace s) \<le> length s"
proof -
  have strip: "length (stripLead encs t) \<le> length t" for encs t
    using stripLead_suffix [of t encs] by (metis le_add2 length_append)
  show ?thesis unfolding trimSpace_def trimRightSpace_def trimLeftSpace_def
    by (metis (no_types, lifting) le_trans length_rev strip)
qed

lemma trimInvalid_length: "length (trimInvalid s) \<le> length s"
  by (induction s rule: trimInvalid.induct) (subst trimInvalid.simps, fastforce)

lemma trimInvalid_valid: "validUtf8 (trimInvalid s)"
  by (induction s rule: trimInvalid.induct) (subst trimInvalid.simps, simp)

lemma truncateUTF8_length:
  assumes "limit > 0"
  shows "int (length (truncateUTF8 v limit)) \<le> limit + 15"
proof (cases "int (length v) \<le> limit")
  case False
  have "length (trimSpace (trimInvalid (take (nat limit) v))) \<le> nat limit"
    using trimSpace_length [of "trimInvalid (take (nat limit) v)"] trimInvalid_length [of "take (nat limit) v"] by simp
  then show ?thesis using assms False by (simp add: truncateUTF8_def truncatedMark_def)
qed (use assms in \<open>simp add: truncateUTF8_def\<close>)

subsection \<open>The mandatory comments\<close>

lemma addID_facts: "set (addID i ids) = insert i (set ids)" "length (addID i ids) \<le> Suc (length ids)"
  by (auto simp: addID_def)

lemma fold_addID: "set (foldl (\<lambda>ids i. addID i ids) ids is) = set ids \<union> set is \<and>
    length (foldl (\<lambda>ids i. addID i ids) ids is) \<le> length ids + length is"
proof (induction "is" arbitrary: ids)
  case (Cons i "is")
  have "length (foldl (\<lambda>ids i. addID i ids) (addID i ids) is) \<le> length (addID i ids) + length is" using Cons.IH by blast
  then show ?case using Cons.IH [of "addID i ids"] addID_facts [of i ids] by auto
qed simp

lemma resultIDs_length: "length (resultIDs st) \<le> 4"
  by (auto simp: resultIDs_def split: option.splits)

lemma mandatoryLeads_facts:
  "length ids < 7 \<Longrightarrow> set ids \<subseteq> set (mandatoryLeads ps ids) \<and> length (mandatoryLeads ps ids) \<le> 7"
proof (induction ps arbitrary: ids)
  case (Cons p ps)
  show ?case
  proof (cases "leadComment p \<and> length (addID (pc_comment p) ids) < 7")
    case True
    then show ?thesis using Cons.IH [of "addID (pc_comment p) ids"] addID_facts [of "pc_comment p" ids]
      by (auto simp: Let_def minimumSafeEvidenceLimit_def)
  next
    case False
    then show ?thesis using Cons addID_facts [of "pc_comment p" ids]
      by (auto simp: Let_def minimumSafeEvidenceLimit_def)
  qed
qed simp

lemma mandatoryIDs_facts: "set (resultIDs st) \<subseteq> set (mandatoryIDs st) \<and> length (mandatoryIDs st) \<le> 7"
proof -
  let ?ids = "foldl (\<lambda>ids i. addID i ids) [] (resultIDs st)"
  have f: "set ?ids = set (resultIDs st)" "length ?ids \<le> length (resultIDs st)" using fold_addID [of "[]" "resultIDs st"] by auto
  then have "length ?ids < 7" using resultIDs_length [of st] by linarith
  from mandatoryLeads_facts [OF this] f show ?thesis by (auto simp: mandatoryIDs_def)
qed

subsection \<open>The selection\<close>

text \<open>A selection maps comment ids to comments of the unit.\<close>

definition selects :: "ParsedComment list \<Rightarrow> selection \<Rightarrow> bool" where
  "selects ps sel = (distinct (map fst sel) \<and> (\<forall>(i, p) \<in> set sel. pc_comment p = i \<and> p \<in> set ps))"

lemma selects_update:
  assumes "selects ps sel" "p \<in> set ps"
  shows "selects ps (AList.update (pc_comment p) p sel) \<and>
    fst ` set (AList.update (pc_comment p) p sel) = insert (pc_comment p) (fst ` set sel)"
proof -
  have "x = (pc_comment p, p) \<or> x \<in> set sel" if "x \<in> set (AList.update (pc_comment p) p sel)" for x
    using that by (induction sel) (auto split: if_splits)
  then show ?thesis using assms distinct_update [of sel "pc_comment p" p] dom_update [of "pc_comment p" p sel]
    unfolding selects_def by fast
qed

lemma select_fold:
  assumes "selects ps sel" "set qs \<subseteq> set ps"
  shows "let sel' = foldl (\<lambda>sel p. if pc_comment p \<in> set ids then AList.update (pc_comment p) p sel else sel) sel qs in
    selects ps sel' \<and> fst ` set sel' = fst ` set sel \<union> {i \<in> pc_comment ` set qs. i \<in> set ids}"
  using assms
proof (induction qs arbitrary: sel)
  case (Cons q qs)
  show ?case
  proof (cases "pc_comment q \<in> set ids")
    case True
    have "q \<in> set ps" "set qs \<subseteq> set ps" using Cons.prems by simp_all
    note u = selects_update [OF Cons.prems(1) this(1)]
    from Cons.IH [OF u [THEN conjunct1] \<open>set qs \<subseteq> set ps\<close>] u True show ?thesis by (auto simp: Let_def)
  next
    case False
    with Cons.IH [OF Cons.prems(1)] Cons.prems show ?thesis by (auto simp: Let_def)
  qed
qed simp

lemma selects_length: "selects ps sel \<Longrightarrow> length sel = card (fst ` set sel)"
  unfolding selects_def by (metis distinct_card length_map set_map)

lemma selectMandatory_facts:
  "selects ps (selectMandatory ids ps) \<and> fst ` set (selectMandatory ids ps) = {i \<in> pc_comment ` set ps. i \<in> set ids} \<and>
   length (selectMandatory ids ps) \<le> length ids"
proof -
  have "selects ps []" by (simp add: selects_def)
  from select_fold [OF this subset_refl, of ids]
  have f: "selects ps (selectMandatory ids ps)" "fst ` set (selectMandatory ids ps) = {i \<in> pc_comment ` set ps. i \<in> set ids}"
    by (simp_all add: selectMandatory_def Let_def)
  have "card {i \<in> pc_comment ` set ps. i \<in> set ids} \<le> card (set ids)" by (rule card_mono) auto
  also have "\<dots> \<le> length ids" by (rule card_length)
  finally show ?thesis using f selects_length [OF f(1)] by simp
qed

lemma fillNewest_facts:
  assumes "selects ps sel" "set qs \<subseteq> set ps" "int (length sel) \<le> limit"
  shows "let sel' = fillNewest limit qs sel in selects ps sel' \<and> set sel \<subseteq> set sel' \<and> int (length sel') \<le> limit \<and>
    (int (length sel') < limit \<longrightarrow> pc_comment ` set qs \<subseteq> fst ` set sel')"
  using assms
proof (induction qs arbitrary: sel)
  case (Cons q qs)
  have q: "q \<in> set ps" "set qs \<subseteq> set ps" using Cons.prems by simp_all
  show ?case
  proof (cases "int (length sel) < limit")
    case False
    then show ?thesis using Cons.prems by (simp add: Let_def)
  next
    case room: True
    let ?sel = "if map_of sel (pc_comment q) = None then sel @ [(pc_comment q, q)] else sel"
    have s: "selects ps ?sel" "set sel \<subseteq> set ?sel" "int (length ?sel) \<le> limit" "pc_comment q \<in> fst ` set ?sel"
      using Cons.prems(1) q room by (auto simp: selects_def map_of_eq_None_iff split: if_splits)
    have in_sel': "pc_comment q \<in> fst ` set (fillNewest limit qs ?sel)"
      using Cons.IH [OF s(1) q(2) s(3)] s(4) unfolding Let_def by blast
    have "fillNewest limit (q # qs) sel = fillNewest limit qs ?sel" using room by simp
    moreover have "set sel \<subseteq> set (fillNewest limit qs ?sel)" using Cons.IH [OF s(1) q(2) s(3)] s(2) unfolding Let_def by blast
    moreover have "pc_comment ` set qs \<subseteq> fst ` set (fillNewest limit qs ?sel)" if "int (length (fillNewest limit qs ?sel)) < limit"
      using Cons.IH [OF s(1) q(2) s(3)] that unfolding Let_def by blast
    ultimately show ?thesis using Cons.IH [OF s(1) q(2) s(3)] in_sel' unfolding Let_def by simp
  qed
qed (simp add: Let_def)

subsection \<open>The evidence\<close>

lemma evidence_facts:
  assumes "limit \<ge> 8" "chars > 0"
  shows "int (length (boundedEvidence st limit chars)) \<le> limit"
    and "distinct (map ev_comment (boundedEvidence st limit chars))"
    and "sorted (map evidenceOrder (boundedEvidence st limit chars))"
    and "e \<in> set (boundedEvidence st limit chars) \<Longrightarrow> \<exists>p \<in> set (wu_comments st). e = evidenceItem chars p"
    and "i \<in> set (mandatoryIDs st) \<Longrightarrow> i \<in> pc_comment ` set (wu_comments st) \<Longrightarrow>
      i \<in> ev_comment ` set (boundedEvidence st limit chars)"
    and "int (length (boundedEvidence st limit chars)) < limit \<Longrightarrow>
      pc_comment ` set (wu_comments st) \<subseteq> ev_comment ` set (boundedEvidence st limit chars)"
proof -
  let ?ps = "wu_comments st" and ?m = "mandatoryIDs st"
  let ?sel = "fillNewest limit (rev ?ps) (selectMandatory ?m ?ps)"
  note m = selectMandatory_facts [of ?ps ?m]
  have "int (length (selectMandatory ?m ?ps)) \<le> limit" using m mandatoryIDs_facts [of st] assms(1) by linarith
  from fillNewest_facts [OF m [THEN conjunct1] _ this, of "rev ?ps"]
  have f: "selects ?ps ?sel" "set (selectMandatory ?m ?ps) \<subseteq> set ?sel" "int (length ?sel) \<le> limit"
    "int (length ?sel) < limit \<Longrightarrow> pc_comment ` set ?ps \<subseteq> fst ` set ?sel"
    unfolding Let_def by auto
  have b: "boundedEvidence st limit chars = sort_key evidenceOrder (map (\<lambda>(_, p). evidenceItem chars p) ?sel)"
    using f(3) by (simp add: boundedEvidence_def)
  have ids: "map ev_comment (map (\<lambda>(_, p). evidenceItem chars p) ?sel) = map fst ?sel"
    using f(1) by (auto simp: selects_def evidenceItem_def split: prod.splits)
  then have keys: "ev_comment ` set (boundedEvidence st limit chars) = fst ` set ?sel"
    unfolding b set_sort by (metis list.set_map)
  show "int (length (boundedEvidence st limit chars)) \<le> limit" using f(3) by (simp add: b)
  have "mset (map ev_comment (boundedEvidence st limit chars)) = mset (map fst ?sel)"
    unfolding b using ids by (metis mset_map mset_sort)
  then show "distinct (map ev_comment (boundedEvidence st limit chars))"
    using f(1) mset_eq_imp_distinct_iff unfolding selects_def by blast
  show "sorted (map evidenceOrder (boundedEvidence st limit chars))" by (simp add: b)
  show "\<exists>p \<in> set ?ps. e = evidenceItem chars p" if "e \<in> set (boundedEvidence st limit chars)"
    using that f(1) by (auto simp: b selects_def)
  show "i \<in> ev_comment ` set (boundedEvidence st limit chars)" if "i \<in> set ?m" "i \<in> pc_comment ` set ?ps"
  proof -
    have "i \<in> fst ` set (selectMandatory ?m ?ps)" using m that by simp
    then show ?thesis using f(2) unfolding keys by blast
  qed
  show "pc_comment ` set ?ps \<subseteq> ev_comment ` set (boundedEvidence st limit chars)"
    if "int (length (boundedEvidence st limit chars)) < limit"
    using f(4) that unfolding keys by (simp add: b)
qed

subsection \<open>Properties\<close>

lemma warning_kept:
  assumes "w \<in> set ws" "\<forall>v \<in> set ws. CHR 0x00 \<notin> set (w_code v)"
  shows "w_code w \<in> w_code ` set (sanitizeWarnings ws)"
proof -
  let ?red = "\<lambda>w. w\<lparr>w_message := redactText (w_message w)\<rparr>"
  have "warningKey (?red w) \<in> warningKey ` set (dedup_on warningKey [] (map ?red ws))"
    using assms(1) unfolding dedup_on_keys by simp
  then obtain v where v: "v \<in> set (dedup_on warningKey [] (map ?red ws))" "warningKey v = warningKey (?red w)" by auto
  then obtain u where u: "u \<in> set ws" "v = ?red u" using dedup_on_subset [of warningKey "[]" "map ?red ws"] by auto
  have "v = ?red w" using warningKey_inj [OF v(2)] u assms by simp
  then have "?red w \<in> set (sanitizeWarnings ws)" using v(1) by (simp add: sanitizeWarnings_def)
  then have "w_code (?red w) \<in> w_code ` set (sanitizeWarnings ws)" by (rule imageI)
  then show ?thesis by simp
qed

lemma incomplete_warned:
  assumes "int (length (issueBody snapshot st)) > issueChars" "\<forall>w \<in> set (wu_warnings st). CHR 0x00 \<notin> set (w_code w)"
  shows "''issue_contract_incomplete'' \<in> w_code ` set (px_warnings (contextOf snapshot st limit chars issueChars))"
proof -
  let ?ws = "sanitizeWarnings (wu_warnings st) @ [incompleteWarning issueChars]"
  have "CHR 0x00 \<notin> set (w_code v)" if "v \<in> set (sanitizeWarnings (wu_warnings st))" for v
    using that assms(2) dedup_on_subset [of warningKey "[]"] unfolding sanitizeWarnings_def by fastforce
  then have "\<forall>v \<in> set ?ws. CHR 0x00 \<notin> set (w_code v)" by (auto simp: incompleteWarning_def)
  from warning_kept [OF _ this, of "incompleteWarning issueChars"] show ?thesis
    using assms(1) by (simp add: contextOf_def Let_def incompleteWarning_def)
qed

text \<open>C34. A built context is within its limits. It holds at most the allowed number of comments,
  each once and in order of time and id, each at most the allowed length (plus the mark of a cut);
  the latest result of every role and the active blocker are always among them when the comment
  exists, and nothing is left out below the limit; an Issue body that had to be cut is at most its
  length too and leaves the warning that makes the policy refuse the plan.\<close>

theorem context_bounded:
  assumes "BuildContext hash snapshot st options = Inr (c, doc)"
  defines "limit \<equiv> withDefault 12 (co_evidence options)" and "chars \<equiv> withDefault 4000 (co_chars options)"
    and "issueChars \<equiv> withDefault 65536 (co_issue_chars options)"
  shows "int (length (px_evidence c)) \<le> limit \<and> distinct (map ev_comment (px_evidence c)) \<and>
    sorted (map (\<lambda>e. (ev_created e, ev_comment e)) (px_evidence c)) \<and>
    (\<forall>e \<in> set (px_evidence c). int (length (ev_markdown e)) \<le> chars + 15) \<and>
    (\<forall>r. Some r \<in> {lr_lead (wu_latest st), lr_implementor (wu_latest st), lr_qa (wu_latest st), wu_blocker st} \<and>
       re_comment r \<in> pc_comment ` set (wu_comments st) \<longrightarrow> re_comment r \<in> ev_comment ` set (px_evidence c)) \<and>
    (int (length (px_evidence c)) < limit \<longrightarrow> pc_comment ` set (wu_comments st) \<subseteq> ev_comment ` set (px_evidence c)) \<and>
    int (length (ii_body (px_issue c))) \<le> issueChars + 15 \<and>
    (int (length (issueBody snapshot st)) > issueChars \<and> (\<forall>w \<in> set (wu_warnings st). CHR 0x00 \<notin> set (w_code w)) \<longrightarrow>
       ''issue_contract_incomplete'' \<in> w_code ` set (px_warnings c))"
proof -
  have lim: "limit \<ge> 8" "chars \<ge> 256" "issueChars \<ge> 1024" and c: "px_evidence c = boundedEvidence st limit chars"
    "px_warnings c = px_warnings (contextOf snapshot st limit chars issueChars)"
    "ii_body (px_issue c) = ii_body (px_issue (contextOf snapshot st limit chars issueChars))"
    using assms(1) unfolding limit_def chars_def issueChars_def
    by (auto simp: BuildContext_def Let_def minimumSafeEvidenceLimit_def contextOf_def split: if_splits)
  have e: "limit \<ge> 8" "chars > 0" "issueChars > 0" using lim by auto
  note ev = evidence_facts [OF e(1,2), where st = st]
  have "re_comment r \<in> set (mandatoryIDs st)"
    if "Some r \<in> {lr_lead (wu_latest st), lr_implementor (wu_latest st), lr_qa (wu_latest st), wu_blocker st}" for r
  proof -
    have "re_comment r \<in> set (resultIDs st)" using that by (auto simp: resultIDs_def split: option.splits)
    then show ?thesis using mandatoryIDs_facts [of st] by blast
  qed
  moreover have "int (length (ev_markdown d)) \<le> chars + 15" if d: "d \<in> set (boundedEvidence st limit chars)" for d
    using ev(4) [OF d] truncateUTF8_length [OF e(2)] by (auto simp: evidenceItem_def)
  moreover have "int (length (ii_body (px_issue c))) \<le> issueChars + 15"
    using truncateUTF8_length [OF e(3)] e(3) by (auto simp: c contextOf_def Let_def)
  ultimately show ?thesis using ev incomplete_warned [of issueChars snapshot st limit chars]
    unfolding c evidenceOrder_def [abs_def] by blast
qed

definition sampleUnit :: WorkUnitState where
  "sampleUnit = (deriveWorkUnit sampleProject ''standard'' (sampleIssue [samplePull ''success''] []) Map.empty None)
     \<lparr>wu_comments := [ParseComment 1 3 (sampleComment ''x'')], wu_blocker := Some (sampleBlocked 7)\<rparr>"

definition sampleOptions :: ContextOptions where
  "sampleOptions = \<lparr>co_evidence = 0, co_chars = 0, co_issue_chars = 0\<rparr>"

theorem context_bounded_witness:
  "\<forall>snapshot. case BuildContext id snapshot sampleUnit sampleOptions of
     Inl e \<Rightarrow> False
   | Inr (c, doc) \<Rightarrow> length (px_evidence c) \<le> 12 \<and> 7 \<in> ev_comment ` set (px_evidence c)"
proof
  fix snapshot
  obtain c doc where b: "BuildContext id snapshot sampleUnit sampleOptions = Inr (c, doc)"
    by (simp add: BuildContext_def sampleOptions_def withDefault_def minimumSafeEvidenceLimit_def Let_def)
  have u: "wu_blocker sampleUnit = Some (sampleBlocked 7)" "re_comment (sampleBlocked 7) = 7"
    "7 \<in> pc_comment ` set (wu_comments sampleUnit)"
    by (simp_all add: sampleUnit_def sampleBlocked_def sampleComment_def)
  have "length (px_evidence c) \<le> 12" "7 \<in> ev_comment ` set (px_evidence c)"
    using context_bounded [OF b] u by (auto simp: sampleOptions_def withDefault_def)
  then show "case BuildContext id snapshot sampleUnit sampleOptions of
     Inl e \<Rightarrow> False
   | Inr (c, doc) \<Rightarrow> length (px_evidence c) \<le> 12 \<and> 7 \<in> ev_comment ` set (px_evidence c)" by (simp add: b)
qed

end
