(* ===== verification/Policy.thy ===== *)
theory Policy
  imports Context_Pack
begin

text \<open>
  \<open>planning/policy.go\<close>, \<open>fallback.go\<close> and the canonical text of \<open>plan.go\<close>: the policy that decides on
  a plan against the context it was made for and the context of now, and the deterministic plan
  used when no planner is. SHA-256 and the text of a float are arguments.
\<close>

definition CanonicalPlan :: "PromptPlan \<Rightarrow> PromptPlan" where
  "CanonicalPlan plan = plan\<lparr>pp_guards := sortedUnique (pp_guards plan), pp_prohibited := sortedUnique (pp_prohibited plan)\<rparr>"

definition CanonicalPlanBytes :: "(rat \<Rightarrow> string) \<Rightarrow> PromptPlan \<Rightarrow> string" where
  "CanonicalPlanBytes showFloat plan = jsonText (planJson showFloat (CanonicalPlan plan))"

subsection \<open>Authority a prompt may not grant\<close>

definition mandatoryProhibitedActions :: "string list" where
  "mandatoryProhibitedActions = [''accept_residual_risk'', ''approve_scope_change'', ''browser_dispatch'',
     ''disable_required_ci'', ''github_write'', ''merge'']"

definition requiredPromptSections :: "string list" where
  "requiredPromptSections = [''current objective'', ''authoritative state'', ''required next action'',
     ''scope and constraints'', ''prohibited actions'', ''required evidence'', ''stop conditions'',
     ''initiative clause'', ''terminal worker_result'']"

definition rWords :: "string list \<Rightarrow> rx" where
  "rWords ws = rAlt (map rText ws)"

definition rGap :: rx where
  "rGap = rPlus (RSet spaceChars)"

definition forbiddenAuthorityPatterns :: "rx list" where
  "forbiddenAuthorityPatterns =
     (let filler = rSeq [rGap, rWords [''the'', ''this'', ''that'', ''these'', ''those'', ''current'', ''existing'', ''open'',
                                       ''draft'', ''pending'', ''latest'', ''proposed'', ''my'', ''our'']];
          upTo = (\<lambda>r. rOpt (RSeq filler r)) in
      [rSeq [RBound, rText ''merge'', RBound, upTo (upTo (upTo (upTo REmpty))), rGap,
             rAlt [rSeq [rText ''pull'', rGap, rText ''request''], rText ''pr'', rText ''candidate'', rText ''branch'',
                   rText ''changes'', rText ''it''], RBound],
       rSeq [RBound, rWords [''write'', ''push'', ''commit'', ''comment'', ''label'', ''close'', ''approve''], rGap,
             rWords [''to'', ''on'', ''the''], rGap, rText ''github'', RBound],
       rSeq [RBound, rText ''dispatch'', rGap, rOpt (rSeq [rWords [''through'', ''to''], rGap]), rOpt (rSeq [rText ''a'', rGap]),
             rText ''browser'', RBound],
       rSeq [RBound, rText ''approve'', rGap, rOpt (rSeq [rText ''a'', rGap]), rText ''scope'', rGap, rText ''change'', RBound],
       rSeq [RBound, rText ''accept'', rGap, rOpt (rSeq [rText ''the'', rGap]), rText ''residual'', rGap, rText ''risk'', RBound],
       rSeq [RBound, rText ''disable'', rGap, rOpt (rSeq [rText ''the'', rGap]), rText ''required'', rGap, rText ''ci'', RBound]])"

text \<open>\<open>FindAllStringIndex\<close> for patterns that never match the empty text: the text before and after
  every match.\<close>

function findMatches :: "rx \<Rightarrow> string \<Rightarrow> char option \<Rightarrow> string \<Rightarrow> (string \<times> string) list" where
  "findMatches r seen prev [] = []"
| "findMatches r seen prev (c # cs) =
     (case ends r (prev, c # cs) of
        [] \<Rightarrow> findMatches r (seen @ [c]) (Some c) cs
      | (prev', rest) # _ \<Rightarrow>
          if length rest \<le> length cs
          then (seen, rest) # findMatches r (seen @ take (Suc (length cs) - length rest) (c # cs)) prev' rest
          else findMatches r (seen @ [c]) (Some c) cs)"
  by pat_completeness auto
termination by (relation "measure (\<lambda>(_, _, _, s). length s)") auto

definition matchIsExplicitProhibition :: "string \<times> string \<Rightarrow> bool" where
  "matchIsExplicitProhibition m =
     (case m of (front, behind) \<Rightarrow>
        list_ex (hasSuffix (trimRightCut [CHR '' '', CHR 0x09, CHR '':'', CHR '';'', CHR '','', CHR ''-''] (trimSpace front)))
          [''do not'', ''must not'', ''never'', ''may not'', ''cannot'', ''can not'', ''can'' @ [CHR 0x27] @ ''t'',
           ''forbidden to'', ''prohibited from''] \<or>
        list_ex (hasPrefix (trimSpace behind)) [''is prohibited'', ''is forbidden'', ''is not allowed'', ''is disallowed''])"

definition grantsForbiddenAuthority :: "string \<Rightarrow> bool" where
  "grantsForbiddenAuthority prompt =
     list_ex (\<lambda>line. let low = toLower (trimSpace line) in
        low \<noteq> [] \<and> list_ex (\<lambda>r. list_ex (\<lambda>m. \<not> matchIsExplicitProhibition m) (findMatches r [] None low)) forbiddenAuthorityPatterns)
      (splitLines prompt)"

subsection \<open>The decision\<close>

definition sameStrings :: "string list \<Rightarrow> string list \<Rightarrow> bool" where
  "sameStrings left right = (sortedUnique left = sortedUnique right)"

definition sameRoute :: "Route \<Rightarrow> Route \<Rightarrow> bool" where
  "sameRoute left right =
     (rt_action left = rt_action right \<and> rt_target_role left = rt_target_role right \<and> rt_lane left = rt_lane right \<and>
      rt_expected_head left = rt_expected_head right \<and> rt_reason_code left = rt_reason_code right \<and>
      sameStrings (rt_guards left) (rt_guards right))"

definition hasWarningCode :: "Warning list \<Rightarrow> string \<Rightarrow> bool" where
  "hasWarningCode warnings code = list_ex (\<lambda>w. w_code w = code) warnings"

definition violation :: "bool \<Rightarrow> string \<Rightarrow> string \<Rightarrow> string \<Rightarrow> Violation list" where
  "violation b code field message = (if b then [\<lparr>vi_code = code, vi_field = field, vi_message = message\<rparr>] else [])"

definition routeViolations :: "PromptContext \<Rightarrow> PromptPlan \<Rightarrow> PromptContext \<Rightarrow> Violation list" where
  "routeViolations context plan current =
     (let route = px_route context in
      violation (px_hash context = [] \<or> px_hash current = [] \<or> px_hash context \<noteq> px_hash current) ''stale_context''
        ''source.context_hash'' ''authoritative PromptContext changed after plan context creation'' @
      violation (px_head context \<noteq> px_head current \<or> \<not> sameRoute route (px_route current)) ''stale_route''
        ''expected_head'' ''current Head or deterministic Stage 3 route changed'' @
      violation (hasWarningCode (px_warnings context) ''issue_contract_incomplete'') ''incomplete_issue_contract''
        ''issue.body'' ''authoritative Issue contract exceeded its bounded PromptContext budget'' @
      violation (pp_version plan \<noteq> 1) ''wrong_version'' ''v'' ''PromptPlan version must be 1'' @
      violation (pp_action plan \<noteq> rt_action route) ''wrong_action''
        ''action'' (''action must match Stage 3 route '' @ goQuote (rt_action route)) @
      violation (pp_target_role plan \<noteq> rt_target_role route) ''wrong_role''
        ''target_role'' (''target_role must match Stage 3 route '' @ goQuote (rt_target_role route)) @
      violation (pp_lane plan \<noteq> rt_lane route) ''wrong_lane'' ''lane_key'' ''lane_key must match deterministic Stage 3 route'' @
      violation (pp_expected_head plan \<noteq> px_head context \<or> pp_expected_head plan \<noteq> rt_expected_head route) ''wrong_head''
        ''expected_head'' ''expected_head must equal the exact current Candidate Head'' @
      violation (pp_expected_event plan \<noteq> px_expected_event context) ''wrong_expected_event''
        ''expected_event'' ''expected_event must match the route contract'')"

definition sourceViolations :: "PromptContext \<Rightarrow> PromptPlan \<Rightarrow> Violation list" where
  "sourceViolations context plan =
     (let source = pp_source plan in
      violation (sm_context_hash source \<noteq> px_hash context) ''wrong_context_hash''
        ''source.context_hash'' ''source context_hash must reference the exact PromptContext'' @
      violation (sm_kind source \<noteq> ''opencode'' \<and> sm_kind source \<noteq> ''template_fallback'') ''unsupported_source''
        ''source.kind'' ''source kind must be opencode or template_fallback'' @
      violation (sm_kind source = ''opencode'' \<and> (sm_runtime source \<noteq> ''opencode'' \<or> sm_mode source \<noteq> ''opencode'')) ''wrong_runtime''
        ''source'' ''OpenCode plan must identify runtime and mode as opencode'' @
      violation (sm_kind source = ''template_fallback'' \<and> sm_mode source \<noteq> ''fallback'') ''wrong_fallback_mode''
        ''source.mode'' ''template fallback must identify fallback mode'' @
      violation (pp_confidence plan < 0 \<or> pp_confidence plan > 1) ''invalid_confidence''
        ''confidence'' ''confidence must be between 0 and 1'' @
      violation (blank (pp_summary plan) \<or> blank (pp_reason plan) \<or> blank (pp_risk plan)) ''missing_explanation''
        ''summary'' ''summary, reason and risk must be non-empty'')"

definition authorityViolations :: "PromptContext \<Rightarrow> PromptPlan \<Rightarrow> Violation list" where
  "authorityViolations context plan =
     (let route = px_route context;
          requiresOwner = (rt_action route = ''owner_attention'' \<or> at_kind (ii_attention (px_issue context)) = AttentionOwnerRequired) in
      violation (pp_requires_owner plan \<noteq> requiresOwner) ''wrong_owner_semantics''
        ''requires_owner'' ''requires_owner must match current Owner-attention semantics'' @
      violation (px_blocker context \<noteq> None \<and> rt_action route = ''dispatch'' \<and> rt_target_role route \<noteq> ''lead'') ''active_blocker_bypass''
        ''target_role'' ''active blocker may only route to Lead before another worker'' @
      violation (cs_ambiguous (px_candidate context) \<and> pp_action plan = ''dispatch'') ''ambiguous_candidate_dispatch''
        ''action'' ''ambiguous Candidate cannot produce worker dispatch'' @
      violation (\<not> sameStrings (pp_guards plan) (rt_guards route)) ''wrong_guards''
        ''guards'' ''guards must exactly preserve deterministic Stage 3 route guards'' @
      concat (map (\<lambda>required. violation (required \<notin> set (pp_prohibited plan)) ''missing_prohibition''
        ''prohibited_actions'' (''required prohibition '' @ goQuote required @ '' is missing'')) mandatoryProhibitedActions) @
      violation ([] \<in> set (pp_prohibited plan)) ''invalid_prohibition''
        ''prohibited_actions'' ''prohibited action names must be non-empty'')"

definition workerPromptAllowed :: "PromptPlan \<Rightarrow> bool" where
  "workerPromptAllowed plan =
     (pp_action plan = ''dispatch'' \<or> (pp_action plan = ''manual_attention'' \<and> pp_target_role plan \<noteq> []))"

definition promptViolations :: "PromptContext \<Rightarrow> PromptPlan \<Rightarrow> Violation list" where
  "promptViolations context plan =
     (if \<not> workerPromptAllowed plan
      then violation (\<not> blank (pp_prompt plan)) ''worker_prompt_not_allowed''
             ''prompt'' ''current route must not create a worker-chat prompt''
      else
        let low = toLower (pp_prompt plan); has = containsStr low in
        concat (map (\<lambda>section. violation (\<not> has section) ''missing_prompt_section''
          ''prompt'' (''worker prompt is missing section '' @ goQuote section)) requiredPromptSections) @
        violation (\<not> has ''completed'' \<or> \<not> has ''no_op'' \<or> \<not> has ''blocked'') ''missing_terminal_statuses''
          ''prompt'' ''worker prompt must require completed, no_op or blocked terminal result'' @
        violation (\<not> has ''supervisor:event'' \<or> \<not> has ''worker_result'') ''missing_terminal_contract''
          ''prompt'' ''worker prompt must require the supervisor worker_result envelope'' @
        violation (pp_target_role plan = ''qa'' \<and> \<not> has ''qa verdict contract'') ''missing_qa_contract''
          ''prompt'' ''QA route must include a QA Verdict Contract'' @
        violation (grantsForbiddenAuthority (pp_prompt plan)) ''forbidden_authority''
          ''prompt'' ''prompt grants prohibited merge, GitHub-write, browser, scope, risk or CI authority'' @
        violation ((has ''ci passed'' \<or> has ''ci succeeded'') \<and> toLower (ci_conclusion (px_ci context)) \<noteq> ''success'') ''unsupported_claim''
          ''prompt'' ''prompt claims successful CI that is absent from the exact-Head context'' @
        violation (has ''qa approved'' \<and>
            (case ls_qa (px_latest context) of None \<Rightarrow> True | Some qa \<Rightarrow> rs_verdict qa \<noteq> ''approved'' \<or> \<not> rs_effective qa)) ''unsupported_claim''
          ''prompt'' ''prompt claims QA approval that is absent from authoritative evidence'')"

definition planViolations :: "(rat \<Rightarrow> string) \<Rightarrow> PromptContext \<Rightarrow> PromptPlan \<Rightarrow> PromptContext \<Rightarrow> Violation list" where
  "planViolations showFloat context plan current =
     routeViolations context plan current @ sourceViolations context plan @ authorityViolations context plan @
     promptViolations context plan @
     violation (redactText (CanonicalPlanBytes showFloat plan) \<noteq> CanonicalPlanBytes showFloat plan) ''secret_detected''
       ''plan'' ''PromptPlan contains credential-like material''"

definition decisionStatus :: "Violation list \<Rightarrow> string" where
  "decisionStatus vs =
     (if list_ex (\<lambda>v. hasPrefix (vi_code v) ''stale_'') vs then ''stale'' else if vs = [] then ''approved'' else ''rejected'')"

definition ValidatePlan :: "(string \<Rightarrow> string) \<Rightarrow> (rat \<Rightarrow> string) \<Rightarrow> PromptContext \<Rightarrow> PromptPlan \<Rightarrow> PromptContext \<Rightarrow> gotime
    \<Rightarrow> PolicyDecision" where
  "ValidatePlan hash showFloat context plan current now =
     (let vs = planViolations showFloat context plan current in
      \<lparr>pd_status = decisionStatus vs,
       pd_violations = sort_key (\<lambda>v. (vi_code v, vi_field v, vi_message v)) vs, pd_context_hash = px_hash context,
       pd_plan_hash = hash (CanonicalPlanBytes showFloat plan), pd_decided = now\<rparr>)"

end
