(* ===== verification/Fallback.thy ===== *)
theory Fallback
  imports Policy
begin

text \<open>\<open>planning/fallback.go\<close>: the plan composed from the context without a planner.\<close>

definition blankAs :: "string \<Rightarrow> string \<Rightarrow> string" where
  "blankAs value fallback = (if blank value then fallback else value)"

definition printableHead :: "string \<Rightarrow> string" where
  "printableHead value = blankAs value ''none''"

definition fallbackRisk :: "PromptContext \<Rightarrow> string" where
  "fallbackRisk c =
     (if rt_action (px_route c) = ''owner_attention'' then ''Owner decision is required; no worker prompt is emitted.''
      else if rt_action (px_route c) = ''none'' then ''No safe action is currently routable.''
      else if px_blocker c \<noteq> None then ''An active blocker must be resolved according to the Lead-first route.''
      else ''Static wording is conservative; Stage 3 route and exact-Head guards remain authoritative.'')"

text \<open>What the template takes from the context, and what it always says.\<close>

definition promptObjective :: "PromptContext \<Rightarrow> string list" where
  "promptObjective c =
     [''# Current objective'',
      ''Issue #'' @ showInt (ii_number (px_issue c)) @ '' '' @ [CHR 0xE2, CHR 0x80, CHR 0x94] @ '' '' @ ii_title (px_issue c), [],
      (if blank (ii_body (px_issue c))
       then ''The persisted Issue body is empty. Use the Issue title and authoritative evidence below without inventing requirements.''
       else ii_body (px_issue c)), []]"

definition promptState :: "PromptContext \<Rightarrow> string list" where
  "promptState c =
     [''# Authoritative state'',
      ''Repository: '' @ ri_owner (px_repository c) @ ''/'' @ ri_repository (px_repository c),
      ''Lifecycle: '' @ ii_lifecycle (px_issue c),
      ''Attention: '' @ attentionText (at_kind (ii_attention (px_issue c))) @ '' ('' @ at_code (ii_attention (px_issue c)) @ '')'',
      ''Current Candidate Head: '' @ printableHead (px_head c),
      ''CI: '' @ blankAs (ci_status (px_ci c)) ''unknown'' @ ''/'' @ blankAs (ci_conclusion (px_ci c)) ''unknown'',
      ''Route reason: '' @ rt_reason (px_route c),
      ''Context hash: '' @ px_hash c, [],
      ''# Required next action'',
      ''Act as '' @ rt_target_role (px_route c) @ '' on lane '' @ rt_lane (px_route c) @ ''. Preserve action='' @
        rt_action (px_route c) @ '' and expected Head='' @ printableHead (px_head c) @ ''.'', []]"

definition promptRules :: "string list" where
  "promptRules =
     [''# Scope and constraints'',
      ''Use the authoritative Issue contract embedded above and the repository evidence available to the worker. Keep the implementation or review coherent and inside the approved scope. Stage 3 routing authority cannot be changed by the worker.'', [],
      ''# Prohibited actions'',
      ''Do not merge the pull request.'',
      ''Do not write to GitHub.'',
      ''Do not dispatch through a browser.'',
      ''Do not approve a scope change.'',
      ''Do not accept residual risk.'',
      ''Do not disable required CI.'',
      ''Do not claim checks, commits, handoffs, verdicts, or evidence that do not exist.'', [],
      ''# Required evidence'',
      ''Read all Issue comments and the latest Lead Dispatch through the authorized GitHub transport. Correlate Candidate identity and exact Head before acting. Record exact-Head CI evidence when required.'', [],
      ''# Stop conditions'',
      ''Stop with blocked only when continuation requires a real external decision, missing mandatory information, unavailable permissions, or infrastructure. Do not block on ordinary engineering uncertainty that can be resolved by repository reads, tests, standard design choices, or a focused experiment.'', [],
      ''# Initiative Clause'',
      ''The absence of a named file, function, or technical step is not a prohibition. Supporting work necessary for a safe coherent outcome remains in scope unless the authoritative contract forbids it.'', []]"

definition promptVerdict :: "string list" where
  "promptVerdict =
     [''# QA Verdict Contract'',
      ''Review the exact current Head independently. Publish one verdict: approved, changes_required, or inconclusive, with exact evidence and the reviewed Head. Do not repair the Candidate as QA.'', []]"

definition promptResult :: "string list" where
  "promptResult =
     [''# Terminal worker_result'',
      ''Before ending, publish one human-readable Issue result and exactly one live `<!-- supervisor:event ... -->` envelope with event=`worker_result`, the routed role, and status=`completed`, `no_op`, or `blocked`. Candidate-bound completed/no_op results must include the exact full Head. QA must also include the verdict. Even no-op work requires the terminal result.'']"

definition fallbackPrompt :: "PromptContext \<Rightarrow> string" where
  "fallbackPrompt c =
     bulletin (promptObjective c @ promptState c @ promptRules @
       (if rt_target_role (px_route c) = ''qa'' then promptVerdict else []) @ promptResult)"

definition RenderFallback :: "PromptContext \<Rightarrow> PromptPlan" where
  "RenderFallback c =
     \<lparr>pp_version = 1, pp_action = rt_action (px_route c), pp_target_role = rt_target_role (px_route c), pp_lane = rt_lane (px_route c),
      pp_summary = ''Deterministic worker prompt composed from the persisted GitHub snapshot and Stage 3 route.'',
      pp_reason = rt_reason (px_route c), pp_risk = fallbackRisk c,
      pp_requires_owner = (rt_action (px_route c) = ''owner_attention''),
      pp_expected_head = px_head c, pp_expected_event = px_expected_event c, pp_guards = rt_guards (px_route c),
      pp_prohibited = mandatoryProhibitedActions,
      pp_prompt = (if rt_action (px_route c) = ''dispatch'' \<or> (rt_action (px_route c) = ''manual_attention'' \<and> rt_target_role (px_route c) \<noteq> [])
                   then fallbackPrompt c else []),
      pp_confidence = 1,
      pp_source = \<lparr>sm_kind = ''template_fallback'', sm_runtime = ''static_template'', sm_provider = [], sm_model = [], sm_agent = [],
        sm_mode = ''fallback'', sm_context_hash = px_hash c\<rparr>,
      pp_extensions = []\<rparr>"

end
