(* ===== verification/Plan_Text.thy ===== *)
theory Plan_Text
  imports Policy Marker
begin

text \<open>
  \<open>planning/plan.go\<close>: the reader of a planner's response. The response is one JSON object with every
  required field; it is decoded like any Go struct (names without regard to case, members in the
  order of their sorted names, the last of equal names only), and what it says beyond the struct is
  kept as extensions when it is small and free of credentials. \<open>strconv.ParseFloat\<close>, which makes a
  float64 from the text of a number or fails, is an argument. A \<open>null\<close> inside an array of strings is
  read as the empty string.
\<close>

definition requiredPlanFields :: "string list" where
  "requiredPlanFields = [''v'', ''action'', ''target_role'', ''lane_key'', ''summary'', ''reason'', ''risk'', ''requires_owner'',
     ''expected_head'', ''expected_event'', ''guards'', ''prohibited_actions'', ''prompt'', ''confidence'', ''source'']"

definition knownPlanFields :: "string list" where
  "knownPlanFields = requiredPlanFields @ [''extensions'']"

definition maxPlanResponseBytes :: nat where
  "maxPlanResponseBytes = 262144"

subsection \<open>Raw members: name, text and value\<close>

type_synonym rawMember = "string \<times> string \<times> json"

text \<open>The members of an object, from the text after its brace; \<open>fuel\<close> bounds their number.\<close>

fun rawMembers :: "string \<Rightarrow> string \<Rightarrow> rawMember list" where
  "rawMembers [] s = []"
| "rawMembers (_ # fuel) s =
     (case skipWs s of
        [] \<Rightarrow> []
      | c # s1 \<Rightarrow>
          if c \<noteq> CHR 0x22 then []
          else (case scanStr SPlain s1 of
                  None \<Rightarrow> []
                | Some (us, r) \<Rightarrow>
                    (let r1 = skipWs (tl (skipWs r)) in
                     case decodeFirst r1 of
                       None \<Rightarrow> []
                     | Some (v, r2) \<Rightarrow>
                         (decodeUnits us, take (length r1 - length r2) r1, v) #
                         (if hasPrefix (skipWs r2) '','' then rawMembers fuel (tl (skipWs r2)) else []))))"

text \<open>\<open>json.Marshal\<close> of a raw message: without white space between tokens, and with the characters
  \<open>encoding/json\<close> escapes in HTML escaped.\<close>

definition htmlUnit :: "char \<Rightarrow> string" where
  "htmlUnit c = (if c \<in> set ''<>&'' then escapeUnit c else [c])"

fun compactText :: "bool \<Rightarrow> string \<Rightarrow> string" where
  "compactText inside [] = []"
| "compactText inside (c # cs) =
     (if inside then
        (if c = CHR 0x5C then (case cs of [] \<Rightarrow> [c] | d # ds \<Rightarrow> c # d # compactText True ds)
         else if lineSeparator (c # cs)
         then [CHR 0x5C, CHR ''u'', CHR ''2'', CHR ''0'', CHR ''2'',
               if cs ! 1 = CHR 0xA8 then CHR ''8'' else CHR ''9''] @ compactText True (drop 2 cs)
         else htmlUnit c @ compactText (c \<noteq> CHR 0x22) cs)
      else if jsonSpace c then compactText False cs
      else c # compactText (c = CHR 0x22) cs)"

subsection \<open>Credentials in extensions\<close>

fun containsCredentialMaterial :: "json \<Rightarrow> bool" where
  "containsCredentialMaterial (JStr s) = (redactText s \<noteq> s)"
| "containsCredentialMaterial (JArr vs) = list_ex containsCredentialMaterial vs"
| "containsCredentialMaterial (JObj ms) = list_ex (\<lambda>(k, v). credentialKey k \<or> containsCredentialMaterial v) ms"
| "containsCredentialMaterial v = False"

text \<open>The value is decoded into maps first, which keep the last of equal names.\<close>

fun lastOnly :: "json \<Rightarrow> json" where
  "lastOnly (JArr vs) = JArr (map lastOnly vs)"
| "lastOnly (JObj ms) = JObj (lastMembers (map (\<lambda>(k, v). (k, lastOnly v)) ms))"
| "lastOnly v = v"

definition safeExtension :: "string \<times> json \<Rightarrow> bool" where
  "safeExtension value = (length (fst value) \<le> 16384 \<and> \<not> containsCredentialMaterial (lastOnly (snd value)))"

subsection \<open>Decoding\<close>

record planDecoding =
  dp_plan :: PromptPlan
  dp_extensions :: "rawMember list"
  dp_ok :: bool

definition zeroSource :: SourceMetadata where
  "zeroSource = \<lparr>sm_kind = [], sm_runtime = [], sm_provider = [], sm_model = [], sm_agent = [], sm_mode = [], sm_context_hash = []\<rparr>"

definition zeroPlan :: PromptPlan where
  "zeroPlan = \<lparr>pp_version = 0, pp_action = [], pp_target_role = [], pp_lane = [], pp_summary = [], pp_reason = [], pp_risk = [],
     pp_requires_owner = False, pp_expected_head = [], pp_expected_event = [], pp_guards = [], pp_prohibited = [], pp_prompt = [],
     pp_confidence = 0, pp_source = zeroSource, pp_extensions = []\<rparr>"

definition bad :: "planDecoding \<Rightarrow> planDecoding" where
  "bad d = d\<lparr>dp_ok := False\<rparr>"

definition putText :: "json \<Rightarrow> (string \<Rightarrow> PromptPlan \<Rightarrow> PromptPlan) \<Rightarrow> planDecoding \<Rightarrow> planDecoding" where
  "putText v put d = (case v of JStr s \<Rightarrow> d\<lparr>dp_plan := put s (dp_plan d)\<rparr> | JNull \<Rightarrow> d | _ \<Rightarrow> bad d)"

definition putTexts :: "json \<Rightarrow> (string list \<Rightarrow> PromptPlan \<Rightarrow> PromptPlan) \<Rightarrow> planDecoding \<Rightarrow> planDecoding" where
  "putTexts v put d =
     (case v of
        JArr vs \<Rightarrow>
          (if list_all (\<lambda>x. case x of JStr _ \<Rightarrow> True | JNull \<Rightarrow> True | _ \<Rightarrow> False) vs then d else bad d)
            \<lparr>dp_plan := put (map (\<lambda>x. case x of JStr s \<Rightarrow> s | _ \<Rightarrow> []) vs) (dp_plan d)\<rparr>
      | JNull \<Rightarrow> d\<lparr>dp_plan := put [] (dp_plan d)\<rparr>
      | _ \<Rightarrow> bad d)"

definition sourceField :: "string \<times> json \<Rightarrow> SourceMetadata \<times> bool \<Rightarrow> SourceMetadata \<times> bool" where
  "sourceField kv sb =
     (case sb of (s, ok) \<Rightarrow>
       let key = foldKey (fst kv);
           put = (\<lambda>f. case snd kv of JStr t \<Rightarrow> (f t, ok) | JNull \<Rightarrow> (s, ok) | _ \<Rightarrow> (s, False)) in
       if key = ''KIND'' then put (\<lambda>t. s\<lparr>sm_kind := t\<rparr>)
       else if key = ''RUNTIME'' then put (\<lambda>t. s\<lparr>sm_runtime := t\<rparr>)
       else if key = ''PROVIDER'' then put (\<lambda>t. s\<lparr>sm_provider := t\<rparr>)
       else if key = ''MODEL'' then put (\<lambda>t. s\<lparr>sm_model := t\<rparr>)
       else if key = ''AGENT'' then put (\<lambda>t. s\<lparr>sm_agent := t\<rparr>)
       else if key = ''MODE'' then put (\<lambda>t. s\<lparr>sm_mode := t\<rparr>)
       else if key = ''CONTEXT_HASH'' then put (\<lambda>t. s\<lparr>sm_context_hash := t\<rparr>)
       else (s, ok))"

definition putSource :: "json \<Rightarrow> planDecoding \<Rightarrow> planDecoding" where
  "putSource v d =
     (case v of
        JObj ms \<Rightarrow> (case fold sourceField ms (pp_source (dp_plan d), True) of
                     (s, ok) \<Rightarrow> d\<lparr>dp_plan := (dp_plan d)\<lparr>pp_source := s\<rparr>, dp_ok := dp_ok d \<and> ok\<rparr>)
      | JNull \<Rightarrow> d
      | _ \<Rightarrow> bad d)"

definition putExtensions :: "string \<Rightarrow> json \<Rightarrow> planDecoding \<Rightarrow> planDecoding" where
  "putExtensions text v d =
     (case v of
        JObj ms \<Rightarrow> (let t = compactText False text in
                    d\<lparr>dp_extensions := dp_extensions d @ rawMembers t (tl t)\<rparr>)
      | JNull \<Rightarrow> d\<lparr>dp_extensions := []\<rparr>
      | _ \<Rightarrow> bad d)"

definition planField :: "(string \<Rightarrow> rat option) \<Rightarrow> rawMember \<Rightarrow> planDecoding \<Rightarrow> planDecoding" where
  "planField parseFloat m d =
     (case m of (name, text, v) \<Rightarrow>
       let key = foldKey name; p = dp_plan d in
       if key = ''V'' then
         (case v of JNull \<Rightarrow> d | _ \<Rightarrow> (case jsonInt v of None \<Rightarrow> bad d | Some i \<Rightarrow> d\<lparr>dp_plan := p\<lparr>pp_version := i\<rparr>\<rparr>))
       else if key = ''ACTION'' then putText v (\<lambda>s p. p\<lparr>pp_action := s\<rparr>) d
       else if key = ''TARGET_ROLE'' then putText v (\<lambda>s p. p\<lparr>pp_target_role := s\<rparr>) d
       else if key = ''LANE_KEY'' then putText v (\<lambda>s p. p\<lparr>pp_lane := s\<rparr>) d
       else if key = ''SUMMARY'' then putText v (\<lambda>s p. p\<lparr>pp_summary := s\<rparr>) d
       else if key = ''REASON'' then putText v (\<lambda>s p. p\<lparr>pp_reason := s\<rparr>) d
       else if key = ''RISK'' then putText v (\<lambda>s p. p\<lparr>pp_risk := s\<rparr>) d
       else if key = ''REQUIRES_OWNER'' then
         (case v of JBool b \<Rightarrow> d\<lparr>dp_plan := p\<lparr>pp_requires_owner := b\<rparr>\<rparr> | JNull \<Rightarrow> d | _ \<Rightarrow> bad d)
       else if key = ''EXPECTED_HEAD'' then putText v (\<lambda>s p. p\<lparr>pp_expected_head := s\<rparr>) d
       else if key = ''EXPECTED_EVENT'' then putText v (\<lambda>s p. p\<lparr>pp_expected_event := s\<rparr>) d
       else if key = ''GUARDS'' then putTexts v (\<lambda>ss p. p\<lparr>pp_guards := ss\<rparr>) d
       else if key = ''PROHIBITED_ACTIONS'' then putTexts v (\<lambda>ss p. p\<lparr>pp_prohibited := ss\<rparr>) d
       else if key = ''PROMPT'' then putText v (\<lambda>s p. p\<lparr>pp_prompt := s\<rparr>) d
       else if key = ''CONFIDENCE'' then
         (case v of JNull \<Rightarrow> d
          | JNum t \<Rightarrow> (case parseFloat t of None \<Rightarrow> bad d | Some q \<Rightarrow> d\<lparr>dp_plan := p\<lparr>pp_confidence := q\<rparr>\<rparr>)
          | _ \<Rightarrow> bad d)
       else if key = ''SOURCE'' then putSource v d
       else if key = ''EXTENSIONS'' then putExtensions text v d
       else d)"

definition decodePlan :: "(string \<Rightarrow> rat option) \<Rightarrow> rawMember list \<Rightarrow> planDecoding" where
  "decodePlan parseFloat raw = fold (planField parseFloat) raw \<lparr>dp_plan = zeroPlan, dp_extensions = [], dp_ok = True\<rparr>"

text \<open>The safe ones of both, keyed; a top-level member replaces an extension of its name.\<close>

definition planExtensions :: "rawMember list \<Rightarrow> rawMember list \<Rightarrow> jobject" where
  "planExtensions own raw =
     lastMembers (map (\<lambda>(k, _, v). (k, v)) (filter (safeExtension \<circ> snd) (lastMembers own)) @
                  map (\<lambda>(k, _, v). (k, v)) (filter (\<lambda>m. fst m \<notin> set knownPlanFields \<and> safeExtension (snd m)) raw))"

definition ParsePlan :: "(rat \<Rightarrow> string) \<Rightarrow> (string \<Rightarrow> rat option) \<Rightarrow> string \<Rightarrow> string + PromptPlan \<times> string" where
  "ParsePlan showFloat parseFloat output =
     (if length output > maxPlanResponseBytes then Inl ''structured response exceeds 262144 bytes''
      else (case decodeFirst output of
              None \<Rightarrow> Inl ''malformed JSON''
            | Some (v, rest) \<Rightarrow>
                if \<not> (case v of JObj _ \<Rightarrow> True | JNull \<Rightarrow> True | _ \<Rightarrow> False) then Inl ''malformed JSON''
                else if skipWs rest \<noteq> [] then Inl ''structured response must contain exactly one JSON object''
                else
                  let raw = (if v = JNull then [] else lastMembers (rawMembers output (tl (skipWs output)))) in
                  if \<not> list_all (\<lambda>f. f \<in> fst ` set raw) requiredPlanFields then Inl ''missing required field''
                  else
                    let d = decodePlan parseFloat raw in
                    if \<not> dp_ok d then Inl ''decode PromptPlan''
                    else let plan = (dp_plan d)\<lparr>pp_extensions := planExtensions (dp_extensions d) raw\<rparr>
                         in Inr (plan, CanonicalPlanBytes showFloat plan)))"

text \<open>What a planner adds to its plan is small, and nothing in it looks like a credential.\<close>

lemma ParsePlan_extensions:
  assumes "ParsePlan showFloat parseFloat output = Inr (plan, text)" "(k, v) \<in> set (pp_extensions plan)"
  shows "\<not> containsCredentialMaterial (lastOnly v)"
proof -
  have sub: "set (lastMembers ms) \<subseteq> set ms" for ms :: "(string \<times> 'a) list"
    using dedup_on_subset [of fst "[]" "rev ms"] by (simp add: lastMembers_def)
  obtain own raw where "pp_extensions plan = planExtensions own raw"
    using assms(1) by (auto simp: ParsePlan_def Let_def split: if_splits option.splits)
  with assms(2) have "(k, v) \<in> set (planExtensions own raw)" by simp
  then have "(k, v) \<in> set (map (\<lambda>(k, _, v). (k, v)) (filter (safeExtension \<circ> snd) (lastMembers own)) @
      map (\<lambda>(k, _, v). (k, v)) (filter (\<lambda>m. fst m \<notin> set knownPlanFields \<and> safeExtension (snd m)) raw))"
    unfolding planExtensions_def using sub by blast
  then show ?thesis by (auto simp: safeExtension_def)
qed

end
