(* ===== verification/Planning_Service.thy ===== *)
theory Planning_Service
  imports Fallback Plan_Text
begin

text \<open>
  \<open>planning/service.go\<close> and \<open>store.go\<close>: the generation of a plan by an external planner with one
  repair attempt, the fallback, the audit table, and the reading of stored plans, which are stale as
  soon as the context they were made for is not the context of now. The planner, the clock and the
  snapshots are arguments: moment \<open>0\<close> is the start of a call, moment \<open>k + 1\<close> the check of attempt \<open>k\<close>,
  moment \<open>3\<close> the check of the fallback. The concurrent calls that share one generation in flight get
  its result; one call is modelled. A JSON column is the tree it spells.
\<close>

subsection \<open>types.go, planner.go and store.go\<close>

record Usage =
  us_input :: int
  us_output :: int
  us_reasoning :: int
  us_cache_read :: int
  us_cache_write :: int
  us_cost :: int

record PlannerRequest =
  pq_context :: string
  pq_attempt :: int
  pq_violations :: "Violation list"

record PlannerResponse =
  pa_output :: string
  pa_provider :: string
  pa_model :: string
  pa_usage :: Usage

record PlannerMetadata =
  md_enabled :: bool
  md_runtime :: string
  md_provider :: string
  md_model :: string
  md_agent :: string

record PolicyAuditDecision =
  ad_attempt :: int
  ad_decision :: PolicyDecision

record InvocationRecord =
  iv_attempt :: int
  iv_runtime :: string
  iv_provider :: string
  iv_model :: string
  iv_agent :: string
  iv_mode :: string
  iv_latency :: int
  iv_status :: string
  iv_error :: string
  iv_usage :: Usage
  iv_output :: string
  iv_started :: gotime
  iv_completed :: gotime

record GenerationRecord =
  gn_id :: int
  gn_project :: int
  gn_issue :: int
  gn_mode :: string
  gn_status :: string
  gn_context :: PromptContext
  gn_plan :: "PromptPlan option"
  gn_decision :: PolicyDecision
  gn_history :: "PolicyAuditDecision list"
  gn_invocations :: "InvocationRecord list"
  gn_created :: gotime

datatype planning_error = PlanNotFound | PlanningError string | AuditConstraint

record AuditStore =
  as_rows :: "GenerationRecord list"
  as_next :: int

text \<open>The \<open>CHECK\<close> and \<open>UNIQUE\<close> constraints of the four tables (\<open>0003_prompt_planning.sql\<close>).\<close>

definition knownMode :: "string \<Rightarrow> bool" where
  "knownMode m = oneOf m [''opencode'', ''fallback'']"

definition knownStatus :: "string \<Rightarrow> bool" where
  "knownStatus s = oneOf s [''approved'', ''rejected'', ''stale'', ''fallback'', ''planner_error'']"

definition auditRow :: "GenerationRecord \<Rightarrow> bool" where
  "auditRow r =
     (knownMode (gn_mode r) \<and> knownStatus (gn_status r) \<and>
      list_all (\<lambda>i. 0 \<le> iv_attempt i \<and> iv_attempt i \<le> 1 \<and> 0 \<le> iv_latency i div 1000000) (gn_invocations r) \<and>
      distinct (map iv_attempt (gn_invocations r)) \<and>
      (case gn_plan r of None \<Rightarrow> True | Some p \<Rightarrow> oneOf (sm_kind (pp_source p)) [''opencode'', ''template_fallback'']) \<and>
      list_all (\<lambda>d. -1 \<le> ad_attempt d \<and> ad_attempt d \<le> 1 \<and> knownStatus (pd_status (ad_decision d))) (gn_history r) \<and>
      knownStatus (pd_status (gn_decision r)))"

text \<open>\<open>Save\<close>: one transaction; the final decision is stored after the history.\<close>

definition SaveGeneration :: "GenerationRecord \<Rightarrow> AuditStore \<Rightarrow> AuditStore \<times> (planning_error + int)" where
  "SaveGeneration r st =
     (if auditRow r
      then (\<lparr>as_rows = as_rows st @ [r\<lparr>gn_id := as_next st\<rparr>], as_next = as_next st + 1\<rparr>, Inr (as_next st))
      else (st, Inl AuditConstraint))"

text \<open>What reading gives back: plans in canonical form, invocations without their output and with
  whole milliseconds, in the order of their attempts, and no history.\<close>

definition storedInvocation :: "InvocationRecord \<Rightarrow> InvocationRecord" where
  "storedInvocation i = i\<lparr>iv_output := [], iv_latency := (iv_latency i div 1000000) * 1000000\<rparr>"

definition readBack :: "GenerationRecord \<Rightarrow> GenerationRecord" where
  "readBack r =
     r\<lparr>gn_plan := map_option (\<lambda>p. (CanonicalPlan p)\<lparr>pp_extensions := sort_key fst (pp_extensions p)\<rparr>) (gn_plan r),
       gn_history := [], gn_invocations := sort_key iv_attempt (map storedInvocation (gn_invocations r))\<rparr>"

definition unitRows :: "int \<Rightarrow> int \<Rightarrow> AuditStore \<Rightarrow> GenerationRecord list" where
  "unitRows projectID issueNumber st = filter (\<lambda>r. gn_project r = projectID \<and> gn_issue r = issueNumber) (as_rows st)"

definition AuditGet :: "int \<Rightarrow> int \<Rightarrow> int \<Rightarrow> AuditStore \<Rightarrow> planning_error + GenerationRecord" where
  "AuditGet projectID issueNumber generationID st =
     (case find (\<lambda>r. gn_id r = generationID) (unitRows projectID issueNumber st) of
        None \<Rightarrow> Inl PlanNotFound | Some r \<Rightarrow> Inr (readBack r))"

definition newestFirst :: "int \<Rightarrow> int \<Rightarrow> AuditStore \<Rightarrow> GenerationRecord list" where
  "newestFirst projectID issueNumber st = rev (sort_key gn_id (unitRows projectID issueNumber st))"

definition AuditLatest :: "int \<Rightarrow> int \<Rightarrow> AuditStore \<Rightarrow> planning_error + GenerationRecord" where
  "AuditLatest projectID issueNumber st =
     (case newestFirst projectID issueNumber st of [] \<Rightarrow> Inl PlanNotFound | r # _ \<Rightarrow> Inr (readBack r))"

definition AuditHistory :: "int \<Rightarrow> int \<Rightarrow> int \<Rightarrow> AuditStore \<Rightarrow> GenerationRecord list" where
  "AuditHistory projectID issueNumber limit0 st =
     (let limit = (if limit0 \<le> 0 \<or> limit0 > 100 then 20 else limit0)
      in map readBack (take (nat limit) (newestFirst projectID issueNumber st)))"

subsection \<open>service.go\<close>

record PlanEnv =
  pe_hash :: "string \<Rightarrow> string"
  pe_show_float :: "rat \<Rightarrow> string"
  pe_parse_float :: "string \<Rightarrow> rat option"
  pe_options :: ContextOptions
  pe_fallback :: bool
  pe_metadata :: PlannerMetadata
  pe_planner :: "PlannerRequest \<Rightarrow> string + PlannerResponse"
  pe_snapshot :: "int \<Rightarrow> int \<Rightarrow> ProjectSnapshot option"
  pe_cache :: "int \<Rightarrow> externalCache"
  pe_started :: "int \<Rightarrow> gotime"
  pe_completed :: "int \<Rightarrow> gotime"
  pe_created :: gotime
  pe_decided :: gotime

definition freshContext :: "PlanEnv \<Rightarrow> int \<Rightarrow> int \<Rightarrow> int \<Rightarrow> planning_error + PromptContext \<times> string" where
  "freshContext env moment projectID issueNumber =
     (case pe_snapshot env moment projectID of
        None \<Rightarrow> Inl PlanNotFound
      | Some snapshot \<Rightarrow>
          (case FindWorkUnit (DeriveProject (pe_cache env moment) snapshot) issueNumber of
             None \<Rightarrow> Inl PlanNotFound
           | Some unit \<Rightarrow>
               (case BuildContext (pe_hash env) snapshot unit (pe_options env) of
                  Inl e \<Rightarrow> Inl (PlanningError e) | Inr c \<Rightarrow> Inr c)))"

text \<open>The decision kept with a plan that was not made, and the call of a planner that was not made.\<close>

definition noUsage :: Usage where
  "noUsage = \<lparr>us_input = 0, us_output = 0, us_reasoning = 0, us_cache_read = 0, us_cache_write = 0, us_cost = 0\<rparr>"

definition noDecision :: PolicyDecision where
  "noDecision = \<lparr>pd_status = [], pd_violations = [], pd_context_hash = [], pd_plan_hash = [], pd_decided = 0\<rparr>"

definition plannerDecision :: "PlanEnv \<Rightarrow> PromptContext \<Rightarrow> Violation list \<Rightarrow> PolicyDecision" where
  "plannerDecision env c vs =
     \<lparr>pd_status = ''planner_error'', pd_violations = vs, pd_context_hash = px_hash c, pd_plan_hash = [], pd_decided = pe_decided env\<rparr>"

definition persist :: "PlanEnv \<Rightarrow> int \<Rightarrow> int \<Rightarrow> string \<Rightarrow> string \<Rightarrow> PromptContext \<Rightarrow> PromptPlan option \<Rightarrow> PolicyDecision
    \<Rightarrow> PolicyAuditDecision list \<Rightarrow> InvocationRecord list \<Rightarrow> AuditStore \<Rightarrow> AuditStore \<times> (planning_error + GenerationResult)" where
  "persist env p n mode status c plan decision history invocations st =
     (case SaveGeneration \<lparr>gn_id = 0, gn_project = p, gn_issue = n, gn_mode = mode, gn_status = status, gn_context = c,
              gn_plan = plan, gn_decision = decision, gn_history = history, gn_invocations = invocations,
              gn_created = pe_created env\<rparr> st of
        (st', Inl e) \<Rightarrow> (st', Inl e)
      | (st', Inr i) \<Rightarrow> (st', Inr \<lparr>gr_status = status, gr_context = c, gr_plan = plan, gr_decision = decision, gr_plan_id = i,
                                gr_created = pe_created env\<rparr>))"

definition persistFallback :: "PlanEnv \<Rightarrow> int \<Rightarrow> int \<Rightarrow> string \<Rightarrow> PromptContext \<Rightarrow> InvocationRecord list \<Rightarrow> PolicyAuditDecision list
    \<Rightarrow> AuditStore \<Rightarrow> AuditStore \<times> (planning_error + GenerationResult)" where
  "persistFallback env p n mode c invocations history st =
     (let plan = RenderFallback c in
      case freshContext env 3 p n of
        Inl e \<Rightarrow> (st, Inl e)
      | Inr (current, _) \<Rightarrow>
          (let decision = ValidatePlan (pe_hash env) (pe_show_float env) c plan current (pe_decided env);
               status = (if pd_status decision \<noteq> ''approved'' then pd_status decision else ''fallback'')
           in persist env p n mode status c (Some plan) decision history invocations st))"

definition persistPlannerError :: "PlanEnv \<Rightarrow> int \<Rightarrow> int \<Rightarrow> string \<Rightarrow> PromptContext \<Rightarrow> InvocationRecord list
    \<Rightarrow> PolicyAuditDecision list \<Rightarrow> string \<Rightarrow> AuditStore \<Rightarrow> AuditStore \<times> (planning_error + GenerationResult)" where
  "persistPlannerError env p n mode c invocations history category st =
     persist env p n mode ''planner_error'' c None
       (plannerDecision env c [\<lparr>vi_code = ''planner_error'', vi_field = ''runtime'', vi_message = category\<rparr>]) history invocations st"

definition withoutPlanner :: "PlanEnv \<Rightarrow> int \<Rightarrow> int \<Rightarrow> string \<Rightarrow> PromptContext \<Rightarrow> InvocationRecord list
    \<Rightarrow> PolicyAuditDecision list \<Rightarrow> string \<Rightarrow> AuditStore \<Rightarrow> AuditStore \<times> (planning_error + GenerationResult)" where
  "withoutPlanner env p n mode c invocations history category st =
     (if pe_fallback env then persistFallback env p n mode c invocations history st
      else persistPlannerError env p n mode c invocations history category st)"

definition invocation :: "PlanEnv \<Rightarrow> string \<Rightarrow> int \<Rightarrow> InvocationRecord" where
  "invocation env mode k =
     \<lparr>iv_attempt = k, iv_runtime = md_runtime (pe_metadata env), iv_provider = md_provider (pe_metadata env),
      iv_model = md_model (pe_metadata env), iv_agent = md_agent (pe_metadata env), iv_mode = mode,
      iv_latency = pe_completed env k - pe_started env k, iv_status = [], iv_error = [], iv_usage = noUsage, iv_output = [],
      iv_started = pe_started env k, iv_completed = pe_completed env k\<rparr>"

definition plannerSource :: "PlanEnv \<Rightarrow> PlannerResponse \<Rightarrow> PromptContext \<Rightarrow> SourceMetadata" where
  "plannerSource env response c =
     \<lparr>sm_kind = ''opencode'', sm_runtime = ''opencode'', sm_provider = pa_provider response, sm_model = pa_model response,
      sm_agent = md_agent (pe_metadata env), sm_mode = ''opencode'', sm_context_hash = px_hash c\<rparr>"

definition malformedDecision :: "PlanEnv \<Rightarrow> PromptContext \<Rightarrow> int \<Rightarrow> string \<Rightarrow> PolicyDecision" where
  "malformedDecision env c k e =
     \<lparr>pd_status = ''rejected'', pd_violations = [\<lparr>vi_code = ''malformed_json'', vi_field = ''response'', vi_message = redactText e\<rparr>],
      pd_context_hash = px_hash c, pd_plan_hash = [], pd_decided = pe_completed env k\<rparr>"

text \<open>The attempts that are left, the last decision, the invocations and decisions so far.\<close>

fun attempts :: "PlanEnv \<Rightarrow> int \<Rightarrow> int \<Rightarrow> string \<Rightarrow> PromptContext \<Rightarrow> string \<Rightarrow> int list \<Rightarrow> PolicyDecision \<Rightarrow> InvocationRecord list
    \<Rightarrow> PolicyAuditDecision list \<Rightarrow> AuditStore \<Rightarrow> AuditStore \<times> (planning_error + GenerationResult)" where
  "attempts env p n mode c contextJSON [] prior invocations history st =
     (if pe_fallback env then persistFallback env p n mode c invocations history st
      else persist env p n mode ''planner_error'' c None
             (plannerDecision env c (pd_violations prior @ [\<lparr>vi_code = ''repair_exhausted'', vi_field = ''response'',
                vi_message = ''OpenCode remained invalid after the single repair attempt''\<rparr>])) history invocations st)"
| "attempts env p n mode c contextJSON (k # ks) prior invocations history st =
     (case pe_planner env \<lparr>pq_context = contextJSON, pq_attempt = k, pq_violations = pd_violations prior\<rparr> of
        Inl category \<Rightarrow>
          withoutPlanner env p n mode c
            (invocations @ [(invocation env mode k)\<lparr>iv_status := ''error'', iv_error := category\<rparr>]) history category st
      | Inr response \<Rightarrow>
          (let called = (invocation env mode k)\<lparr>iv_status := ''completed'', iv_provider := pa_provider response,
                 iv_model := pa_model response, iv_usage := pa_usage response, iv_output := pa_output response\<rparr>;
               invocations' = invocations @ [called] in
           case ParsePlan (pe_show_float env) (pe_parse_float env) (pa_output response) of
             Inl e \<Rightarrow>
               (let decision = malformedDecision env c k e
                in attempts env p n mode c contextJSON ks decision invocations'
                     (history @ [\<lparr>ad_attempt = k, ad_decision = decision\<rparr>]) st)
           | Inr (parsed, _) \<Rightarrow>
               (let plan = parsed\<lparr>pp_source := plannerSource env response c\<rparr> in
                case freshContext env (k + 1) p n of
                  Inl e \<Rightarrow> (st, Inl e)
                | Inr (current, _) \<Rightarrow>
                    (let decision = ValidatePlan (pe_hash env) (pe_show_float env) c plan current (pe_completed env k) in
                     if pd_status decision = ''approved'' \<or> pd_status decision = ''stale''
                     then persist env p n mode (pd_status decision) c (Some plan) decision history invocations' st
                     else attempts env p n mode c contextJSON ks decision invocations'
                            (history @ [\<lparr>ad_attempt = k, ad_decision = decision\<rparr>]) st))))"

definition skippedInvocation :: "PlanEnv \<Rightarrow> string \<Rightarrow> InvocationRecord" where
  "skippedInvocation env mode =
     (invocation env mode 0)\<lparr>iv_latency := 0, iv_status := ''skipped'', iv_error := ''disabled'',
        iv_started := pe_created env, iv_completed := pe_created env\<rparr>"

definition generatePlan :: "PlanEnv \<Rightarrow> int \<Rightarrow> int \<Rightarrow> string \<Rightarrow> PromptContext \<Rightarrow> string \<Rightarrow> AuditStore
    \<Rightarrow> AuditStore \<times> (planning_error + GenerationResult)" where
  "generatePlan env p n mode c contextJSON st =
     (if mode = ''fallback'' then persistFallback env p n mode c [] [] st
      else if \<not> md_enabled (pe_metadata env)
      then (if pe_fallback env then persistFallback env p n mode c [skippedInvocation env mode] [] st
            else persistPlannerError env p n mode c [] [] ''disabled'' st)
      else attempts env p n mode c contextJSON [0, 1] noDecision [] [] st)"

definition Generate :: "PlanEnv \<Rightarrow> int \<Rightarrow> int \<Rightarrow> string \<Rightarrow> AuditStore \<Rightarrow> AuditStore \<times> (planning_error + GenerationResult)" where
  "Generate env p n mode0 st =
     (let mode = (if mode0 = [] then ''opencode'' else mode0) in
      if \<not> knownMode mode then (st, Inl (PlanningError ''planning mode must be opencode or fallback''))
      else (case freshContext env 0 p n of
              Inl e \<Rightarrow> (st, Inl e)
            | Inr (c, contextJSON) \<Rightarrow> generatePlan env p n mode c contextJSON st))"

text \<open>Reading: a stored plan is stale once its context is not the one of now.\<close>

definition staleResult :: "PlanEnv \<Rightarrow> string \<Rightarrow> string \<Rightarrow> string \<Rightarrow> GenerationResult \<Rightarrow> GenerationResult" where
  "staleResult env code field message r =
     r\<lparr>gr_status := ''stale'',
       gr_decision := (gr_decision r)\<lparr>pd_status := ''stale'', pd_decided := pe_decided env,
         pd_violations := [\<lparr>vi_code = code, vi_field = field, vi_message = message\<rparr>]\<rparr>\<rparr>"

definition resultWithStaleness :: "PlanEnv \<Rightarrow> GenerationRecord \<Rightarrow> planning_error + GenerationResult" where
  "resultWithStaleness env r =
     (let result = \<lparr>gr_status = gn_status r, gr_context = gn_context r, gr_plan = gn_plan r, gr_decision = gn_decision r,
            gr_plan_id = gn_id r, gr_created = gn_created r\<rparr> in
      case freshContext env 0 (gn_project r) (gn_issue r) of
        Inl PlanNotFound \<Rightarrow> Inr (staleResult env ''stale_work_unit'' ''issue''
                                 ''work unit is no longer present in the persisted GitHub snapshot'' result)
      | Inl e \<Rightarrow> Inl e
      | Inr (current, _) \<Rightarrow>
          if px_hash current \<noteq> px_hash (gn_context r)
          then Inr (staleResult env ''stale_context'' ''context_hash''
                     ''stored plan is not valid for the current authoritative context'' result)
          else Inr result)"

definition PlanLatest :: "PlanEnv \<Rightarrow> int \<Rightarrow> int \<Rightarrow> AuditStore \<Rightarrow> planning_error + GenerationResult" where
  "PlanLatest env p n st = (case AuditLatest p n st of Inl e \<Rightarrow> Inl e | Inr r \<Rightarrow> resultWithStaleness env r)"

definition PlanGet :: "PlanEnv \<Rightarrow> int \<Rightarrow> int \<Rightarrow> int \<Rightarrow> AuditStore \<Rightarrow> planning_error + GenerationResult" where
  "PlanGet env p n i st = (case AuditGet p n i st of Inl e \<Rightarrow> Inl e | Inr r \<Rightarrow> resultWithStaleness env r)"

fun staleResults :: "PlanEnv \<Rightarrow> GenerationRecord list \<Rightarrow> planning_error + GenerationResult list" where
  "staleResults env [] = Inr []"
| "staleResults env (r # rs) =
     (case resultWithStaleness env r of
        Inl e \<Rightarrow> Inl e
      | Inr g \<Rightarrow> (case staleResults env rs of Inl e \<Rightarrow> Inl e | Inr gs \<Rightarrow> Inr (g # gs)))"

definition PlanHistory :: "PlanEnv \<Rightarrow> int \<Rightarrow> int \<Rightarrow> int \<Rightarrow> AuditStore \<Rightarrow> planning_error + GenerationResult list" where
  "PlanHistory env p n limit st = staleResults env (AuditHistory p n limit st)"

definition ContextSummaryOf :: "PlanEnv \<Rightarrow> int \<Rightarrow> int \<Rightarrow> planning_error + ContextSummary" where
  "ContextSummaryOf env p n =
     (case freshContext env 0 p n of
        Inl e \<Rightarrow> Inl e
      | Inr (v, _) \<Rightarrow>
          Inr \<lparr>sy_version = px_version v, sy_hash = px_hash v, sy_repository = px_repository v, sy_issue = px_issue v,
            sy_head = px_head v, sy_route = px_route v, sy_expected_event = px_expected_event v,
            sy_evidence_count = int (length (px_evidence v)), sy_warning_count = int (length (px_warnings v))\<rparr>)"

end
