(* ===== verification/Redact_Facts.thy ===== *)
theory Redact_Facts
  imports Redact
begin

text \<open>
  What the redaction leaves alone: a text without any of the words the four expressions look for.
\<close>

lemma containsStr_Cons [simp]: "containsStr (c # cs) p \<longleftrightarrow> hasPrefix (c # cs) p \<or> containsStr cs p"
  by (simp add: containsStr_def)

lemma containsStr_prefix: "hasPrefix s p \<Longrightarrow> containsStr s p"
  by (auto simp: hasPrefix_iff containsStr_iff intro: exI [of _ "[]"])

lemma containsStr_suffix: "s = u @ t \<Longrightarrow> containsStr t p \<Longrightarrow> containsStr s p"
  by (auto simp: containsStr_iff) (metis append.assoc)

text \<open>A text without the two runes that \<open>(?i)\<close> folds to ASCII letters.\<close>

definition unfoldable :: "string \<Rightarrow> bool" where
  "unfoldable s = (\<not> containsStr s [CHR 0xC5, CHR 0xBF] \<and> \<not> containsStr s [CHR 0xE2, CHR 0x84, CHR 0xAA])"

lemma unfoldable_suffix: "s = u @ t \<Longrightarrow> unfoldable s \<Longrightarrow> unfoldable t"
  using containsStr_suffix unfolding unfoldable_def by blast

lemma stepIf_Some: "q \<in> set (stepIf P p) \<longleftrightarrow> (\<exists>c cs. snd p = c # cs \<and> P c \<and> q = (Some c, cs))"
  by (cases "(P, p)" rule: stepIf.cases) auto

text \<open>A letter matches itself in either case.\<close>

lemma zip_cases: "map_of (zip lower upper) c = Some d \<Longrightarrow> asciiLower c = c \<and> asciiLower d = c"
proof -
  have all: "list_all (\<lambda>(c, d). asciiLower c = c \<and> asciiLower d = c) (zip lower upper)" by code_simp
  assume "map_of (zip lower upper) c = Some d"
  then have "(c, d) \<in> set (zip lower upper)" by (rule map_of_SomeD)
  with all show ?thesis by (auto simp: list_all_iff)
qed

lemma ends_rLetter:
  assumes "q \<in> set (ends (rLetter c) (prev, s))" "unfoldable s" "asciiLower c = c"
  shows "\<exists>d. s = d # snd q \<and> asciiLower d = c"
proof (cases "map_of (zip lower upper) c")
  case None
  then show ?thesis using assms(1,3) by (auto simp: rLetter_def stepIf_Some)
next
  case (Some d)
  have n: "\<not> hasPrefix s [CHR 0xC5, CHR 0xBF]" "\<not> hasPrefix s [CHR 0xE2, CHR 0x84, CHR 0xAA]"
    using assms(2) containsStr_prefix unfolding unfoldable_def by blast+
  then have "q \<in> set (stepIf (\<lambda>x. x \<in> set [c, d]) (prev, s))"
    using assms(1) Some by (auto simp: rLetter_def stepIf_Some split: if_splits)
  with zip_cases [OF Some] show ?thesis by (auto simp: stepIf_Some)
qed

lemma ends_rText:
  assumes "q \<in> set (ends (rText w) (prev, s))" "unfoldable s" "toLower w = w"
  shows "\<exists>u. s = u @ snd q \<and> toLower u = w"
  using assms
proof (induction w arbitrary: prev s)
  case Nil
  then show ?case by (simp add: rText_def toLower_def)
next
  case (Cons c w)
  have c: "asciiLower c = c" "toLower w = w" using Cons.prems(3) by (simp_all add: toLower_def)
  show ?case
  proof (cases w)
    case Nil
    then have "q \<in> set (ends (rLetter c) (prev, s))" using Cons.prems(1) by (simp add: rText_def)
    from ends_rLetter [OF this Cons.prems(2) c(1)] obtain d where "s = [d] @ snd q" "toLower [d] = [c]"
      by (auto simp: toLower_def)
    then show ?thesis using Nil by blast
  next
    case (Cons d ds)
    then have "rText (c # w) = RSeq (rLetter c) (rText w)" by (simp add: rText_def)
    then obtain m where m: "m \<in> set (ends (rLetter c) (prev, s))" "q \<in> set (ends (rText w) m)" using Cons.prems(1) by auto
    from ends_rLetter [OF m(1) Cons.prems(2) c(1)] obtain e where e: "s = [e] @ snd m" "asciiLower e = c" by auto
    have "q \<in> set (ends (rText w) (fst m, snd m))" using m(2) by simp
    from Cons.IH [OF this unfoldable_suffix [OF e(1) Cons.prems(2)] c(2)] obtain u where "snd m = u @ snd q" "toLower u = w" by blast
    then show ?thesis using e by (intro exI [of _ "e # u"]) (simp add: toLower_def)
  qed
qed

lemma toLower_append: "toLower (a @ b) = toLower a @ toLower b"
  by (simp add: toLower_def)

lemma ends_rText_prefix:
  assumes "q \<in> set (ends (rText w) p)" "unfoldable (snd p)" "toLower w = w"
  shows "hasPrefix (toLower (snd p)) w"
  using ends_rText [of q w "fst p" "snd p"] assms by (auto simp: toLower_append hasPrefix_iff)

lemma ends_rWord:
  assumes "q \<in> set (ends (rText w) p)" "snd p0 = u @ snd p" "unfoldable (snd p0)" "toLower w = w"
  shows "containsStr (toLower (snd p0)) w"
proof -
  have "containsStr (toLower (snd p)) w"
    using containsStr_prefix [OF ends_rText_prefix [OF assms(1) unfoldable_suffix [OF assms(2,3)] assms(4)]] .
  then show ?thesis using containsStr_suffix [of "toLower (snd p0)" "toLower u"] assms(2) by (simp add: toLower_append)
qed

subsection \<open>Replacing nothing\<close>

lemma replaceAll_none:
  "(\<And>prev u t. s = u @ t \<Longrightarrow> matchAt pattern (prev, t) = None) \<Longrightarrow> replaceAll pattern repl prev s = s"
proof (induction s arbitrary: prev)
  case (Cons c cs)
  have "matchAt pattern (prev, c # cs) = None" by (rule Cons.prems [of "[]"]) simp
  moreover have "replaceAll pattern repl (Some c) cs = cs"
  proof (rule Cons.IH)
    fix prev u t assume "cs = u @ t"
    then show "matchAt pattern (prev, t) = None" by (intro Cons.prems [of "c # u"]) simp
  qed
  ultimately show ?case by simp
qed simp

lemma matchAt_Some:
  assumes "matchAt (front, grp, behind) p \<noteq> None"
  obtains a b c where "a \<in> set (ends front p)" "b \<in> set (ends grp a)" "c \<in> set (ends behind b)"
proof -
  have "\<exists>a \<in> set (ends front p). \<exists>b \<in> set (ends grp a). ends behind b \<noteq> []"
  proof (rule ccontr)
    assume "\<not> ?thesis"
    then have "concat (map (\<lambda>a. concat (map (\<lambda>b. map (\<lambda>c. (take (length (snd a) - length (snd b)) (snd a), c)) (ends behind b)) (ends grp a)))
        (ends front p)) = []" by simp
    with assms show False by (simp add: matchAt_def)
  qed
  with that show thesis by (metis last_in_set)
qed

definition secretWords :: "string list" where
  "secretWords = [''authorization'', ''credential'', ''password'', ''secret'', ''token'', ''api'']"

definition tokenHeads :: "string list" where
  "tokenHeads = [''ghp_'', ''gho_'', ''ghu_'', ''ghs_'', ''ghr_'', ''sk-'']"

definition plainText :: "string \<Rightarrow> bool" where
  "plainText s = (unfoldable s \<and> \<not> list_ex (containsStr (toLower s)) secretWords \<and> \<not> list_ex (containsStr s) tokenHeads)"

lemma plain_word:
  assumes "q \<in> set (ends (rText w) p)" "snd p0 = u @ snd p" "plainText (snd p0)" "toLower w = w" "list_ex (hasPrefix w) secretWords"
  shows False
proof -
  have "containsStr (toLower (snd p0)) w"
    by (rule ends_rWord [OF assms(1,2) _ assms(4)]) (use assms(3) in \<open>simp add: plainText_def\<close>)
  moreover obtain v where "v \<in> set secretWords" "hasPrefix w v" using assms(5) by (auto simp: list_ex_iff)
  ultimately have "containsStr (toLower (snd p0)) v" by (auto simp: containsStr_iff hasPrefix_iff) (metis append.assoc)
  with \<open>v \<in> _\<close> assms(3) show False by (auto simp: plainText_def list_ex_iff)
qed

lemma plainText_suffix: "s = u @ t \<Longrightarrow> plainText s \<Longrightarrow> plainText t"
  using containsStr_suffix [of "toLower s" "toLower u" "toLower t"] containsStr_suffix [of s u t] unfoldable_suffix [of s u t]
  by (auto simp: plainText_def list_ex_iff toLower_append)

lemma secret_forms:
  "list_all (\<lambda>w. toLower w = w \<and> list_ex (hasPrefix w) secretWords)
     [''authorization'', ''credential'', ''password'', ''secret'', ''token'', ''api'', ''api_key'']"
  by code_simp

lemma no_authorization:
  assumes "plainText t" shows "matchAt authorizationPattern (prev, t) = None"
proof (rule ccontr)
  assume "\<not> ?thesis"
  then obtain a b c where "a \<in> set (ends REmpty (prev, t))"
    "b \<in> set (ends (rSeq [rText ''authorization'', rSpaces, RSet '':'', rSpaces]) a)"
    unfolding authorizationPattern_def by (rule matchAt_Some)
  then obtain m where "m \<in> set (ends (rText ''authorization'') (prev, t))" by auto
  from plain_word [OF this, of "(prev, t)" "[]"] secret_forms assms show False by simp
qed

lemma no_token:
  assumes "plainText t" shows "matchAt tokenPattern (prev, t) = None"
proof (rule ccontr)
  assume "\<not> ?thesis"
  then obtain a b c where "a \<in> set (ends REmpty (prev, t))" "b \<in> set (ends REmpty a)" "c \<in> set (ends (snd (snd tokenPattern)) b)"
    unfolding tokenPattern_def Let_def snd_conv by (rule matchAt_Some)
  then have "list_ex (hasPrefix t) tokenHeads"
    by (auto simp: tokenPattern_def Let_def stepIf_Some tokenHeads_def split: if_splits)
  then have "list_ex (containsStr t) tokenHeads" using containsStr_prefix by (auto simp: list_ex_iff)
  with assms show False by (simp add: plainText_def)
qed

lemma no_assignment:
  assumes "plainText t" shows "matchAt assignmentPattern (prev, t) = None"
proof (rule ccontr)
  let ?start = "rFolded (upper @ lower)" and ?more = "RStar (rFolded wordChars)"
  assume "\<not> ?thesis"
  then obtain a0 b0 c0 where "a0 \<in> set (ends RBound (prev, t))" "b0 \<in> set (ends (rSeq [?start, ?more,
      rAlt [rText ''token'', rText ''secret'', rText ''password'', rText ''api_key'']]) a0)"
    unfolding assignmentPattern_def by (rule matchAt_Some)
  then obtain a b where m: "a \<in> set (ends ?start (prev, t))" "b \<in> set (ends ?more a)"
    and "b0 \<in> set (ends (rAlt [rText ''token'', rText ''secret'', rText ''password'', rText ''api_key'']) b)"
    by (force split: if_splits simp del: ends.simps(7))
  then obtain w where w: "b0 \<in> set (ends (rText w) b)" "w \<in> {''token'', ''secret'', ''password'', ''api_key''}" by auto
  obtain u where "snd (prev, t) = u @ snd b" using ends_suffix [OF m(1)] ends_suffix [OF m(2)] by auto
  from plain_word [OF w(1) this] secret_forms assms w(2) show False by auto
qed

lemma no_credential:
  assumes "plainText t" shows "matchAt credentialValuePattern (prev, t) = None"
proof (rule ccontr)
  let ?quote = "rOpt (RSet [CHR 0x22, CHR 0x27])"
  assume "\<not> ?thesis"
  then obtain a0 b0 c0 where "a0 \<in> set (ends REmpty (prev, t))" "b0 \<in> set (ends (fst (snd credentialValuePattern)) a0)"
    unfolding credentialValuePattern_def Let_def fst_conv snd_conv by (rule matchAt_Some)
  then obtain a b where m: "a \<in> set (ends ?quote (prev, t))"
    and "b \<in> set (ends (rAlt [rText ''authorization'', rText ''credential'', rText ''password'', rText ''secret'', rText ''token'',
               rSeq [rText ''api'', rOpt (RSet ''_-''), rText ''key'']]) a)"
    unfolding credentialValuePattern_def Let_def by (force simp del: ends.simps(6,7))
  then have "\<exists>w \<in> {''authorization'', ''credential'', ''password'', ''secret'', ''token'', ''api''}. ends (rText w) a \<noteq> []"
    by auto
  then obtain m w where w: "m \<in> set (ends (rText w) a)"
    "w \<in> {''authorization'', ''credential'', ''password'', ''secret'', ''token'', ''api''}" by (metis last_in_set)
  obtain u where "snd (prev, t) = u @ snd a" using ends_suffix [OF m] by auto
  from plain_word [OF w(1) this] secret_forms assms w(2) show False by auto
qed

text \<open>Plain text is not changed.\<close>

lemma redactText_plain:
  assumes "plainText s"
  shows "redactText s = s"
proof -
  have "replaceAll pattern repl None s = s" if "\<And>prev t. plainText t \<Longrightarrow> matchAt pattern (prev, t) = None" for pattern repl
    by (rule replaceAll_none) (use that plainText_suffix assms in blast)
  then show ?thesis
    unfolding redactText_def Let_def by (simp add: no_authorization no_token no_assignment no_credential)
qed

end
