(* ===== verification/Policy_Facts.thy ===== *)
theory Policy_Facts
  imports Policy Redact_Facts
begin

text \<open>
  Facts about the policy: quick tests under which a text is not redacted and a prompt grants no
  authority, what an empty list of violations means, and when a decision is stale.
\<close>

subsection \<open>Plain text, tested in one pass\<close>

fun plainScan :: "string \<Rightarrow> bool" where
  "plainScan [] = True"
| "plainScan (c # cs) =
     ((if c \<in> set ([CHR 0xC5, CHR 0xE2] @ ''acpstgACPSTG'')
       then c \<noteq> CHR 0xC5 \<and> c \<noteq> CHR 0xE2 \<and> \<not> list_ex (hasPrefix (toLower (take 13 (c # cs)))) secretWords \<and>
         \<not> list_ex (hasPrefix (c # cs)) tokenHeads
       else True) \<and> plainScan cs)"

lemma hasPrefix_take: "length w \<le> n \<Longrightarrow> hasPrefix s w \<Longrightarrow> hasPrefix (take n s) w"
  by (auto simp: hasPrefix_iff)

lemma asciiLower_moves: "asciiLower c \<noteq> c \<Longrightarrow> c \<in> set ''ABCDEFGHIJKLMNOPQRSTUVWXYZ''"
  unfolding asciiLower_def by (metis map_of_SomeD option.case_eq_if option.collapse set_zip_leftD)

lemma firstLetter:
  assumes "asciiLower c \<in> set ''acpst''"
  shows "c \<in> set ''acpstgACPSTG''"
proof (cases "asciiLower c = c")
  case True
  with assms show ?thesis by auto
next
  case False
  have "\<forall>c \<in> set ''ABCDEFGHIJKLMNOPQRSTUVWXYZ''. asciiLower c \<in> set ''acpst'' \<longrightarrow> c \<in> set ''acpstgACPSTG''" by code_simp
  with asciiLower_moves [OF False] assms show ?thesis by blast
qed

lemma secretWords_shape: "list_all (\<lambda>w. w \<noteq> [] \<and> hd w \<in> set ''acpst'' \<and> length w \<le> 13) secretWords"
  by code_simp

lemma plainScan_step:
  assumes "plainScan (c # cs)"
  shows "\<not> list_ex (hasPrefix (toLower (c # cs))) secretWords" "\<not> list_ex (hasPrefix (c # cs)) tokenHeads"
    "c \<noteq> CHR 0xC5 \<and> c \<noteq> CHR 0xE2"
proof -
  show "c \<noteq> CHR 0xC5 \<and> c \<noteq> CHR 0xE2" using assms by auto
  show "\<not> list_ex (hasPrefix (c # cs)) tokenHeads"
  proof
    assume t: "list_ex (hasPrefix (c # cs)) tokenHeads"
    then have "c \<in> set ''acpstgACPSTG''" by (auto simp: tokenHeads_def)
    with assms t show False by simp
  qed
  show "\<not> list_ex (hasPrefix (toLower (c # cs))) secretWords"
  proof
    assume "list_ex (hasPrefix (toLower (c # cs))) secretWords"
    then obtain w where w: "w \<in> set secretWords" "hasPrefix (toLower (c # cs)) w" by (auto simp: list_ex_iff)
    have shape: "w \<noteq> []" "hd w \<in> set ''acpst''" "length w \<le> 13" using secretWords_shape w(1) by (auto simp: list_all_iff)
    then have "asciiLower c = hd w" using w(2) by (cases w) (auto simp: toLower_def)
    then have "c \<in> set ''acpstgACPSTG''" using firstLetter shape(2) by metis
    moreover have "hasPrefix (toLower (take 13 (c # cs))) w"
      using hasPrefix_take [OF shape(3) w(2)] by (simp add: toLower_def take_map)
    ultimately show False using assms w(1) by (auto simp: list_ex_iff)
  qed
qed

lemma plainScan_plain: "plainScan s \<Longrightarrow> plainText s"
proof (induction s)
  case Nil
  show ?case by code_simp
next
  case (Cons c cs)
  then have cs: "plainText cs" by simp
  note step = plainScan_step [OF Cons.prems]
  have "toLower (c # cs) = asciiLower c # toLower cs" by (simp add: toLower_def)
  with cs step show ?case
    unfolding plainText_def unfoldable_def by (auto simp: list_ex_iff)
qed

text \<open>A text in quotes is plain when the parts between the quotes are.\<close>

lemma hasPrefix_cut: "q \<notin> set w \<Longrightarrow> hasPrefix (a @ q # b) w \<Longrightarrow> hasPrefix a w"
proof (induction a w rule: hasPrefix.induct)
  case (2 c w)
  then show ?case by simp
qed auto

lemma containsStr_cut: "q \<notin> set w \<Longrightarrow> w \<noteq> [] \<Longrightarrow> containsStr (a @ q # b) w \<Longrightarrow> containsStr a w \<or> containsStr b w"
proof (induction a)
  case Nil
  then show ?case using hasPrefix_cut [of q w "[]" b] by (cases w) auto
next
  case (Cons c a)
  then show ?case using hasPrefix_cut [of q w "c # a" b] by auto
qed

lemma quote_free:
  "list_all (\<lambda>w. CHR 0x22 \<notin> set w \<and> w \<noteq> []) (secretWords @ tokenHeads @ [[CHR 0xC5, CHR 0xBF], [CHR 0xE2, CHR 0x84, CHR 0xAA]])"
  by code_simp

lemma plainText_quote:
  assumes "plainText a" "plainText b" shows "plainText (a @ CHR 0x22 # b)"
proof -
  have low: "toLower (a @ CHR 0x22 # b) = toLower a @ CHR 0x22 # toLower b"
    by (simp add: toLower_def asciiLower_def)
  have cut: "\<not> containsStr (x @ CHR 0x22 # y) w" if "\<not> containsStr x w" "\<not> containsStr y w"
    "w \<in> set (secretWords @ tokenHeads @ [[CHR 0xC5, CHR 0xBF], [CHR 0xE2, CHR 0x84, CHR 0xAA]])" for x y w
    using quote_free that containsStr_cut [of "CHR 0x22" w x y] by (auto simp only: list_all_iff)
  have "unfoldable (a @ CHR 0x22 # b)"
    using assms cut [of a _ b] by (simp add: plainText_def unfoldable_def)
  moreover have "\<not> list_ex (containsStr (toLower a @ CHR 0x22 # toLower b)) secretWords"
    using assms cut [of "toLower a" _ "toLower b"] by (simp add: plainText_def list_ex_iff)
  moreover have "\<not> list_ex (containsStr (a @ CHR 0x22 # b)) tokenHeads"
    using assms cut [of a _ b] by (simp add: plainText_def list_ex_iff)
  ultimately show ?thesis by (simp add: plainText_def low)
qed

lemma plainText_quotes: "list_all plainScan xs \<Longrightarrow> plainText (joinWith [CHR 0x22] xs)"
proof (induction "[CHR 0x22]" xs rule: joinWith.induct)
  case (3 x y xs)
  then show ?case using plainText_quote [OF plainScan_plain, of x] by simp
qed (use plainScan_plain in simp_all)

subsection \<open>Prompts without authority\<close>

text \<open>Every pattern starts, at a word boundary, with one of a few words.\<close>

definition grantWords :: "string list" where
  "grantWords = [''merge'', ''write'', ''push'', ''commit'', ''comment'', ''label'', ''close'', ''approve'', ''dispatch'', ''accept'', ''disable'']"

definition startsWith :: "rx \<Rightarrow> bool" where
  "startsWith r = (\<forall>p. unfoldable (snd p) \<and> ends r p \<noteq> [] \<longrightarrow> list_ex (hasPrefix (toLower (snd p))) grantWords)"

lemma ends_rWords: "ws \<noteq> [] \<Longrightarrow> ends (rWords ws) p = concat (map (\<lambda>w. ends (rText w) p) ws)"
proof (induction ws)
  case (Cons w ws)
  then show ?case by (cases ws) (simp_all add: rWords_def)
qed simp

lemma grantWords_lower: "list_all (\<lambda>w. toLower w = w) grantWords"
  by code_simp

lemma startsWith_words:
  assumes "ws \<noteq> []" "set ws \<subseteq> set grantWords"
  shows "startsWith (RSeq RBound (RSeq (rWords ws) r))"
proof -
  have "list_ex (hasPrefix (toLower (snd p))) grantWords"
    if "unfoldable (snd p)" "ends (RSeq RBound (RSeq (rWords ws) r)) p \<noteq> []" for p
  proof -
    have "ends (rWords ws) p \<noteq> []" using that(2) by (auto split: if_splits)
    then obtain w where "w \<in> set ws" "ends (rText w) p \<noteq> []" using assms(1) by (auto simp: ends_rWords)
    then obtain q where "w \<in> set ws" "q \<in> set (ends (rText w) p)" by (metis last_in_set)
    moreover have w: "w \<in> set grantWords" "toLower w = w" using assms(2) \<open>w \<in> set ws\<close> grantWords_lower by (auto simp: list_all_iff)
    ultimately have "hasPrefix (toLower (snd p)) w" using ends_rText_prefix that(1) by blast
    with w(1) show ?thesis by (auto simp: list_ex_iff)
  qed
  then show ?thesis by (simp add: startsWith_def)
qed

lemma startsWith_word: "w \<in> set grantWords \<Longrightarrow> startsWith (RSeq RBound (RSeq (rText w) r))"
  using startsWith_words [of "[w]" r] by (simp add: rWords_def)

lemma forbidden_starts: "r \<in> set forbiddenAuthorityPatterns \<Longrightarrow> startsWith r"
  by (auto simp: forbiddenAuthorityPatterns_def Let_def grantWords_def intro!: startsWith_word startsWith_words)

lemma findMatches_none:
  "(\<And>prev t u. s = u @ t \<Longrightarrow> ends r (prev, t) = []) \<Longrightarrow> findMatches r seen prev s = []"
proof (induction s arbitrary: seen prev)
  case (Cons c cs)
  have "ends r (prev, c # cs) = []" using Cons.prems [of "[]"] by simp
  moreover have "findMatches r (seen @ [c]) (Some c) cs = []"
  proof (rule Cons.IH)
    fix prev t u assume "cs = u @ t"
    then show "ends r (prev, t) = []" by (intro Cons.prems [of "c # u"]) simp
  qed
  ultimately show ?case by simp
qed simp

text \<open>A text without these words grants nothing.\<close>

lemma grants_none:
  assumes "CHR 0x0A \<notin> set line" "toLower (trimSpace line) = low" "unfoldable low" "\<not> list_ex (containsStr low) grantWords"
  shows "\<not> grantsForbiddenAuthority line"
proof -
  have low: "toLower low = low" using assms(2) by auto
  have "findMatches r [] None low = []" if r: "r \<in> set forbiddenAuthorityPatterns" for r
  proof (rule findMatches_none)
    fix prev t u assume t: "low = u @ t"
    then have "toLower t = t" using low by (auto simp: toLower_append) (metis append_eq_append_conv length_map toLower_def)
    moreover have "\<not> list_ex (hasPrefix t) grantWords"
      using assms(4) containsStr_suffix [OF t containsStr_prefix] by (auto simp: list_ex_iff)
    ultimately show "ends r (prev, t) = []"
      using forbidden_starts [OF r, unfolded startsWith_def, rule_format, of "(prev, t)"] unfoldable_suffix [OF t assms(3)] by auto
  qed
  then have "\<not> list_ex (\<lambda>r. list_ex (\<lambda>m. \<not> matchIsExplicitProhibition m) (findMatches r [] None low)) forbiddenAuthorityPatterns"
    by (simp add: list_ex_iff)
  moreover have "splitLines line = [line]" using assms(1) by (induction line) auto
  ultimately show ?thesis by (simp add: grantsForbiddenAuthority_def assms(2) Let_def)
qed

subsection \<open>Decisions\<close>

lemma violation_Nil [simp]: "violation b code field message = [] \<longleftrightarrow> \<not> b"
  by (simp add: violation_def)

lemma in_violation [simp]: "v \<in> set (violation b code field message) \<longleftrightarrow> b \<and> v = \<lparr>vi_code = code, vi_field = field, vi_message = message\<rparr>"
  by (auto simp: violation_def)

lemma ValidatePlan_sel [simp]:
  "pd_status (ValidatePlan hash showFloat c plan current now) = decisionStatus (planViolations showFloat c plan current)"
  "pd_context_hash (ValidatePlan hash showFloat c plan current now) = px_hash c"
  "pd_plan_hash (ValidatePlan hash showFloat c plan current now) = hash (CanonicalPlanBytes showFloat plan)"
  by (simp_all add: ValidatePlan_def Let_def)

lemma decisionStatus_cases: "decisionStatus vs \<in> {''approved'', ''stale'', ''rejected''}"
  by (simp add: decisionStatus_def)

lemma decisionStatus_approved [simp]: "decisionStatus vs = ''approved'' \<longleftrightarrow> vs = []"
  by (simp add: decisionStatus_def)

text \<open>What no violation means.\<close>

lemma approved_route:
  assumes "planViolations showFloat c plan current = []"
  shows "px_hash c \<noteq> []" "px_hash current = px_hash c" "px_head current = px_head c" "sameRoute (px_route c) (px_route current)"
    "\<not> hasWarningCode (px_warnings c) ''issue_contract_incomplete''" "pp_action plan = rt_action (px_route c)"
    "pp_target_role plan = rt_target_role (px_route c)" "pp_lane plan = rt_lane (px_route c)"
    "pp_expected_head plan = px_head c" "pp_expected_head plan = rt_expected_head (px_route c)" "pp_expected_event plan = px_expected_event c"
  using assms by (auto simp: planViolations_def routeViolations_def Let_def)

lemma approved_authority:
  assumes "planViolations showFloat c plan current = []"
  shows "px_blocker c \<noteq> None \<Longrightarrow> rt_action (px_route c) = ''dispatch'' \<Longrightarrow> rt_target_role (px_route c) = ''lead''"
    "set mandatoryProhibitedActions \<subseteq> set (pp_prohibited plan)"
    "sm_context_hash (pp_source plan) = px_hash c"
    "redactText (CanonicalPlanBytes showFloat plan) = CanonicalPlanBytes showFloat plan"
    "workerPromptAllowed plan \<Longrightarrow> \<not> grantsForbiddenAuthority (pp_prompt plan)"
  using assms by (auto simp: planViolations_def sourceViolations_def authorityViolations_def promptViolations_def Let_def)

text \<open>A decision is \<open>stale\<close> exactly when the context or the route is not the one of now any more.\<close>

definition outdated :: "PromptContext \<Rightarrow> PromptContext \<Rightarrow> bool" where
  "outdated c current = (px_hash c = [] \<or> px_hash current \<noteq> px_hash c \<or> px_head current \<noteq> px_head c \<or>
     \<not> sameRoute (px_route c) (px_route current))"

lemma other_codes:
  assumes "v \<in> set (planViolations showFloat c plan current)" "hasPrefix (vi_code v) ''stale_''"
  shows "outdated c current"
proof -
  have "v \<notin> set (sourceViolations c plan)" "v \<notin> set (authorityViolations c plan)" "v \<notin> set (promptViolations c plan)"
    using assms(2) by (auto simp: sourceViolations_def authorityViolations_def promptViolations_def Let_def
        split: if_splits)
  moreover have "vi_code v \<noteq> ''secret_detected''" using assms(2) by auto
  ultimately have "v \<in> set (routeViolations c plan current)"
    using assms(1) by (auto simp: planViolations_def)
  with assms(2) show ?thesis by (auto simp: routeViolations_def Let_def outdated_def)
qed

lemma decision_stale:
  "pd_status (ValidatePlan hash showFloat c plan current now) = ''stale'' \<longleftrightarrow> outdated c current"
proof
  assume "pd_status (ValidatePlan hash showFloat c plan current now) = ''stale''"
  then have "list_ex (\<lambda>v. hasPrefix (vi_code v) ''stale_'') (planViolations showFloat c plan current)"
    by (simp add: decisionStatus_def split: if_splits)
  then show "outdated c current" using other_codes by (auto simp: list_ex_iff)
next
  assume o: "outdated c current"
  have "\<exists>v \<in> set (routeViolations c plan current). hasPrefix (vi_code v) ''stale_''"
  proof (cases "px_hash c = [] \<or> px_hash current = [] \<or> px_hash c \<noteq> px_hash current")
    case True
    then have "\<lparr>vi_code = ''stale_context'', vi_field = ''source.context_hash'',
        vi_message = ''authoritative PromptContext changed after plan context creation''\<rparr> \<in> set (routeViolations c plan current)"
      by (simp add: routeViolations_def Let_def)
    then show ?thesis by (rule rev_bexI) simp
  next
    case False
    with o have "\<lparr>vi_code = ''stale_route'', vi_field = ''expected_head'',
        vi_message = ''current Head or deterministic Stage 3 route changed''\<rparr> \<in> set (routeViolations c plan current)"
      by (auto simp: routeViolations_def Let_def outdated_def)
    then show ?thesis by (rule rev_bexI) simp
  qed
  then show "pd_status (ValidatePlan hash showFloat c plan current now) = ''stale''"
    by (auto simp: decisionStatus_def planViolations_def list_ex_iff)
qed

end
