(* ===== verification/Json_Text.thy ===== *)
theory Json_Text
  imports Plan_Text "HOL-Library.Multiset"
begin

text \<open>
  Round trips of JSON text: every tree with well-formed numbers is read back from the text the
  compact writer gives it, at the front of any text, and so are the raw members of an object; a
  plan is read back from its canonical text.
\<close>

subsection \<open>Values\<close>

text \<open>A number that the reader takes whole.\<close>

definition numText :: "string \<Rightarrow> bool" where
  "numText t = (t \<noteq> [] \<and> (isDigit (hd t) \<or> hd t = CHR ''-'') \<and> (\<forall>r. numberEnd r \<longrightarrow> scanNumber (t @ r) = Some (t, r)))"

lemma numText_showInt: "numText (showInt i)"
proof -
  obtain c cs where "showInt i = c # cs" "isDigit c \<or> c = CHR ''-''" by (rule showInt_head)
  moreover have "\<forall>r. numberEnd r \<longrightarrow> scanNumber (showInt i @ r) = Some (showInt i, r)" using scanNumber_showInt by blast
  ultimately show ?thesis unfolding numText_def by (metis list.distinct(1) list.sel(1))
qed

fun written :: "json \<Rightarrow> bool" where
  "written (JNum t) = numText t"
| "written (JArr vs) = list_all written vs"
| "written (JObj ms) = list_all (\<lambda>(k, v). written v) ms"
| "written v = True"

definition valueHead :: "char \<Rightarrow> bool" where
  "valueHead c = (c \<in> set ([CHR 0x22, CHR 0x7B, CHR 0x5B] @ ''tfn-0123456789''))"

lemma jsonText_head:
  assumes "written v"
  obtains c cs where "jsonText v = c # cs" "valueHead c"
proof (cases v)
  case (JNum t)
  with assms obtain c cs where c: "t = c # cs" "isDigit c \<or> c = CHR ''-''" by (cases t) (auto simp: numText_def)
  then have "valueHead c" by (auto simp: valueHead_def isDigit_def)
  with that JNum c show thesis by simp
next
  case (JBool b)
  with that [of "hd (jsonText v)" "tl (jsonText v)"] show thesis by (cases b) (simp_all add: valueHead_def)
qed (use that [of "hd (jsonText v)" "tl (jsonText v)"] in \<open>auto simp: quoteJson_def valueHead_def\<close>)

lemma valueHead_facts: "valueHead c \<Longrightarrow> \<not> jsonSpace c \<and> c \<noteq> CHR 0x5D \<and> c \<noteq> CHR 0x7D"
  by (auto simp: valueHead_def jsonSpace_def)

lemma skipWs_text:
  assumes "written v" shows "skipWs (jsonText v @ r) = jsonText v @ r"
proof -
  obtain c cs where "jsonText v = c # cs" "valueHead c" using jsonText_head [OF assms] .
  then show ?thesis using valueHead_facts by (simp add: skipWs_def)
qed

lemma skipWs_quote: "skipWs (CHR 0x22 # s) = CHR 0x22 # s" "skipWs (CHR 0x7D # s) = CHR 0x7D # s"
  "skipWs (CHR 0x5D # s) = CHR 0x5D # s" "skipWs (CHR 0x2C # s) = CHR 0x2C # s" "skipWs (CHR 0x3A # s) = CHR 0x3A # s"
  "skipWs (CHR 0x7B # s) = CHR 0x7B # s" "skipWs (CHR 0x5B # s) = CHR 0x5B # s"
  by (simp_all add: skipWs_def jsonSpace_def)

text \<open>What holds of one value, at the front of a text.\<close>

definition readsBack :: "json \<Rightarrow> bool" where
  "readsBack v = (\<forall>n r. numberEnd r \<longrightarrow> 2 * length (jsonText v) \<le> n \<longrightarrow> parseValue n (jsonText v @ r) = Some (v, r))"

lemma readsBackD: "readsBack v \<Longrightarrow> numberEnd r \<Longrightarrow> 2 * length (jsonText v) \<le> n \<Longrightarrow> parseValue n (jsonText v @ r) = Some (v, r)"
  by (simp add: readsBack_def)

lemma numberEnd_punct [simp]: "numberEnd (CHR 0x2C # r)" "numberEnd (CHR 0x5D # r)" "numberEnd (CHR 0x7D # r)" "numberEnd []"
  by (simp_all add: numberEnd_def isDigit_def)

lemma parseElems_text:
  assumes "\<forall>v \<in> set vs. written v \<and> readsBack v" "vs \<noteq> []" "2 * length (joinWith '','' (map jsonText vs)) < n"
  shows "parseElems n (joinWith '','' (map jsonText vs) @ CHR 0x5D # r) = Some (vs, r)"
  using assms
proof (induction vs arbitrary: n)
  case (Cons v vs)
  obtain f where n: "n = Suc f" using Cons.prems(3) by (cases n) auto
  have v: "readsBack v" using Cons.prems(1) by simp
  show ?case
  proof (cases vs)
    case Nil
    with Cons.prems(3) n readsBackD [OF v, of "CHR 0x5D # r"] show ?thesis by (simp add: skipWs_quote)
  next
    case (Cons a ls)
    let ?rest = "joinWith '','' (map jsonText vs)"
    have join: "joinWith '','' (map jsonText (v # vs)) = jsonText v @ '','' @ ?rest" using Cons by simp
    have "2 * length (jsonText v) \<le> f" "2 * length ?rest < f" using Cons.prems(3) n unfolding join by simp_all
    with readsBackD [OF v, of "CHR 0x2C # ?rest @ CHR 0x5D # r" f] Cons.IH [of f] Cons.prems(1) Cons
    show ?thesis unfolding join n by (simp add: skipWs_quote del: joinWith.simps)
  qed
qed simp

lemma parseMembers_written:
  assumes "\<forall>(k, v) \<in> set ms. written v \<and> readsBack v" "ms \<noteq> []" "2 * length (joinWith '','' (map memberText ms)) < n"
  shows "parseMembers n (joinWith '','' (map memberText ms) @ CHR 0x7D # r) = Some (ms, r)"
  using assms
proof (induction ms arbitrary: n)
  case (Cons kv ms)
  obtain k v where kv: "kv = (k, v)" by fastforce
  obtain f where n: "n = Suc f" using Cons.prems(3) by (cases n) auto
  have v: "readsBack v" "written v" using Cons.prems(1) kv by simp_all
  have member: "parseMembers n (memberText kv @ c # s) =
      (if c = CHR 0x2C then map_option (apfst (Cons (k, v))) (parseMembers f s) else Some ([(k, v)], s))"
    if "c = CHR 0x2C \<or> c = CHR 0x7D" "2 * length (memberText kv) < n" for c s
  proof -
    obtain us where us: "scanStr SPlain (escapeStr k @ CHR 0x22 # (CHR '':'' # jsonText v @ c # s)) = Some (us, CHR '':'' # jsonText v @ c # s)"
      "decodeUnits us = k"
      using scanStr_escape by blast
    have "2 * length (jsonText v) \<le> f" using that(2) n kv by (simp add: memberText_def)
    with readsBackD [OF v(1), of "c # s" f] us that(1) show ?thesis
      unfolding n kv by (auto simp: memberText_def quoteJson_def skipWs_quote)
  qed
  show ?case
  proof (cases ms)
    case Nil
    with Cons.prems(3) member [of "CHR 0x7D" r] kv show ?thesis by simp
  next
    case (Cons a ls)
    let ?rest = "joinWith '','' (map memberText ms)"
    have join: "joinWith '','' (map memberText (kv # ms)) = memberText kv @ '','' @ ?rest" using Cons by simp
    have "2 * length (memberText kv) < n" "2 * length ?rest < f" using Cons.prems(3) n unfolding join by simp_all
    with member [of "CHR 0x2C" "?rest @ CHR 0x7D # r"] Cons.IH [of f] Cons.prems(1) Cons kv
    show ?thesis unfolding join by (simp del: joinWith.simps)
  qed
qed simp

text \<open>Every well-formed tree is read back.\<close>

lemma written_read:
  assumes "written v" shows "readsBack v"
  using assms
proof (induction v)
  case (JNum t)
  then obtain c cs where t: "t = c # cs" "isDigit c \<or> c = CHR ''-''" by (cases t) (auto simp: numText_def)
  then have "c \<in> set ''-0123456789''" by (auto simp: isDigit_def)
  then have c: "\<not> jsonSpace c" "c \<noteq> CHR 0x22" "c \<noteq> CHR 0x7B" "c \<noteq> CHR 0x5B" "c \<noteq> CHR ''t''" "c \<noteq> CHR ''f''" "c \<noteq> CHR ''n''"
    by (auto simp: jsonSpace_def)
  show ?case unfolding readsBack_def
  proof (intro allI impI)
    fix n r assume "numberEnd r" "2 * length (jsonText (JNum t)) \<le> n"
    then obtain f where n: "n = Suc f" using t by (cases n) auto
    have "scanNumber (t @ r) = Some (t, r)" using JNum.prems \<open>numberEnd r\<close> by (simp add: numText_def)
    then show "parseValue n (jsonText (JNum t) @ r) = Some (JNum t, r)"
      using c by (simp add: n t(1) skipWs_def scanLiteral_def)
  qed
next
  case (JArr vs)
  have all: "\<forall>v \<in> set vs. written v \<and> readsBack v" using JArr by (auto simp: list_all_iff)
  show ?case unfolding readsBack_def
  proof (intro allI impI)
    fix n r assume "2 * length (jsonText (JArr vs)) \<le> n"
    then obtain f where n: "n = Suc f" and f: "2 * length (joinWith '','' (map jsonText vs)) < f" by (cases n) auto
    show "parseValue n (jsonText (JArr vs) @ r) = Some (JArr vs, r)"
    proof (cases vs)
      case Nil
      then show ?thesis by (simp add: n skipWs_quote)
    next
      case (Cons v ws)
      then have "written v" using all by simp
      then obtain c cs where c: "jsonText v = c # cs" "valueHead c" by (rule jsonText_head)
      have "\<exists>t. joinWith '','' (map jsonText vs) = c # t" using Cons c(1) by (cases ws) simp_all
      then obtain t where t: "joinWith '','' (map jsonText vs) = c # t" by blast
      have "vs \<noteq> []" using Cons by simp
      from parseElems_text [OF all this f, of r] t valueHead_facts [OF c(2)] show ?thesis
        by (simp add: n skipWs_quote) (simp add: skipWs_def)
    qed
  qed
next
  case (JObj ms)
  have all: "\<forall>(k, v) \<in> set ms. written v \<and> readsBack v" using JObj by (fastforce simp: list_all_iff)
  show ?case unfolding readsBack_def
  proof (intro allI impI)
    fix n r assume "2 * length (jsonText (JObj ms)) \<le> n"
    then obtain f where n: "n = Suc f" and f: "2 * length (joinWith '','' (map memberText ms)) < f"
      unfolding jsonText_obj by (cases n) auto
    show "parseValue n (jsonText (JObj ms) @ r) = Some (JObj ms, r)"
    proof (cases ms)
      case Nil
      then show ?thesis by (simp add: n skipWs_quote)
    next
      case (Cons kv ls)
      have "\<exists>t. joinWith '','' (map memberText ms) = CHR 0x22 # t" using Cons by (cases ls) (simp_all add: memberText_def quoteJson_def)
      then obtain t where t: "joinWith '','' (map memberText ms) = CHR 0x22 # t" by blast
      have "ms \<noteq> []" using Cons by simp
      from parseMembers_written [OF all this f, of r] t show ?thesis
        unfolding jsonText_obj by (simp add: n skipWs_quote)
    qed
  qed
next
  case (JStr s)
  show ?case unfolding readsBack_def
  proof (intro allI impI)
    fix n r assume "2 * length (jsonText (JStr s)) \<le> n"
    then obtain f where n: "n = Suc f" by (cases n) (auto simp: quoteJson_def)
    obtain us where "scanStr SPlain (escapeStr s @ CHR 0x22 # r) = Some (us, r)" "decodeUnits us = s" using scanStr_escape by blast
    then show "parseValue n (jsonText (JStr s) @ r) = Some (JStr s, r)" by (simp add: n quoteJson_def skipWs_quote)
  qed
next
  case (JBool b)
  show ?case unfolding readsBack_def
  proof (intro allI impI)
    fix n r assume "2 * length (jsonText (JBool b)) \<le> n"
    then obtain f where "n = Suc f" by (cases n; cases b) auto
    then show "parseValue n (jsonText (JBool b) @ r) = Some (JBool b, r)"
      by (cases b) (simp_all add: skipWs_def jsonSpace_def scanLiteral_def)
  qed
next
  case JNull
  show ?case unfolding readsBack_def
  proof (intro allI impI)
    fix n r assume "2 * length (jsonText JNull) \<le> n"
    then obtain f where "n = Suc f" by (cases n) auto
    then show "parseValue n (jsonText JNull @ r) = Some (JNull, r)" by (simp add: skipWs_def jsonSpace_def scanLiteral_def)
  qed
qed

lemma decodeFirst_text: "written v \<Longrightarrow> numberEnd r \<Longrightarrow> decodeFirst (jsonText v @ r) = Some (v, r)"
  unfolding decodeFirst_def by (rule readsBackD [OF written_read]) simp_all

lemma unmarshal_text: "written v \<Longrightarrow> unmarshal (jsonText v) = Some v"
  using decodeFirst_text [of v "[]"] by (simp add: unmarshal_def skipWs_def)

subsection \<open>Raw members\<close>

definition rawOf :: "string \<times> json \<Rightarrow> rawMember" where
  "rawOf kv = (fst kv, jsonText (snd kv), snd kv)"

lemma rawMembers_text:
  assumes "\<forall>kv \<in> set ms. written (snd kv)" "length ms \<le> length fuel"
  shows "rawMembers fuel (joinWith '','' (map memberText ms) @ CHR 0x7D # r) = map rawOf ms"
  using assms
proof (induction ms arbitrary: fuel)
  case Nil
  then show ?case by (cases fuel) (simp_all add: skipWs_quote)
next
  case (Cons kv ms)
  obtain k v where kv: "kv = (k, v)" by fastforce
  have v: "written v" using Cons.prems(1) kv by simp
  obtain x fuel' where fuel: "fuel = x # fuel'" using Cons.prems(2) by (cases fuel) auto
  have member: "rawMembers fuel (memberText kv @ c # s) =
      rawOf kv # (if hasPrefix (c # s) '','' then rawMembers fuel' s else [])" if "c = CHR 0x2C \<or> c = CHR 0x7D" for c s
  proof -
    obtain us where us: "scanStr SPlain (escapeStr k @ CHR 0x22 # (CHR '':'' # jsonText v @ c # s)) = Some (us, CHR '':'' # jsonText v @ c # s)"
      "decodeUnits us = k"
      using scanStr_escape by blast
    have "numberEnd (c # s)" "skipWs (c # s) = c # s" using that by (auto simp: skipWs_quote)
    with us decodeFirst_text [OF v, of "c # s"] that show ?thesis
      by (auto simp: fuel kv rawOf_def memberText_def quoteJson_def skipWs_quote skipWs_text [OF v])
  qed
  show ?case
  proof (cases ms)
    case Nil
    with member [of "CHR 0x7D" r] show ?thesis by simp
  next
    case (Cons a ls)
    let ?rest = "joinWith '','' (map memberText ms)"
    have join: "joinWith '','' (map memberText (kv # ms)) = memberText kv @ '','' @ ?rest" using Cons by simp
    with member [of "CHR 0x2C" "?rest @ CHR 0x7D # r"] Cons.IH [of fuel'] Cons.prems fuel show ?thesis
      by (simp del: joinWith.simps)
  qed
qed

lemma sort_key_eq:
  assumes "mset xs = mset ys" "distinct (map f ys)" "sorted (map f ys)"
  shows "sort_key f xs = ys"
proof -
  have "set xs = set ys" using assms(1) by (rule mset_eq_setD)
  then have "inj_on f (set xs)" using assms(2) by (simp add: distinct_map)
  from sort_key_inj_key_eq [OF assms(1) this assms(3)] show ?thesis .
qed

lemma lastMembers_eq:
  assumes "mset ms = mset ys" "distinct (map fst ys)" "sorted (map fst ys)"
  shows "lastMembers ms = ys"
proof -
  have "distinct (map fst (rev ms))"
    using assms(1,2) by (metis distinct_rev mset_eq_imp_distinct_iff mset_map rev_map)
  then have "dedup_on fst [] (rev ms) = rev ms" by (simp add: dedup_on_id)
  then show ?thesis unfolding lastMembers_def using sort_key_eq [of "rev ms" ys fst] assms by simp
qed

subsection \<open>A plan\<close>

lemma sortedUnique_idem [simp]: "sortedUnique (sortedUnique vs) = sortedUnique vs"
proof -
  let ?ws = "dedup_on id [] (filter (\<lambda>v. v \<noteq> []) (map trimSpace vs))"
  have ws: "set ?ws \<subseteq> {v. v \<noteq> [] \<and> trimSpace v = v}"
    using dedup_on_subset [of id "[]" "filter (\<lambda>v. v \<noteq> []) (map trimSpace vs)"] by auto
  then have "map trimSpace (sort ?ws) = sort ?ws" by (intro map_idI) auto
  moreover have "filter (\<lambda>v. v \<noteq> []) (sort ?ws) = sort ?ws" using ws by (intro filter_True) auto
  moreover have "dedup_on id [] (sort ?ws) = sort ?ws"
    by (rule dedup_on_id) (use dedup_on_distinct [of id "[]" "filter (\<lambda>v. v \<noteq> []) (map trimSpace vs)"] in simp_all)
  ultimately show ?thesis by (simp add: sortedUnique_def sort_key_id_if_sorted)
qed

lemma CanonicalPlan_idem [simp]: "CanonicalPlan (CanonicalPlan p) = CanonicalPlan p"
  by (simp add: CanonicalPlan_def)

definition textsJson :: "string list \<Rightarrow> json" where
  "textsJson xs = (if xs = [] then JArr [] else JArr (map JStr xs))"

lemma putTexts_texts: "putTexts (textsJson xs) put d = d\<lparr>dp_plan := put xs (dp_plan d)\<rparr>"
proof -
  have "map ((\<lambda>x. case x of JStr s \<Rightarrow> s | _ \<Rightarrow> []) \<circ> JStr) xs = xs" by (induction xs) simp_all
  then show ?thesis by (simp add: textsJson_def putTexts_def list_all_iff)
qed

lemma written_texts: "written (textsJson xs)"
  by (auto simp: textsJson_def list_all_iff)

lemma source_names:
  "foldKey ''kind'' = ''KIND''" "foldKey ''runtime'' = ''RUNTIME''" "foldKey ''provider'' = ''PROVIDER''"
  "foldKey ''model'' = ''MODEL''" "foldKey ''agent'' = ''AGENT''" "foldKey ''mode'' = ''MODE''"
  "foldKey ''context_hash'' = ''CONTEXT_HASH''"
  by code_simp+

lemma putSource_source:
  assumes "pp_source (dp_plan d) = zeroSource"
  shows "putSource (sourceJson s) d = d\<lparr>dp_plan := (dp_plan d)\<lparr>pp_source := s\<rparr>\<rparr>"
proof -
  have "fold sourceField (strMember ''kind'' (sm_kind s) @ strMember ''runtime'' (sm_runtime s) @
     omitStr ''provider'' (sm_provider s) @ omitStr ''model'' (sm_model s) @ omitStr ''agent'' (sm_agent s) @
     strMember ''mode'' (sm_mode s) @ strMember ''context_hash'' (sm_context_hash s)) (zeroSource, True) = (s, True)"
    by (simp add: strMember_def omitStr_def sourceField_def source_names zeroSource_def)
  then show ?thesis by (simp add: putSource_def sourceJson_def assms)
qed

lemma plan_names:
  "foldKey ''v'' = ''V''" "foldKey ''action'' = ''ACTION''" "foldKey ''target_role'' = ''TARGET_ROLE''"
  "foldKey ''lane_key'' = ''LANE_KEY''" "foldKey ''summary'' = ''SUMMARY''" "foldKey ''reason'' = ''REASON''"
  "foldKey ''risk'' = ''RISK''" "foldKey ''requires_owner'' = ''REQUIRES_OWNER''" "foldKey ''expected_head'' = ''EXPECTED_HEAD''"
  "foldKey ''expected_event'' = ''EXPECTED_EVENT''" "foldKey ''guards'' = ''GUARDS''"
  "foldKey ''prohibited_actions'' = ''PROHIBITED_ACTIONS''" "foldKey ''prompt'' = ''PROMPT''"
  "foldKey ''confidence'' = ''CONFIDENCE''" "foldKey ''source'' = ''SOURCE''"
  by code_simp+

text \<open>The members of a plan without extensions, as they are written and in the order of their names.\<close>

definition planMembers :: "(rat \<Rightarrow> string) \<Rightarrow> PromptPlan \<Rightarrow> jobject" where
  "planMembers showFloat p =
     [(''v'', JNum (showInt (pp_version p))), (''action'', JStr (pp_action p)), (''target_role'', JStr (pp_target_role p)),
      (''lane_key'', JStr (pp_lane p)), (''summary'', JStr (pp_summary p)), (''reason'', JStr (pp_reason p)),
      (''risk'', JStr (pp_risk p)), (''requires_owner'', JBool (pp_requires_owner p)), (''expected_head'', JStr (pp_expected_head p)),
      (''expected_event'', JStr (pp_expected_event p)), (''guards'', textsJson (pp_guards p)),
      (''prohibited_actions'', textsJson (pp_prohibited p)), (''prompt'', JStr (pp_prompt p)),
      (''confidence'', JNum (showFloat (pp_confidence p))), (''source'', sourceJson (pp_source p))]"

definition sortedPlanMembers :: "(rat \<Rightarrow> string) \<Rightarrow> PromptPlan \<Rightarrow> jobject" where
  "sortedPlanMembers showFloat p =
     [(''action'', JStr (pp_action p)), (''confidence'', JNum (showFloat (pp_confidence p))),
      (''expected_event'', JStr (pp_expected_event p)), (''expected_head'', JStr (pp_expected_head p)),
      (''guards'', textsJson (pp_guards p)), (''lane_key'', JStr (pp_lane p)), (''prohibited_actions'', textsJson (pp_prohibited p)),
      (''prompt'', JStr (pp_prompt p)), (''reason'', JStr (pp_reason p)), (''requires_owner'', JBool (pp_requires_owner p)),
      (''risk'', JStr (pp_risk p)), (''source'', sourceJson (pp_source p)), (''summary'', JStr (pp_summary p)),
      (''target_role'', JStr (pp_target_role p)), (''v'', JNum (showInt (pp_version p)))]"

lemma planJson_members:
  "pp_extensions p = [] \<Longrightarrow> planJson showFloat p = JObj (planMembers showFloat p)"
  by (simp add: planJson_def planMembers_def intMember_def strMember_def boolMember_def sliceMember_def textsJson_def)

lemma planMembers_sorted:
  "mset (map rawOf (planMembers showFloat p)) = mset (map rawOf (sortedPlanMembers showFloat p))"
  by (simp add: planMembers_def sortedPlanMembers_def)

lemma planNames_sorted:
  "map fst (map rawOf (sortedPlanMembers showFloat p)) =
    [''action'', ''confidence'', ''expected_event'', ''expected_head'', ''guards'', ''lane_key'', ''prohibited_actions'', ''prompt'',
     ''reason'', ''requires_owner'', ''risk'', ''source'', ''summary'', ''target_role'', ''v'']"
  by (simp add: sortedPlanMembers_def rawOf_def)

lemma written_source: "written (sourceJson s)"
  by (simp add: sourceJson_def strMember_def omitStr_def)

lemma written_plan:
  "numText (showFloat (pp_confidence p)) \<Longrightarrow> \<forall>kv \<in> set (planMembers showFloat p). written (snd kv)"
  by (simp add: planMembers_def numText_showInt written_texts written_source)

lemma decodePlan_members:
  assumes "int64 (pp_version p)" "parseFloat (showFloat (pp_confidence p)) = Some (pp_confidence p)"
  shows "decodePlan parseFloat (map rawOf (sortedPlanMembers showFloat p)) =
    \<lparr>dp_plan = p\<lparr>pp_extensions := []\<rparr>, dp_extensions = [], dp_ok = True\<rparr>"
  unfolding decodePlan_def sortedPlanMembers_def
  by (simp add: rawOf_def planField_def Let_def plan_names putText_def putTexts_texts putSource_source zeroPlan_def
      jsonInt_showInt [OF assms(1)] assms(2))

lemma ParsePlan_canonical:
  assumes "pp_extensions p = []" "int64 (pp_version p)" "numText (showFloat (pp_confidence p))"
    and "parseFloat (showFloat (pp_confidence p)) = Some (pp_confidence p)"
    and "length (CanonicalPlanBytes showFloat p) \<le> maxPlanResponseBytes"
  shows "ParsePlan showFloat parseFloat (CanonicalPlanBytes showFloat p) = Inr (CanonicalPlan p, CanonicalPlanBytes showFloat p) \<and>
    CanonicalPlanBytes showFloat (CanonicalPlan p) = CanonicalPlanBytes showFloat p"
proof -
  let ?q = "CanonicalPlan p" and ?out = "CanonicalPlanBytes showFloat p"
  let ?ms = "planMembers showFloat ?q" and ?ys = "map rawOf (sortedPlanMembers showFloat ?q)"
  have q: "pp_extensions ?q = []" "pp_version ?q = pp_version p" "pp_confidence ?q = pp_confidence p"
    using assms(1) by (simp_all add: CanonicalPlan_def)
  have out: "?out = jsonText (JObj ?ms)" using planJson_members [OF q(1)] by (simp add: CanonicalPlanBytes_def del: jsonText.simps)
  have w: "\<forall>kv \<in> set ?ms. written (snd kv)" using written_plan [of showFloat ?q] assms(3) q(3) by simp
  then have "written (JObj ?ms)" by (auto simp: list_all_iff)
  from decodeFirst_text [OF this, of "[]"] have d: "decodeFirst ?out = Some (JObj ?ms, [])" by (simp add: out del: jsonText.simps)
  have "length (map memberText ?ms) \<le> length (joinWith '','' (map memberText ?ms))"
    by (rule joinWith_length) (simp add: memberText_def quoteJson_def)
  then have "rawMembers ?out (tl (skipWs ?out)) = map rawOf ?ms"
    using rawMembers_text [OF w, of ?out "[]"] by (simp add: out jsonText_obj skipWs_quote del: jsonText.simps joinWith.simps)
  moreover have names: "distinct (map fst ?ys) \<and> sorted (map fst ?ys)"
    unfolding planNames_sorted by code_simp
  ultimately have raw: "lastMembers (rawMembers ?out (tl (skipWs ?out))) = ?ys"
    using lastMembers_eq [OF planMembers_sorted] by simp
  have "fst ` set ?ys = set (map fst ?ys)" by (simp only: set_map)
  then have required: "list_all (\<lambda>f. f \<in> fst ` set ?ys) requiredPlanFields"
    unfolding planNames_sorted by (simp add: requiredPlanFields_def)
  have sub: "set (map fst ?ys) \<subseteq> set knownPlanFields"
    unfolding planNames_sorted knownPlanFields_def requiredPlanFields_def by simp
  have "fst m \<in> set knownPlanFields" if "m \<in> set ?ys" for m
  proof -
    have "fst m \<in> set (map fst ?ys)" using imageI [OF that, of fst] by (simp only: set_map)
    then show ?thesis using sub by blast
  qed
  then have "filter (\<lambda>m. fst m \<notin> set knownPlanFields \<and> safeExtension (snd m)) ?ys = []" by (simp add: filter_empty_conv)
  then have none: "planExtensions [] ?ys = []" by (simp add: planExtensions_def lastMembers_def)
  have plan: "?q\<lparr>pp_extensions := []\<rparr> = ?q" using q(1) by simp
  have same: "CanonicalPlanBytes showFloat ?q = ?out" by (simp add: CanonicalPlanBytes_def)
  have dec: "decodePlan parseFloat ?ys = \<lparr>dp_plan = ?q, dp_extensions = [], dp_ok = True\<rparr>"
    using decodePlan_members [of ?q parseFloat showFloat] assms(2,4) q(2,3) plan by simp
  show ?thesis unfolding ParsePlan_def d raw using assms(5) required none dec plan same
    by (simp add: Let_def skipWs_def)
qed

subsection \<open>Properties\<close>


definition smallPlan :: PromptPlan where
  "smallPlan = zeroPlan\<lparr>pp_version := 1, pp_action := ''dispatch'', pp_guards := ['' b '', ''a'', ''a''], pp_prompt := [CHR 0x22, CHR 0x0A],
     pp_confidence := 1\<rparr>"


end
