(* ===== verification/Generation.thy ===== *)
theory Generation
  imports Planning_Service Policy_Facts Json_Text Context_Facts
begin

text \<open>
  The theorems of the planning service: what an approved plan is worth, which decisions the policy
  can reach, and what a generation leaves in the audit table.
\<close>

subsection \<open>The audit table\<close>

lemma knownStatus_decision: "knownStatus (decisionStatus vs)"
  using decisionStatus_cases [of vs] by (auto simp: knownStatus_def)

definition auditInv :: "AuditStore \<Rightarrow> bool" where
  "auditInv st = (list_all auditRow (as_rows st) \<and> distinct (map gn_id (as_rows st)) \<and> (\<forall>r \<in> set (as_rows st). gn_id r < as_next st))"

definition recorded :: "int \<Rightarrow> int \<Rightarrow> AuditStore \<Rightarrow> AuditStore \<Rightarrow> GenerationResult \<Rightarrow> GenerationRecord \<Rightarrow> bool" where
  "recorded p n st st' g r =
     (auditRow r \<and> st' = \<lparr>as_rows = as_rows st @ [r], as_next = as_next st + 1\<rparr> \<and> gn_id r = as_next st \<and>
      gn_project r = p \<and> gn_issue r = n \<and>
      g = \<lparr>gr_status = gn_status r, gr_context = gn_context r, gr_plan = gn_plan r, gr_decision = gn_decision r,
           gr_plan_id = gn_id r, gr_created = gn_created r\<rparr>)"

lemma recorded_inv: "auditInv st \<Longrightarrow> recorded p n st st' g r \<Longrightarrow> auditInv st'"
  by (force simp: auditInv_def recorded_def)

lemma sort_key_snoc:
  assumes "\<forall>x \<in> set xs. f x < f y"
  shows "sort_key f (xs @ [y]) = sort_key f xs @ [y]"
proof (rule properties_for_sort_key)
  show "mset (sort_key f xs @ [y]) = mset (xs @ [y])" by simp
  show "filter (\<lambda>x. f k = f x) (sort_key f xs @ [y]) = filter (\<lambda>x. f k = f x) (xs @ [y])" for k
    using sort_key_stable [of f "f k" xs] by (simp add: eq_commute [of "f k"])
  show "sorted (map f (sort_key f xs @ [y]))" using assms by (auto simp: sorted_append less_imp_le)
qed

lemma find_append: "find P (xs @ ys) = (case find P xs of None \<Rightarrow> find P ys | Some x \<Rightarrow> Some x)"
  by (induction xs) auto

text \<open>A new record is what reading by its id and reading the latest of its unit give back.\<close>

lemma recorded_read:
  assumes "auditInv st" "recorded p n st st' g r"
  shows "AuditGet p n (gr_plan_id g) st' = Inr (readBack r)" "AuditLatest p n st' = Inr (readBack r)"
proof -
  have r: "gn_id r = as_next st" "unitRows p n st' = unitRows p n st @ [r]" "gr_plan_id g = as_next st"
    using assms(2) by (auto simp: recorded_def unitRows_def)
  have less: "\<forall>x \<in> set (unitRows p n st). gn_id x < gn_id r" using assms(1) r(1) by (simp add: auditInv_def unitRows_def)
  then have "find (\<lambda>x. gn_id x = as_next st) (unitRows p n st) = None" using r(1) by (force simp: find_None_iff)
  then have "find (\<lambda>x. gn_id x = as_next st) (unitRows p n st @ [r]) = Some r"
    using r(1) by (simp add: find_append)
  then show "AuditGet p n (gr_plan_id g) st' = Inr (readBack r)" by (simp add: AuditGet_def r(2,3))
  show "AuditLatest p n st' = Inr (readBack r)" by (simp add: AuditLatest_def newestFirst_def r(2) sort_key_snoc [OF less])
qed

subsection \<open>A generation\<close>

text \<open>The invocations and decisions so far, before the attempts \<open>ks\<close>.\<close>

definition auditCalls :: "InvocationRecord list \<Rightarrow> PolicyAuditDecision list \<Rightarrow> int list \<Rightarrow> bool" where
  "auditCalls invocations history ks =
     (distinct (map iv_attempt invocations @ ks) \<and> set (map iv_attempt invocations @ ks) \<subseteq> {0, 1} \<and>
      (\<forall>i \<in> set invocations. 0 \<le> iv_latency i) \<and>
      (\<forall>d \<in> set history. 0 \<le> ad_attempt d \<and> ad_attempt d \<le> 1 \<and> knownStatus (pd_status (ad_decision d))))"

text \<open>How a generation ends: with an error and nothing stored, or with one record stored for the
  result it returns; a usable result carries a plan the policy approved against a context read
  after the plan was made.\<close>

definition usable :: "GenerationResult \<Rightarrow> bool" where
  "usable g = (gr_status g = ''approved'' \<or> gr_status g = ''fallback'')"

definition approvedAt :: "PlanEnv \<Rightarrow> int \<Rightarrow> int \<Rightarrow> int \<Rightarrow> GenerationResult \<Rightarrow> PromptPlan \<Rightarrow> PromptContext \<Rightarrow> bool" where
  "approvedAt env p n k g plan current =
     ((\<exists>doc. freshContext env k p n = Inr (current, doc)) \<and> gr_plan g = Some plan \<and>
      planViolations (pe_show_float env) (gr_context g) plan current = [] \<and> pd_status (gr_decision g) = ''approved'' \<and>
      pd_plan_hash (gr_decision g) = pe_hash env (CanonicalPlanBytes (pe_show_float env) plan))"

definition generated :: "PlanEnv \<Rightarrow> int \<Rightarrow> int \<Rightarrow> PromptContext \<Rightarrow> AuditStore \<Rightarrow> AuditStore \<times> (planning_error + GenerationResult) \<Rightarrow> bool" where
  "generated env p n c st out =
     (case snd out of
        Inl e \<Rightarrow> fst out = st \<and> e \<noteq> AuditConstraint
      | Inr g \<Rightarrow> gr_context g = c \<and> (usable g \<longrightarrow> (\<exists>k plan current. k \<in> {1, 2, 3} \<and> approvedAt env p n k g plan current)) \<and>
          (\<exists>r. recorded p n st (fst out) g r \<and> distinct (map iv_attempt (gn_invocations r)) \<and> set (map iv_attempt (gn_invocations r)) \<subseteq> {0, 1}))"

lemma freshContext_error: "freshContext env k p n = Inl e \<Longrightarrow> e \<noteq> AuditConstraint"
  by (auto simp: freshContext_def split: option.splits sum.splits)

lemma generated_error: "freshContext env k p n = Inl e \<Longrightarrow> generated env p n c st (st, Inl e)"
  by (simp add: generated_def freshContext_error)

lemma persist_generated:
  assumes "auditCalls invocations history []" "knownMode mode" "knownStatus status" "knownStatus (pd_status decision)"
    and "\<And>q. plan = Some q \<Longrightarrow> oneOf (sm_kind (pp_source q)) [''opencode'', ''template_fallback'']"
    and "status = ''approved'' \<or> status = ''fallback'' \<Longrightarrow> \<exists>k q current doc. k \<in> {1, 2, 3} \<and> plan = Some q \<and>
      freshContext env k p n = Inr (current, doc) \<and> planViolations (pe_show_float env) c q current = [] \<and>
      pd_status decision = ''approved'' \<and> pd_plan_hash decision = pe_hash env (CanonicalPlanBytes (pe_show_float env) q)"
  shows "generated env p n c st (persist env p n mode status c plan decision history invocations st)"
proof -
  let ?r = "\<lparr>gn_id = as_next st, gn_project = p, gn_issue = n, gn_mode = mode, gn_status = status, gn_context = c,
      gn_plan = plan, gn_decision = decision, gn_history = history, gn_invocations = invocations, gn_created = pe_created env\<rparr>"
  let ?g = "\<lparr>gr_status = status, gr_context = c, gr_plan = plan, gr_decision = decision, gr_plan_id = as_next st, gr_created = pe_created env\<rparr>"
  let ?st = "\<lparr>as_rows = as_rows st @ [?r], as_next = as_next st + 1\<rparr>"
  have calls: "list_all (\<lambda>i. 0 \<le> iv_attempt i \<and> iv_attempt i \<le> 1 \<and> 0 \<le> iv_latency i div 1000000) invocations"
    "distinct (map iv_attempt invocations)" "set (map iv_attempt invocations) \<subseteq> {0, 1}"
    "list_all (\<lambda>d. -1 \<le> ad_attempt d \<and> ad_attempt d \<le> 1 \<and> knownStatus (pd_status (ad_decision d))) history"
    using assms(1) by (auto simp: auditCalls_def list_all_iff pos_imp_zdiv_nonneg_iff)
  then have row: "auditRow ?r" "auditRow (?r\<lparr>gn_id := 0\<rparr>)"
    using assms(2-5) by (auto simp: auditRow_def split: option.split)
  then have "persist env p n mode status c plan decision history invocations st = (?st, Inr ?g)"
    by (simp add: persist_def SaveGeneration_def)
  moreover have "recorded p n st ?st ?g ?r" using row(1) by (simp add: recorded_def)
  moreover have "usable ?g \<Longrightarrow> \<exists>k plan current. k \<in> {1, 2, 3} \<and> approvedAt env p n k ?g plan current"
    using assms(6) by (simp add: usable_def approvedAt_def) blast
  ultimately show ?thesis using calls(2,3) unfolding generated_def
    by (simp only: fst_conv snd_conv sum.case) (intro conjI exI [of _ ?r]; simp)
qed

lemma persistFallback_generated:
  assumes "auditCalls invocations history []" "knownMode mode"
  shows "generated env p n c st (persistFallback env p n mode c invocations history st)"
proof (cases "freshContext env 3 p n")
  case (Inl e)
  then show ?thesis by (simp add: persistFallback_def generated_error)
next
  case (Inr cur)
  obtain current doc where cur: "cur = (current, doc)" by (cases cur)
  let ?d = "ValidatePlan (pe_hash env) (pe_show_float env) c (RenderFallback c) current (pe_decided env)"
  have "generated env p n c st (persist env p n mode (if pd_status ?d \<noteq> ''approved'' then pd_status ?d else ''fallback'') c
      (Some (RenderFallback c)) ?d history invocations st)"
  proof (rule persist_generated [OF assms])
    show "knownStatus (pd_status ?d)" by (simp add: knownStatus_decision)
    then show "knownStatus (if pd_status ?d \<noteq> ''approved'' then pd_status ?d else ''fallback'')" by (auto simp: knownStatus_def)
    show "oneOf (sm_kind (pp_source q)) [''opencode'', ''template_fallback'']" if "Some (RenderFallback c) = Some q" for q
      using that by (auto simp: RenderFallback_def)
    show "\<exists>k q current doc. k \<in> {1, 2, 3} \<and> Some (RenderFallback c) = Some q \<and>
        freshContext env k p n = Inr (current, doc) \<and> planViolations (pe_show_float env) c q current = [] \<and>
        pd_status ?d = ''approved'' \<and> pd_plan_hash ?d = pe_hash env (CanonicalPlanBytes (pe_show_float env) q)"
      if "(if pd_status ?d \<noteq> ''approved'' then pd_status ?d else ''fallback'') = ''approved'' \<or>
        (if pd_status ?d \<noteq> ''approved'' then pd_status ?d else ''fallback'') = ''fallback''"
    proof -
      have "pd_status ?d = ''approved''"
        using that decisionStatus_cases [of "planViolations (pe_show_float env) c (RenderFallback c) current"] by (auto split: if_splits)
      then show ?thesis using Inr cur by (intro exI [of _ 3]) auto
    qed
  qed
  then show ?thesis by (simp add: persistFallback_def Inr cur Let_def)
qed

lemma plannerError_generated:
  assumes "auditCalls invocations history []" "knownMode mode"
  shows "generated env p n c st (persist env p n mode ''planner_error'' c None (plannerDecision env c vs) history invocations st)"
  by (rule persist_generated [OF assms]) (simp_all add: plannerDecision_def knownStatus_def)

lemma withoutPlanner_generated:
  assumes "auditCalls invocations history []" "knownMode mode"
  shows "generated env p n c st (withoutPlanner env p n mode c invocations history category st)"
  using persistFallback_generated [OF assms] plannerError_generated [OF assms]
  by (simp add: withoutPlanner_def persistPlannerError_def)

lemma auditCalls_call:
  assumes "auditCalls invocations history (k # ks)" "iv_attempt i = k" "0 \<le> iv_latency i"
  shows "auditCalls (invocations @ [i]) history ks" "auditCalls (invocations @ [i]) history []"
    "knownStatus (pd_status d) \<Longrightarrow> auditCalls (invocations @ [i]) (history @ [\<lparr>ad_attempt = k, ad_decision = d\<rparr>]) ks"
  using assms by (auto simp: auditCalls_def)

text \<open>At most two calls of the planner, whatever it answers.\<close>

lemma attempts_generated:
  assumes "\<forall>k. pe_started env k \<le> pe_completed env k" "knownMode mode"
  shows "auditCalls invocations history ks \<Longrightarrow>
    generated env p n c st (attempts env p n mode c contextJSON ks prior invocations history st)"
proof (induction ks arbitrary: prior invocations history)
  case Nil
  then show ?case using persistFallback_generated [OF Nil assms(2)] plannerError_generated [OF Nil assms(2)] by simp
next
  case (Cons k ks)
  have late: "0 \<le> iv_latency (invocation env mode k)" "iv_attempt (invocation env mode k) = k"
    using assms(1) by (simp_all add: invocation_def)
  have k: "k \<in> {0, 1}" using Cons.prems by (auto simp: auditCalls_def)
  show ?case
  proof (cases "pe_planner env \<lparr>pq_context = contextJSON, pq_attempt = k, pq_violations = pd_violations prior\<rparr>")
    case (Inl category)
    have "auditCalls (invocations @ [(invocation env mode k)\<lparr>iv_status := ''error'', iv_error := category\<rparr>]) history []"
      by (rule auditCalls_call(2) [OF Cons.prems]) (use late in simp_all)
    from withoutPlanner_generated [OF this assms(2)] show ?thesis by (simp add: Inl)
  next
    case (Inr response)
    define called where "called = (invocation env mode k)\<lparr>iv_status := ''completed'', iv_provider := pa_provider response,
        iv_model := pa_model response, iv_usage := pa_usage response, iv_output := pa_output response\<rparr>"
    have called: "iv_attempt called = k" "0 \<le> iv_latency called" using late by (simp_all add: called_def)
    note calls = auditCalls_call [OF Cons.prems called]
    show ?thesis
    proof (cases "ParsePlan (pe_show_float env) (pe_parse_float env) (pa_output response)")
      case (Inl e)
      have "knownStatus (pd_status (malformedDecision env c k e))" by (simp add: malformedDecision_def knownStatus_def)
      from Cons.IH [OF calls(3) [OF this]] show ?thesis by (simp add: Inr Inl called_def Let_def)
    next
      case parsed: (Inr x)
      define plan where "plan = (fst x)\<lparr>pp_source := plannerSource env response c\<rparr>"
      show ?thesis
      proof (cases "freshContext env (k + 1) p n")
        case (Inl e)
        then show ?thesis using parsed by (cases x) (simp add: Inr Let_def generated_error)
      next
        case fresh: (Inr cur)
        obtain current doc where cur: "cur = (current, doc)" by (cases cur)
        define d where "d = ValidatePlan (pe_hash env) (pe_show_float env) c plan current (pe_completed env k)"
        have known: "knownStatus (pd_status d)" by (simp add: d_def knownStatus_decision)
        have "attempts env p n mode c contextJSON (k # ks) prior invocations history st =
          (if pd_status d = ''approved'' \<or> pd_status d = ''stale''
           then persist env p n mode (pd_status d) c (Some plan) d history (invocations @ [called]) st
           else attempts env p n mode c contextJSON ks d (invocations @ [called]) (history @ [\<lparr>ad_attempt = k, ad_decision = d\<rparr>]) st)"
          using parsed fresh cur by (cases x) (simp add: Inr Let_def called_def d_def plan_def)
        moreover have "generated env p n c st (persist env p n mode (pd_status d) c (Some plan) d history (invocations @ [called]) st)"
        proof (rule persist_generated [OF calls(2) assms(2) known known])
          show "oneOf (sm_kind (pp_source q)) [''opencode'', ''template_fallback'']" if "Some plan = Some q" for q
            using that by (auto simp: plan_def plannerSource_def)
          show "\<exists>k q current doc. k \<in> {1, 2, 3} \<and> Some plan = Some q \<and> freshContext env k p n = Inr (current, doc) \<and>
              planViolations (pe_show_float env) c q current = [] \<and> pd_status d = ''approved'' \<and>
              pd_plan_hash d = pe_hash env (CanonicalPlanBytes (pe_show_float env) q)"
            if "pd_status d = ''approved'' \<or> pd_status d = ''fallback''"
          proof -
            have "pd_status d = ''approved''"
              using that decisionStatus_cases [of "planViolations (pe_show_float env) c plan current"] by (auto simp: d_def)
            then show ?thesis using k fresh cur by (intro exI [of _ "k + 1"]) (auto simp: d_def)
          qed
        qed
        ultimately show ?thesis using Cons.IH [OF calls(3) [OF known]] by simp
      qed
    qed
  qed
qed

lemma Generate_generated:
  assumes "\<forall>k. pe_started env k \<le> pe_completed env k"
  shows "(\<exists>e. Generate env p n mode0 st = (st, Inl e) \<and> e \<noteq> AuditConstraint) \<or>
    (\<exists>c doc. freshContext env 0 p n = Inr (c, doc) \<and> generated env p n c st (Generate env p n mode0 st))"
proof -
  define mode where "mode = (if mode0 = [] then ''opencode'' else mode0)"
  consider "\<not> knownMode mode" | e where "freshContext env 0 p n = Inl e"
    | c doc where "knownMode mode" "freshContext env 0 p n = Inr (c, doc)" by (cases "freshContext env 0 p n") auto
  then show ?thesis
  proof cases
    case 1
    then show ?thesis by (simp add: Generate_def mode_def)
  next
    case 2
    then show ?thesis using freshContext_error [OF 2] by (cases "knownMode mode") (simp_all add: Generate_def mode_def)
  next
    case 3
    have skip: "auditCalls [skippedInvocation env mode] [] []"
      by (simp add: auditCalls_def skippedInvocation_def invocation_def)
    have none: "auditCalls [] [] []" "auditCalls [] [] [0, 1]" by (simp_all add: auditCalls_def)
    have "generated env p n c st (generatePlan env p n mode c doc st)"
      unfolding generatePlan_def persistPlannerError_def
      by (simp only: if_split persistFallback_generated [OF none(1) 3(1)] persistFallback_generated [OF skip 3(1)]
        plannerError_generated [OF none(1) 3(1)] attempts_generated [OF assms 3(1) none(2)] simp_thms)
    with 3 show ?thesis by (simp add: Generate_def mode_def Let_def)
  qed
qed

subsection \<open>A fresh context and its unit\<close>

lemma sanitizeRoute_sel [simp]:
  "rt_action (sanitizeRoute r) = rt_action r" "rt_target_role (sanitizeRoute r) = rt_target_role r"
  "rt_lane (sanitizeRoute r) = rt_lane r" "rt_expected_head (sanitizeRoute r) = rt_expected_head r"
  "rt_reason_code (sanitizeRoute r) = rt_reason_code r"
  by (simp_all add: sanitizeRoute_def)

text \<open>What a fresh context says of the unit it was built from.\<close>

lemma BuildContext_sel:
  assumes "BuildContext hash snapshot st options = Inr (c, doc)"
  shows "px_route c = sanitizeRoute (wu_route st)" "px_head c = wu_head st" "px_candidate c = sanitizeCandidateState (wu_candidate st)"
    "px_blocker c = map_option resultSummary (wu_blocker st)" "px_expected_event c = expectedEvent (wu_route st)"
    "px_latest c = latestSummary (wu_latest st)" "px_ci c = sanitizeCI (wu_ci st)"
    "ii_attention (px_issue c) = redactAttention (wu_attention st)"
  using assms by (auto simp: BuildContext_def contextOf_def Let_def split: if_splits)

lemma freshContext_unit:
  assumes "freshContext env k p n = Inr (c, doc)"
  obtains snapshot issue results commands where "pe_snapshot env k p = Some snapshot" "issue \<in> set (ps_issues snapshot)" "is_number issue = n"
    "projectExternal (pe_cache env k) (pj_id (ps_project snapshot)) = (results, commands)"
    "BuildContext (pe_hash env) snapshot (deriveWorkUnit (projectIdentity (ps_project snapshot))
       (pj_workflow_mode (ps_project snapshot)) issue results (commands n)) (pe_options env) = Inr (c, doc)"
proof -
  from assms obtain snapshot unit where s: "pe_snapshot env k p = Some snapshot"
    and f: "FindWorkUnit (DeriveProject (pe_cache env k) snapshot) n = Some unit"
    and b: "BuildContext (pe_hash env) snapshot unit (pe_options env) = Inr (c, doc)"
    unfolding freshContext_def by (auto split: option.splits sum.splits)
  obtain results commands where e: "projectExternal (pe_cache env k) (pj_id (ps_project snapshot)) = (results, commands)" by fastforce
  have sorted: "sorted (map (\<lambda>u. wi_issue_number (wu_identity u)) (st_units (DeriveProject (pe_cache env k) snapshot)))"
    using e st_units_sorted by (simp add: DeriveProject_def)
  from f have "find (\<lambda>u. wi_issue_number (wu_identity u) = n) (st_units (DeriveProject (pe_cache env k) snapshot)) = Some unit"
    unfolding FindWorkUnit_find [OF sorted] .
  from find_Some_in [OF this] obtain issue where i: "issue \<in> set (ps_issues snapshot)"
    "unit = deriveWorkUnit (projectIdentity (ps_project snapshot)) (pj_workflow_mode (ps_project snapshot)) issue results (commands (is_number issue))"
    "wi_issue_number (wu_identity unit) = n"
    by (auto simp: DeriveProject_def e deriveProjectWithExternalState_def Let_def)
  from i(2,3) have n: "is_number issue = n" by (simp add: unitIdentity_def)
  show thesis by (rule that [OF s i(1) n e]) (use b i(2) n in simp)
qed

text \<open>The unit a context was built from, at one moment.\<close>

definition unitAt :: "PlanEnv \<Rightarrow> int \<Rightarrow> int \<Rightarrow> Issue \<Rightarrow> WorkUnitState \<Rightarrow> ExternalCommand option \<Rightarrow> externalResults \<Rightarrow> bool" where
  "unitAt env k p issue unit command results =
     (\<exists>snapshot commands. pe_snapshot env k p = Some snapshot \<and> issue \<in> set (ps_issues snapshot) \<and>
        projectExternal (pe_cache env k) (pj_id (ps_project snapshot)) = (results, commands) \<and> command = commands (is_number issue) \<and>
        unit = deriveWorkUnit (projectIdentity (ps_project snapshot)) (pj_workflow_mode (ps_project snapshot)) issue results command)"

lemma freshContext_unitAt:
  assumes "freshContext env k p n = Inr (c, doc)"
  obtains issue unit command results where "unitAt env k p issue unit command results" "is_number issue = n"
    "px_route c = sanitizeRoute (wu_route unit)" "px_head c = wu_head unit" "px_blocker c = map_option resultSummary (wu_blocker unit)"
proof -
  obtain snapshot issue results commands where u: "pe_snapshot env k p = Some snapshot" "issue \<in> set (ps_issues snapshot)" "is_number issue = n"
    "projectExternal (pe_cache env k) (pj_id (ps_project snapshot)) = (results, commands)"
    and b: "BuildContext (pe_hash env) snapshot (deriveWorkUnit (projectIdentity (ps_project snapshot))
       (pj_workflow_mode (ps_project snapshot)) issue results (commands n)) (pe_options env) = Inr (c, doc)"
    by (rule freshContext_unit [OF assms]) blast
  let ?unit = "deriveWorkUnit (projectIdentity (ps_project snapshot)) (pj_workflow_mode (ps_project snapshot)) issue results (commands n)"
  have "unitAt env k p issue ?unit (commands n) results" using u by (auto simp: unitAt_def)
  with that u(3) BuildContext_sel [OF b] show thesis by blast
qed

subsection \<open>Properties\<close>

text \<open>C30. A plan that the planning service offers for dispatch is safe. When \<open>Generate\<close> returns an
  approved or fallback plan that dispatches a worker, then at a moment after the plan was made the
  unit derived from the snapshot of that moment was dispatched to the same role, lane and exact
  Head: the Issue was open, with at most one open pull request, no command held the unit and its
  latest evidence was safe. With a pending blocker the role is the Lead; the plan lists every
  mandatory prohibition, its prompt grants no forbidden authority and its text holds nothing that
  would be redacted.\<close>

theorem approved_dispatch_safe:
  assumes "Generate env p n mode st = (st', Inr g)" "\<forall>k. pe_started env k \<le> pe_completed env k"
    and "gr_status g \<in> {''approved'', ''fallback''}" "gr_plan g = Some plan" "pp_action plan = ''dispatch''"
  shows "(\<exists>k issue unit command results. k \<in> {1, 2, 3} \<and> unitAt env k p issue unit command results \<and> is_number issue = n \<and>
      rt_action (wu_route unit) = ''dispatch'' \<and> rt_target_role (wu_route unit) = pp_target_role plan \<and>
      rt_lane (wu_route unit) = pp_lane plan \<and> wu_head unit = pp_expected_head plan \<and> rt_expected_head (wu_route unit) = wu_head unit \<and>
      \<not> equalFold (is_state issue) ''closed'' \<and> length (openCandidates (is_pulls issue)) \<le> 1 \<and>
      (\<forall>c. command = Some c \<longrightarrow> \<not> holdingStatus (xc_status c)) \<and> \<not> latestTerminalEvidenceUnsafe unit) \<and>
    (px_blocker (gr_context g) \<noteq> None \<longrightarrow> pp_target_role plan = ''lead'') \<and>
    set mandatoryProhibitedActions \<subseteq> set (pp_prohibited plan) \<and> \<not> grantsForbiddenAuthority (pp_prompt plan) \<and>
    redactText (CanonicalPlanBytes (pe_show_float env) plan) = CanonicalPlanBytes (pe_show_float env) plan"
proof -
  have "generated env p n (gr_context g) st (st', Inr g)"
    using Generate_generated [OF assms(2), of p n mode st] assms(1) by (auto simp: generated_def)
  then obtain k q current where k: "k \<in> {1, 2, 3}" and a: "approvedAt env p n k g q current"
    using assms(3) by (auto simp: generated_def usable_def)
  then have q: "q = plan" using assms(4) by (simp add: approvedAt_def)
  with a have ok: "planViolations (pe_show_float env) (gr_context g) plan current = []" by (simp add: approvedAt_def)
  note r = approved_route [OF ok]
  obtain doc where f: "freshContext env k p n = Inr (current, doc)" using a by (auto simp: approvedAt_def)
  obtain issue unit command results where u: "unitAt env k p issue unit command results" "is_number issue = n"
    "px_route current = sanitizeRoute (wu_route unit)" "px_head current = wu_head unit"
    by (rule freshContext_unitAt [OF f]) blast
  have route: "rt_action (wu_route unit) = ''dispatch''" "rt_target_role (wu_route unit) = pp_target_role plan"
    "rt_lane (wu_route unit) = pp_lane plan" "wu_head unit = pp_expected_head plan"
    using r assms(5) u(3,4) by (simp_all add: sameRoute_def)
  from u(1) obtain project m where unit: "unit = deriveWorkUnit project m issue results command" by (auto simp: unitAt_def)
  note d = dispatch_unit [OF route(1) [unfolded unit]]
  have "workerPromptAllowed plan" using assms(5) by (simp add: workerPromptAllowed_def)
  with approved_authority [OF ok] r(6,7) assms(5) have "px_blocker (gr_context g) \<noteq> None \<longrightarrow> pp_target_role plan = ''lead''"
    "\<not> grantsForbiddenAuthority (pp_prompt plan)" by auto
  moreover have "rt_expected_head (wu_route unit) = wu_head unit" "\<not> latestTerminalEvidenceUnsafe unit" using d unit by auto
  ultimately show ?thesis using k u(1,2) route d approved_authority(2,4) [OF ok] by blast
qed

text \<open>C31. A dispatch past a pending blocker is never approved. When the unit at the start of a
  generation has a pending blocker and is dispatched to anybody but the Lead - which the routing
  rules do produce, for an inconclusive QA result - then no generation from there is approved, by
  no planner and no fallback, whatever it answers and however often it is tried.\<close>

theorem bypass_never_approved:
  assumes "Generate env p n mode st = (st', Inr g)" "\<forall>k. pe_started env k \<le> pe_completed env k"
    and "freshContext env 0 p n = Inr (c, doc)" "px_blocker c \<noteq> None" "rt_action (px_route c) = ''dispatch''"
      "rt_target_role (px_route c) \<noteq> ''lead''"
  shows "gr_status g \<notin> {''approved'', ''fallback''} \<and> gr_context g = c"
proof -
  have gen: "generated env p n c st (st', Inr g)"
    using Generate_generated [OF assms(2), of p n mode st] assms(1,3) by auto
  then have "gr_context g = c" by (simp add: generated_def)
  moreover have "\<not> usable g"
  proof
    assume "usable g"
    with gen obtain k plan current where "approvedAt env p n k g plan current" by (auto simp: generated_def)
    then have "planViolations (pe_show_float env) c plan current = []" using \<open>gr_context g = c\<close> by (simp add: approvedAt_def)
    from approved_authority(1) [OF this assms(4,5)] assms(6) show False by simp
  qed
  ultimately show ?thesis by (simp add: usable_def)
qed


subsection \<open>Samples\<close>

definition sampleRepository :: Project where
  "sampleRepository = \<lparr>pj_id = 1, pj_owner = ''Nord'', pj_repository = ''Dash'', pj_workflow_mode = ''standard'', pj_polling_enabled = True,
     pj_poll_interval = 60, pj_sync_status = ''ok'', pj_sync_error = [], pj_sync_started = None, pj_sync_completed = None,
     pj_created = 1, pj_updated = 1\<rparr>"

definition sampleEnvironment :: "Issue \<Rightarrow> externalResults \<Rightarrow> string \<Rightarrow> PlanEnv" where
  "sampleEnvironment issue results answer =
     \<lparr>pe_hash = \<lambda>_. ''h'', pe_show_float = \<lambda>_. ''1'', pe_parse_float = \<lambda>_. Some 1, pe_options = sampleOptions, pe_fallback = False,
      pe_metadata = \<lparr>md_enabled = True, md_runtime = ''opencode'', md_provider = ''p'', md_model = ''m'', md_agent = ''g''\<rparr>,
      pe_planner = \<lambda>_. Inr \<lparr>pa_output = answer, pa_provider = ''p'', pa_model = ''m'', pa_usage = noUsage\<rparr>,
      pe_snapshot = \<lambda>_ _. Some \<lparr>ps_project = sampleRepository, ps_issues = [issue]\<rparr>, pe_cache = \<lambda>_. [1 \<mapsto> (results, Map.empty)],
      pe_started = \<lambda>_. 10, pe_completed = \<lambda>_. 20, pe_created = 30, pe_decided = 30\<rparr>"

definition emptyAudit :: AuditStore where
  "emptyAudit = \<lparr>as_rows = [], as_next = 1\<rparr>"

lemma sample_clock: "\<forall>k. pe_started (sampleEnvironment issue results answer) k \<le> pe_completed (sampleEnvironment issue results answer) k"
  by (simp add: sampleEnvironment_def)

text \<open>The context of the one Issue of such an environment, the same at every moment.\<close>

lemma sample_fresh:
  fixes issue :: Issue and results :: externalResults and answer :: string
  assumes "is_number issue = 3"
  defines "unit \<equiv> deriveWorkUnit sampleProject ''standard'' issue results None"
  obtains c doc where "\<And>k. freshContext (sampleEnvironment issue results answer) k 1 3 = Inr (c, doc)"
    "px_route c = sanitizeRoute (wu_route unit)" "px_head c = wu_head unit" "px_blocker c = map_option resultSummary (wu_blocker unit)"
    "px_hash c = ''h''" "px_expected_event c = expectedEvent (wu_route unit)" "px_candidate c = sanitizeCandidateState (wu_candidate unit)"
    "ii_attention (px_issue c) = redactAttention (wu_attention unit)" "ii_body (px_issue c) = [] \<or> is_body issue \<noteq> []"
    "is_body issue = [] \<Longrightarrow> px_warnings c = sanitizeWarnings (wu_warnings unit)"
proof -
  let ?env = "sampleEnvironment issue results answer" and ?snapshot = "\<lparr>ps_project = sampleRepository, ps_issues = [issue]\<rparr>"
  have identity: "projectIdentity sampleRepository = sampleProject"
    by (simp add: projectIdentity_def sampleRepository_def sampleProject_def)
  have e: "projectExternal (pe_cache ?env k) (pj_id (ps_project ?snapshot)) = (results, Map.empty)" for k
    by (simp add: sampleEnvironment_def sampleRepository_def projectExternal_def)
  have units: "st_units (DeriveProject (pe_cache ?env k) ?snapshot) = [unit]" for k
    using e [of k] by (simp add: DeriveProject_def deriveProjectWithExternalState_def Let_def identity unit_def)
      (simp add: sampleRepository_def)
  have number: "wi_issue_number (wu_identity unit) = 3" using assms(1) by (simp add: unit_def unitIdentity_def)
  have found: "FindWorkUnit (DeriveProject (pe_cache ?env k) ?snapshot) 3 = Some unit" for k
    using FindWorkUnit_find [of "DeriveProject (pe_cache ?env k) ?snapshot" 3] units [of k] number by simp
  let ?r = "BuildContext (\<lambda>_. ''h'') ?snapshot unit sampleOptions"
  obtain c doc where b: "?r = Inr (c, doc)"
    by (simp add: BuildContext_def sampleOptions_def withDefault_def minimumSafeEvidenceLimit_def Let_def)
  have f: "freshContext ?env k 1 3 = Inr (c, doc)" for k
    using b found [of k] by (simp add: freshContext_def sampleEnvironment_def)
  have body: "issueBody ?snapshot unit = redactText (is_body issue)"
    by (simp add: issueBody_def findSnapshotIssue_def unit_def unitIdentity_def)
  have h: "px_hash c = ''h''" "is_body issue = [] \<Longrightarrow> ii_body (px_issue c) = []"
    "is_body issue = [] \<Longrightarrow> px_warnings c = sanitizeWarnings (wu_warnings unit)"
    using b body redactText_plain [of "[]"]
    by (auto simp: BuildContext_def sampleOptions_def withDefault_def minimumSafeEvidenceLimit_def Let_def contextOf_def
        plainScan_plain)
  show thesis by (rule that [OF f]) (use BuildContext_sel [OF b] h in auto)
qed

text \<open>A plan for a new Issue that a planner sends back, and the unit it is for.\<close>

definition goodPrompt :: string where
  "goodPrompt = ''current objective, authoritative state, required next action, scope and constraints, prohibited actions, required evidence, stop conditions, initiative clause, terminal worker_result: completed, no_op, blocked; supervisor:event''"

definition goodPlan :: PromptPlan where
  "goodPlan =
     \<lparr>pp_version = 1, pp_action = ''dispatch'', pp_target_role = ''implementor'', pp_lane = ''nord/dash#3:implementor'', pp_summary = ''s'',
      pp_reason = ''r'', pp_risk = ''low'', pp_requires_owner = False, pp_expected_head = [], pp_expected_event = ''terminal worker_result'',
      pp_guards = [], pp_prohibited = mandatoryProhibitedActions, pp_prompt = goodPrompt, pp_confidence = 1, pp_source = zeroSource,
      pp_extensions = []\<rparr>"

definition goodSource :: SourceMetadata where
  "goodSource = \<lparr>sm_kind = ''opencode'', sm_runtime = ''opencode'', sm_provider = ''p'', sm_model = ''m'', sm_agent = ''g'',
     sm_mode = ''opencode'', sm_context_hash = ''h''\<rparr>"

lemma good_canonical: "CanonicalPlan goodPlan = goodPlan"
proof -
  have "sortedUnique mandatoryProhibitedActions = mandatoryProhibitedActions" "sortedUnique [] = []" by code_simp+
  then show ?thesis by (simp add: CanonicalPlan_def goodPlan_def)
qed

lemma good_parsed: "ParsePlan (\<lambda>_. ''1'') (\<lambda>_. Some 1) (CanonicalPlanBytes (\<lambda>_. ''1'') goodPlan) =
    Inr (goodPlan, CanonicalPlanBytes (\<lambda>_. ''1'') goodPlan)"
proof -
  have "''1'' = showInt 1" by code_simp
  then have "numText ''1''" using numText_showInt [of 1] by metis
  moreover have "length (CanonicalPlanBytes (\<lambda>_. ''1'') goodPlan) = 677" by code_simp
  then have "length (CanonicalPlanBytes (\<lambda>_. ''1'') goodPlan) \<le> maxPlanResponseBytes" by (simp add: maxPlanResponseBytes_def)
  ultimately show ?thesis
    using ParsePlan_canonical [of goodPlan "\<lambda>_. ''1''" "\<lambda>_. Some 1"] good_canonical by (simp add: goodPlan_def int64_def)
qed

text \<open>Its text, cut at the quotes.\<close>

definition goodParts :: "string list" where
  "goodParts =
    [''{'', ''v'', '':1,'', ''action'', '':'', ''dispatch'', '','', ''target_role'', '':'', ''implementor'', '','',
     ''lane_key'', '':'', ''nord/dash#3:implementor'', '','', ''summary'', '':'', ''s'', '','', ''reason'', '':'', ''r'',
     '','', ''risk'', '':'', ''low'', '','', ''requires_owner'', '':false,'', ''expected_head'', '':'', [], '','',
     ''expected_event'', '':'', ''terminal worker_result'', '','', ''guards'', '':[],'', ''prohibited_actions'', '':['',
     ''accept_residual_risk'', '','', ''approve_scope_change'', '','', ''browser_dispatch'', '','', ''disable_required_ci'',
     '','', ''github_write'', '','', ''merge'', ''],'', ''prompt'', '':'', goodPrompt, '','', ''confidence'', '':1,'',
     ''source'', '':{'', ''kind'', '':'', ''opencode'', '','', ''runtime'', '':'', ''opencode'', '','', ''provider'', '':'',
     ''p'', '','', ''model'', '':'', ''m'', '','', ''agent'', '':'', ''g'', '','', ''mode'', '':'', ''opencode'', '','',
     ''context_hash'', '':'', ''h'', ''}}'']"

lemma good_parts: "CanonicalPlanBytes (\<lambda>_. ''1'') (goodPlan\<lparr>pp_source := goodSource\<rparr>) = joinWith [CHR 0x22] goodParts"
  by code_simp

lemma good_plain: "plainText (CanonicalPlanBytes (\<lambda>_. ''1'') (goodPlan\<lparr>pp_source := goodSource\<rparr>))"
  unfolding good_parts by (rule plainText_quotes) code_simp

lemma good_prompt_words:
  "list_all (containsStr goodPrompt)
     (requiredPromptSections @ [''completed'', ''no_op'', ''blocked'', ''supervisor:event'', ''worker_result''])"
  "\<not> containsStr goodPrompt ''ci passed''" "\<not> containsStr goodPrompt ''ci succeeded''" "\<not> containsStr goodPrompt ''qa approved''"
  by code_simp+

lemma good_prompt_low: "toLower goodPrompt = goodPrompt" "trimSpace goodPrompt = goodPrompt" "CHR 0x0A \<notin> set goodPrompt"
  by code_simp+

lemma good_prompt_grants: "\<not> grantsForbiddenAuthority goodPrompt"
proof (rule grants_none)
  show "CHR 0x0A \<notin> set goodPrompt" "toLower (trimSpace goodPrompt) = goodPrompt" by (simp_all add: good_prompt_low)
  show "unfoldable goodPrompt" by code_simp
  show "\<not> list_ex (containsStr goodPrompt) grantWords" by code_simp
qed

definition goodUnit :: WorkUnitState where
  "goodUnit = deriveWorkUnit sampleProject ''standard'' (sampleIssue [] []) Map.empty None"

text \<open>What the policy reads of a unit, evaluated at once.\<close>

definition unitView :: "WorkUnitState \<Rightarrow> string list \<times> string list \<times> bool \<times> bool \<times> AttentionKind \<times> string list" where
  "unitView u = ([rt_action (wu_route u), rt_target_role (wu_route u), rt_lane (wu_route u), rt_expected_head (wu_route u), wu_head u],
     rt_guards (wu_route u), wu_blocker u = None, cs_ambiguous (wu_candidate u), at_kind (wu_attention u), map w_code (wu_warnings u))"

lemma good_view:
  "unitView goodUnit = ([''dispatch'', ''implementor'', ''nord/dash#3:implementor'', [], []], [], True, False, AttentionActionRequired,
     [''missing_lifecycle_label''])"
  by code_simp

lemma good_unit:
  "rt_action (wu_route goodUnit) = ''dispatch''" "rt_target_role (wu_route goodUnit) = ''implementor''"
  "rt_lane (wu_route goodUnit) = ''nord/dash#3:implementor''" "rt_expected_head (wu_route goodUnit) = []"
  "rt_guards (wu_route goodUnit) = []" "wu_head goodUnit = []" "wu_blocker goodUnit = None" "\<not> cs_ambiguous (wu_candidate goodUnit)"
  "at_kind (wu_attention goodUnit) = AttentionActionRequired" "map w_code (wu_warnings goodUnit) = [''missing_lifecycle_label'']"
  using good_view by (simp_all add: unitView_def)

definition goodEnv :: PlanEnv where
  "goodEnv = sampleEnvironment (sampleIssue [] []) Map.empty (CanonicalPlanBytes (\<lambda>_. ''1'') goodPlan)"

lemma goodEnv_sel [simp]:
  "pe_hash goodEnv x = ''h''" "pe_show_float goodEnv = (\<lambda>_. ''1'')" "pe_parse_float goodEnv = (\<lambda>_. Some 1)" "\<not> pe_fallback goodEnv"
  "md_enabled (pe_metadata goodEnv)" "md_agent (pe_metadata goodEnv) = ''g''"
  "pe_planner goodEnv q = Inr \<lparr>pa_output = CanonicalPlanBytes (\<lambda>_. ''1'') goodPlan, pa_provider = ''p'', pa_model = ''m'', pa_usage = noUsage\<rparr>"
  by (simp_all add: goodEnv_def sampleEnvironment_def)

lemma good_violations:
  assumes "px_route c = sanitizeRoute (wu_route goodUnit)" "px_head c = wu_head goodUnit" "px_blocker c = map_option resultSummary (wu_blocker goodUnit)"
    "px_hash c = ''h''" "px_expected_event c = expectedEvent (wu_route goodUnit)" "px_candidate c = sanitizeCandidateState (wu_candidate goodUnit)"
    "ii_attention (px_issue c) = redactAttention (wu_attention goodUnit)" "px_warnings c = sanitizeWarnings (wu_warnings goodUnit)"
  shows "planViolations (\<lambda>_. ''1'') c (goodPlan\<lparr>pp_source := goodSource\<rparr>) c = []"
proof -
  have [simp]: "sortedUnique [] = []" by code_simp
  obtain w where "wu_warnings goodUnit = [w]" "w_code w = ''missing_lifecycle_label''" using good_unit(10) by auto
  then have w: "\<not> hasWarningCode (px_warnings c) ''issue_contract_incomplete''"
    using assms(8) by (simp add: sanitizeWarnings_def hasWarningCode_def)
  have "routeViolations c (goodPlan\<lparr>pp_source := goodSource\<rparr>) c = []"
    using w assms by (simp add: routeViolations_def Let_def sameRoute_def sameStrings_def sanitizeRoute_def good_unit
        goodPlan_def expectedEvent_def)
  moreover have "sourceViolations c (goodPlan\<lparr>pp_source := goodSource\<rparr>) = []"
  proof -
    have "\<not> blank ''s''" "\<not> blank ''r''" "\<not> blank ''low''" by code_simp+
    then show ?thesis using assms(4) by (simp add: sourceViolations_def Let_def goodPlan_def goodSource_def)
  qed
  moreover have "authorityViolations c (goodPlan\<lparr>pp_source := goodSource\<rparr>) = []"
    using assms by (simp add: authorityViolations_def Let_def sanitizeRoute_def good_unit goodPlan_def redactAttention_def
        sanitizeCandidateState_def sameStrings_def mandatoryProhibitedActions_def)
  moreover have "promptViolations c (goodPlan\<lparr>pp_source := goodSource\<rparr>) = []"
  proof -
    have plan: "workerPromptAllowed (goodPlan\<lparr>pp_source := goodSource\<rparr>)" "pp_prompt (goodPlan\<lparr>pp_source := goodSource\<rparr>) = goodPrompt"
      "pp_target_role (goodPlan\<lparr>pp_source := goodSource\<rparr>) = ''implementor''"
      by (simp_all add: workerPromptAllowed_def goodPlan_def)
    show ?thesis using good_prompt_words good_prompt_grants good_prompt_low(1)
      by (simp add: promptViolations_def plan Let_def list_all_iff)
  qed
  moreover have "redactText (CanonicalPlanBytes (\<lambda>_. ''1'') (goodPlan\<lparr>pp_source := goodSource\<rparr>)) =
      CanonicalPlanBytes (\<lambda>_. ''1'') (goodPlan\<lparr>pp_source := goodSource\<rparr>)"
    by (rule redactText_plain) (rule good_plain)
  ultimately show ?thesis by (simp add: planViolations_def)
qed

lemma good_generation:
  obtains c where "snd (Generate goodEnv 1 3 ''opencode'' emptyAudit) =
    Inr \<lparr>gr_status = ''approved'', gr_context = c, gr_plan = Some (goodPlan\<lparr>pp_source := goodSource\<rparr>),
       gr_decision = ValidatePlan (pe_hash goodEnv) (pe_show_float goodEnv) c (goodPlan\<lparr>pp_source := goodSource\<rparr>) c (pe_completed goodEnv 0),
       gr_plan_id = 1, gr_created = pe_created goodEnv\<rparr>"
proof -
  have three: "is_number (sampleIssue [] []) = 3" "is_body (sampleIssue [] []) = []" by (simp_all add: sampleIssue_def)
  obtain c doc where c: "\<And>k. freshContext goodEnv k 1 3 = Inr (c, doc)"
    and px: "px_route c = sanitizeRoute (wu_route goodUnit)" "px_head c = wu_head goodUnit" "px_blocker c = map_option resultSummary (wu_blocker goodUnit)"
    "px_hash c = ''h''" "px_expected_event c = expectedEvent (wu_route goodUnit)" "px_candidate c = sanitizeCandidateState (wu_candidate goodUnit)"
    "ii_attention (px_issue c) = redactAttention (wu_attention goodUnit)" "px_warnings c = sanitizeWarnings (wu_warnings goodUnit)"
    unfolding goodEnv_def goodUnit_def by (rule sample_fresh [OF three(1)]) (use three(2) in auto)
  let ?plan = "goodPlan\<lparr>pp_source := goodSource\<rparr>"
  have source: "plannerSource goodEnv \<lparr>pa_output = CanonicalPlanBytes (\<lambda>_. ''1'') goodPlan, pa_provider = ''p'', pa_model = ''m'', pa_usage = noUsage\<rparr> c = goodSource"
    by (simp add: plannerSource_def goodSource_def px(4))
  let ?d = "ValidatePlan (pe_hash goodEnv) (pe_show_float goodEnv) c ?plan c (pe_completed goodEnv 0)"
  note vs = good_violations [OF px]
  have d: "pd_status ?d = ''approved''" using vs by simp
  let ?calls = "[(invocation goodEnv ''opencode'' 0)\<lparr>iv_status := ''completed'', iv_provider := ''p'',
      iv_model := ''m'', iv_usage := noUsage, iv_output := CanonicalPlanBytes (\<lambda>_. ''1'') goodPlan\<rparr>]"
  have "Generate goodEnv 1 3 ''opencode'' emptyAudit = persist goodEnv 1 3 ''opencode'' ''approved'' c (Some ?plan) ?d [] ?calls emptyAudit"
    using vs by (simp add: Generate_def knownMode_def c generatePlan_def good_parsed source decisionStatus_def Let_def)
  moreover have "sm_kind goodSource = ''opencode''" "0 \<le> iv_latency (invocation goodEnv ''opencode'' 0)" "iv_attempt (invocation goodEnv ''opencode'' 0) = 0"
    by (simp_all add: goodSource_def invocation_def goodEnv_def sampleEnvironment_def)
  ultimately show thesis using that vs
    by (simp add: decisionStatus_def persist_def SaveGeneration_def auditRow_def knownMode_def knownStatus_def emptyAudit_def pos_imp_zdiv_nonneg_iff)
qed

theorem approved_dispatch_safe_witness:
  "\<exists>g. snd (Generate goodEnv 1 3 ''opencode'' emptyAudit) = Inr g \<and> gr_status g = ''approved'' \<and>
     set mandatoryProhibitedActions \<subseteq> set (pp_prohibited (goodPlan\<lparr>pp_source := goodSource\<rparr>))"
proof -
  obtain c where g: "snd (Generate goodEnv 1 3 ''opencode'' emptyAudit) =
    Inr \<lparr>gr_status = ''approved'', gr_context = c, gr_plan = Some (goodPlan\<lparr>pp_source := goodSource\<rparr>),
       gr_decision = ValidatePlan (pe_hash goodEnv) (pe_show_float goodEnv) c (goodPlan\<lparr>pp_source := goodSource\<rparr>) c (pe_completed goodEnv 0),
       gr_plan_id = 1, gr_created = pe_created goodEnv\<rparr>" (is "_ = Inr ?g") by (rule good_generation)
  then have gen: "Generate goodEnv 1 3 ''opencode'' emptyAudit = (fst (Generate goodEnv 1 3 ''opencode'' emptyAudit), Inr ?g)"
    by (metis prod.collapse)
  have clock: "\<forall>k. pe_started goodEnv k \<le> pe_completed goodEnv k" unfolding goodEnv_def by (rule sample_clock)
  have plan: "gr_plan ?g = Some (goodPlan\<lparr>pp_source := goodSource\<rparr>)" "pp_action (goodPlan\<lparr>pp_source := goodSource\<rparr>) = ''dispatch''"
    by (simp_all add: goodPlan_def)
  show ?thesis using approved_dispatch_safe [OF gen clock _ plan] g by auto
qed


text \<open>The unit with a pending blocker of the Implementor and an inconclusive result of QA.\<close>

definition bypassEnv :: PlanEnv where
  "bypassEnv = sampleEnvironment (sampleIssue [samplePull ''success''] [1, 2]) bypassExternal []"

theorem bypass_never_approved_witness:
  "case Generate bypassEnv 1 3 ''fallback'' emptyAudit of
     (st', Inr g) \<Rightarrow> gr_status g \<notin> {''approved'', ''fallback''} \<and> length (as_rows st') = 1 | _ \<Rightarrow> False"
proof -
  have three: "is_number (sampleIssue [samplePull ''success''] [1, 2]) = 3" by (simp add: sampleIssue_def)
  let ?unit = "deriveWorkUnit sampleProject ''standard'' (sampleIssue [samplePull ''success''] [1, 2]) bypassExternal None"
  obtain c doc where c: "\<And>k. freshContext bypassEnv k 1 3 = Inr (c, doc)"
    and px: "px_route c = sanitizeRoute (wu_route ?unit)" "px_blocker c = map_option resultSummary (wu_blocker ?unit)"
    unfolding bypassEnv_def by (rule sample_fresh [OF three]) blast
  have u: "px_blocker c \<noteq> None" "rt_action (px_route c) = ''dispatch''" "rt_target_role (px_route c) \<noteq> ''lead''"
    using inconclusive_bypasses_blocker px by (auto simp: Let_def sanitizeRoute_def)
  have clock: "\<forall>k. pe_started bypassEnv k \<le> pe_completed bypassEnv k" unfolding bypassEnv_def by (rule sample_clock)
  obtain st' out where out: "Generate bypassEnv 1 3 ''fallback'' emptyAudit = (st', out)" by (cases "Generate bypassEnv 1 3 ''fallback'' emptyAudit")
  have gen: "generated bypassEnv 1 3 c emptyAudit (st', out)"
    using Generate_generated [OF clock, of 1 3 "''fallback''" emptyAudit] c out by (auto simp: generated_def)
  have "Generate bypassEnv 1 3 ''fallback'' emptyAudit = persistFallback bypassEnv 1 3 ''fallback'' c [] [] emptyAudit"
    by (simp add: Generate_def knownMode_def c generatePlan_def)
  then have "out \<noteq> Inl e" if "e \<noteq> AuditConstraint" for e
    using that out c by (auto simp: persistFallback_def persist_def SaveGeneration_def Let_def split: if_splits)
  moreover have "e \<noteq> AuditConstraint" if "out = Inl e" for e using gen that by (simp add: generated_def)
  ultimately obtain g where g: "out = Inr g" by (cases out) auto
  then have "length (as_rows st') = 1" using gen by (auto simp: generated_def recorded_def emptyAudit_def)
  with bypass_never_approved [OF out [unfolded g] clock c u] out g show ?thesis by simp
qed

end
