(* ===== verification/Planned_Delivery.thy ===== *)
theory Planned_Delivery
  imports Coordinator_Machine Generation
begin

text \<open>
  The parts together, as \<open>cmd/server/main.go\<close> wires them: the coordinator refreshes the projection that
  the planning service derives its contexts from, and the delivery queue asks the planning service,
  through the adapter, whether a confirmed prompt is still current.
\<close>

subsection \<open>The projection after a refresh\<close>

lemma refreshCommands_keeps_entry:
  assumes "n \<notin> is_number ` set issues"
  shows "refreshCommands now p issues ext st = (st', Inr ext') \<Longrightarrow> ext' n = ext n"
  using assms
proof (induction issues arbitrary: ext st)
  case (Cons i issues)
  obtain st1 r where 1: "currentCommand now i (ListCommands p (is_number i) st) st = (st1, r)" by fastforce
  show ?case
  proof (cases r)
    case (Inr c)
    with 1 Cons show ?thesis by (cases c) (auto split: prod.splits)
  qed (use 1 Cons in auto)
qed simp

lemma refreshCommands_holds:
  assumes "storeInv st" "refreshCommands now p issues ext st = (st', Inr ext')" "distinct (map is_number issues)"
    and "i \<in> set issues" "c \<in> set (sl_commands st)" "wc_project c = p" "wc_issue c = is_number i"
    "expectsHead (singleCurrentHead (is_pulls i)) c"
  shows "\<exists>x. ext' (is_number i) = Some x \<and> holdsUnit x"
  using assms
proof (induction issues arbitrary: ext st)
  case (Cons j issues)
  let ?cs = "ListCommands p (is_number j) st"
  have "set ?cs \<subseteq> set (sl_commands st)" by (auto simp: ListCommands_set)
  from currentCommand_ok [OF Cons.prems(1) this ListCommands_distinct [OF Cons.prems(1)], of now j]
  obtain st1 r where 1: "currentCommand now j ?cs st = (st1, Inr r)" "keepsEnded st st1" "keepsOthers ?cs st st1"
    "(\<exists>d \<in> set ?cs. expectsHead (singleCurrentHead (is_pulls j)) d) \<longrightarrow> (\<exists>d. r = Some d \<and> holdsUnit (externalCommand d))" by blast
  obtain ext1 where later: "refreshCommands now p issues ext1 st1 = (st', Inr ext')"
    and ext1: "\<forall>d. r = Some d \<longrightarrow> ext1 (is_number j) = Some (externalCommand d)"
    using Cons.prems(2) 1(1) by (cases r) auto
  show ?case
  proof (cases "i = j")
    case True
    have "c \<in> set ?cs" using Cons.prems(5-7) True by (simp add: ListCommands_set)
    then obtain d where d: "r = Some d" "holdsUnit (externalCommand d)" using 1(4) Cons.prems(8) True by blast
    have "ext' (is_number i) = ext1 (is_number i)"
      by (rule refreshCommands_keeps_entry [OF _ later]) (use Cons.prems(3) True in auto)
    with d ext1 True show ?thesis by auto
  next
    case False
    then have i: "i \<in> set issues" using Cons.prems(4) by simp
    then have "is_number i \<in> is_number ` set issues" by (rule imageI)
    moreover have "is_number j \<notin> is_number ` set issues" using Cons.prems(3) by simp
    ultimately have "is_number i \<noteq> is_number j" by metis
    then have "c \<notin> set ?cs" using Cons.prems(7) by (simp add: ListCommands_set)
    then have "c \<in> set (sl_commands st1)" using 1(3) Cons.prems(5) by (simp add: keepsOthers_def)
    from Cons.IH [OF keepsEnded_inv [OF 1(2)] later _ i this Cons.prems(6-8)] Cons.prems(3) show ?thesis by simp
  qed
qed simp

lemma RefreshProject_holds:
  assumes "storeInv st" "RefreshProject now p snapshot st cache = (st', cache', None)"
    and "distinct (map is_number (ps_issues snapshot))" "i \<in> set (ps_issues snapshot)"
    and "c \<in> set (sl_commands st)" "wc_project c = p" "wc_issue c = is_number i" "expectsHead (singleCurrentHead (is_pulls i)) c"
  shows "\<exists>x. snd (projectExternal cache' p) (is_number i) = Some x \<and> holdsUnit x"
proof -
  obtain ext where r: "refreshCommands now p (ps_issues snapshot) Map.empty st = (st', Inr ext)"
    and c: "cache' = SetProjectExternalState p (externalResultsOf snapshot (ResultsForProject p st)) ext cache"
    using assms(2) by (auto simp: RefreshProject_def Let_def split: prod.splits sum.splits)
  from refreshCommands_holds [OF assms(1) r assms(3-8)] show ?thesis
    by (simp add: c SetProjectExternalState_def projectExternal_def)
qed

lemma refreshProject_holds:
  assumes "refreshProject env p st = (st', None)" "storeInv (cd_loop st)" "ce_snapshots env = Some snapshots"
    and "distinct (map is_number (ps_issues (snapshots p)))" "i \<in> set (ps_issues (snapshots p))"
    and "c \<in> set (sl_commands (cd_loop st))" "wc_project c = p" "wc_issue c = is_number i" "expectsHead (singleCurrentHead (is_pulls i)) c"
  shows "\<exists>x. snd (projectExternal (cd_cache st') p) (is_number i) = Some x \<and> holdsUnit x"
proof -
  obtain loop cache where r: "RefreshProject (ce_now env) p (snapshots p) (cd_loop st) (cd_cache st) = (loop, cache, None)"
    and "st' = st\<lparr>cd_loop := loop, cd_cache := cache\<rparr>"
    using assms(1) by (auto simp: refreshProject_def assms(3) split: prod.splits)
  with RefreshProject_holds [OF assms(2) r assms(4-9)] show ?thesis by simp
qed

subsection \<open>The route of a unit with an open command\<close>

lemma held_route:
  assumes "holdsUnit x"
  shows "rt_action (routeWithExternalCommand p st r (Some x)) \<in> {''none'', ''manual_attention''}"
proof (rule routeWithExternalCommand_holding [OF refl])
  show "holdingStatus (xc_status x)" using assms by (auto simp: holdsUnit_def holdingStatus_def activeCommandStatus_def)
qed

subsection \<open>The queue's authority\<close>

text \<open>The errors of the planning service pass through the adapter unchanged; none of them is a
  conflict or an unavailability of the queue.\<close>

definition planningFailure :: "planning_error \<Rightarrow> delivery_error" where
  "planningFailure e = DeliveryError (case e of PlanNotFound \<Rightarrow> ''prompt plan not found'' | PlanningError m \<Rightarrow> m
     | AuditConstraint \<Rightarrow> ''CHECK constraint failed'')"

definition throughAdapter :: "planning_error + 'a \<Rightarrow> delivery_error + 'a" where
  "throughAdapter r = (case r of Inl e \<Rightarrow> Inl (planningFailure e) | Inr x \<Rightarrow> Inr x)"

definition plannedAuthority :: "PlanEnv \<Rightarrow> AuditStore \<Rightarrow> (PromptContext \<Rightarrow> string) \<Rightarrow> Package
    \<Rightarrow> (int \<Rightarrow> string \<Rightarrow> delivery_error + BindingSnapshot) option \<Rightarrow> Authority" where
  "plannedAuthority env store indented resources resolver =
     \<lparr>au_plan = AdapterGet (pe_hash env) indented resources (\<lambda>p n i. throughAdapter (PlanGet env p n i store)),
      au_summary = (\<lambda>p n. throughAdapter (ContextSummaryOf env p n)), au_resolve = resolver\<rparr>"

lemma held_summary:
  assumes "ContextSummaryOf env p n = Inr summary" "\<forall>s. pe_snapshot env 0 p = Some s \<longrightarrow> pj_id (ps_project s) = p"
    and "snd (projectExternal (pe_cache env 0) p) n = Some x" "holdsUnit x"
  shows "rt_action (sy_route summary) \<noteq> ''dispatch''"
proof -
  from assms(1) obtain c doc where f: "freshContext env 0 p n = Inr (c, doc)" and r: "sy_route summary = px_route c"
    by (auto simp: ContextSummaryOf_def split: sum.splits)
  obtain snapshot issue results commands where u: "pe_snapshot env 0 p = Some snapshot"
    "projectExternal (pe_cache env 0) (pj_id (ps_project snapshot)) = (results, commands)"
    and b: "BuildContext (pe_hash env) snapshot (deriveWorkUnit (projectIdentity (ps_project snapshot))
       (pj_workflow_mode (ps_project snapshot)) issue results (commands n)) (pe_options env) = Inr (c, doc)"
    by (rule freshContext_unit [OF f]) blast
  have "commands n = Some x" using u assms(2,3) by simp
  then have "rt_action (px_route c) \<in> {''none'', ''manual_attention''}"
    using BuildContext_sel(1) [OF b] held_route [OF assms(4)]
    by (simp add: deriveWorkUnit_def Let_def split: prod.splits)
  then show ?thesis by (auto simp: r)
qed

lemma held_check:
  assumes "dc_action d = ''dispatch''" "\<forall>s. pe_snapshot env 0 (dc_project d) = Some s \<longrightarrow> pj_id (ps_project s) = dc_project d"
    and "snd (projectExternal (pe_cache env 0) (dc_project d)) (dc_issue d) = Some x" "holdsUnit x"
  shows "currentCheck (plannedAuthority env store indented resources resolver) d \<noteq> None"
proof
  assume none: "currentCheck (plannedAuthority env store indented resources resolver) d = None"
  then obtain result summary where "au_summary (plannedAuthority env store indented resources resolver) (dc_project d) (dc_issue d) = Inr summary"
    "planCurrent d result summary"
    by (auto simp: currentCheck_def split: sum.splits if_splits)
  then have "ContextSummaryOf env (dc_project d) (dc_issue d) = Inr summary" "rt_action (sy_route summary) = dc_action d"
    by (auto simp: plannedAuthority_def throughAdapter_def planCurrent_def split: sum.splits option.splits)
  with held_summary [OF this(1) assms(2-4)] assms(1) show False by simp
qed

subsection \<open>A delivery and its own command\<close>

lemma CreateDelivery_scope:
  assumes "CreateDelivery hash cfg au now newID p n inp rows = (rows', Inr c)"
  shows "dc_project c = p \<and> dc_issue c = n"
proof (cases "findByKey p n (cf_key inp) rows")
  case None
  then obtain a where a: "authorize hash cfg au now newID p n inp = Inr a" "c = a\<lparr>dc_key := cf_key inp, dc_fingerprint := confirmationFingerprint hash inp\<rparr>"
    using assms by (auto simp: CreateDelivery_def Let_def split: if_splits sum.splits)
  from a(1) have "dc_project a = p \<and> dc_issue a = n"
    by (auto simp: authorize_def newCommand_def Let_def split: sum.splits option.splits if_splits)
  with a(2) show ?thesis by simp
next
  case (Some x)
  then have "c = x" using assms by (auto simp: CreateDelivery_def split: if_splits)
  with Some show ?thesis by (auto simp: findByKey_def dest: find_Some_in)
qed

text \<open>The first command of a unit, as \<open>Create\<close> leaves it for the refresh at its end.\<close>

lemma attach_first:
  assumes "storeInv (cd_loop st)" "attachCommand env p d prepared st = (st', Inr d')" "dc_status d = ''pending''"
    and "\<forall>c \<in> set (sl_commands (cd_loop st)). \<not> (wc_project c = ci_project (pr_input prepared) \<and> wc_issue c = ci_issue (pr_input prepared))"
    and "ci_initial (pr_input prepared) = ''delivery_pending''"
  obtains st1 c where "refreshProject env p st1 = (st', None)" "storeInv (cd_loop st1)" "c \<in> set (sl_commands (cd_loop st1))"
    "wc_project c = ci_project (pr_input prepared)" "wc_issue c = ci_issue (pr_input prepared)"
    "wc_head c = trimSpace (ci_expected (pr_input prepared))" "wc_status c = ''delivery_pending''" "cd_deliveries st1 = cd_deliveries st"
proof -
  let ?in = "normalizeInput (ce_commandID env) (pr_input prepared)"
  obtain loop1 r1 where 1: "CreateCommand (ce_commandID env) (ce_now env) (pr_input prepared) (cd_loop st) = (loop1, r1)" by fastforce
  have inv: "storeInv loop1" using keepsEnded_inv [OF CreateCommand_keeps [OF assms(1)]] 1 by (metis fst_conv)
  obtain c where r1: "r1 = Inr c" using assms(2) 1 by (cases r1) (auto simp: attachCommand_def PersistWorkflowCommand_def)
  note c = CreateCommand_Inr [OF assms(1) 1 [unfolded r1]]
  have "commandByIdentity (ci_project ?in) (ci_issue ?in) (ci_identity ?in) (cd_loop st) = None"
    using assms(4) by (auto simp: commandByIdentity_def find_None_iff normalizeInput_def)
  then have loop1: "loop1 = (cd_loop st)\<lparr>sl_commands := sl_commands (cd_loop st) @ [commandRow (ce_now env) ?in]\<rparr>"
    using 1 r1 by (auto simp: CreateCommand_def Let_def split: option.splits if_splits)
  have scope: "wc_project c = ci_project (pr_input prepared)" "wc_issue c = ci_issue (pr_input prepared)"
    "wc_head c = trimSpace (ci_expected (pr_input prepared))"
    using c(2) by (simp_all add: sameCommandInput_def normalizeInput_def)
  then have "c = commandRow (ce_now env) ?in" using c(1) loop1 assms(4) by auto
  then have status: "wc_status c = ''delivery_pending''"
    by (simp add: commandRow_def normalizeInput_def assms(5)) code_simp
  have "RecordDeliveryOutcome (ce_now env) (wc_id c) (dc_status d) loop1 = (loop1, None)"
    using GetCommand_in [OF inv c(1)] status by (simp add: RecordDeliveryOutcome_def outcomeStatus_def assms(3))
  then obtain links1 where "refreshProject env p (st\<lparr>cd_loop := loop1, cd_links := links1\<rparr>) = (st', None)"
    using assms(2) 1 r1 by (auto simp: attachCommand_def PersistWorkflowCommand_def split: prod.splits option.splits)
  from that [OF this] inv c(1) scope status show thesis by simp
qed

subsection \<open>Properties\<close>

text \<open>C32. A delivery blocks itself. Right after \<open>Create\<close> made the first command of a unit and its
  pending delivery, the projection routes the unit to that command, so neither the plan nor its
  context is current any more: the queue's check fails whenever it is made, and \<open>ClaimNext\<close> never
  newly hands out the confirmed prompt - not to its worker, at no time, with no binding - as long
  as the projection is not refreshed to a state without that command.\<close>

theorem own_command_blocks_claim:
  assumes create: "CoordinatorCreate env p n conf st = (st', Inr d)" "storeInv (cd_loop st)" "dc_status d = ''pending''" "dc_action d = ''dispatch''"
    and first: "\<forall>c \<in> set (sl_commands (cd_loop st)). \<not> (wc_project c = p \<and> wc_issue c = n)"
    and refresh: "ce_snapshots env = Some snapshots" "distinct (map is_number (ps_issues (snapshots p)))"
      "i \<in> set (ps_issues (snapshots p))" "is_number i = n"
    and head: "\<forall>g plan. ce_plans env p n (cf_plan conf) = Inr g \<and> gr_plan g = Some plan \<longrightarrow>
        trimSpace (pp_expected_head plan) \<in> {[], singleCurrentHead (is_pulls i)}"
    and rows: "deliveryInv (cd_deliveries st')" "d \<in> set (cd_deliveries st')"
    and world: "\<forall>m. wd_authority (world m) = plannedAuthority (penv m) (store m) indented resources (resolver m) \<and>
        pe_cache (penv m) 0 = cd_cache st' \<and> (\<forall>s. pe_snapshot (penv m) 0 p = Some s \<longrightarrow> pj_id (ps_project s) = p)"
  shows "(\<forall>m. currentCheck (wd_authority (world m)) d \<noteq> None) \<and>
    (\<forall>req rows1 e. ClaimNext cfg world req (cd_deliveries st') = (rows1, Inr (Some e)) \<and>
       findClaim (cr_worker req) (cr_request req) (cd_deliveries st') = None \<longrightarrow> dc_id (ex_command e) \<noteq> dc_id d)"
proof -
  obtain r0 where base: "CreateDelivery (ce_hash env) (ce_config env) (ce_authority env) (ce_now env) (ce_deliveryID env)
      p n conf (cd_deliveries st) = (r0, Inr d)"
    and att: "\<exists>g prepared. ce_plans env p n (cf_plan conf) = Inr g \<and>
      BuildWorkflowCommand (ce_hash env) (ce_indented env) (ce_resources env) p n g = Inr prepared \<and>
      attachCommand env p d prepared (st\<lparr>cd_deliveries := r0\<rparr>) = (st', Inr d)"
    using CoordinatorCreate_Inr [OF create(1,2)] by blast
  then obtain g prepared where g: "ce_plans env p n (cf_plan conf) = Inr g"
    "BuildWorkflowCommand (ce_hash env) (ce_indented env) (ce_resources env) p n g = Inr prepared"
    "attachCommand env p d prepared (st\<lparr>cd_deliveries := r0\<rparr>) = (st', Inr d)" by blast
  from g(2) obtain plan where plan: "gr_plan g = Some plan" "pr_input prepared = commandInput (ce_hash env) p n g plan (ce_resources env)"
    by (auto simp: BuildWorkflowCommand_def Let_def split: option.splits if_splits sum.splits)
  have input: "ci_project (pr_input prepared) = p" "ci_issue (pr_input prepared) = n" "ci_expected (pr_input prepared) = pp_expected_head plan"
    "ci_initial (pr_input prepared) = ''delivery_pending''"
    by (simp_all add: plan(2) commandInput_def Let_def)
  have inv: "storeInv (cd_loop (st\<lparr>cd_deliveries := r0\<rparr>))" using create(2) by simp
  obtain st1 c where c: "refreshProject env p st1 = (st', None)" "storeInv (cd_loop st1)" "c \<in> set (sl_commands (cd_loop st1))"
    "wc_project c = p" "wc_issue c = n" "wc_head c = trimSpace (pp_expected_head plan)" "wc_status c = ''delivery_pending''"
    by (rule attach_first [OF inv g(3) create(3)]) (use first input in auto)
  have "expectsHead (singleCurrentHead (is_pulls i)) c"
    using head g(1) plan(1) c(6,7) by (auto simp: expectsHead_def activeCommandStatus_def)
  then obtain x where x: "snd (projectExternal (cd_cache st') p) n = Some x" "holdsUnit x"
    using refreshProject_holds [OF c(1,2) refresh(1-3) c(3,4)] c(5) refresh(4) by auto
  have scope: "dc_project d = p" "dc_issue d = n" using CreateDelivery_scope [OF base] by auto
  have check: "\<forall>m. currentCheck (wd_authority (world m)) d \<noteq> None"
  proof
    fix m
    show "currentCheck (wd_authority (world m)) d \<noteq> None"
      using held_check [OF create(4), of "penv m" x "store m" indented resources "resolver m"] world x scope by simp
  qed
  with unclaimable [OF _ rows] show ?thesis by blast
qed

text \<open>A first confirmation for Issue 3 of project 1, whose one open pull request is at the Head
  that the plan names.\<close>

definition sampleSHA :: string where
  "sampleSHA = replicate 40 (CHR ''a'')"

definition ownPlan :: PromptPlan where
  "ownPlan = samplePromptPlan\<lparr>pp_expected_head := sampleSHA\<rparr>"

definition ownConfirmation :: Confirmation where
  "ownConfirmation = sampleConfirmation\<lparr>cf_head := sampleSHA\<rparr>"

definition ownSummary :: ContextSummary where
  "ownSummary = sampleSummary\<lparr>sy_head := sampleSHA\<rparr>"

definition ownResult :: GenerationResult where
  "ownResult = (sampleResult ((undefined :: PromptContext)\<lparr>px_hash := ''ctx''\<rparr>))\<lparr>gr_plan := Some ownPlan\<rparr>"

definition ownPackage :: Package where
  "ownPackage = \<lparr>pk_profile = DefaultProfile, pk_manifest = emptyManifest\<lparr>mf_resources := [(''qa'', ''qa.md'')]\<rparr>,
     pk_files = [(''qa.md'', ''check it'')], pk_digests = [], pk_digest = ''0''\<rparr>"

definition ownIssue :: Issue where
  "ownIssue = sampleIssue [(samplePull ''success'')\<lparr>pr_head_sha := sampleSHA\<rparr>] []"

definition ownSnapshot :: ProjectSnapshot where
  "ownSnapshot = \<lparr>ps_project = (undefined :: Project)\<lparr>pj_id := 1\<rparr>, ps_issues = [ownIssue]\<rparr>"

definition ownEnv :: CoordEnv where
  "ownEnv = \<lparr>ce_hash = \<lambda>_. ''0'', ce_indented = \<lambda>_. ''{}'', ce_config = sampleConfig,
     ce_authority = \<lparr>au_plan = \<lambda>_ _ _. Inr ownResult, au_summary = \<lambda>_ _. Inr ownSummary, au_resolve = Some (\<lambda>_ _. Inr samplePresence)\<rparr>,
     ce_plans = \<lambda>_ _ _. Inr ownResult, ce_resources = ownPackage, ce_snapshots = Some (\<lambda>_. ownSnapshot),
     ce_deliveryID = ''d1'', ce_commandID = ''c'', ce_now = 50\<rparr>"

definition ownCommand :: DeliveryCommand where
  "ownCommand =
     (newCommand (\<lambda>_. ''0'') sampleConfig 50 ''d1'' 1 3 ownConfirmation samplePolicy ownPlan ownSummary samplePresence)
       \<lparr>dc_key := ''key'', dc_fingerprint := confirmationFingerprint (\<lambda>_. ''0'') ownConfirmation\<rparr>"

lemmas own_defs = ownPlan_def ownConfirmation_def ownSummary_def ownResult_def ownEnv_def sample_defs

lemma own_delivery:
  "CreateDelivery (ce_hash ownEnv) (ce_config ownEnv) (ce_authority ownEnv) (ce_now ownEnv) (ce_deliveryID ownEnv)
     1 3 ownConfirmation [] = ([ownCommand], Inr ownCommand)"
proof -
  have "authorize (\<lambda>_. ''0'') sampleConfig (ce_authority ownEnv) 50 ''d1'' 1 3 ownConfirmation =
      Inr (newCommand (\<lambda>_. ''0'') sampleConfig 50 ''d1'' 1 3 ownConfirmation samplePolicy ownPlan ownSummary samplePresence)"
    by (simp add: authorize_def own_defs validPlan_def confirmed_def resolve_def completeBinding_def boundAs_def
        emptyRoute_def) code_simp
  moreover have "\<not> blank (cf_key ownConfirmation)" by code_simp
  moreover have "ce_hash ownEnv = (\<lambda>_. ''0'')" "ce_config ownEnv = sampleConfig" "ce_now ownEnv = 50" "ce_deliveryID ownEnv = ''d1''"
    "dg_enabled sampleConfig" "cf_plan ownConfirmation = 4" "cf_key ownConfirmation = ''key''"
    by (simp_all add: ownEnv_def ownConfirmation_def sampleConfirmation_def sampleConfig_def)
  ultimately show ?thesis by (simp add: CreateDelivery_def findByKey_def ownCommand_def Let_def)
qed

text \<open>The workflow command it makes is stored, linked and carries the delivery's status.\<close>

lemma own_prepared:
  obtains prepared where "BuildWorkflowCommand (ce_hash ownEnv) (ce_indented ownEnv) (ce_resources ownEnv) 1 3 ownResult = Inr prepared"
    "pr_input prepared = \<lparr>ci_id = ''cmd-0'', ci_project = 1, ci_issue = 3, ci_identity = ''0'', ci_role = ''qa'', ci_action = ''dispatch'',
       ci_resource = DefaultProfile, ci_context = ''ctx'', ci_expected = sampleSHA, ci_initial = ''delivery_pending''\<rparr>"
proof -
  have r: "PackageRole ownPackage ''qa'' = Inr ''check it''" by code_simp
  have i: "commandInput (\<lambda>_. ''0'') 1 3 ownResult ownPlan ownPackage =
      \<lparr>ci_id = ''cmd-0'', ci_project = 1, ci_issue = 3, ci_identity = ''0'', ci_role = ''qa'', ci_action = ''dispatch'',
       ci_resource = DefaultProfile, ci_context = ''ctx'', ci_expected = sampleSHA, ci_initial = ''delivery_pending''\<rparr>"
    by (simp add: commandInput_def commandIdentity_def deterministicCommandID_def own_defs ownPackage_def Let_def)
  have "gr_plan ownResult = Some ownPlan" "pd_status (gr_decision ownResult) = ''approved''" "pp_action ownPlan = ''dispatch''"
    "pp_target_role ownPlan = ''qa''" "pp_lane ownPlan = ''lane''"
    by (simp_all add: own_defs)
  with that i r show thesis by (simp add: BuildWorkflowCommand_def ownEnv_def Let_def)
qed

lemma own_create:
  obtains st' where "CoordinatorCreate ownEnv 1 3 ownConfirmation emptyState = (st', Inr ownCommand)" "cd_deliveries st' = [ownCommand]"
proof -
  obtain prepared where prepared: "BuildWorkflowCommand (ce_hash ownEnv) (ce_indented ownEnv) (ce_resources ownEnv) 1 3 ownResult = Inr prepared"
    and i: "pr_input prepared = \<lparr>ci_id = ''cmd-0'', ci_project = 1, ci_issue = 3, ci_identity = ''0'', ci_role = ''qa'', ci_action = ''dispatch'',
       ci_resource = DefaultProfile, ci_context = ''ctx'', ci_expected = sampleSHA, ci_initial = ''delivery_pending''\<rparr>"
    by (rule own_prepared)
  define row where "row = commandRow 50 (pr_input prepared)"
  have n: "normalizeInput ''c'' (pr_input prepared) = pr_input prepared" "inputError (pr_input prepared) = None"
    unfolding i by code_simp+
  have persisted: "PersistWorkflowCommand ''c'' 50 prepared (cd_loop emptyState) = (\<lparr>sl_commands = [row], sl_results = []\<rparr>, Inr row)"
    by (simp add: PersistWorkflowCommand_def CreateCommand_def n emptyState_def commandByIdentity_def GetCommand_def row_get_def
        row_def Let_def commandRow_def)
  have status: "dc_status ownCommand = ''pending''" "dc_id ownCommand = ''d1''" "wc_id row = ''cmd-0''" "wc_status row = ''delivery_pending''"
    by (simp_all add: ownCommand_def newCommand_def row_def commandRow_def i)
  have linked: "link 50 ''cmd-0'' ''d1'' [] = ([\<lparr>lk_workflow = ''cmd-0'', lk_delivery = ''d1'', lk_created = 50\<rparr>], None)"
    by (simp add: link_def insertLink_def linkedDelivery_def row_get_def)
  have outcome: "RecordDeliveryOutcome 50 ''cmd-0'' ''pending'' \<lparr>sl_commands = [row], sl_results = []\<rparr> =
      (\<lparr>sl_commands = [row], sl_results = []\<rparr>, None)"
    by (simp add: RecordDeliveryOutcome_def outcomeStatus_def GetCommand_def row_get_def status)
  let ?st = "\<lparr>cd_deliveries = [ownCommand], cd_loop = \<lparr>sl_commands = [row], sl_results = []\<rparr>,
      cd_links = [\<lparr>lk_workflow = ''cmd-0'', lk_delivery = ''d1'', lk_created = 50\<rparr>], cd_cache = Map.empty\<rparr>"
  have "storeInv (cd_loop ?st)" by (simp add: storeInv_def status knownCommandStatus_def terminalCommandStatus_def row_def commandRow_def i)
  then obtain st' where "refreshProject ownEnv 1 ?st = (st', None)" "cd_deliveries st' = [ownCommand]"
    by (rule refreshProject_ok) auto
  moreover have "attachCommand ownEnv 1 ownCommand prepared (emptyState\<lparr>cd_deliveries := [ownCommand]\<rparr>) =
      (case refreshProject ownEnv 1 ?st of (st', Some e) \<Rightarrow> (st', Inl (FromStore e)) | (st', None) \<Rightarrow> (st', Inr ownCommand))"
    using persisted linked outcome by (simp add: attachCommand_def ownEnv_def emptyState_def status)
  moreover have "CoordinatorCreate ownEnv 1 3 ownConfirmation emptyState =
      attachCommand ownEnv 1 ownCommand prepared (emptyState\<lparr>cd_deliveries := [ownCommand]\<rparr>)"
    using prepared own_delivery by (simp add: CoordinatorCreate_def ownEnv_def emptyState_def Let_def)
  ultimately show thesis using that by simp
qed

definition ownPlanning :: "CoordState \<Rightarrow> PlanEnv" where
  "ownPlanning st = (undefined :: PlanEnv)\<lparr>pe_cache := \<lambda>_. cd_cache st, pe_snapshot := \<lambda>_ _. Some ownSnapshot\<rparr>"

theorem own_command_blocks_claim_witness:
  "\<exists>st'. CoordinatorCreate ownEnv 1 3 ownConfirmation emptyState = (st', Inr ownCommand) \<and>
     currentCheck (plannedAuthority (ownPlanning st') \<lparr>as_rows = [], as_next = 1\<rparr> (\<lambda>_. []) ownPackage None) ownCommand \<noteq> None"
proof -
  obtain st' where create: "CoordinatorCreate ownEnv 1 3 ownConfirmation emptyState = (st', Inr ownCommand)"
    and rows: "cd_deliveries st' = [ownCommand]" by (rule own_create)
  have head: "trimSpace sampleSHA = sampleSHA" "singleCurrentHead (is_pulls ownIssue) = sampleSHA" by code_simp+
  have d: "storeInv (cd_loop emptyState)" "dc_status ownCommand = ''pending''" "dc_action ownCommand = ''dispatch''"
    by (simp_all add: emptyState_def storeInv_def ownCommand_def newCommand_def ownPlan_def samplePromptPlan_def)
  have plans: "\<forall>g plan. ce_plans ownEnv 1 3 (cf_plan ownConfirmation) = Inr g \<and> gr_plan g = Some plan \<longrightarrow>
      trimSpace (pp_expected_head plan) \<in> {[], singleCurrentHead (is_pulls ownIssue)}"
    by (auto simp: head) (auto simp: ownEnv_def ownResult_def ownPlan_def head)
  have "statusInv ownCommand" by (simp add: statusInv_def ownCommand_def newCommand_def)
  then have inv: "deliveryInv (cd_deliveries st')" "ownCommand \<in> set (cd_deliveries st')"
    using deliveryInv_single rows by simp_all
  have snapshots: "ce_snapshots ownEnv = Some (\<lambda>_. ownSnapshot)" "distinct (map is_number (ps_issues ownSnapshot))"
    "ownIssue \<in> set (ps_issues ownSnapshot)" "is_number ownIssue = 3" "pj_id (ps_project ownSnapshot) = 1"
    by (simp_all add: ownEnv_def ownSnapshot_def ownIssue_def sampleIssue_def)
  let ?world = "\<lambda>m :: nat. \<lparr>wd_now = 60, wd_id = ''claim'',
      wd_authority = plannedAuthority (ownPlanning st') \<lparr>as_rows = [], as_next = 1\<rparr> (\<lambda>_. []) ownPackage None\<rparr>"
  have "\<forall>m. currentCheck (wd_authority (?world m)) ownCommand \<noteq> None"
    using own_command_blocks_claim [OF create d _ snapshots(1-4) plans inv, of ?world "\<lambda>_. ownPlanning st'"
        "\<lambda>_. \<lparr>as_rows = [], as_next = 1\<rparr>" "\<lambda>_. []" ownPackage "\<lambda>_. None" undefined] snapshots(5)
    by (simp add: ownPlanning_def emptyState_def)
  with create show ?thesis by auto
qed

end
