(* ===== verification/Supervisor_Store.thy ===== *)
theory Supervisor_Store
  imports Workflow_Types Go_Time "HOL-Library.Multiset"
begin

text \<open>
  \<open>supervisor/store.go\<close> and \<open>supervisor/read.go\<close>: the registered projects and the snapshot of GitHub
  kept for each of them. Every key of the six snapshot tables starts with \<open>project_id\<close>, so they
  are one group of tables per project. Each table is the list of its rows; a statement that breaks
  a key or a reference fails, and \<open>ReplaceSnapshot\<close> then leaves the database as it was. The clock is
  an argument. Times are written by \<open>formatTime\<close> and read back as the same time.
\<close>

record CreateProjectInput =
  cp_owner :: string
  cp_repository :: string
  cp_workflow_mode :: string
  cp_polling_enabled :: bool
  cp_poll_interval :: int

record RepositorySnapshot =
  rp_fetched :: gotime
  rp_issues :: "Issue list"

datatype supervisor_error = ProjectNotFound | ProjectExists | SupervisorError string

text \<open>An Issue row has no lists and a pull request row no CI; labels and comments carry the id of
  their Issue, CI summaries that of their pull request, links both.\<close>

record GithubTables =
  gt_issues :: "Issue list"
  gt_labels :: "(int \<times> Label) list"
  gt_comments :: "(int \<times> Comment) list"
  gt_pulls :: "PullRequest list"
  gt_ci :: "(int \<times> CISummary) list"
  gt_links :: "(int \<times> int) list"

record SupervisorDB =
  sd_projects :: "Project list"
  sd_next :: int
  sd_tables :: "int \<Rightarrow> GithubTables"

definition emptyTables :: GithubTables where
  "emptyTables = \<lparr>gt_issues = [], gt_labels = [], gt_comments = [], gt_pulls = [], gt_ci = [], gt_links = []\<rparr>"

subsection \<open>Projects\<close>

definition GetProject :: "int \<Rightarrow> SupervisorDB \<Rightarrow> supervisor_error + Project" where
  "GetProject i db = (case row_get pj_id i (sd_projects db) of None \<Rightarrow> Inl ProjectNotFound | Some p \<Rightarrow> Inr p)"

definition ListProjects :: "SupervisorDB \<Rightarrow> Project list" where
  "ListProjects db = sort_key (\<lambda>p. (pj_owner p, pj_repository p)) (sd_projects db)"

definition CreateProject :: "gotime \<Rightarrow> CreateProjectInput \<Rightarrow> SupervisorDB \<Rightarrow> SupervisorDB \<times> (supervisor_error + Project)" where
  "CreateProject now inp db =
     (let owner = trimSpace (cp_owner inp); repository = trimSpace (cp_repository inp); mode = trimSpace (cp_workflow_mode inp) in
      if owner = [] \<or> repository = [] \<or> mode = []
      then (db, Inl (SupervisorError ''owner, repository and workflow mode are required''))
      else if containsStr owner ''/'' \<or> containsStr repository ''/''
      then (db, Inl (SupervisorError ''owner and repository must not contain slashes''))
      else if cp_poll_interval inp \<le> 0 then (db, Inl (SupervisorError ''poll interval must be positive''))
      else if list_ex (\<lambda>p. pj_owner p = owner \<and> pj_repository p = repository) (sd_projects db) then (db, Inl ProjectExists)
      else (let p = \<lparr>pj_id = sd_next db, pj_owner = owner, pj_repository = repository, pj_workflow_mode = mode,
                  pj_polling_enabled = cp_polling_enabled inp, pj_poll_interval = cp_poll_interval inp, pj_sync_status = ''never'',
                  pj_sync_error = [], pj_sync_started = None, pj_sync_completed = None, pj_created = now, pj_updated = now\<rparr>
            in (db\<lparr>sd_projects := sd_projects db @ [p], sd_next := sd_next db + 1\<rparr>, Inr p)))"

text \<open>Deleting a project deletes what refers to it.\<close>

definition DeleteProject :: "int \<Rightarrow> SupervisorDB \<Rightarrow> SupervisorDB \<times> supervisor_error option" where
  "DeleteProject i db =
     (if row_get pj_id i (sd_projects db) = None then (db, Some ProjectNotFound)
      else (db\<lparr>sd_projects := filter (\<lambda>p. pj_id p \<noteq> i) (sd_projects db), sd_tables := (sd_tables db)(i := emptyTables)\<rparr>, None))"

definition updateProject :: "int \<Rightarrow> (Project \<Rightarrow> Project) \<Rightarrow> SupervisorDB \<Rightarrow> SupervisorDB \<times> supervisor_error option" where
  "updateProject i f db =
     (if row_get pj_id i (sd_projects db) = None then (db, Some ProjectNotFound)
      else (db\<lparr>sd_projects := row_update (\<lambda>p. pj_id p = i) f (sd_projects db)\<rparr>, None))"

definition MarkSyncStarted :: "gotime \<Rightarrow> int \<Rightarrow> SupervisorDB \<Rightarrow> SupervisorDB \<times> supervisor_error option" where
  "MarkSyncStarted now i =
     updateProject i (\<lambda>p. p\<lparr>pj_sync_status := ''syncing'', pj_sync_error := [], pj_sync_started := Some now, pj_updated := now\<rparr>)"

definition MarkSyncFailed :: "gotime \<Rightarrow> int \<Rightarrow> string \<Rightarrow> SupervisorDB \<Rightarrow> SupervisorDB \<times> supervisor_error option" where
  "MarkSyncFailed now i message =
     updateProject i (\<lambda>p. p\<lparr>pj_sync_status := ''failed'', pj_sync_error := take 2000 message, pj_sync_completed := Some now,
        pj_updated := now\<rparr>)"

subsection \<open>Rows\<close>

definition unixEpoch :: gotime where
  "unixEpoch = 62135596800 * second"

definition storedTime :: "gotime \<Rightarrow> gotime" where
  "storedTime t = (if t = 0 then unixEpoch else t)"

definition issueRow :: "Issue \<Rightarrow> Issue" where
  "issueRow i = i\<lparr>is_created := storedTime (is_created i), is_updated := storedTime (is_updated i),
     is_labels := [], is_comments := [], is_pulls := []\<rparr>"

definition storedComment :: "Comment \<Rightarrow> Comment" where
  "storedComment c = c\<lparr>cm_created := storedTime (cm_created c), cm_updated := storedTime (cm_updated c)\<rparr>"

definition pullRow :: "PullRequest \<Rightarrow> PullRequest" where
  "pullRow p = p\<lparr>pr_updated := storedTime (pr_updated p), pr_ci := noCI\<rparr>"

definition storedCI :: "CISummary \<Rightarrow> CISummary" where
  "storedCI c = c\<lparr>ci_updated := storedTime (ci_updated c)\<rparr>"

subsection \<open>Statements\<close>

text \<open>A statement for each of a list, until one fails.\<close>

fun each :: "('a \<Rightarrow> 's \<Rightarrow> 's option) \<Rightarrow> 'a list \<Rightarrow> 's \<Rightarrow> 's option" where
  "each f [] s = Some s"
| "each f (x # xs) s = Option.bind (f x s) (each f xs)"

definition upsert :: "('r \<Rightarrow> 'k) \<Rightarrow> 'r \<Rightarrow> 'r list \<Rightarrow> 'r list" where
  "upsert key row rows =
     (if key row \<in> key ` set rows then row_update (\<lambda>r. key r = key row) (\<lambda>_. row) rows else rows @ [row])"

definition upsertIssue :: "Issue \<Rightarrow> GithubTables \<Rightarrow> GithubTables option" where
  "upsertIssue row ts =
     (if list_ex (\<lambda>r. is_number r = is_number row \<and> is_github_id r \<noteq> is_github_id row) (gt_issues ts) then None
      else Some (ts\<lparr>gt_issues := upsert is_github_id row (gt_issues ts)\<rparr>))"

definition hasIssue :: "int \<Rightarrow> GithubTables \<Rightarrow> bool" where
  "hasIssue i ts = (i \<in> is_github_id ` set (gt_issues ts))"

definition hasPull :: "int \<Rightarrow> GithubTables \<Rightarrow> bool" where
  "hasPull i ts = (i \<in> pr_github_id ` set (gt_pulls ts))"

definition insertLabel :: "int \<Rightarrow> Label \<Rightarrow> GithubTables \<Rightarrow> GithubTables option" where
  "insertLabel i label ts =
     (if \<not> hasIssue i ts \<or> (i, lb_name label) \<in> (\<lambda>r. (fst r, lb_name (snd r))) ` set (gt_labels ts) then None
      else Some (ts\<lparr>gt_labels := gt_labels ts @ [(i, label)]\<rparr>))"

definition insertComment :: "int \<Rightarrow> Comment \<Rightarrow> GithubTables \<Rightarrow> GithubTables option" where
  "insertComment i comment ts =
     (if \<not> hasIssue i ts \<or> cm_id comment \<in> (\<lambda>r. cm_id (snd r)) ` set (gt_comments ts) then None
      else Some (ts\<lparr>gt_comments := gt_comments ts @ [(i, storedComment comment)]\<rparr>))"

definition storeIssue :: "Issue \<Rightarrow> GithubTables \<Rightarrow> GithubTables option" where
  "storeIssue issue ts =
     Option.bind (upsertIssue (issueRow issue) ts) (\<lambda>ts.
     Option.bind (each (insertLabel (is_github_id issue)) (is_labels issue) ts)
       (each (insertComment (is_github_id issue)) (is_comments issue)))"

definition upsertPull :: "PullRequest \<Rightarrow> GithubTables \<Rightarrow> GithubTables option" where
  "upsertPull row ts =
     (if list_ex (\<lambda>r. pr_number r = pr_number row \<and> pr_github_id r \<noteq> pr_github_id row) (gt_pulls ts) then None
      else Some (ts\<lparr>gt_pulls := upsert pr_github_id row (gt_pulls ts)\<rparr>))"

definition upsertCI :: "int \<Rightarrow> CISummary \<Rightarrow> GithubTables \<Rightarrow> GithubTables option" where
  "upsertCI i ci ts = (if \<not> hasPull i ts then None else Some (ts\<lparr>gt_ci := upsert fst (i, ci) (gt_ci ts)\<rparr>))"

definition storePull :: "PullRequest \<Rightarrow> GithubTables \<Rightarrow> GithubTables option" where
  "storePull p ts = Option.bind (upsertPull (pullRow p) ts) (upsertCI (pr_github_id p) (storedCI (pr_ci p)))"

definition insertPullLink :: "int \<Rightarrow> PullRequest \<Rightarrow> GithubTables \<Rightarrow> GithubTables option" where
  "insertPullLink i p ts =
     (if \<not> hasIssue i ts \<or> \<not> hasPull (pr_github_id p) ts then None
      else Some (if (i, pr_github_id p) \<in> set (gt_links ts) then ts else ts\<lparr>gt_links := gt_links ts @ [(i, pr_github_id p)]\<rparr>))"

definition linkIssue :: "Issue \<Rightarrow> GithubTables \<Rightarrow> GithubTables option" where
  "linkIssue issue = each (insertPullLink (is_github_id issue)) (is_pulls issue)"

text \<open>\<open>deleteMissing\<close> on the two tables, with what refers to the rows that go.\<close>

definition deleteMissingIssues :: "int list \<Rightarrow> GithubTables \<Rightarrow> GithubTables" where
  "deleteMissingIssues ids ts =
     ts\<lparr>gt_issues := filter (\<lambda>r. is_github_id r \<in> set ids) (gt_issues ts),
        gt_labels := filter (\<lambda>r. fst r \<in> set ids) (gt_labels ts),
        gt_comments := filter (\<lambda>r. fst r \<in> set ids) (gt_comments ts),
        gt_links := filter (\<lambda>r. fst r \<in> set ids) (gt_links ts)\<rparr>"

definition deleteMissingPulls :: "int list \<Rightarrow> GithubTables \<Rightarrow> GithubTables" where
  "deleteMissingPulls ids ts =
     ts\<lparr>gt_pulls := filter (\<lambda>r. pr_github_id r \<in> set ids) (gt_pulls ts),
        gt_ci := filter (\<lambda>r. fst r \<in> set ids) (gt_ci ts),
        gt_links := filter (\<lambda>r. snd r \<in> set ids) (gt_links ts)\<rparr>"

text \<open>The pull requests of a snapshot, the last one of each id. The code keeps them in a map, whose
  order of iteration is the argument \<open>arrange\<close>.\<close>

definition snapshotPulls :: "Issue list \<Rightarrow> PullRequest list" where
  "snapshotPulls issues = dedup_on pr_github_id [] (rev (concat (map is_pulls issues)))"

definition replaceTables :: "(PullRequest list \<Rightarrow> PullRequest list) \<Rightarrow> Issue list \<Rightarrow> GithubTables \<Rightarrow> GithubTables option" where
  "replaceTables arrange issues ts =
     (let pulls = snapshotPulls issues in
      Option.bind (each storeIssue issues (ts\<lparr>gt_labels := [], gt_comments := [], gt_links := []\<rparr>)) (\<lambda>ts.
      Option.bind (each storePull (arrange pulls) ts) (\<lambda>ts.
      Option.bind (each linkIssue issues ts) (\<lambda>ts.
        Some (deleteMissingPulls (map pr_github_id pulls) (deleteMissingIssues (map is_github_id issues) ts))))))"

definition ReplaceSnapshot :: "(PullRequest list \<Rightarrow> PullRequest list) \<Rightarrow> gotime \<Rightarrow> int \<Rightarrow> RepositorySnapshot \<Rightarrow> SupervisorDB
    \<Rightarrow> SupervisorDB \<times> supervisor_error option" where
  "ReplaceSnapshot arrange now i snapshot db =
     (if row_get pj_id i (sd_projects db) = None then (db, Some ProjectNotFound)
      else (case replaceTables arrange (rp_issues snapshot) (sd_tables db i) of
              None \<Rightarrow> (db, Some (SupervisorError ''constraint failed''))
            | Some ts \<Rightarrow>
                (let completed = (if rp_fetched snapshot \<noteq> 0 then rp_fetched snapshot else now) in
                 (db\<lparr>sd_projects := row_update (\<lambda>p. pj_id p = i)
                       (\<lambda>p. p\<lparr>pj_sync_status := ''healthy'', pj_sync_error := [], pj_sync_completed := Some completed,
                              pj_updated := completed\<rparr>) (sd_projects db),
                     sd_tables := (sd_tables db)(i := ts)\<rparr>, None))))"

subsection \<open>Reading\<close>

definition readLabels :: "int \<Rightarrow> GithubTables \<Rightarrow> Label list" where
  "readLabels i ts = sort_key lb_name (map snd (filter (\<lambda>r. fst r = i) (gt_labels ts)))"

definition readComments :: "int \<Rightarrow> GithubTables \<Rightarrow> Comment list" where
  "readComments i ts = sort_key (\<lambda>c. (stamp (cm_created c), cm_id c)) (map snd (filter (\<lambda>r. fst r = i) (gt_comments ts)))"

definition withCI :: "(int \<times> CISummary) list \<Rightarrow> PullRequest \<Rightarrow> PullRequest" where
  "withCI summaries p = (case map_of summaries (pr_github_id p) of None \<Rightarrow> p | Some ci \<Rightarrow> p\<lparr>pr_ci := ci\<rparr>)"

definition readPullRequests :: "int \<Rightarrow> GithubTables \<Rightarrow> PullRequest list" where
  "readPullRequests i ts =
     sort_key pr_number (map (withCI (gt_ci ts)) (filter (\<lambda>p. (i, pr_github_id p) \<in> set (gt_links ts)) (gt_pulls ts)))"

definition readIssues :: "GithubTables \<Rightarrow> Issue list" where
  "readIssues ts =
     map (\<lambda>r. r\<lparr>is_labels := readLabels (is_github_id r) ts, is_comments := readComments (is_github_id r) ts,
                is_pulls := readPullRequests (is_github_id r) ts\<rparr>)
       (sort_key is_number (gt_issues ts))"

definition ReadProjectSnapshot :: "int \<Rightarrow> SupervisorDB \<Rightarrow> supervisor_error + ProjectSnapshot" where
  "ReadProjectSnapshot i db =
     (case GetProject i db of Inl e \<Rightarrow> Inl e | Inr p \<Rightarrow> Inr \<lparr>ps_project = p, ps_issues = readIssues (sd_tables db i)\<rparr>)"

fun readSnapshots :: "Project list \<Rightarrow> SupervisorDB \<Rightarrow> supervisor_error + ProjectSnapshot list" where
  "readSnapshots [] db = Inr []"
| "readSnapshots (p # ps) db =
     (case ReadProjectSnapshot (pj_id p) db of
        Inl e \<Rightarrow> Inl e
      | Inr s \<Rightarrow> (case readSnapshots ps db of Inl e \<Rightarrow> Inl e | Inr ss \<Rightarrow> Inr (s # ss)))"

definition ReadWorkspaceSnapshot :: "gotime \<Rightarrow> SupervisorDB \<Rightarrow> supervisor_error + WorkspaceSnapshot" where
  "ReadWorkspaceSnapshot now db =
     (case readSnapshots (ListProjects db) db of
        Inl e \<Rightarrow> Inl e | Inr ss \<Rightarrow> Inr \<lparr>ws_generated = now, ws_projects = ss\<rparr>)"

interpretation project_table: keyed_table pj_id "row_get pj_id" row_update
  by unfold_locales (simp_all add: row_get_def row_update_def)

end
