(* ===== verification/Github_Client.thy ===== *)
theory Github_Client
  imports Supervisor_Store Json
begin

text \<open>
  \<open>githubclient/client.go\<close> and \<open>githubclient/api.go\<close>: the pages of GitHub's REST interface that make
  a snapshot. \<open>getJSON\<close>, the request and the decoding of its answer, is an argument: for every
  type of answer a function from the path to the answer or the text of an error, the answers
  during one snapshot. Raw JSON (\<open>json.RawMessage\<close>) is its text.
\<close>

record apiLabel =
  al_name :: string
  al_color :: string
  al_description :: "string option"

record apiIssue =
  ai_id :: int
  ai_number :: int
  ai_title :: string
  ai_body :: string
  ai_state :: string
  ai_url :: string
  ai_user :: string
  ai_created :: gotime
  ai_updated :: gotime
  ai_labels :: "apiLabel list"
  ai_pull :: string

record apiComment =
  ac_id :: int
  ac_body :: string
  ac_url :: string
  ac_user :: string
  ac_created :: gotime
  ac_updated :: gotime

record apiPullRequest =
  ap_id :: int
  ap_number :: int
  ap_title :: string
  ap_body :: string
  ap_state :: string
  ap_draft :: bool
  ap_url :: string
  ap_updated :: gotime
  ap_base :: string
  ap_head :: string
  ap_sha :: string

record apiCheckRun =
  cr_status :: string
  cr_conclusion :: string
  cr_url :: string
  cr_started :: "gotime option"
  cr_completed :: "gotime option"

record apiStatus =
  st_state :: string
  st_target :: string
  st_updated :: gotime

record apiCombinedStatus =
  cb_state :: string
  cb_statuses :: "apiStatus list"

record GithubApi =
  ga_issues :: "string \<Rightarrow> string + apiIssue list"
  ga_comments :: "string \<Rightarrow> string + apiComment list"
  ga_pulls :: "string \<Rightarrow> string + apiPullRequest list"
  ga_mergeable :: "string \<Rightarrow> string + string"
  ga_checks :: "string \<Rightarrow> string + apiCheckRun list"
  ga_status :: "string \<Rightarrow> string + apiCombinedStatus"

record GithubClient =
  gc_pages :: int
  gc_items :: int

text \<open>The limits of \<open>New\<close>.\<close>

definition newClient :: "int \<Rightarrow> int \<Rightarrow> GithubClient" where
  "newClient maxPages maxItems =
     \<lparr>gc_pages = (if maxPages \<le> 0 then 10 else maxPages), gc_items = (if maxItems \<le> 0 then 500 else maxItems)\<rparr>"

subsection \<open>Paths\<close>

text \<open>\<open>url.PathEscape\<close>: what may stand in a segment of a path, and the rest as \<open>%XX\<close>.\<close>

definition pathChars :: string where
  "pathChars = ''abcdefghijklmnopqrstuvwxyzABCDEFGHIJKLMNOPQRSTUVWXYZ0123456789-_.~$&+=:@''"

definition hexDigit :: "nat \<Rightarrow> char" where
  "hexDigit n = ''0123456789ABCDEF'' ! n"

definition pathEscapeChar :: "char \<Rightarrow> string" where
  "pathEscapeChar c =
     (if c \<in> set pathChars then [c]
      else [CHR ''%'', hexDigit (of_char c div 16), hexDigit (of_char c mod 16)])"

definition pathEscape :: "string \<Rightarrow> string" where
  "pathEscape s = concat (map pathEscapeChar s)"

definition repoPath :: "string \<Rightarrow> string \<Rightarrow> string" where
  "repoPath owner repository = ''repos/'' @ pathEscape owner @ ''/'' @ pathEscape repository"

definition pageOf :: "string \<Rightarrow> int \<Rightarrow> string" where
  "pageOf path page = path @ (if containsStr path ''?'' then ''&'' else ''?'') @ ''page='' @ showInt page"

subsection \<open>Pages\<close>

text \<open>The loops over the pages. The number of pages that may still be read is the fuel: it is what
  the loop counts.\<close>

fun pagesFrom :: "(int \<Rightarrow> string + 'a list) \<Rightarrow> int \<Rightarrow> nat \<Rightarrow> int \<Rightarrow> 'a list \<Rightarrow> string + 'a list" where
  "pagesFrom get maxItems 0 page items = Inr items"
| "pagesFrom get maxItems (Suc n) page items =
     (if int (length items) < maxItems
      then (case get page of
              Inl e \<Rightarrow> Inl e
            | Inr response \<Rightarrow>
                (if length response < 100 then Inr (items @ response)
                 else pagesFrom get maxItems n (page + 1) (items @ response)))
      else Inr items)"

definition fetchPages :: "(string \<Rightarrow> string + 'a list) \<Rightarrow> GithubClient \<Rightarrow> string \<Rightarrow> string + 'a list" where
  "fetchPages get c path =
     map_sum id (take (nat (gc_items c))) (pagesFrom (\<lambda>page. get (pageOf path page)) (gc_items c) (nat (gc_pages c)) 1 [])"

definition convertLabel :: "apiLabel \<Rightarrow> Label" where
  "convertLabel l = \<lparr>lb_name = al_name l, lb_color = al_color l, lb_description = case_option [] id (al_description l)\<rparr>"

definition convertIssue :: "apiIssue \<Rightarrow> Issue" where
  "convertIssue i =
     \<lparr>is_github_id = ai_id i, is_number = ai_number i, is_title = ai_title i, is_body = ai_body i, is_state = ai_state i,
      is_url = ai_url i, is_author = ai_user i, is_created = ai_created i, is_updated = ai_updated i,
      is_labels = map convertLabel (ai_labels i), is_comments = [], is_pulls = []\<rparr>"

definition isPullItem :: "apiIssue \<Rightarrow> bool" where
  "isPullItem i = (ai_pull i \<noteq> [] \<and> ai_pull i \<noteq> ''null'')"

fun addIssues :: "int \<Rightarrow> apiIssue list \<Rightarrow> Issue list \<Rightarrow> Issue list" where
  "addIssues maxItems [] issues = issues"
| "addIssues maxItems (i # items) issues =
     (if isPullItem i then addIssues maxItems items issues
      else if maxItems \<le> int (length (issues @ [convertIssue i])) then issues @ [convertIssue i]
      else addIssues maxItems items (issues @ [convertIssue i]))"

fun issuePages :: "(int \<Rightarrow> string + apiIssue list) \<Rightarrow> int \<Rightarrow> nat \<Rightarrow> int \<Rightarrow> Issue list \<Rightarrow> string + Issue list" where
  "issuePages get maxItems 0 page issues = Inr issues"
| "issuePages get maxItems (Suc n) page issues =
     (if int (length issues) < maxItems
      then (case get page of
              Inl e \<Rightarrow> Inl e
            | Inr items \<Rightarrow>
                (if length items < 100 then Inr (addIssues maxItems items issues)
                 else issuePages get maxItems n (page + 1) (addIssues maxItems items issues)))
      else Inr issues)"

definition issuesPath :: "string \<Rightarrow> string \<Rightarrow> string" where
  "issuesPath owner repository = repoPath owner repository @ ''/issues?state=open&per_page=100''"

definition listIssues :: "GithubApi \<Rightarrow> GithubClient \<Rightarrow> string \<Rightarrow> string \<Rightarrow> string + Issue list" where
  "listIssues api c owner repository =
     map_sum (\<lambda>e. ''list open issues: '' @ e) id
       (issuePages (\<lambda>page. ga_issues api (issuesPath owner repository @ ''&page='' @ showInt page)) (gc_items c) (nat (gc_pages c)) 1 [])"

definition convertComment :: "apiComment \<Rightarrow> Comment" where
  "convertComment x = \<lparr>cm_id = ac_id x, cm_body = ac_body x, cm_author = ac_user x, cm_url = ac_url x,
     cm_created = ac_created x, cm_updated = ac_updated x\<rparr>"

fun addComments :: "int \<Rightarrow> apiComment list \<Rightarrow> Comment list \<Rightarrow> Comment list" where
  "addComments maxItems [] comments = comments"
| "addComments maxItems (x # items) comments =
     (if maxItems \<le> int (length (comments @ [convertComment x])) then comments @ [convertComment x]
      else addComments maxItems items (comments @ [convertComment x]))"

definition commentsPath :: "string \<Rightarrow> string \<Rightarrow> int \<Rightarrow> string" where
  "commentsPath owner repository n = repoPath owner repository @ ''/issues/'' @ showInt n @ ''/comments?per_page=100''"

definition listComments :: "GithubApi \<Rightarrow> GithubClient \<Rightarrow> string \<Rightarrow> string \<Rightarrow> int \<Rightarrow> string + Comment list" where
  "listComments api c owner repository n =
     map_sum (\<lambda>e. ''list comments for issue '' @ showInt n @ '': '' @ e) (\<lambda>items. addComments (gc_items c) items [])
       (fetchPages (ga_comments api) c (commentsPath owner repository n))"

definition pullsPath :: "string \<Rightarrow> string \<Rightarrow> string" where
  "pullsPath owner repository = repoPath owner repository @ ''/pulls?state=all&sort=updated&direction=desc&per_page=100''"

definition listPullRequests :: "GithubApi \<Rightarrow> GithubClient \<Rightarrow> string \<Rightarrow> string \<Rightarrow> string + apiPullRequest list" where
  "listPullRequests api c owner repository =
     map_sum (\<lambda>e. ''list pull requests: '' @ e) (\<lambda>items. if gc_items c < int (length items) then take (nat (gc_items c)) items else items)
       (fetchPages (ga_pulls api) c (pullsPath owner repository))"

definition detailPath :: "string \<Rightarrow> string \<Rightarrow> int \<Rightarrow> string" where
  "detailPath owner repository n = repoPath owner repository @ ''/pulls/'' @ showInt n"

definition pullRequestDetail :: "GithubApi \<Rightarrow> string \<Rightarrow> string \<Rightarrow> int \<Rightarrow> string + string" where
  "pullRequestDetail api owner repository n =
     map_sum (\<lambda>e. ''read pull request '' @ showInt n @ '': '' @ e) id (ga_mergeable api (detailPath owner repository n))"

subsection \<open>Checks\<close>

definition conclusionPriority :: "string \<Rightarrow> nat" where
  "conclusionPriority conclusion =
     (if conclusion \<in> {''failure'', ''timed_out'', ''action_required'', ''startup_failure''} then 5
      else if conclusion \<in> {''cancelled'', ''stale''} then 4
      else if conclusion = ''neutral'' then 3
      else if conclusion = ''skipped'' then 2
      else if conclusion = ''success'' then 1
      else 0)"

text \<open>The moment a check run reports, when it is later than what is known.\<close>

definition checkTime :: "apiCheckRun \<Rightarrow> gotime \<Rightarrow> gotime" where
  "checkTime check known =
     (case cr_completed check of
        Some t \<Rightarrow> if known < t then t else (case cr_started check of Some s \<Rightarrow> if known < s then s else known | None \<Rightarrow> known)
      | None \<Rightarrow> (case cr_started check of Some s \<Rightarrow> if known < s then s else known | None \<Rightarrow> known))"

fun summarizeStep :: "apiCheckRun \<Rightarrow> CISummary \<times> nat \<Rightarrow> CISummary \<times> nat" where
  "summarizeStep check (s0, worst) =
     (let s1 = (if cr_status check \<noteq> ''completed'' then s0\<lparr>ci_status := ''in_progress'', ci_conclusion := []\<rparr> else s0);
          s2 = (if ci_details s1 = [] then s1\<lparr>ci_details := cr_url check\<rparr> else s1);
          s3 = s2\<lparr>ci_updated := checkTime check (ci_updated s2)\<rparr>
      in if ci_status s3 = ''completed'' \<and> worst < conclusionPriority (cr_conclusion check)
         then (s3\<lparr>ci_conclusion := cr_conclusion check\<rparr>, conclusionPriority (cr_conclusion check))
         else (s3, worst))"

definition orNow :: "gotime \<Rightarrow> CISummary \<Rightarrow> CISummary" where
  "orNow now s = (if ci_updated s = unixEpoch then s\<lparr>ci_updated := now\<rparr> else s)"

definition summarizeCheckRuns :: "gotime \<Rightarrow> string \<Rightarrow> apiCheckRun list \<Rightarrow> CISummary" where
  "summarizeCheckRuns now headSHA checks =
     orNow now (fst (fold summarizeStep checks
       (\<lparr>ci_head = headSHA, ci_status = ''completed'', ci_conclusion = ''success'', ci_source = ''check_runs'', ci_details = [],
         ci_updated = unixEpoch\<rparr>, 0)))"

definition checksPath :: "string \<Rightarrow> string \<Rightarrow> string \<Rightarrow> int \<Rightarrow> string" where
  "checksPath owner repository headSHA page =
     repoPath owner repository @ ''/commits/'' @ pathEscape headSHA @ ''/check-runs?per_page=100&page='' @ showInt page"

definition listCheckRuns :: "GithubApi \<Rightarrow> GithubClient \<Rightarrow> string \<Rightarrow> string \<Rightarrow> string \<Rightarrow> string + apiCheckRun list" where
  "listCheckRuns api c owner repository headSHA =
     map_sum (\<lambda>e. ''list check runs for '' @ headSHA @ '': '' @ e) (take (nat (gc_items c)))
       (pagesFrom (\<lambda>page. ga_checks api (checksPath owner repository headSHA page)) (gc_items c) (nat (gc_pages c)) 1 [])"

definition statusPath :: "string \<Rightarrow> string \<Rightarrow> string \<Rightarrow> string" where
  "statusPath owner repository headSHA = repoPath owner repository @ ''/commits/'' @ pathEscape headSHA @ ''/status''"

definition statusStep :: "apiStatus \<Rightarrow> CISummary \<Rightarrow> CISummary" where
  "statusStep st s0 =
     (let s1 = (if ci_details s0 = [] then s0\<lparr>ci_details := st_target st\<rparr> else s0)
      in if ci_updated s1 < st_updated st then s1\<lparr>ci_updated := st_updated st\<rparr> else s1)"

definition summarizeStatus :: "gotime \<Rightarrow> string \<Rightarrow> apiCombinedStatus \<Rightarrow> CISummary" where
  "summarizeStatus now headSHA combined =
     orNow now (fold statusStep (cb_statuses combined)
       \<lparr>ci_head = headSHA, ci_status = cb_state combined, ci_conclusion = cb_state combined, ci_source = ''commit_status'',
        ci_details = [], ci_updated = unixEpoch\<rparr>)"

definition ciSummary :: "GithubApi \<Rightarrow> GithubClient \<Rightarrow> gotime \<Rightarrow> string \<Rightarrow> string \<Rightarrow> string \<Rightarrow> string + CISummary" where
  "ciSummary api c now owner repository headSHA =
     (case listCheckRuns api c owner repository headSHA of
        Inl e \<Rightarrow> Inl e
      | Inr checks \<Rightarrow>
          (if 0 < length checks then Inr (summarizeCheckRuns now headSHA checks)
           else map_sum (\<lambda>e. ''read combined status for '' @ headSHA @ '': '' @ e) (summarizeStatus now headSHA)
                  (ga_status api (statusPath owner repository headSHA))))"

subsection \<open>References to Issues\<close>

text \<open>\<open>FindAllStringSubmatch\<close> of a pattern that is a literal followed by \<open>([1-9][0-9]*)\<close>: the digits of
  its matches from left to right.\<close>

function referencesFrom :: "string \<Rightarrow> string \<Rightarrow> string list" where
  "referencesFrom p [] = []"
| "referencesFrom p (c # s) =
     (let rest = drop (length p) (c # s); digits = takeWhile isDigit rest in
      if hasPrefix (c # s) p \<and> digits \<noteq> [] \<and> hd digits \<noteq> CHR ''0''
      then digits # referencesFrom p (dropWhile isDigit rest)
      else referencesFrom p s)"
  by pat_completeness auto

termination
proof (relation "measure (length \<circ> snd)", goal_cases)
  case (2 p c s rest digits)
  then have "length rest = length digits + length (dropWhile isDigit rest)" by (metis length_append takeWhile_dropWhile_id)
  moreover have "0 < length digits" "length rest \<le> length (c # s)" using 2 by simp_all
  ultimately show ?case by (cases digits) simp_all
qed simp_all

definition referencedIssueNumbers :: "string \<Rightarrow> int list" where
  "referencedIssueNumbers text =
     sort (remdups (List.map_filter parseInt64 (referencesFrom ''#'' text @ referencesFrom ''/issues/'' text)))"

subsection \<open>The snapshot\<close>

fun withComments :: "GithubApi \<Rightarrow> GithubClient \<Rightarrow> string \<Rightarrow> string \<Rightarrow> Issue list \<Rightarrow> string + Issue list" where
  "withComments api c owner repository [] = Inr []"
| "withComments api c owner repository (i # issues) =
     (case listComments api c owner repository (is_number i) of
        Inl e \<Rightarrow> Inl e
      | Inr comments \<Rightarrow> map_sum id (\<lambda>rest. i\<lparr>is_comments := comments\<rparr> # rest) (withComments api c owner repository issues))"

definition issueIndexes :: "Issue list \<Rightarrow> int \<Rightarrow> nat option" where
  "issueIndexes issues = map_of (rev (zip (map is_number issues) [0..<length issues]))"

definition convertPull :: "apiPullRequest \<Rightarrow> string \<Rightarrow> CISummary \<Rightarrow> PullRequest" where
  "convertPull p mergeable ci =
     \<lparr>pr_github_id = ap_id p, pr_number = ap_number p, pr_title = ap_title p, pr_state = ap_state p, pr_draft = ap_draft p,
      pr_mergeable = mergeable, pr_base_ref = ap_base p, pr_head_ref = ap_head p, pr_head_sha = ap_sha p, pr_url = ap_url p,
      pr_updated = ap_updated p, pr_ci = ci\<rparr>"

definition appendPull :: "PullRequest \<Rightarrow> nat \<Rightarrow> Issue list \<Rightarrow> Issue list" where
  "appendPull p index issues = issues[index := (issues ! index)\<lparr>is_pulls := is_pulls (issues ! index) @ [p]\<rparr>]"

text \<open>The indexes of the Issues a pull request refers to.\<close>

definition linkedIndexes :: "(int \<Rightarrow> nat option) \<Rightarrow> apiPullRequest \<Rightarrow> nat list" where
  "linkedIndexes indexes p = List.map_filter indexes (referencedIssueNumbers (ap_title p @ newline @ ap_body p))"

fun linkPulls :: "GithubApi \<Rightarrow> GithubClient \<Rightarrow> (apiPullRequest \<Rightarrow> gotime) \<Rightarrow> string \<Rightarrow> string \<Rightarrow> (int \<Rightarrow> nat option)
    \<Rightarrow> apiPullRequest list \<Rightarrow> Issue list \<Rightarrow> string + Issue list" where
  "linkPulls api c now owner repository indexes [] issues = Inr issues"
| "linkPulls api c now owner repository indexes (p # pulls) issues =
     (let linked = linkedIndexes indexes p in
      if linked = [] then linkPulls api c now owner repository indexes pulls issues
      else (case pullRequestDetail api owner repository (ap_number p) of
              Inl e \<Rightarrow> Inl e
            | Inr mergeable \<Rightarrow>
                (case ciSummary api c (now p) owner repository (ap_sha p) of
                   Inl e \<Rightarrow> Inl e
                 | Inr ci \<Rightarrow>
                     linkPulls api c now owner repository indexes pulls (fold (appendPull (convertPull p mergeable ci)) linked issues))))"

definition SnapshotOf :: "GithubApi \<Rightarrow> GithubClient \<Rightarrow> (apiPullRequest \<Rightarrow> gotime) \<Rightarrow> gotime \<Rightarrow> string \<Rightarrow> string \<Rightarrow> string + RepositorySnapshot" where
  "SnapshotOf api c now fetched owner0 repository0 =
     (let owner = trimSpace owner0; repository = trimSpace repository0 in
      if owner = [] \<or> repository = [] then Inl ''owner and repository are required''
      else (case listIssues api c owner repository of
              Inl e \<Rightarrow> Inl e
            | Inr listed \<Rightarrow>
                (case withComments api c owner repository listed of
                   Inl e \<Rightarrow> Inl e
                 | Inr issues \<Rightarrow>
                     (case listPullRequests api c owner repository of
                        Inl e \<Rightarrow> Inl e
                      | Inr pulls \<Rightarrow>
                          map_sum id (\<lambda>linked. \<lparr>rp_fetched = fetched, rp_issues = map (\<lambda>i. i\<lparr>is_pulls := sort_key pr_number (is_pulls i)\<rparr>) linked\<rparr>)
                            (linkPulls api c now owner repository (issueIndexes listed) pulls issues)))))"

end
