(* ===== verification/Supervisor_Facts.thy ===== *)
theory Supervisor_Facts
  imports Supervisor_Store
begin

text \<open>
  The invariant of the supervisor's tables, and that a stored snapshot reads back: the Issues of
  GitHub in the order of their numbers, with their lists in the order of the queries.
\<close>

subsection \<open>Running a statement for each of a list\<close>

lemma each_rule:
  assumes "\<And>pre x post s. xs = pre @ x # post \<Longrightarrow> I pre s \<Longrightarrow> \<exists>s'. f x s = Some s' \<and> I (pre @ [x]) s'" "I [] s"
  shows "\<exists>s'. each f xs s = Some s' \<and> I xs s'"
proof -
  have "xs = pre @ ys \<Longrightarrow> I pre s \<Longrightarrow> \<exists>s'. each f ys s = Some s' \<and> I xs s'" for pre ys s
  proof (induction ys arbitrary: pre s)
    case (Cons y ys)
    from assms(1) [OF Cons.prems] obtain s' where "f y s = Some s'" "I (pre @ [y]) s'" by blast
    with Cons.IH [of "pre @ [y]" s'] Cons.prems(1) show ?case by auto
  qed auto
  from this [of "[]" xs s] assms(2) show ?thesis by simp
qed

lemma each_keeps:
  assumes "\<And>x s s'. I s \<Longrightarrow> f x s = Some s' \<Longrightarrow> I s'"
  shows "I s \<Longrightarrow> each f xs s = Some s' \<Longrightarrow> I s'"
  by (induction xs arbitrary: s) (auto simp: bind_eq_Some_conv dest: assms)

subsection \<open>Upserts\<close>

lemma set_upsert: "set (upsert key row rows) = insert row {r \<in> set rows. key r \<noteq> key row}"
  by (auto simp: upsert_def set_row_update image_iff)

lemma issue_upsert_keys: "map key (upsert key row rows) = (if key row \<in> key ` set rows then map key rows else map key rows @ [key row])"
  by (auto simp: upsert_def row_update_def)

lemma upsert_distinct [simp]: "distinct (map key rows) \<Longrightarrow> distinct (map key (upsert key row rows))"
  by (simp add: issue_upsert_keys)

lemma upsert_key_set [simp]: "key ` set (upsert key row rows) = insert (key row) (key ` set rows)"
  by (auto simp: set_upsert)

lemma upserts:
  "distinct (map key rows) \<Longrightarrow> distinct (map key news) \<Longrightarrow>
     distinct (map key (fold (upsert key) news rows)) \<and>
     set (fold (upsert key) news rows) = set news \<union> {r \<in> set rows. key r \<notin> key ` set news}"
proof (induction news rule: rev_induct)
  case (snoc n news)
  then have n: "key n \<notin> key ` set news" by auto
  with snoc have "distinct (map key (fold (upsert key) news rows))"
    "set (fold (upsert key) news rows) = set news \<union> {r \<in> set rows. key r \<notin> key ` set news}" by auto
  with n show ?case by (auto simp: set_upsert image_iff)
qed simp

subsection \<open>The invariant of the tables\<close>

definition issueIDs :: "GithubTables \<Rightarrow> int set" where
  "issueIDs ts = is_github_id ` set (gt_issues ts)"

definition pullIDs :: "GithubTables \<Rightarrow> int set" where
  "pullIDs ts = pr_github_id ` set (gt_pulls ts)"

definition keysInv :: "GithubTables \<Rightarrow> bool" where
  "keysInv ts =
     (distinct (map is_github_id (gt_issues ts)) \<and> distinct (map is_number (gt_issues ts)) \<and>
      distinct (map (\<lambda>r. (fst r, lb_name (snd r))) (gt_labels ts)) \<and> distinct (map (\<lambda>r. cm_id (snd r)) (gt_comments ts)) \<and>
      distinct (map pr_github_id (gt_pulls ts)) \<and> distinct (map pr_number (gt_pulls ts)) \<and>
      distinct (map fst (gt_ci ts)) \<and> distinct (gt_links ts))"

definition refsInv :: "GithubTables \<Rightarrow> bool" where
  "refsInv ts =
     (fst ` set (gt_labels ts) \<subseteq> issueIDs ts \<and> fst ` set (gt_comments ts) \<subseteq> issueIDs ts \<and> fst ` set (gt_ci ts) \<subseteq> pullIDs ts \<and>
      fst ` set (gt_links ts) \<subseteq> issueIDs ts \<and> snd ` set (gt_links ts) \<subseteq> pullIDs ts)"

definition tablesInv :: "GithubTables \<Rightarrow> bool" where
  "tablesInv ts = (keysInv ts \<and> refsInv ts)"

lemma hasIssue_iff: "hasIssue i ts \<longleftrightarrow> i \<in> issueIDs ts"
  by (simp add: hasIssue_def issueIDs_def)

lemma hasPull_iff: "hasPull i ts \<longleftrightarrow> i \<in> pullIDs ts"
  by (simp add: hasPull_def pullIDs_def)

lemma upsert_second_key:
  assumes "distinct (map key rows)" "distinct (map num rows)" "\<And>r. r \<in> set rows \<Longrightarrow> num r = num row \<Longrightarrow> key r = key row"
  shows "distinct (map num (upsert key row rows))"
proof -
  have d: "distinct (map key (upsert key row rows))" using assms(1) by simp
  have "inj_on num (set (upsert key row rows))"
    using assms(2,3) by (auto simp: set_upsert distinct_map inj_on_def)
  moreover have "distinct (upsert key row rows)" using d by (simp add: distinct_map)
  ultimately show ?thesis by (simp add: distinct_map)
qed

lemma issueIDs_upd [simp]:
  "issueIDs (ts\<lparr>gt_issues := upsert is_github_id row (gt_issues ts)\<rparr>) = insert (is_github_id row) (issueIDs ts)"
  "issueIDs (ts\<lparr>gt_labels := a\<rparr>) = issueIDs ts" "issueIDs (ts\<lparr>gt_comments := b\<rparr>) = issueIDs ts"
  "issueIDs (ts\<lparr>gt_pulls := c\<rparr>) = issueIDs ts" "issueIDs (ts\<lparr>gt_ci := d\<rparr>) = issueIDs ts" "issueIDs (ts\<lparr>gt_links := e\<rparr>) = issueIDs ts"
  by (simp_all add: issueIDs_def)

lemma pullIDs_upd [simp]:
  "pullIDs (ts\<lparr>gt_pulls := upsert pr_github_id row (gt_pulls ts)\<rparr>) = insert (pr_github_id row) (pullIDs ts)"
  "pullIDs (ts\<lparr>gt_issues := a\<rparr>) = pullIDs ts" "pullIDs (ts\<lparr>gt_labels := a'\<rparr>) = pullIDs ts"
  "pullIDs (ts\<lparr>gt_comments := b\<rparr>) = pullIDs ts" "pullIDs (ts\<lparr>gt_ci := d\<rparr>) = pullIDs ts" "pullIDs (ts\<lparr>gt_links := e\<rparr>) = pullIDs ts"
  by (simp_all add: pullIDs_def)

lemma upsertIssue_inv:
  assumes "tablesInv ts" "upsertIssue row ts = Some ts'"
  shows "tablesInv ts'"
proof -
  from assms(2) have ts': "ts' = ts\<lparr>gt_issues := upsert is_github_id row (gt_issues ts)\<rparr>"
    and num: "\<And>r. r \<in> set (gt_issues ts) \<Longrightarrow> is_number r = is_number row \<Longrightarrow> is_github_id r = is_github_id row"
    by (auto simp: upsertIssue_def list_ex_iff split: if_splits)
  have "distinct (map is_number (upsert is_github_id row (gt_issues ts)))"
    by (rule upsert_second_key [where key = is_github_id]) (use assms(1) num in \<open>simp_all add: tablesInv_def keysInv_def\<close>)
  with assms(1) show ?thesis by (simp add: tablesInv_def keysInv_def refsInv_def ts' subset_insertI2)
qed

lemma insertLabel_inv: "tablesInv ts \<Longrightarrow> insertLabel i l ts = Some ts' \<Longrightarrow> tablesInv ts'"
  by (simp add: insertLabel_def hasIssue_iff split: if_splits) (drule sym, simp add: tablesInv_def keysInv_def refsInv_def)

lemma insertComment_inv: "tablesInv ts \<Longrightarrow> insertComment i c ts = Some ts' \<Longrightarrow> tablesInv ts'"
  by (simp add: insertComment_def hasIssue_iff storedComment_def split: if_splits) (drule sym, simp add: tablesInv_def keysInv_def refsInv_def)

lemma storeIssue_inv:
  assumes "tablesInv ts" "storeIssue issue ts = Some ts'"
  shows "tablesInv ts'"
proof -
  from assms(2) obtain ts1 ts2 where s: "upsertIssue (issueRow issue) ts = Some ts1"
    "each (insertLabel (is_github_id issue)) (is_labels issue) ts1 = Some ts2"
    "each (insertComment (is_github_id issue)) (is_comments issue) ts2 = Some ts'"
    by (auto simp: storeIssue_def bind_eq_Some_conv)
  have "tablesInv ts1" by (rule upsertIssue_inv [OF assms(1) s(1)])
  then have "tablesInv ts2" by (rule each_keeps [where I = tablesInv, OF _ _ s(2), rotated]) (erule insertLabel_inv)
  then show ?thesis by (rule each_keeps [where I = tablesInv, OF _ _ s(3), rotated]) (erule insertComment_inv)
qed

lemma upsertPull_inv:
  assumes "tablesInv ts" "upsertPull row ts = Some ts'"
  shows "tablesInv ts'"
proof -
  from assms(2) have ts': "ts' = ts\<lparr>gt_pulls := upsert pr_github_id row (gt_pulls ts)\<rparr>"
    and num: "\<And>r. r \<in> set (gt_pulls ts) \<Longrightarrow> pr_number r = pr_number row \<Longrightarrow> pr_github_id r = pr_github_id row"
    by (auto simp: upsertPull_def list_ex_iff split: if_splits)
  have "distinct (map pr_number (upsert pr_github_id row (gt_pulls ts)))"
    by (rule upsert_second_key [where key = pr_github_id]) (use assms(1) num in \<open>simp_all add: tablesInv_def keysInv_def\<close>)
  with assms(1) show ?thesis by (simp add: tablesInv_def keysInv_def refsInv_def ts' subset_insertI2)
qed

lemma upsertCI_inv: "tablesInv ts \<Longrightarrow> upsertCI i ci ts = Some ts' \<Longrightarrow> tablesInv ts'"
  by (simp add: upsertCI_def hasPull_iff split: if_splits) (drule sym, simp add: tablesInv_def keysInv_def refsInv_def)

lemma storePull_inv: "tablesInv ts \<Longrightarrow> storePull p ts = Some ts' \<Longrightarrow> tablesInv ts'"
  unfolding storePull_def bind_eq_Some_conv by (metis upsertPull_inv upsertCI_inv)

lemma insertPullLink_inv: "tablesInv ts \<Longrightarrow> insertPullLink i p ts = Some ts' \<Longrightarrow> tablesInv ts'"
  by (cases "(i, pr_github_id p) \<in> set (gt_links ts)")
    (simp_all add: insertPullLink_def hasIssue_iff hasPull_iff split: if_splits, drule sym, simp add: tablesInv_def keysInv_def refsInv_def)

lemma linkIssue_inv: "tablesInv ts \<Longrightarrow> linkIssue issue ts = Some ts' \<Longrightarrow> tablesInv ts'"
  unfolding linkIssue_def by (erule each_keeps [where I = tablesInv, rotated], assumption) (erule insertPullLink_inv)

lemma deleteMissing_inv:
  assumes "tablesInv ts"
  shows "tablesInv (deleteMissingIssues ids ts)" "tablesInv (deleteMissingPulls ids ts)"
proof -
  have "keysInv (deleteMissingIssues ids ts)" "keysInv (deleteMissingPulls ids ts)"
    using assms by (auto simp: tablesInv_def keysInv_def deleteMissingIssues_def deleteMissingPulls_def intro: distinct_map_filter)
  moreover have "refsInv ts" using assms by (simp add: tablesInv_def)
  then have "refsInv (deleteMissingIssues ids ts)" "refsInv (deleteMissingPulls ids ts)"
    unfolding refsInv_def issueIDs_def pullIDs_def deleteMissingIssues_def deleteMissingPulls_def
    by (auto simp del: image_subset_iff) (blast+)?
  ultimately show "tablesInv (deleteMissingIssues ids ts)" "tablesInv (deleteMissingPulls ids ts)" by (simp_all add: tablesInv_def)
qed

lemma replaceTables_inv:
  assumes "tablesInv ts" "replaceTables arrange issues ts = Some ts'"
  shows "tablesInv ts'"
proof -
  let ?ts0 = "ts\<lparr>gt_labels := [], gt_comments := [], gt_links := []\<rparr>" and ?pulls = "snapshotPulls issues"
  from assms(2) obtain ts1 ts2 ts3 where s: "each storeIssue issues ?ts0 = Some ts1"
    "each storePull (arrange ?pulls) ts1 = Some ts2" "each linkIssue issues ts2 = Some ts3"
    "ts' = deleteMissingPulls (map pr_github_id ?pulls) (deleteMissingIssues (map is_github_id issues) ts3)"
    by (auto simp: replaceTables_def bind_eq_Some_conv Let_def)
  have "tablesInv ?ts0" using assms(1) by (simp add: tablesInv_def keysInv_def refsInv_def)
  then have "tablesInv ts1" by (rule each_keeps [where I = tablesInv, OF _ _ s(1), rotated]) (erule storeIssue_inv)
  then have "tablesInv ts2" by (rule each_keeps [where I = tablesInv, OF _ _ s(2), rotated]) (erule storePull_inv)
  then have "tablesInv ts3" by (rule each_keeps [where I = tablesInv, OF _ _ s(3), rotated]) (erule linkIssue_inv)
  then show ?thesis by (simp add: s(4) deleteMissing_inv)
qed

subsection \<open>Storing a snapshot\<close>

definition labelRows :: "Issue list \<Rightarrow> (int \<times> Label) list" where
  "labelRows issues = concat (map (\<lambda>i. map (Pair (is_github_id i)) (is_labels i)) issues)"

definition commentRows :: "Issue list \<Rightarrow> (int \<times> Comment) list" where
  "commentRows issues = concat (map (\<lambda>i. map (Pair (is_github_id i)) (map storedComment (is_comments i))) issues)"

definition linkRows :: "Issue list \<Rightarrow> (int \<times> int) list" where
  "linkRows issues = concat (map (\<lambda>i. map (Pair (is_github_id i)) (map pr_github_id (is_pulls i))) issues)"

definition issuePulls :: "Issue list \<Rightarrow> PullRequest set" where
  "issuePulls issues = (\<Union>i \<in> set issues. set (is_pulls i))"

text \<open>What GitHub guarantees of the Issues a client fetched, against what is stored: ids and numbers
  are unique, and a number belongs to the same Issue or pull request for ever.\<close>

definition fetchable :: "GithubTables \<Rightarrow> Issue list \<Rightarrow> bool" where
  "fetchable ts issues =
     (distinct (map is_github_id issues) \<and> distinct (map is_number issues) \<and>
      (\<forall>i \<in> set issues. distinct (map lb_name (is_labels i)) \<and> distinct (map pr_github_id (is_pulls i))) \<and>
      distinct (map cm_id (concat (map is_comments issues))) \<and>
      (\<forall>p \<in> issuePulls issues. \<forall>q \<in> issuePulls issues. (pr_github_id p = pr_github_id q \<or> pr_number p = pr_number q) \<longrightarrow> p = q) \<and>
      (\<forall>i \<in> set issues. \<forall>r \<in> set (gt_issues ts). is_number r = is_number i \<longrightarrow> is_github_id r = is_github_id i) \<and>
      (\<forall>p \<in> issuePulls issues. \<forall>r \<in> set (gt_pulls ts). pr_number r = pr_number p \<longrightarrow> pr_github_id r = pr_github_id p))"

lemma labels_each:
  assumes "i \<in> issueIDs ts" "\<forall>r \<in> set (gt_labels ts). fst r \<noteq> i" "distinct (map lb_name ls)"
  shows "each (insertLabel i) ls ts = Some (ts\<lparr>gt_labels := gt_labels ts @ map (Pair i) ls\<rparr>)"
proof -
  have "\<exists>s'. each (insertLabel i) ls ts = Some s' \<and> s' = ts\<lparr>gt_labels := gt_labels ts @ map (Pair i) ls\<rparr>"
  proof (rule each_rule)
    fix pre x post s assume ls: "ls = pre @ x # post" and s: "s = ts\<lparr>gt_labels := gt_labels ts @ map (Pair i) pre\<rparr>"
    have "lb_name x \<notin> lb_name ` set pre" using assms(3) ls by auto
    with assms(1,2) show "\<exists>s'. insertLabel i x s = Some s' \<and> s' = ts\<lparr>gt_labels := gt_labels ts @ map (Pair i) (pre @ [x])\<rparr>"
      by (auto simp: insertLabel_def hasIssue_iff issueIDs_def s)
  qed simp
  then show ?thesis by simp
qed

lemma comments_each:
  assumes "i \<in> issueIDs ts" "\<forall>r \<in> set (gt_comments ts). cm_id (snd r) \<notin> cm_id ` set cs" "distinct (map cm_id cs)"
  shows "each (insertComment i) cs ts = Some (ts\<lparr>gt_comments := gt_comments ts @ map (Pair i) (map storedComment cs)\<rparr>)"
proof -
  have "\<exists>s'. each (insertComment i) cs ts = Some s' \<and> s' = ts\<lparr>gt_comments := gt_comments ts @ map (Pair i) (map storedComment cs)\<rparr>"
  proof (rule each_rule)
    fix pre x post s assume cs: "cs = pre @ x # post"
      and s: "s = ts\<lparr>gt_comments := gt_comments ts @ map (Pair i) (map storedComment pre)\<rparr>"
    have "cm_id x \<notin> cm_id ` set pre" "\<forall>r \<in> set (gt_comments ts). cm_id (snd r) \<noteq> cm_id x" using assms(2,3) cs by auto
    with assms(1) show "\<exists>s'. insertComment i x s = Some s' \<and>
        s' = ts\<lparr>gt_comments := gt_comments ts @ map (Pair i) (map storedComment (pre @ [x]))\<rparr>"
      by (auto simp: insertComment_def hasIssue_iff issueIDs_def s storedComment_def)
  qed simp
  then show ?thesis by simp
qed

definition afterIssues :: "Issue list \<Rightarrow> GithubTables \<Rightarrow> GithubTables" where
  "afterIssues issues ts = ts\<lparr>gt_issues := fold (upsert is_github_id) (map issueRow issues) (gt_issues ts),
     gt_labels := labelRows issues, gt_comments := commentRows issues\<rparr>"

lemma issueRow_sel [simp]: "is_github_id (issueRow i) = is_github_id i" "is_number (issueRow i) = is_number i"
  by (simp_all add: issueRow_def)

lemma storedComment_id [simp]: "cm_id (storedComment c) = cm_id c"
  by (simp add: storedComment_def)

lemma issueRows_keys [simp]: "map is_github_id (map issueRow xs) = map is_github_id xs" "map is_number (map issueRow xs) = map is_number xs"
  by simp_all

lemma storedIssues_set:
  assumes "distinct (map is_github_id rows)" "distinct (map is_github_id xs)"
  shows "set (fold (upsert is_github_id) (map issueRow xs) rows) =
    issueRow ` set xs \<union> {r \<in> set rows. is_github_id r \<notin> is_github_id ` set xs}"
    "distinct (map is_github_id (fold (upsert is_github_id) (map issueRow xs) rows))"
  using upserts [of is_github_id rows "map issueRow xs"] assms by (auto simp: image_image comp_def)

lemma issues_each:
  assumes f: "fetchable ts issues" and d: "distinct (map is_github_id (gt_issues ts))" and e: "gt_labels ts = []" "gt_comments ts = []"
  shows "each storeIssue issues ts = Some (afterIssues issues ts)"
proof -
  have ids: "distinct (map is_github_id issues)" "distinct (map is_number issues)" using f by (simp_all add: fetchable_def)
  have "\<exists>s'. each storeIssue issues ts = Some s' \<and> s' = afterIssues issues ts"
  proof (rule each_rule)
    fix pre x post s assume xs: "issues = pre @ x # post" and s: "s = afterIssues pre ts"
    have pre: "distinct (map is_github_id pre)" "is_github_id x \<notin> is_github_id ` set pre" "is_number x \<notin> is_number ` set pre"
      "x \<in> set issues" using ids xs by auto
    have "is_github_id r = is_github_id x" if "r \<in> set (gt_issues s)" "is_number r = is_number x" for r
    proof -
      have "r \<in> issueRow ` set pre \<or> r \<in> set (gt_issues ts)"
        using that(1) unfolding s afterIssues_def by (auto simp: storedIssues_set [OF d pre(1)])
      then show ?thesis
      proof
        assume "r \<in> issueRow ` set pre"
        then have "is_number r \<in> is_number ` set pre" by auto
        with that(2) pre(3) show ?thesis by simp
      qed (use that(2) f pre(4) in \<open>simp add: fetchable_def\<close>)
    qed
    then have up: "upsertIssue (issueRow x) s = Some (s\<lparr>gt_issues := upsert is_github_id (issueRow x) (gt_issues s)\<rparr>)" (is "_ = Some ?s1")
      by (auto simp: upsertIssue_def list_ex_iff)
    have here: "is_github_id x \<in> issueIDs ?s1" by (simp add: issueIDs_def)
    have "\<forall>r \<in> set (gt_labels ?s1). fst r \<noteq> is_github_id x" using pre(2) by (force simp: s afterIssues_def labelRows_def)
    moreover have "distinct (map lb_name (is_labels x))" using f pre(4) by (simp add: fetchable_def)
    ultimately have l: "each (insertLabel (is_github_id x)) (is_labels x) ?s1 =
        Some (?s1\<lparr>gt_labels := gt_labels ?s1 @ map (Pair (is_github_id x)) (is_labels x)\<rparr>)" (is "_ = Some ?s2")
      by (rule labels_each [OF here])
    have c: "distinct (map cm_id (concat (map is_comments issues)))" using f by (simp add: fetchable_def)
    have "\<forall>r \<in> set (gt_comments ?s2). cm_id (snd r) \<notin> cm_id ` set (is_comments x)"
    proof
      fix r assume "r \<in> set (gt_comments ?s2)"
      then obtain i d where "i \<in> set pre" "d \<in> set (is_comments i)" "cm_id (snd r) = cm_id d"
        by (auto simp: s afterIssues_def commentRows_def)
      then have "cm_id (snd r) \<in> set (map cm_id (concat (map is_comments pre)))" by (auto intro!: image_eqI)
      moreover have "set (map cm_id (concat (map is_comments pre))) \<inter> set (map cm_id (is_comments x)) = {}"
        using c unfolding xs map_append concat_append distinct_append by simp blast
      ultimately show "cm_id (snd r) \<notin> cm_id ` set (is_comments x)" unfolding set_map by blast
    qed
    moreover have "distinct (map cm_id (is_comments x))" using c unfolding xs by simp
    moreover have "is_github_id x \<in> issueIDs ?s2" using here by (simp add: issueIDs_def)
    ultimately have "each (insertComment (is_github_id x)) (is_comments x) ?s2 =
        Some (?s2\<lparr>gt_comments := gt_comments ?s2 @ map (Pair (is_github_id x)) (map storedComment (is_comments x))\<rparr>)"
      by (intro comments_each)
    with up l show "\<exists>s'. storeIssue x s = Some s' \<and> s' = afterIssues (pre @ [x]) ts"
      by (simp add: storeIssue_def s afterIssues_def labelRows_def commentRows_def)
  qed (simp add: afterIssues_def labelRows_def commentRows_def e)
  then show ?thesis by simp
qed

definition ciRow :: "PullRequest \<Rightarrow> int \<times> CISummary" where
  "ciRow p = (pr_github_id p, storedCI (pr_ci p))"

lemma pullRow_sel [simp]: "pr_github_id (pullRow p) = pr_github_id p" "pr_number (pullRow p) = pr_number p"
  by (simp_all add: pullRow_def)

lemma storedPulls_set:
  assumes "distinct (map pr_github_id rows)" "distinct (map pr_github_id xs)"
  shows "set (fold (upsert pr_github_id) (map pullRow xs) rows) =
    pullRow ` set xs \<union> {r \<in> set rows. pr_github_id r \<notin> pr_github_id ` set xs}"
    "distinct (map pr_github_id (fold (upsert pr_github_id) (map pullRow xs) rows))"
  using upserts [of pr_github_id rows "map pullRow xs"] assms by (auto simp: image_image comp_def)

lemma pulls_each:
  assumes d: "distinct (map pr_github_id (gt_pulls ts))" "distinct (map pr_github_id ps)" "distinct (map pr_number ps)"
    and old: "\<forall>p \<in> set ps. \<forall>r \<in> set (gt_pulls ts). pr_number r = pr_number p \<longrightarrow> pr_github_id r = pr_github_id p"
  shows "each storePull ps ts = Some (ts\<lparr>gt_pulls := fold (upsert pr_github_id) (map pullRow ps) (gt_pulls ts),
    gt_ci := fold (upsert fst) (map ciRow ps) (gt_ci ts)\<rparr>)"
proof -
  let ?after = "\<lambda>ps. ts\<lparr>gt_pulls := fold (upsert pr_github_id) (map pullRow ps) (gt_pulls ts),
    gt_ci := fold (upsert fst) (map ciRow ps) (gt_ci ts)\<rparr>"
  have "\<exists>s'. each storePull ps ts = Some s' \<and> s' = ?after ps"
  proof (rule each_rule)
    fix pre x post s assume xs: "ps = pre @ x # post" and s: "s = ?after pre"
    have pre: "distinct (map pr_github_id pre)" "pr_number x \<notin> pr_number ` set pre" "x \<in> set ps" using d xs by auto
    have "pr_github_id r = pr_github_id x" if "r \<in> set (gt_pulls s)" "pr_number r = pr_number x" for r
    proof -
      have "r \<in> pullRow ` set pre \<or> r \<in> set (gt_pulls ts)"
        using that(1) unfolding s by (auto simp: storedPulls_set [OF d(1) pre(1)])
      then show ?thesis
      proof
        assume "r \<in> pullRow ` set pre"
        then have "pr_number r \<in> pr_number ` set pre" by auto
        with that(2) pre(2) show ?thesis by simp
      qed (use that(2) old pre(3) in simp)
    qed
    then have "upsertPull (pullRow x) s = Some (s\<lparr>gt_pulls := upsert pr_github_id (pullRow x) (gt_pulls s)\<rparr>)"
      by (auto simp: upsertPull_def list_ex_iff)
    moreover have "hasPull (pr_github_id x) (s\<lparr>gt_pulls := upsert pr_github_id (pullRow x) (gt_pulls s)\<rparr>)"
      by (simp add: hasPull_iff pullIDs_def)
    ultimately show "\<exists>s'. storePull x s = Some s' \<and> s' = ?after (pre @ [x])"
      by (simp add: storePull_def upsertCI_def s ciRow_def)
  qed simp
  then show ?thesis by simp
qed

lemma links_each:
  assumes "gt_links ts = []" "is_github_id ` set issues \<subseteq> issueIDs ts" "pr_github_id ` issuePulls issues \<subseteq> pullIDs ts"
    and d: "distinct (map is_github_id issues)" "\<forall>i \<in> set issues. distinct (map pr_github_id (is_pulls i))"
  shows "each linkIssue issues ts = Some (ts\<lparr>gt_links := linkRows issues\<rparr>)"
proof -
  have "\<exists>s'. each linkIssue issues ts = Some s' \<and> s' = ts\<lparr>gt_links := linkRows issues\<rparr>"
  proof (rule each_rule)
    fix pre x post s assume xs: "issues = pre @ x # post" and s: "s = ts\<lparr>gt_links := linkRows pre\<rparr>"
    have x: "is_github_id x \<in> issueIDs ts" "\<forall>p \<in> set (is_pulls x). pr_github_id p \<in> pullIDs ts"
      "is_github_id x \<notin> is_github_id ` set pre" "distinct (map pr_github_id (is_pulls x))"
      using assms xs by (auto simp: issuePulls_def)
    let ?after = "\<lambda>ps. s\<lparr>gt_links := gt_links s @ map (Pair (is_github_id x)) (map pr_github_id ps)\<rparr>"
    have "\<exists>s'. each (insertPullLink (is_github_id x)) (is_pulls x) s = Some s' \<and> s' = ?after (is_pulls x)"
    proof (rule each_rule)
      fix pre' p post' s1 assume ps: "is_pulls x = pre' @ p # post'" and s1: "s1 = ?after pre'"
      have "(is_github_id x, pr_github_id p) \<notin> set (gt_links s1)"
        using x(3,4) ps by (auto simp: s1 s linkRows_def)
      moreover have "hasIssue (is_github_id x) s1" "hasPull (pr_github_id p) s1"
        using x(1,2) ps by (auto simp: s1 s hasIssue_iff hasPull_iff issueIDs_def pullIDs_def)
      ultimately show "\<exists>s'. insertPullLink (is_github_id x) p s1 = Some s' \<and> s' = ?after (pre' @ [p])"
        by (simp add: insertPullLink_def s1)
    qed simp
    then show "\<exists>s'. linkIssue x s = Some s' \<and> s' = ts\<lparr>gt_links := linkRows (pre @ [x])\<rparr>"
      by (simp add: linkIssue_def s linkRows_def)
  qed (simp add: linkRows_def assms(1))
  then show ?thesis by simp
qed

subsection \<open>Reading it back\<close>

definition storedPull :: "PullRequest \<Rightarrow> PullRequest" where
  "storedPull p = p\<lparr>pr_updated := storedTime (pr_updated p), pr_ci := storedCI (pr_ci p)\<rparr>"

definition storedIssue :: "Issue \<Rightarrow> Issue" where
  "storedIssue i = i\<lparr>is_created := storedTime (is_created i), is_updated := storedTime (is_updated i),
     is_labels := sort_key lb_name (is_labels i),
     is_comments := sort_key (\<lambda>c. (stamp (cm_created c), cm_id c)) (map storedComment (is_comments i)),
     is_pulls := sort_key pr_number (map storedPull (is_pulls i))\<rparr>"

lemma filter_pairs:
  "filter (\<lambda>r. fst r = k) (map (Pair k) ys) = map (Pair k) ys"
  "k \<noteq> l \<Longrightarrow> filter (\<lambda>r. fst r = l) (map (Pair k) ys) = []"
  by (induction ys) auto

lemma filter_no_group:
  "k \<notin> key ` set xs \<Longrightarrow> filter (\<lambda>r. fst r = k) (concat (map (\<lambda>y. map (Pair (key y)) (g y)) xs)) = []"
  by (induction xs) (auto simp: filter_pairs filter_empty_conv)

lemma filter_group:
  assumes "distinct (map key xs)" "x \<in> set xs"
  shows "filter (\<lambda>r. fst r = key x) (concat (map (\<lambda>y. map (Pair (key y)) (g y)) xs)) = map (Pair (key x)) (g x)"
  using assms
proof (induction xs)
  case (Cons y xs)
  then have "x = y \<or> key y \<noteq> key x" by force
  with Cons show ?case by (auto simp: filter_pairs filter_no_group)
qed simp

lemma filter_twice: "i \<in> S \<Longrightarrow> filter (\<lambda>r. f r = i) (filter (\<lambda>r. f r \<in> S) rows) = filter (\<lambda>r. f r = i) rows"
  by (auto intro: filter_cong)

lemma map_of_upserts:
  assumes "distinct (map fst rows)" "(k, v) \<in> set rows"
  shows "map_of rows k = Some v"
  using assms by (rule map_of_is_SomeI)

lemma sort_same_set:
  assumes "distinct (map f xs)" "distinct (map f ys)" "set xs = set ys"
  shows "sort_key f xs = sort_key f ys"
proof -
  have "distinct xs" "distinct ys" using assms(1,2) by (simp_all add: distinct_map)
  then have "mset xs = mset ys" using assms(3) by (simp add: set_eq_iff_mset_eq_distinct)
  then have "mset xs = mset (sort_key f ys)" by simp
  moreover have "inj_on f (set xs)" using assms(1) by (simp add: distinct_map)
  ultimately show ?thesis by (rule sort_key_inj_key_eq) simp
qed

lemma storedPull_row: "withCI ci (pullRow p) = storedPull p" if "map_of ci (pr_github_id p) = Some (storedCI (pr_ci p))"
  using that by (simp add: withCI_def storedPull_def pullRow_def)

definition replaced :: "PullRequest list \<Rightarrow> Issue list \<Rightarrow> GithubTables \<Rightarrow> GithubTables" where
  "replaced ps issues ts =
     deleteMissingPulls (map pr_github_id (snapshotPulls issues)) (deleteMissingIssues (map is_github_id issues)
       (ts\<lparr>gt_issues := fold (upsert is_github_id) (map issueRow issues) (gt_issues ts), gt_labels := labelRows issues,
        gt_comments := commentRows issues, gt_pulls := fold (upsert pr_github_id) (map pullRow ps) (gt_pulls ts),
        gt_ci := fold (upsert fst) (map ciRow ps) (gt_ci ts), gt_links := linkRows issues\<rparr>))"

lemma snapshotPulls_set:
  assumes "fetchable ts issues"
  shows "set (snapshotPulls issues) = issuePulls issues" "distinct (map pr_github_id (snapshotPulls issues))"
    "distinct (map pr_number (snapshotPulls issues))"
proof -
  have one: "p = q" if "p \<in> issuePulls issues" "q \<in> issuePulls issues" "pr_github_id p = pr_github_id q \<or> pr_number p = pr_number q" for p q
    using assms that by (auto simp: fetchable_def)
  have all: "set (rev (concat (map is_pulls issues))) = issuePulls issues" by (auto simp: issuePulls_def)
  have sub: "set (snapshotPulls issues) \<subseteq> issuePulls issues"
    using dedup_on_subset [of pr_github_id "[]" "rev (concat (map is_pulls issues))"] all by (simp add: snapshotPulls_def)
  have keys: "pr_github_id ` set (snapshotPulls issues) = pr_github_id ` issuePulls issues"
    unfolding snapshotPulls_def dedup_on_keys all by simp
  show eq: "set (snapshotPulls issues) = issuePulls issues"
  proof
    show "issuePulls issues \<subseteq> set (snapshotPulls issues)"
    proof
      fix p assume p: "p \<in> issuePulls issues"
      then have "pr_github_id p \<in> pr_github_id ` set (snapshotPulls issues)" by (simp add: keys)
      then obtain q where "q \<in> set (snapshotPulls issues)" "pr_github_id p = pr_github_id q" by blast
      with one [OF p] sub show "p \<in> set (snapshotPulls issues)" by blast
    qed
  qed (rule sub)
  show ids: "distinct (map pr_github_id (snapshotPulls issues))" by (simp add: snapshotPulls_def dedup_on_distinct)
  then show "distinct (map pr_number (snapshotPulls issues))"
    using one unfolding distinct_map eq by (auto simp: inj_on_def)
qed

lemma replaceTables_replaced:
  assumes f: "fetchable ts issues" and inv: "tablesInv ts" and arrange: "\<And>ps. mset (arrange ps) = mset ps"
  shows "replaceTables arrange issues ts = Some (replaced (arrange (snapshotPulls issues)) issues ts)"
proof -
  let ?ts0 = "ts\<lparr>gt_labels := [], gt_comments := [], gt_links := []\<rparr>" and ?ps = "arrange (snapshotPulls issues)"
  note pulls = snapshotPulls_set [OF f]
  have keys: "distinct (map is_github_id (gt_issues ts))" "distinct (map pr_github_id (gt_pulls ts))"
    using inv by (simp_all add: tablesInv_def keysInv_def)
  have ps: "set ?ps = issuePulls issues" using mset_eq_setD [OF arrange] pulls(1) by simp
  have "mset (map g ?ps) = mset (map g (snapshotPulls issues))" for g :: "PullRequest \<Rightarrow> int" by (simp add: arrange)
  then have d: "distinct (map pr_github_id ?ps)" "distinct (map pr_number ?ps)"
    using pulls(2,3) mset_eq_imp_distinct_iff by blast+
  have "fetchable ?ts0 issues" using f by (simp add: fetchable_def)
  then have 1: "each storeIssue issues ?ts0 = Some (afterIssues issues ?ts0)"
    by (rule issues_each) (simp_all add: keys)
  have 2: "each storePull ?ps (afterIssues issues ?ts0) = Some ((afterIssues issues ?ts0)
      \<lparr>gt_pulls := fold (upsert pr_github_id) (map pullRow ?ps) (gt_pulls ts), gt_ci := fold (upsert fst) (map ciRow ?ps) (gt_ci ts)\<rparr>)"
    (is "_ = Some ?ts2")
    using pulls_each [of "afterIssues issues ?ts0", OF _ d] keys(2) f by (simp add: afterIssues_def ps fetchable_def)
  have links: "distinct (map is_github_id issues)" "\<forall>i \<in> set issues. distinct (map pr_github_id (is_pulls i))"
    using f by (simp_all add: fetchable_def)
  have "is_github_id ` set issues \<subseteq> issueIDs ?ts2"
    using storedIssues_set(1) [OF keys(1) links(1)] by (auto simp: issueIDs_def afterIssues_def image_Un image_image)
  moreover have "pr_github_id ` issuePulls issues \<subseteq> pullIDs ?ts2"
    using storedPulls_set(1) [OF keys(2) d(1)] ps by (auto simp: pullIDs_def afterIssues_def image_Un image_image)
  ultimately have "each linkIssue issues ?ts2 = Some (?ts2\<lparr>gt_links := linkRows issues\<rparr>)"
    by (intro links_each links) (simp_all add: afterIssues_def)
  with 1 2 show ?thesis by (simp add: replaceTables_def replaced_def Let_def afterIssues_def)
qed

text \<open>What the queries find in the tables after that.\<close>

lemma replaced_issues:
  assumes f: "fetchable ts issues" and inv: "tablesInv ts"
  shows "sort_key is_number (gt_issues (replaced ps issues ts)) = map issueRow (sort_key is_number issues)"
proof -
  have d: "distinct (map is_github_id (gt_issues ts))" "distinct (map is_github_id issues)" "distinct (map is_number issues)"
    using f inv by (simp_all add: fetchable_def tablesInv_def keysInv_def)
  let ?all = "fold (upsert is_github_id) (map issueRow issues) (gt_issues ts)"
  let ?rows = "filter (\<lambda>r. is_github_id r \<in> is_github_id ` set issues) ?all"
  have rows: "gt_issues (replaced ps issues ts) = ?rows" by (simp add: replaced_def deleteMissingPulls_def deleteMissingIssues_def)
  have set: "set ?rows = set (map issueRow issues)" using storedIssues_set(1) [OF d(1,2)] by auto
  have "distinct (map is_github_id ?rows)" using storedIssues_set(2) [OF d(1,2)] by (rule distinct_map_filter)
  then have "distinct ?rows" by (simp add: distinct_map)
  moreover have "inj_on is_number (set ?rows)" using d(3) unfolding set by (auto simp: distinct_map inj_on_def)
  ultimately have "distinct (map is_number ?rows)" by (simp add: distinct_map)
  then have "sort_key is_number ?rows = sort_key is_number (map issueRow issues)"
    by (rule sort_same_set [OF _ _ set]) (simp add: d(3) comp_def)
  also have "\<dots> = map issueRow (sort_key is_number issues)"
  proof (rule sort_key_inj_key_eq)
    show "inj_on is_number (set (map issueRow issues))" using d(3) by (auto simp: distinct_map inj_on_def)
    show "sorted (map is_number (map issueRow (sort_key is_number issues)))" by (simp del: map_map)
  qed simp
  finally show ?thesis by (simp add: rows)
qed

lemma replaced_lists:
  assumes f: "fetchable ts issues" and i: "i \<in> set issues"
  shows "readLabels (is_github_id i) (replaced ps issues ts) = sort_key lb_name (is_labels i)"
    "readComments (is_github_id i) (replaced ps issues ts) =
       sort_key (\<lambda>c. (stamp (cm_created c), cm_id c)) (map storedComment (is_comments i))"
proof -
  have d: "distinct (map is_github_id issues)" using f by (simp add: fetchable_def)
  have here: "is_github_id i \<in> is_github_id ` set issues" using i by simp
  have "filter (\<lambda>r. fst r = is_github_id i) (gt_labels (replaced ps issues ts)) = map (Pair (is_github_id i)) (is_labels i)"
    using filter_group [OF d i, of is_labels] filter_twice [OF here, of fst "labelRows issues"]
    by (simp add: replaced_def deleteMissingPulls_def deleteMissingIssues_def labelRows_def)
  then show "readLabels (is_github_id i) (replaced ps issues ts) = sort_key lb_name (is_labels i)"
    by (simp add: readLabels_def comp_def)
  have "filter (\<lambda>r. fst r = is_github_id i) (gt_comments (replaced ps issues ts)) =
      map (Pair (is_github_id i)) (map storedComment (is_comments i))"
    using filter_group [OF d i, of "\<lambda>i. map storedComment (is_comments i)"] filter_twice [OF here, of fst "commentRows issues"]
    by (simp add: replaced_def deleteMissingPulls_def deleteMissingIssues_def commentRows_def)
  then show "readComments (is_github_id i) (replaced ps issues ts) =
      sort_key (\<lambda>c. (stamp (cm_created c), cm_id c)) (map storedComment (is_comments i))"
    by (simp add: readComments_def comp_def)
qed

lemma replaced_pulls:
  assumes f: "fetchable ts issues" and inv: "tablesInv ts" and i: "i \<in> set issues"
    and ps: "set ps = issuePulls issues" "distinct (map pr_github_id ps)"
  shows "readPullRequests (is_github_id i) (replaced ps issues ts) = sort_key pr_number (map storedPull (is_pulls i))"
proof -
  have d: "distinct (map pr_github_id (gt_pulls ts))" "distinct (map fst (gt_ci ts))" "distinct (map is_github_id issues)"
    "distinct (map pr_github_id (is_pulls i))" using f inv i by (simp_all add: fetchable_def tablesInv_def keysInv_def)
  have one: "p = q" if "p \<in> issuePulls issues" "q \<in> issuePulls issues" "pr_github_id p = pr_github_id q \<or> pr_number p = pr_number q" for p q
    using f that by (auto simp: fetchable_def)
  have mine: "set (is_pulls i) \<subseteq> issuePulls issues" using i by (auto simp: issuePulls_def)
  let ?T = "replaced ps issues ts" and ?ids = "pr_github_id ` issuePulls issues"
  have idset: "set (map pr_github_id (snapshotPulls issues)) = ?ids" using snapshotPulls_set(1) [OF f] by simp
  have links: "(is_github_id i, k) \<in> set (gt_links ?T) \<longleftrightarrow> k \<in> pr_github_id ` set (is_pulls i)" for k
  proof -
    have "(is_github_id i, k) \<in> set (linkRows issues) \<longleftrightarrow> k \<in> pr_github_id ` set (is_pulls i)"
      using i d(3) by (auto simp: linkRows_def distinct_map inj_on_def)
    moreover have "k \<in> pr_github_id ` set (is_pulls i) \<Longrightarrow> k \<in> ?ids" using mine by blast
    ultimately show ?thesis using i idset by (auto simp: replaced_def deleteMissingPulls_def deleteMissingIssues_def)
  qed
  have ci: "map_of (gt_ci ?T) (pr_github_id p) = Some (storedCI (pr_ci p))" if p: "p \<in> issuePulls issues" for p
  proof (rule map_of_upserts)
    have u: "distinct (map fst (fold (upsert fst) (map ciRow ps) (gt_ci ts)))"
      "set (fold (upsert fst) (map ciRow ps) (gt_ci ts)) = ciRow ` set ps \<union> {r \<in> set (gt_ci ts). fst r \<notin> fst ` ciRow ` set ps}"
      using upserts [of fst "gt_ci ts" "map ciRow ps"] d(2) ps(2) by (simp_all add: comp_def ciRow_def)
    show "distinct (map fst (gt_ci ?T))"
      using u(1) by (auto simp: replaced_def deleteMissingPulls_def deleteMissingIssues_def intro: distinct_map_filter)
    have "ciRow p \<in> set (fold (upsert fst) (map ciRow ps) (gt_ci ts))" using p by (simp add: u(2) ps(1))
    then show "(pr_github_id p, storedCI (pr_ci p)) \<in> set (gt_ci ?T)"
      using p idset by (simp add: replaced_def deleteMissingPulls_def deleteMissingIssues_def ciRow_def)
  qed
  have pset: "set (fold (upsert pr_github_id) (map pullRow ps) (gt_pulls ts)) =
      pullRow ` issuePulls issues \<union> {r \<in> set (gt_pulls ts). pr_github_id r \<notin> ?ids}"
    using storedPulls_set(1) [OF d(1) ps(2)] by (simp add: ps(1))
  let ?mine = "filter (\<lambda>p. (is_github_id i, pr_github_id p) \<in> set (gt_links ?T)) (gt_pulls ?T)"
  have "set ?mine = pullRow ` set (is_pulls i)"
  proof -
    have "set ?mine = {r \<in> pullRow ` issuePulls issues. pr_github_id r \<in> pr_github_id ` set (is_pulls i)}"
      unfolding set_filter links using mine idset pset
      by (auto simp: replaced_def deleteMissingPulls_def deleteMissingIssues_def)
    also have "\<dots> = pullRow ` set (is_pulls i)"
    proof (intro equalityI subsetI)
      fix r assume "r \<in> {r \<in> pullRow ` issuePulls issues. pr_github_id r \<in> pr_github_id ` set (is_pulls i)}"
      then obtain p q where "r = pullRow p" "p \<in> issuePulls issues" "q \<in> set (is_pulls i)" "pr_github_id p = pr_github_id q" by auto
      with one mine show "r \<in> pullRow ` set (is_pulls i)" by blast
    qed (use mine in auto)
    finally show ?thesis .
  qed
  then have set: "set (map (withCI (gt_ci ?T)) ?mine) = set (map storedPull (is_pulls i))"
    using ci mine by (auto simp: storedPull_row image_iff subset_iff)
  have number [simp]: "pr_number (withCI c p) = pr_number p" "pr_number (storedPull p) = pr_number p" for c p
    by (simp_all add: withCI_def storedPull_def split: option.split)
  have ids: "distinct (map pr_github_id ?mine)"
    using storedPulls_set(2) [OF d(1) ps(2)]
    by (auto simp: replaced_def deleteMissingPulls_def deleteMissingIssues_def intro!: distinct_map_filter)
  have "distinct (map pr_number (is_pulls i))"
    using d(4) one mine by (auto simp: distinct_map inj_on_def)
  moreover have "distinct (map pr_number ?mine)"
  proof -
    have "inj_on pr_number (set ?mine)" unfolding \<open>set ?mine = pullRow ` set (is_pulls i)\<close>
      using one mine by (auto simp: inj_on_def)
    moreover have "distinct ?mine" using ids by (simp add: distinct_map)
    ultimately show ?thesis by (simp add: distinct_map)
  qed
  ultimately have "sort_key pr_number (map (withCI (gt_ci ?T)) ?mine) = sort_key pr_number (map storedPull (is_pulls i))"
    by (intro sort_same_set set) (simp_all add: comp_def)
  then show ?thesis by (simp add: readPullRequests_def)
qed

text \<open>A snapshot that GitHub can give is stored, and reading gives it back.\<close>

lemma snapshot_stored:
  assumes f: "fetchable (sd_tables db i) (rp_issues snapshot)" and inv: "tablesInv (sd_tables db i)"
    and arrange: "\<And>ps. mset (arrange ps) = mset ps" and known: "row_get pj_id i (sd_projects db) \<noteq> None"
  obtains db' where "ReplaceSnapshot arrange now i snapshot db = (db', None)"
    "readIssues (sd_tables db' i) = map storedIssue (sort_key is_number (rp_issues snapshot))"
    "tablesInv (sd_tables db' i)" "\<And>j. j \<noteq> i \<Longrightarrow> sd_tables db' j = sd_tables db j"
    "GetProject i db' = map_sum id (\<lambda>p. p\<lparr>pj_sync_status := ''healthy'', pj_sync_error := [],
        pj_sync_completed := Some (if rp_fetched snapshot \<noteq> 0 then rp_fetched snapshot else now),
        pj_updated := (if rp_fetched snapshot \<noteq> 0 then rp_fetched snapshot else now)\<rparr>) (GetProject i db)"
    "\<And>j. j \<noteq> i \<Longrightarrow> GetProject j db' = GetProject j db"
proof -
  let ?issues = "rp_issues snapshot" and ?ts = "sd_tables db i"
  let ?ps = "arrange (snapshotPulls ?issues)"
  let ?T = "replaced ?ps ?issues ?ts" and ?c = "if rp_fetched snapshot \<noteq> 0 then rp_fetched snapshot else now"
  let ?f = "\<lambda>p. p\<lparr>pj_sync_status := ''healthy'', pj_sync_error := [], pj_sync_completed := Some ?c, pj_updated := ?c\<rparr>"
  let ?db = "db\<lparr>sd_projects := row_update (\<lambda>p. pj_id p = i) ?f (sd_projects db), sd_tables := (sd_tables db)(i := ?T)\<rparr>"
  have stored: "replaceTables arrange ?issues ?ts = Some ?T" by (rule replaceTables_replaced [OF f inv arrange])
  have ps: "set ?ps = issuePulls ?issues" "distinct (map pr_github_id ?ps)"
  proof -
    show "set ?ps = issuePulls ?issues" using mset_eq_setD [OF arrange] snapshotPulls_set(1) [OF f] by simp
    have "mset (map pr_github_id ?ps) = mset (map pr_github_id (snapshotPulls ?issues))" by (simp add: arrange)
    then show "distinct (map pr_github_id ?ps)" using snapshotPulls_set(2) [OF f] mset_eq_imp_distinct_iff by blast
  qed
  have read: "readIssues ?T = map storedIssue (sort_key is_number ?issues)"
    unfolding readIssues_def replaced_issues [OF f inv]
    by (simp add: replaced_lists [OF f] replaced_pulls [OF f inv _ ps]) (simp add: storedIssue_def issueRow_def)
  note get = project_table.get_upd [of ?f, simplified]
  show thesis
  proof (rule that [of ?db])
    show "ReplaceSnapshot arrange now i snapshot db = (?db, None)" using known stored by (simp add: ReplaceSnapshot_def Let_def)
    show "readIssues (sd_tables ?db i) = map storedIssue (sort_key is_number ?issues)" by (simp add: read)
    show "tablesInv (sd_tables ?db i)" using replaceTables_inv [OF inv stored] by simp
    show "GetProject i ?db = map_sum id ?f (GetProject i db)"
      using row_get_Some [of pj_id i "sd_projects db"] by (auto simp: GetProject_def get split: option.splits)
    show "GetProject j ?db = GetProject j db" if "j \<noteq> i" for j
      using row_get_Some [of pj_id j "sd_projects db"] that by (auto simp: GetProject_def get split: option.splits)
  qed simp
qed

end
