(* ===== verification/Github_Facts.thy ===== *)
theory Github_Facts
  imports Github_Client Supervisor_Facts
begin

text \<open>
  What the GitHub client makes of a repository: the pages put together, the state of the checks of a
  Head, the Issues a pull request refers to, and the whole snapshot against a reference that reads
  the repository without pages.
\<close>

subsection \<open>Pages\<close>

text \<open>A list served in pages of a hundred.\<close>

definition pagesOf :: "(int \<Rightarrow> string + 'a list) \<Rightarrow> 'a list \<Rightarrow> bool" where
  "pagesOf get xs = (\<forall>k. get (int k + 1) = Inr (take 100 (drop (100 * k) xs)))"

lemma page_next:
  assumes "pagesOf get xs"
  shows "get (int k + 1) = Inr (take 100 (drop (100 * k) xs))" "take (100 * k) xs @ take 100 (drop (100 * k) xs) = take (100 * Suc k) xs"
    "length (take 100 (drop (100 * k) xs)) < 100 \<Longrightarrow> length xs < 100 * Suc k"
  using assms by (auto simp: pagesOf_def take_add [symmetric] add.commute)

lemma pagesFrom_pages:
  assumes "pagesOf get xs"
  shows "\<exists>r. pagesFrom get m n (int k + 1) (take (100 * k) xs) = Inr r \<and> take (nat m) r = take (min (nat m) (100 * (k + n))) xs"
proof (induction n arbitrary: k)
  case (Suc n)
  note p = page_next [OF assms, of k]
  show ?case
  proof (cases "int (length (take (100 * k) xs)) < m")
    case more: True
    show ?thesis
    proof (cases "length (take 100 (drop (100 * k) xs)) < 100")
      case True
      with p(3) have "length xs < 100 * Suc k" by blast
      then have all: "take (100 * Suc k) xs = xs" "take (min (nat m) (100 * (k + Suc n))) xs = take (nat m) xs"
        by (simp_all add: min_def)
      with more True show ?thesis by (simp only: pagesFrom.simps p if_True sum.case) simp
    next
      case False
      with Suc [of "Suc k"] more show ?thesis by (simp only: pagesFrom.simps p if_True if_False sum.case) (simp add: algebra_simps)
    qed
  next
    case False
    then have "nat m \<le> length (take (100 * k) xs)" by linarith
    then have "min (nat m) (100 * (k + Suc n)) = nat m" "min (nat m) (100 * k) = nat m" by simp_all
    then have "take (nat m) (take (100 * k) xs) = take (min (nat m) (100 * (k + Suc n))) xs" by simp
    with False show ?thesis by (simp only: pagesFrom.simps if_False) simp
  qed
qed (auto simp: min_def)

text \<open>What the limits leave of a list.\<close>

definition limited :: "GithubClient \<Rightarrow> 'a list \<Rightarrow> 'a list" where
  "limited c xs = take (min (nat (gc_items c)) (100 * nat (gc_pages c))) xs"

lemma pagesFrom_limited:
  "pagesOf get xs \<Longrightarrow> map_sum f (take (nat (gc_items c))) (pagesFrom get (gc_items c) (nat (gc_pages c)) 1 []) = Inr (limited c xs)"
  using pagesFrom_pages [of get xs "gc_items c" "nat (gc_pages c)" 0] by (auto simp: limited_def)

lemma limited_length: "int (length (limited c xs)) \<le> max 0 (gc_items c)"
  by (simp add: limited_def)

subsection \<open>Issues and comments\<close>

lemma take_step: "int n < m \<Longrightarrow> take (nat m - n) (y # ys) = y # take (nat m - Suc n) ys"
  by (subst take_Cons') auto

lemma addIssues_eq:
  "int (length issues) < m \<Longrightarrow> addIssues m items issues = take (nat m) (issues @ map convertIssue (filter (\<lambda>i. \<not> isPullItem i) items))"
  by (induction items arbitrary: issues) (auto simp: take_step)

lemma issuePages_pages:
  assumes "pagesOf get xs"
  shows "issuePages get m n (int k + 1) (take (nat m) (map convertIssue (filter (\<lambda>i. \<not> isPullItem i) (take (100 * k) xs)))) =
    Inr (take (nat m) (map convertIssue (filter (\<lambda>i. \<not> isPullItem i) (take (100 * (k + n)) xs))))"
proof (induction n arbitrary: k)
  case (Suc n)
  note p = page_next [OF assms, of k]
  let ?f = "\<lambda>ys. map convertIssue (filter (\<lambda>i. \<not> isPullItem i) ys)"
  let ?acc = "take (nat m) (?f (take (100 * k) xs))"
  show ?case
  proof (cases "int (length ?acc) < m")
    case more: True
    then have "?acc = ?f (take (100 * k) xs)" by (simp add: min_def split: if_splits)
    then have add: "addIssues m (take 100 (drop (100 * k) xs)) ?acc = take (nat m) (?f (take (100 * Suc k) xs))"
      using addIssues_eq [OF more] by (simp only: p(2) [symmetric] filter_append map_append)
    show ?thesis
    proof (cases "length (take 100 (drop (100 * k) xs)) < 100")
      case True
      with p(3) have "length xs < 100 * Suc k" by blast
      then have "take (100 * Suc k) xs = xs" "take (100 * (k + Suc n)) xs = xs" by simp_all
      with more True add show ?thesis by (simp only: issuePages.simps p if_True sum.case)
    next
      case False
      with Suc [of "Suc k"] more add show ?thesis
        by (simp only: issuePages.simps p if_True if_False sum.case) (simp add: algebra_simps)
    qed
  next
    case False
    then have full: "nat m \<le> length (?f (take (100 * k) xs))" by (simp add: min_def split: if_splits)
    have "take (100 * (k + Suc n)) xs = take (100 * k) xs @ take (100 * Suc n) (drop (100 * k) xs)"
      by (simp add: take_add [symmetric] algebra_simps)
    with full have "take (nat m) (?f (take (100 * (k + Suc n)) xs)) = ?acc" by simp
    with False show ?thesis by (simp only: issuePages.simps if_False)
  qed
qed simp

lemma addComments_eq: "int (length comments) < m \<Longrightarrow> addComments m items comments = take (nat m) (comments @ map convertComment items)"
  by (induction items arbitrary: comments) (auto simp: take_step)

subsection \<open>The lists of the client\<close>

record Repository =
  rs_items :: "apiIssue list"
  rs_comments :: "int \<Rightarrow> apiComment list"
  rs_pulls :: "apiPullRequest list"
  rs_mergeable :: "int \<Rightarrow> string"
  rs_checks :: "string \<Rightarrow> apiCheckRun list"
  rs_status :: "string \<Rightarrow> apiCombinedStatus"

text \<open>An interface that serves a repository, in pages of a hundred.\<close>

definition serves :: "GithubApi \<Rightarrow> string \<Rightarrow> string \<Rightarrow> Repository \<Rightarrow> bool" where
  "serves api owner repository R \<longleftrightarrow>
     pagesOf (\<lambda>page. ga_issues api (issuesPath owner repository @ ''&page='' @ showInt page)) (rs_items R) \<and>
     (\<forall>n. pagesOf (\<lambda>page. ga_comments api (pageOf (commentsPath owner repository n) page)) (rs_comments R n)) \<and>
     pagesOf (\<lambda>page. ga_pulls api (pageOf (pullsPath owner repository) page)) (rs_pulls R) \<and>
     (\<forall>n. ga_mergeable api (detailPath owner repository n) = Inr (rs_mergeable R n)) \<and>
     (\<forall>sha. pagesOf (\<lambda>page. ga_checks api (checksPath owner repository sha page)) (rs_checks R sha)) \<and>
     (\<forall>sha. ga_status api (statusPath owner repository sha) = Inr (rs_status R sha))"

definition listed :: "GithubClient \<Rightarrow> Repository \<Rightarrow> Issue list" where
  "listed c R = take (nat (gc_items c)) (map convertIssue (filter (\<lambda>i. \<not> isPullItem i) (take (100 * nat (gc_pages c)) (rs_items R))))"

definition commentsOf :: "GithubClient \<Rightarrow> Repository \<Rightarrow> int \<Rightarrow> Comment list" where
  "commentsOf c R n = map convertComment (limited c (rs_comments R n))"

definition checksOf :: "GithubClient \<Rightarrow> gotime \<Rightarrow> Repository \<Rightarrow> string \<Rightarrow> CISummary" where
  "checksOf c now R sha =
     (if limited c (rs_checks R sha) \<noteq> [] then summarizeCheckRuns now sha (limited c (rs_checks R sha))
      else summarizeStatus now sha (rs_status R sha))"

lemma listIssues_served:
  assumes "serves api owner repository R"
  shows "listIssues api c owner repository = Inr (listed c R)"
  using issuePages_pages [of _ "rs_items R" "gc_items c" "nat (gc_pages c)" 0] assms by (simp add: listIssues_def serves_def listed_def)

lemma listComments_served:
  assumes "serves api owner repository R" "0 < gc_items c"
  shows "listComments api c owner repository n = Inr (commentsOf c R n)"
proof -
  have "fetchPages (ga_comments api) c (commentsPath owner repository n) = Inr (limited c (rs_comments R n))"
    unfolding fetchPages_def by (rule pagesFrom_limited) (use assms(1) in \<open>simp add: serves_def\<close>)
  then show ?thesis using assms(2) addComments_eq [of "[]" "gc_items c"] by (simp add: listComments_def commentsOf_def limited_def take_map)
qed

lemma listPullRequests_served:
  assumes "serves api owner repository R"
  shows "listPullRequests api c owner repository = Inr (limited c (rs_pulls R))"
proof -
  have "fetchPages (ga_pulls api) c (pullsPath owner repository) = Inr (limited c (rs_pulls R))"
    unfolding fetchPages_def by (rule pagesFrom_limited) (use assms in \<open>simp add: serves_def\<close>)
  then show ?thesis by (simp add: listPullRequests_def limited_def)
qed

lemma ciSummary_served:
  assumes "serves api owner repository R"
  shows "ciSummary api c now owner repository sha = Inr (checksOf c now R sha)"
proof -
  have "listCheckRuns api c owner repository sha = Inr (limited c (rs_checks R sha))"
    unfolding listCheckRuns_def by (rule pagesFrom_limited) (use assms in \<open>simp add: serves_def\<close>)
  then show ?thesis using assms by (simp add: ciSummary_def checksOf_def serves_def)
qed

lemma pullRequestDetail_served:
  "serves api owner repository R \<Longrightarrow> pullRequestDetail api owner repository n = Inr (rs_mergeable R n)"
  by (simp add: pullRequestDetail_def serves_def)

lemma withComments_served:
  assumes "serves api owner repository R" "0 < gc_items c"
  shows "withComments api c owner repository issues = Inr (map (\<lambda>i. i\<lparr>is_comments := commentsOf c R (is_number i)\<rparr>) issues)"
  by (induction issues) (simp_all add: listComments_served [OF assms])

subsection \<open>References\<close>

lemma issueIndexes_Some:
  assumes "issueIndexes issues n = Some k"
  shows "k < length issues" "is_number (issues ! k) = n"
proof -
  have "(n, k) \<in> set (zip (map is_number issues) [0..<length issues])"
    using map_of_SomeD [OF assms [unfolded issueIndexes_def]] by simp
  then show "k < length issues" "is_number (issues ! k) = n" by (auto simp: in_set_zip)
qed

lemma issueIndexes_distinct:
  assumes "distinct (map is_number issues)" "k < length issues"
  shows "issueIndexes issues n = Some k \<longleftrightarrow> is_number (issues ! k) = n"
proof -
  let ?z = "zip (map is_number issues) [0..<length issues]"
  have "distinct (map fst (rev ?z))" using assms(1) by (simp add: rev_map [symmetric])
  then have "issueIndexes issues n = Some k \<longleftrightarrow> (n, k) \<in> set ?z" by (simp add: issueIndexes_def)
  also have "\<dots> \<longleftrightarrow> is_number (issues ! k) = n" 
  proof
    assume "is_number (issues ! k) = n"
    then have "map is_number issues ! k = n \<and> [0..<length issues] ! k = k \<and> k < length issues" using assms(2) by simp
    then show "(n, k) \<in> set ?z" by (auto simp: in_set_zip)
  qed (auto simp: in_set_zip)
  finally show ?thesis .
qed

definition refersTo :: "apiPullRequest \<Rightarrow> int \<Rightarrow> bool" where
  "refersTo p n = (n \<in> set (referencedIssueNumbers (ap_title p @ newline @ ap_body p)))"

lemma set_mapFilter: "set (List.map_filter f xs) = {y. \<exists>x \<in> set xs. f x = Some y}"
  by (force simp: List.map_filter_def)

lemma map_filter_distinct:
  assumes "distinct xs" "\<And>x y z. f x = Some z \<Longrightarrow> f y = Some z \<Longrightarrow> x = y"
  shows "distinct (List.map_filter f xs)"
  using assms(1) by (induction xs) (auto simp: List.map_filter_simps set_mapFilter split: option.split dest: assms(2))

lemma linkedIndexes_facts:
  assumes "distinct (map is_number issues)"
  shows "distinct (linkedIndexes (issueIndexes issues) p)" "set (linkedIndexes (issueIndexes issues) p) \<subseteq> {..<length issues}"
    "k < length issues \<Longrightarrow> k \<in> set (linkedIndexes (issueIndexes issues) p) \<longleftrightarrow> refersTo p (is_number (issues ! k))"
proof -
  show "distinct (linkedIndexes (issueIndexes issues) p)" unfolding linkedIndexes_def
    by (rule map_filter_distinct) (auto simp: referencedIssueNumbers_def dest!: issueIndexes_Some(2))
  show "set (linkedIndexes (issueIndexes issues) p) \<subseteq> {..<length issues}"
    by (auto simp: linkedIndexes_def set_mapFilter dest: issueIndexes_Some)
  show "k \<in> set (linkedIndexes (issueIndexes issues) p) \<longleftrightarrow> refersTo p (is_number (issues ! k))" if "k < length issues"
    using issueIndexes_distinct [OF assms that] by (auto simp: linkedIndexes_def refersTo_def set_mapFilter)
qed

subsection \<open>The pull requests of an Issue\<close>

lemma fold_appendPull:
  assumes "distinct ks" "set ks \<subseteq> {..<length issues}"
  shows "length (fold (appendPull q) ks issues) = length issues \<and>
    (\<forall>k < length issues. fold (appendPull q) ks issues ! k =
       (issues ! k)\<lparr>is_pulls := is_pulls (issues ! k) @ (if k \<in> set ks then [q] else [])\<rparr>)"
  using assms
proof (induction ks arbitrary: issues)
  case (Cons j ks)
  have len: "length (appendPull q j issues) = length issues" by (simp add: appendPull_def)
  have here: "appendPull q j issues ! k = (if k = j then (issues ! j)\<lparr>is_pulls := is_pulls (issues ! j) @ [q]\<rparr> else issues ! k)"
    if "k < length issues" for k using that by (simp add: appendPull_def)
  from Cons have "j \<notin> set ks" "set ks \<subseteq> {..<length (appendPull q j issues)}" "distinct ks" by (simp_all add: len)
  with Cons.IH [of "appendPull q j issues"] show ?case by (simp add: len here)
qed simp

text \<open>The reference: for every Issue the pull requests that refer to it.\<close>

definition pullOf :: "GithubClient \<Rightarrow> (apiPullRequest \<Rightarrow> gotime) \<Rightarrow> Repository \<Rightarrow> apiPullRequest \<Rightarrow> PullRequest" where
  "pullOf c now R p = convertPull p (rs_mergeable R (ap_number p)) (checksOf c (now p) R (ap_sha p))"

definition pullsReferring :: "GithubClient \<Rightarrow> (apiPullRequest \<Rightarrow> gotime) \<Rightarrow> Repository \<Rightarrow> apiPullRequest list \<Rightarrow> int \<Rightarrow> PullRequest list" where
  "pullsReferring c now R pulls n = map (pullOf c now R) (filter (\<lambda>p. refersTo p n) pulls)"

lemma linkPulls_served:
  assumes s: "serves api owner repository R" and d: "distinct (map is_number base)"
  shows "map is_number issues = map is_number base \<Longrightarrow>
    linkPulls api c now owner repository (issueIndexes base) pulls issues =
      Inr (map (\<lambda>i. i\<lparr>is_pulls := is_pulls i @ pullsReferring c now R pulls (is_number i)\<rparr>) issues)"
proof (induction pulls arbitrary: issues)
  case Nil
  then show ?case by (simp add: pullsReferring_def)
next
  case (Cons p pulls)
  let ?linked = "linkedIndexes (issueIndexes base) p" and ?q = "pullOf c now R p"
  have len: "length issues = length base" using Cons.prems map_eq_imp_length_eq by blast
  have num: "is_number (issues ! k) = is_number (base ! k)" if "k < length issues" for k
    using Cons.prems that len by (metis nth_map)
  note l = linkedIndexes_facts [OF d, where p = p]
  let ?next = "fold (appendPull ?q) ?linked issues"
  have nxt: "length ?next = length issues" "\<And>k. k < length issues \<Longrightarrow> ?next ! k = (issues ! k)
      \<lparr>is_pulls := is_pulls (issues ! k) @ (if refersTo p (is_number (issues ! k)) then [?q] else [])\<rparr>"
    using fold_appendPull [OF l(1), of issues ?q] l(2,3) len num by simp_all
  then have eq: "?next = map (\<lambda>i. i\<lparr>is_pulls := is_pulls i @ (if refersTo p (is_number i) then [?q] else [])\<rparr>) issues"
    by (intro nth_equalityI) simp_all
  then have "map is_number ?next = map is_number base" using Cons.prems by (simp add: comp_def)
  note IH = Cons.IH [OF this]
  have all: "map (\<lambda>i. i\<lparr>is_pulls := is_pulls i @ pullsReferring c now R pulls (is_number i)\<rparr>) ?next =
      map (\<lambda>i. i\<lparr>is_pulls := is_pulls i @ pullsReferring c now R (p # pulls) (is_number i)\<rparr>) issues"
    unfolding eq by (simp add: pullsReferring_def)
  have "linkPulls api c now owner repository (issueIndexes base) (p # pulls) issues =
      linkPulls api c now owner repository (issueIndexes base) pulls ?next"
  proof (cases "?linked = []")
    case False
    then show ?thesis by (simp add: Let_def pullRequestDetail_served [OF s] ciSummary_served [OF s] pullOf_def)
  qed (simp add: Let_def)
  with IH all show ?case by simp
qed

text \<open>The snapshot without pages and indexes.\<close>

definition snapshotIssue :: "GithubClient \<Rightarrow> (apiPullRequest \<Rightarrow> gotime) \<Rightarrow> Repository \<Rightarrow> Issue \<Rightarrow> Issue" where
  "snapshotIssue c now R i =
     i\<lparr>is_comments := commentsOf c R (is_number i),
       is_pulls := sort_key pr_number (pullsReferring c now R (limited c (rs_pulls R)) (is_number i))\<rparr>"

lemma listed_fresh: "i \<in> set (listed c R) \<Longrightarrow> is_pulls i = [] \<and> is_comments i = []"
  by (auto simp: listed_def convertIssue_def dest!: in_set_takeD)

lemma SnapshotOf_served:
  assumes s: "serves api (trimSpace owner) (trimSpace repository) R" and "trimSpace owner \<noteq> []" "trimSpace repository \<noteq> []"
    and "0 < gc_items c" and d: "distinct (map is_number (listed c R))"
  shows "SnapshotOf api c now fetched owner repository =
    Inr \<lparr>rp_fetched = fetched, rp_issues = map (snapshotIssue c now R) (listed c R)\<rparr>"
proof -
  let ?with = "map (\<lambda>i. i\<lparr>is_comments := commentsOf c R (is_number i)\<rparr>) (listed c R)"
  have "map is_number ?with = map is_number (listed c R)" by (simp add: comp_def)
  note link = linkPulls_served [OF s d this]
  show ?thesis using assms(2,3)
    by (simp add: SnapshotOf_def Let_def listIssues_served [OF s] withComments_served [OF s assms(4)] listPullRequests_served [OF s] link)
      (simp add: snapshotIssue_def listed_fresh)
qed

end
