(* ===== verification/Supervisor_Sync.thy ===== *)
theory Supervisor_Sync
  imports Supervisor_Facts Prelude "HOL-Library.Word"
begin

text \<open>
  \<open>supervisor/service.go\<close>: the synchronization of one project with GitHub and the poller that
  decides which projects are due. The GitHub client and the observer are arguments; the observer
  acts on the state of other components (\<open>'w\<close>). The times a synchronization reads the clock at are
  fields of its environment. \<open>SyncProjects\<close> runs the projects of a list at the same time; each of
  its statements is a transaction, so a run of it is some sequence of the steps below.
\<close>

record 'w SyncEnv =
  sn_client :: "string \<Rightarrow> string \<Rightarrow> string + RepositorySnapshot"
  sn_observer :: "(ProjectSnapshot \<Rightarrow> 'w \<Rightarrow> 'w \<times> string option) option"
  sn_arrange :: "PullRequest list \<Rightarrow> PullRequest list"
  sn_started :: gotime
  sn_fetched :: gotime
  sn_stored :: gotime
  sn_failed :: gotime

definition errorText :: "supervisor_error \<Rightarrow> string" where
  "errorText e = (case e of ProjectNotFound \<Rightarrow> ''project not found'' | ProjectExists \<Rightarrow> ''project already exists'' | SupervisorError m \<Rightarrow> m)"

definition syncFailed :: "'w SyncEnv \<Rightarrow> int \<Rightarrow> string \<Rightarrow> SupervisorDB \<Rightarrow> SupervisorDB \<times> (supervisor_error + ProjectSnapshot)" where
  "syncFailed env i message db =
     (case MarkSyncFailed (sn_failed env) i message db of
        (db', Some e) \<Rightarrow> (db', Inl (SupervisorError (message @ ''; record failure: '' @ errorText e)))
      | (db', None) \<Rightarrow> (db', Inl (SupervisorError message)))"

text \<open>What follows once the snapshot was fetched.\<close>

definition storeAndObserve :: "'w SyncEnv \<Rightarrow> int \<Rightarrow> string \<Rightarrow> RepositorySnapshot \<Rightarrow> SupervisorDB \<Rightarrow> 'w
    \<Rightarrow> SupervisorDB \<times> 'w \<times> (supervisor_error + ProjectSnapshot)" where
  "storeAndObserve env i name snapshot0 db w =
     (let snapshot = (if rp_fetched snapshot0 = 0 then snapshot0\<lparr>rp_fetched := sn_fetched env\<rparr> else snapshot0) in
      case ReplaceSnapshot (sn_arrange env) (sn_stored env) i snapshot db of
        (db1, Some e) \<Rightarrow>
          (case syncFailed env i (''store '' @ name @ '' snapshot: '' @ errorText e) db1 of (db2, r) \<Rightarrow> (db2, w, r))
      | (db1, None) \<Rightarrow>
          (case ReadProjectSnapshot i db1 of
             Inl e \<Rightarrow> (db1, w, Inl e)
           | Inr stored \<Rightarrow>
               (case sn_observer env of
                  None \<Rightarrow> (db1, w, Inr stored)
                | Some observe \<Rightarrow>
                    (case observe stored w of
                       (w', Some m) \<Rightarrow>
                         (case syncFailed env i (''observe '' @ name @ '' snapshot: '' @ m) db1 of (db2, r) \<Rightarrow> (db2, w', r))
                     | (w', None) \<Rightarrow> (db1, w', Inr stored)))))"

definition SyncProject :: "'w SyncEnv \<Rightarrow> int \<Rightarrow> SupervisorDB \<Rightarrow> 'w \<Rightarrow> SupervisorDB \<times> 'w \<times> (supervisor_error + ProjectSnapshot)" where
  "SyncProject env i db w =
     (case GetProject i db of
        Inl e \<Rightarrow> (db, w, Inl e)
      | Inr project \<Rightarrow>
          (case MarkSyncStarted (sn_started env) i db of
             (db1, Some e) \<Rightarrow> (db1, w, Inl e)
           | (db1, None) \<Rightarrow>
               (let name = pj_owner project @ ''/'' @ pj_repository project in
                case sn_client env (pj_owner project) (pj_repository project) of
                  Inl m \<Rightarrow> (case syncFailed env i (''sync '' @ name @ '': '' @ m) db1 of (db2, r) \<Rightarrow> (db2, w, r))
                | Inr snapshot \<Rightarrow> storeAndObserve env i name snapshot db1 w)))"

fun SyncProjects :: "(int \<Rightarrow> 'w SyncEnv) \<Rightarrow> int list \<Rightarrow> SupervisorDB \<Rightarrow> 'w
    \<Rightarrow> SupervisorDB \<times> 'w \<times> (int \<times> supervisor_error option) list" where
  "SyncProjects envs [] db w = (db, w, [])"
| "SyncProjects envs (i # ids) db w =
     (case SyncProject (envs i) i db w of
        (db1, w1, r) \<Rightarrow>
          (case SyncProjects envs ids db1 w1 of
             (db2, w2, rs) \<Rightarrow> (db2, w2, (i, case r of Inl e \<Rightarrow> Some e | Inr _ \<Rightarrow> None) # rs)))"

subsection \<open>The poller\<close>

text \<open>\<open>time.Duration(seconds) * time.Second\<close> on int64.\<close>

definition pollDuration :: "int \<Rightarrow> int" where
  "pollDuration seconds = sint ((word_of_int seconds :: 64 word) * word_of_int second)"

definition dueProject :: "gotime \<Rightarrow> int \<Rightarrow> Project \<Rightarrow> bool" where
  "dueProject now timeout p =
     (pj_polling_enabled p \<and>
      (case (if pj_sync_status p = ''syncing'' then pj_sync_started p else None) of
         Some started \<Rightarrow> timeout \<le> now - started
       | None \<Rightarrow>
           (case (case pj_sync_completed p of None \<Rightarrow> pj_sync_started p | Some t \<Rightarrow> Some t) of
              None \<Rightarrow> True
            | Some lastAttempt \<Rightarrow> pollDuration (pj_poll_interval p) \<le> now - lastAttempt)))"

definition dueProjects :: "gotime \<Rightarrow> int \<Rightarrow> SupervisorDB \<Rightarrow> int list" where
  "dueProjects now timeout db = map pj_id (filter (dueProject now timeout) (ListProjects db))"

definition tick :: "gotime \<Rightarrow> int \<Rightarrow> (int \<Rightarrow> 'w SyncEnv) \<Rightarrow> SupervisorDB \<Rightarrow> 'w \<Rightarrow> SupervisorDB \<times> 'w \<times> (int \<times> supervisor_error option) list" where
  "tick now timeout envs db w = SyncProjects envs (dueProjects now timeout db) db w"

text \<open>The defaults of \<open>NewService\<close> and \<open>NewPoller\<close>.\<close>

definition syncTimeoutOf :: "int \<Rightarrow> int" where
  "syncTimeoutOf t = (if t \<le> 0 then 2 * minute else t)"

definition scanIntervalOf :: "int \<Rightarrow> int" where
  "scanIntervalOf t = (if t \<le> 0 then 15 * second else t)"

lemma pollDuration_small: "0 \<le> seconds \<Longrightarrow> seconds \<le> 9223372036 \<Longrightarrow> pollDuration seconds = seconds * second"
  unfolding pollDuration_def wi_hom_mult sint_sbintrunc' by (rule signed_take_bit_int_eq_self) (simp_all add: second_def)

lemma pollDuration_wraps: "pollDuration 9223372037 < 0"
  by code_simp

end
