(* ===== verification/Supervisor_Machine.thy ===== *)
theory Supervisor_Machine
  imports Supervisor_Sync
begin

text \<open>
  The statements of the supervisor's store as a step relation, its invariant, and what a
  synchronization leaves behind: the snapshot that GitHub gave, or the old one and the reason, and
  in both cases a project that the poller comes back to.
\<close>

definition emptyDB :: SupervisorDB where
  "emptyDB = \<lparr>sd_projects = [], sd_next = 1, sd_tables = \<lambda>_. emptyTables\<rparr>"

inductive supervisor_step :: "SupervisorDB \<Rightarrow> SupervisorDB \<Rightarrow> bool" where
  create: "supervisor_step db (fst (CreateProject now inp db))"
| delete: "supervisor_step db (fst (DeleteProject i db))"
| started: "supervisor_step db (fst (MarkSyncStarted now i db))"
| failed: "supervisor_step db (fst (MarkSyncFailed now i message db))"
| replace: "supervisor_step db (fst (ReplaceSnapshot arrange now i snapshot db))"

inductive_cases supervisor_stepE: "supervisor_step db db'"

definition supervisorInv :: "SupervisorDB \<Rightarrow> bool" where
  "supervisorInv db =
     (distinct (map pj_id (sd_projects db)) \<and> distinct (map (\<lambda>p. (pj_owner p, pj_repository p)) (sd_projects db)) \<and>
      (\<forall>p \<in> set (sd_projects db). pj_id p < sd_next db \<and> 0 < pj_poll_interval p) \<and>
      (\<forall>i. tablesInv (sd_tables db i)) \<and>
      (\<forall>i. i \<notin> pj_id ` set (sd_projects db) \<longrightarrow> sd_tables db i = emptyTables))"

lemma emptyTables_inv [simp]: "tablesInv emptyTables"
  by (simp add: tablesInv_def keysInv_def refsInv_def emptyTables_def)

lemma emptyDB_inv: "supervisorInv emptyDB"
  by (simp add: supervisorInv_def emptyDB_def)

text \<open>Updating one project's bookkeeping.\<close>

lemma project_row_update:
  assumes "\<And>p. pj_id (f p) = pj_id p \<and> pj_owner (f p) = pj_owner p \<and> pj_repository (f p) = pj_repository p \<and>
      pj_poll_interval (f p) = pj_poll_interval p"
    and "supervisorInv db" "\<forall>j. tablesInv (ts j)" "\<forall>j. j \<notin> pj_id ` set (sd_projects db) \<longrightarrow> ts j = emptyTables"
  shows "supervisorInv (db\<lparr>sd_projects := row_update (\<lambda>p. pj_id p = i) f (sd_projects db), sd_tables := ts\<rparr>)"
proof -
  let ?rows = "row_update (\<lambda>p. pj_id p = i) f (sd_projects db)"
  have keys: "map pj_id ?rows = map pj_id (sd_projects db)"
    "map (\<lambda>p. (pj_owner p, pj_repository p)) ?rows = map (\<lambda>p. (pj_owner p, pj_repository p)) (sd_projects db)"
    using assms(1) by (auto simp: row_update_def)
  then have "pj_id ` set ?rows = pj_id ` set (sd_projects db)" by (metis set_map)
  moreover have "\<forall>p \<in> set ?rows. pj_id p < sd_next db \<and> 0 < pj_poll_interval p"
    using assms(1,2) by (intro row_update_ball) (auto simp: supervisorInv_def)
  ultimately show ?thesis using assms(2-4) keys by (simp add: supervisorInv_def)
qed

lemma updateProject_inv:
  assumes "\<And>p. pj_id (f p) = pj_id p \<and> pj_owner (f p) = pj_owner p \<and> pj_repository (f p) = pj_repository p \<and>
      pj_poll_interval (f p) = pj_poll_interval p" "supervisorInv db"
  shows "supervisorInv (fst (updateProject i f db))"
proof -
  have "supervisorInv (db\<lparr>sd_projects := row_update (\<lambda>p. pj_id p = i) f (sd_projects db), sd_tables := sd_tables db\<rparr>)"
    by (rule project_row_update [OF assms]) (use assms(2) in \<open>simp_all add: supervisorInv_def\<close>)
  then show ?thesis using assms(2) by (simp add: updateProject_def)
qed

lemma create_inv:
  assumes "supervisorInv db"
  shows "supervisorInv (fst (CreateProject now inp db))"
proof -
  have "fst (CreateProject now inp db) = db \<or> (\<exists>p. fst (CreateProject now inp db) =
      db\<lparr>sd_projects := sd_projects db @ [p], sd_next := sd_next db + 1\<rparr> \<and> pj_id p = sd_next db \<and> 0 < pj_poll_interval p \<and>
      \<not> list_ex (\<lambda>q. pj_owner q = pj_owner p \<and> pj_repository q = pj_repository p) (sd_projects db))"
    by (auto simp: CreateProject_def Let_def)
  then show ?thesis
  proof (elim disjE exE conjE)
    fix p assume p: "fst (CreateProject now inp db) = db\<lparr>sd_projects := sd_projects db @ [p], sd_next := sd_next db + 1\<rparr>"
      "pj_id p = sd_next db" "0 < pj_poll_interval p"
      "\<not> list_ex (\<lambda>q. pj_owner q = pj_owner p \<and> pj_repository q = pj_repository p) (sd_projects db)"
    have "sd_next db \<notin> pj_id ` set (sd_projects db)" using assms by (auto simp: supervisorInv_def)
    moreover have "(pj_owner p, pj_repository p) \<notin> (\<lambda>p. (pj_owner p, pj_repository p)) ` set (sd_projects db)"
      using p(4) by (auto simp: list_ex_iff)
    ultimately show ?thesis using assms p(2,3) unfolding p(1) by (auto simp: supervisorInv_def)
  qed (simp add: assms)
qed

lemma delete_inv: "supervisorInv db \<Longrightarrow> supervisorInv (fst (DeleteProject i db))"
  by (auto simp: DeleteProject_def supervisorInv_def intro: distinct_map_filter)

lemma replace_inv:
  assumes "supervisorInv db"
  shows "supervisorInv (fst (ReplaceSnapshot arrange now i snapshot db))"
proof (cases "row_get pj_id i (sd_projects db) = None \<or> replaceTables arrange (rp_issues snapshot) (sd_tables db i) = None")
  case True
  then show ?thesis using assms by (auto simp: ReplaceSnapshot_def)
next
  case False
  then obtain ts where known: "i \<in> pj_id ` set (sd_projects db)" and ts: "replaceTables arrange (rp_issues snapshot) (sd_tables db i) = Some ts"
    by (auto simp: row_get_None)
  have "tablesInv ts" using replaceTables_inv [OF _ ts] assms by (simp add: supervisorInv_def)
  with assms known have t: "\<forall>j. tablesInv (((sd_tables db)(i := ts)) j)"
    "\<forall>j. j \<notin> pj_id ` set (sd_projects db) \<longrightarrow> ((sd_tables db)(i := ts)) j = emptyTables"
    by (auto simp: supervisorInv_def)
  have "row_get pj_id i (sd_projects db) \<noteq> None" using known by (simp add: row_get_None)
  with ts show ?thesis
    by (auto simp: ReplaceSnapshot_def Let_def intro!: project_row_update [OF _ assms t])
qed

lemma supervisor_step_inv: "supervisor_step db db' \<Longrightarrow> supervisorInv db \<Longrightarrow> supervisorInv db'"
  by (induction rule: supervisor_step.induct)
    (simp_all add: create_inv delete_inv replace_inv MarkSyncStarted_def MarkSyncFailed_def updateProject_inv)

lemma supervisor_run_inv: "supervisor_step\<^sup>*\<^sup>* db db' \<Longrightarrow> supervisorInv db \<Longrightarrow> supervisorInv db'"
  by (induction rule: rtranclp_induct) (auto dest: supervisor_step_inv)

text \<open>A synchronization is a sequence of these steps.\<close>

lemma syncFailed_step: "supervisor_step db (fst (syncFailed env i m db))"
proof -
  have "fst (syncFailed env i m db) = fst (MarkSyncFailed (sn_failed env) i m db)"
    by (simp add: syncFailed_def split: prod.splits option.splits)
  then show ?thesis by (simp add: failed)
qed

lemma storeAndObserve_run: "supervisor_step\<^sup>*\<^sup>* db (fst (storeAndObserve env i name snapshot db w))"
proof -
  define s where "s = (if rp_fetched snapshot = 0 then snapshot\<lparr>rp_fetched := sn_fetched env\<rparr> else snapshot)"
  obtain db1 e where r: "ReplaceSnapshot (sn_arrange env) (sn_stored env) i s db = (db1, e)" by fastforce
  have 1: "supervisor_step db db1" using replace [of db "sn_arrange env" "sn_stored env" i s] by (simp add: r)
  have f: "supervisor_step\<^sup>*\<^sup>* db (fst (syncFailed env i m db1))" for m using 1 syncFailed_step [of db1 env i m] by simp
  show ?thesis using 1 f unfolding storeAndObserve_def Let_def s_def [symmetric] r
    by (simp add: case_prod_beta r_into_rtranclp split: option.split sum.split)
qed

lemma SyncProject_run: "supervisor_step\<^sup>*\<^sup>* db (fst (SyncProject env i db w))"
proof (cases "GetProject i db")
  case (Inr p)
  obtain db1 e where m: "MarkSyncStarted (sn_started env) i db = (db1, e)" by fastforce
  have 1: "supervisor_step db db1" using started [of db "sn_started env" i] by (simp add: m)
  have f: "supervisor_step\<^sup>*\<^sup>* db (fst (syncFailed env i m' db1))" for m' using 1 syncFailed_step [of db1 env i m'] by simp
  have o: "supervisor_step\<^sup>*\<^sup>* db (fst (storeAndObserve env i name s db1 w))" for name s
    using 1 storeAndObserve_run [of db1 env i name s w] by (simp add: converse_rtranclp_into_rtranclp)
  show ?thesis using 1 f o by (simp add: SyncProject_def Inr m Let_def case_prod_beta r_into_rtranclp split: option.split sum.split)
qed (simp add: SyncProject_def)

lemma SyncProjects_run: "supervisor_step\<^sup>*\<^sup>* db (fst (SyncProjects envs ids db w))"
proof (induction ids arbitrary: db w)
  case (Cons i ids)
  obtain db1 w1 r where s: "SyncProject (envs i) i db w = (db1, w1, r)" by (metis prod_cases3)
  have "supervisor_step\<^sup>*\<^sup>* db db1" using SyncProject_run [of db "envs i" i w] by (simp add: s)
  from rtranclp_trans [OF this Cons [of db1 w1]] show ?case by (simp add: s case_prod_beta)
qed simp

text \<open>C40. The supervisor's tables stay well formed. Whatever projects are created and deleted and
  whatever snapshots are stored, completely or with an error in the middle, and also after any
  round of the poller: ids, repositories and intervals of the projects are as they should, every
  project's snapshot has unique keys and no row without the row it refers to, and no row is left of
  a project that is gone.\<close>

theorem supervisor_tables_invariant:
  assumes "supervisor_step\<^sup>*\<^sup>* emptyDB db"
  shows "supervisorInv db \<and> supervisorInv (fst (tick now timeout envs db w)) \<and>
    (\<forall>p \<in> set (ListProjects db). GetProject (pj_id p) db = Inr p)"
proof -
  have inv: "supervisorInv db" by (rule supervisor_run_inv [OF assms emptyDB_inv])
  then have "supervisorInv (fst (tick now timeout envs db w))"
    unfolding tick_def by (rule supervisor_run_inv [OF SyncProjects_run])
  moreover have "GetProject (pj_id p) db = Inr p" if "p \<in> set (sd_projects db)" for p
    using project_table.get_unique [OF _ that] inv by (simp add: supervisorInv_def GetProject_def)
  ultimately show ?thesis using inv by (simp add: ListProjects_def)
qed

subsection \<open>A synchronization\<close>

lemma row_get_update:
  assumes "\<And>p. pj_id (f p) = pj_id p"
  shows "row_get pj_id j (row_update (\<lambda>p. pj_id p = i) f rows) = (if j = i then map_option f (row_get pj_id j rows) else row_get pj_id j rows)"
proof (cases "j = i")
  case True
  have "map_option (\<lambda>p. if pj_id p = i then f p else p) (row_get pj_id i rows) = map_option f (row_get pj_id i rows)"
    using project_table.get_in [of i rows] by (cases "row_get pj_id i rows") auto
  with True show ?thesis using project_table.get_upd [of f i "\<lambda>p. pj_id p = i" rows] assms by simp
next
  case False
  then show ?thesis using project_table.get_upd_other [of f "\<lambda>p. pj_id p = i" j rows] assms by auto
qed

lemma started_ok:
  assumes "GetProject i db = Inr p"
  obtains db1 where "MarkSyncStarted now i db = (db1, None)" "sd_tables db1 = sd_tables db"
    "GetProject i db1 = Inr (p\<lparr>pj_sync_status := ''syncing'', pj_sync_error := [], pj_sync_started := Some now, pj_updated := now\<rparr>)"
    "\<And>j. j \<noteq> i \<Longrightarrow> GetProject j db1 = GetProject j db"
  using assms that by (fastforce simp: MarkSyncStarted_def updateProject_def GetProject_def row_get_update split: option.splits)

lemma failed_ok:
  assumes "GetProject i db = Inr p"
  obtains db1 where "syncFailed env i m db = (db1, Inl (SupervisorError m))" "sd_tables db1 = sd_tables db"
    "GetProject i db1 = Inr (p\<lparr>pj_sync_status := ''failed'', pj_sync_error := take 2000 m, pj_sync_completed := Some (sn_failed env),
        pj_updated := sn_failed env\<rparr>)"
    "\<And>j. j \<noteq> i \<Longrightarrow> GetProject j db1 = GetProject j db"
  using assms that by (fastforce simp: syncFailed_def MarkSyncFailed_def updateProject_def GetProject_def row_get_update split: option.splits)

text \<open>What the observer is given, and what its answer does.\<close>

definition observed :: "'w SyncEnv \<Rightarrow> ProjectSnapshot \<Rightarrow> 'w \<Rightarrow> 'w \<times> string option" where
  "observed env s w = (case sn_observer env of None \<Rightarrow> (w, None) | Some f \<Rightarrow> f s w)"

lemma sync_cases:
  assumes p: "GetProject i db = Inr p" and inv: "tablesInv (sd_tables db i)" and arrange: "\<And>ps. mset (sn_arrange env ps) = mset ps"
    and c: "sn_client env (pj_owner p) (pj_repository p) = Inr snapshot" and f: "fetchable (sd_tables db i) (rp_issues snapshot)"
  obtains s m where "ps_issues s = map storedIssue (sort_key is_number (rp_issues snapshot))"
    "ps_project s = p\<lparr>pj_sync_status := ''healthy'', pj_sync_error := [], pj_sync_started := Some (sn_started env),
       pj_sync_completed := Some (if rp_fetched snapshot = 0 then (if sn_fetched env = 0 then sn_stored env else sn_fetched env) else rp_fetched snapshot),
       pj_updated := (if rp_fetched snapshot = 0 then (if sn_fetched env = 0 then sn_stored env else sn_fetched env) else rp_fetched snapshot)\<rparr>"
    "observed env s w = (fst (snd (SyncProject env i db w)), m)"
    "readIssues (sd_tables (fst (SyncProject env i db w)) i) = ps_issues s"
    "\<And>j. j \<noteq> i \<Longrightarrow> sd_tables (fst (SyncProject env i db w)) j = sd_tables db j"
    "m = None \<Longrightarrow> snd (snd (SyncProject env i db w)) = Inr s \<and> ReadProjectSnapshot i (fst (SyncProject env i db w)) = Inr s"
    "m \<noteq> None \<Longrightarrow> \<exists>e t. snd (snd (SyncProject env i db w)) = Inl (SupervisorError e) \<and>
       GetProject i (fst (SyncProject env i db w)) = Inr ((ps_project s)\<lparr>pj_sync_status := ''failed'', pj_sync_error := take 2000 e,
         pj_sync_completed := Some t, pj_updated := t\<rparr>)"
proof -
  obtain db1 where 1: "MarkSyncStarted (sn_started env) i db = (db1, None)" "sd_tables db1 = sd_tables db"
    "GetProject i db1 = Inr (p\<lparr>pj_sync_status := ''syncing'', pj_sync_error := [], pj_sync_started := Some (sn_started env), pj_updated := sn_started env\<rparr>)"
    by (rule started_ok [OF p]) blast
  define snap where "snap = (if rp_fetched snapshot = 0 then snapshot\<lparr>rp_fetched := sn_fetched env\<rparr> else snapshot)"
  have snap: "rp_issues snap = rp_issues snapshot" by (simp add: snap_def)
  have known: "row_get pj_id i (sd_projects db1) \<noteq> None" using 1(3) by (auto simp: GetProject_def split: option.splits)
  obtain db2 where 2: "ReplaceSnapshot (sn_arrange env) (sn_stored env) i snap db1 = (db2, None)"
    "readIssues (sd_tables db2 i) = map storedIssue (sort_key is_number (rp_issues snapshot))"
    "\<And>j. j \<noteq> i \<Longrightarrow> sd_tables db2 j = sd_tables db1 j"
    "GetProject i db2 = map_sum id (\<lambda>p. p\<lparr>pj_sync_status := ''healthy'', pj_sync_error := [],
        pj_sync_completed := Some (if rp_fetched snap \<noteq> 0 then rp_fetched snap else sn_stored env),
        pj_updated := (if rp_fetched snap \<noteq> 0 then rp_fetched snap else sn_stored env)\<rparr>) (GetProject i db1)"
    by (rule snapshot_stored [of db1 i snap "sn_arrange env" "sn_stored env"]) (use f inv arrange known snap 1(2) in auto)
  let ?t = "if rp_fetched snapshot = 0 then (if sn_fetched env = 0 then sn_stored env else sn_fetched env) else rp_fetched snapshot"
  let ?p = "p\<lparr>pj_sync_status := ''healthy'', pj_sync_error := [], pj_sync_started := Some (sn_started env),
       pj_sync_completed := Some ?t, pj_updated := ?t\<rparr>"
  have p2: "GetProject i db2 = Inr ?p" using 2(4) 1(3) by (simp add: snap_def)
  let ?s = "\<lparr>ps_project = ?p, ps_issues = map storedIssue (sort_key is_number (rp_issues snapshot))\<rparr>"
  have read: "ReadProjectSnapshot i db2 = Inr ?s" using p2 2(2) by (simp add: ReadProjectSnapshot_def)
  obtain w' m where o: "observed env ?s w = (w', m)" by fastforce
  let ?name = "pj_owner p @ ''/'' @ pj_repository p"
  have "SyncProject env i db w = storeAndObserve env i ?name snapshot db1 w"
    by (simp add: SyncProject_def p 1(1) c Let_def)
  also have "\<dots> = (case m of None \<Rightarrow> (db2, w', Inr ?s)
     | Some e \<Rightarrow> (case syncFailed env i (''observe '' @ ?name @ '' snapshot: '' @ e) db2 of (db3, r) \<Rightarrow> (db3, w', r)))"
    unfolding storeAndObserve_def Let_def snap_def [symmetric] 2(1)
    using o read by (cases "sn_observer env"; cases m) (simp_all add: observed_def)
  finally have run: "SyncProject env i db w = \<dots>" .
  show thesis
  proof (cases m)
    case None
    then show thesis using that [of ?s m] run o 2(2,3) 1(2) read by simp
  next
    case (Some e)
    define t where "t = ''observe '' @ ?name @ '' snapshot: '' @ e"
    obtain db3 where 3: "syncFailed env i t db2 = (db3, Inl (SupervisorError t))" "sd_tables db3 = sd_tables db2"
      "GetProject i db3 = Inr (?p\<lparr>pj_sync_status := ''failed'', pj_sync_error := take 2000 t, pj_sync_completed := Some (sn_failed env),
         pj_updated := sn_failed env\<rparr>)"
      by (rule failed_ok [OF p2]) blast
    have r: "SyncProject env i db w = (db3, w', Inl (SupervisorError t))"
      using run unfolding Some by (simp only: option.case t_def [symmetric] 3(1) prod.case)
    show thesis
      by (rule that [of ?s m]) (use o 2(2,3) 1(2) 3(2,3) in \<open>simp_all add: r Some exI [of _ "sn_failed env"] del: take_eq_Nil\<close>, (rule exI, rule refl)?)
  qed
qed

lemma replace_outcome:
  assumes "GetProject i db = Inr q"
  obtains e where "ReplaceSnapshot arrange now i s db = (db, Some e)"
  | db' t where "ReplaceSnapshot arrange now i s db = (db', None)"
      "GetProject i db' = Inr (q\<lparr>pj_sync_status := ''healthy'', pj_sync_error := [], pj_sync_completed := Some t, pj_updated := t\<rparr>)"
proof -
  have known: "row_get pj_id i (sd_projects db) = Some q" using assms by (auto simp: GetProject_def split: option.splits)
  show thesis
  proof (cases "replaceTables arrange (rp_issues s) (sd_tables db i)")
    case None
    then show thesis using that(1) known by (simp add: ReplaceSnapshot_def)
  next
    case (Some ts)
    then show thesis
      by (intro that(2) [where t = "if rp_fetched s \<noteq> 0 then rp_fetched s else now"])
        (simp add: ReplaceSnapshot_def known Let_def, simp add: GetProject_def row_get_update known)
  qed
qed

text \<open>Every synchronization of a known project comes to an end that is recorded.\<close>

lemma sync_settles:
  assumes p: "GetProject i db = Inr p"
  obtains p' t where "GetProject i (fst (SyncProject env i db w)) = Inr p'" "pj_sync_status p' \<in> {''healthy'', ''failed''}"
    "pj_sync_completed p' = Some t" "pj_polling_enabled p' = pj_polling_enabled p" "pj_poll_interval p' = pj_poll_interval p"
proof -
  define settled where "settled d \<longleftrightarrow> (\<exists>p' t. GetProject i d = Inr p' \<and> pj_sync_status p' \<in> {''healthy'', ''failed''} \<and>
    pj_sync_completed p' = Some t \<and> pj_polling_enabled p' = pj_polling_enabled p \<and> pj_poll_interval p' = pj_poll_interval p)" for d
  have failed: "settled (fst (syncFailed env i m d))"
    if "GetProject i d = Inr q" "pj_polling_enabled q = pj_polling_enabled p" "pj_poll_interval q = pj_poll_interval p" for m d q
    by (rule failed_ok [OF that(1), of env m]) (simp add: settled_def that)
  obtain db1 q where 1: "MarkSyncStarted (sn_started env) i db = (db1, None)" "GetProject i db1 = Inr q"
    "pj_polling_enabled q = pj_polling_enabled p" "pj_poll_interval q = pj_poll_interval p"
    by (rule started_ok [OF p, of "sn_started env"]) simp
  have store: "settled (fst (storeAndObserve env i name s db1 w))" for name s
  proof -
    define s' where "s' = (if rp_fetched s = 0 then s\<lparr>rp_fetched := sn_fetched env\<rparr> else s)"
    show ?thesis
    proof (rule replace_outcome [OF 1(2), of "sn_arrange env" "sn_stored env" s'])
      fix e assume "ReplaceSnapshot (sn_arrange env) (sn_stored env) i s' db1 = (db1, Some e)"
      then show ?thesis unfolding storeAndObserve_def Let_def s'_def [symmetric]
        using failed [OF 1(2-4)] by (simp add: case_prod_beta)
    next
      fix db2 t assume r: "ReplaceSnapshot (sn_arrange env) (sn_stored env) i s' db1 = (db2, None)"
        and q: "GetProject i db2 = Inr (q\<lparr>pj_sync_status := ''healthy'', pj_sync_error := [], pj_sync_completed := Some t, pj_updated := t\<rparr>)"
      have "settled db2" using 1(3,4) by (simp add: settled_def q)
      then show ?thesis unfolding storeAndObserve_def Let_def s'_def [symmetric] r
        using failed [OF q] 1(3,4) by (simp add: case_prod_beta ReadProjectSnapshot_def q split: option.split)
    qed
  qed
  have "settled (fst (SyncProject env i db w))"
    using failed [OF 1(2-4)] store
    by (simp add: SyncProject_def p 1(1) Let_def case_prod_beta split: sum.split)
  then show thesis using that by (auto simp: settled_def)
qed

lemma due_iff:
  assumes "supervisorInv db" "GetProject i db = Inr p"
  shows "i \<in> set (dueProjects now timeout db) \<longleftrightarrow> dueProject now timeout p"
proof -
  have p: "p \<in> set (sd_projects db)" "pj_id p = i"
    using assms(2) row_get_Some [of pj_id i "sd_projects db"] by (auto simp: GetProject_def split: option.splits)
  have one: "q = p" if "q \<in> set (sd_projects db)" "pj_id q = i" for q
    using assms(1) p that by (auto simp: supervisorInv_def distinct_map inj_on_def)
  show ?thesis unfolding dueProjects_def ListProjects_def
    by (simp add: image_iff) (use p one in blast)
qed

text \<open>C38. A synchronization stores what GitHub has. On tables that the statements of the store have
  made, a snapshot with unique keys replaces the project's Issues, comments, labels, pull requests
  and links completely, whatever was there before, and no other project's; reading gives the Issues
  back in the order of their numbers. The observer sees exactly that, and when it fails, the result
  is its error and the project is marked as failed.\<close>

theorem sync_stores_github:
  assumes "supervisor_step\<^sup>*\<^sup>* emptyDB db" and "GetProject i db = Inr p" and "\<And>ps. mset (sn_arrange env ps) = mset ps"
    and "sn_client env (pj_owner p) (pj_repository p) = Inr snapshot" and "fetchable (sd_tables db i) (rp_issues snapshot)"
    and "SyncProject env i db w = (db', w', r)"
  shows "\<exists>s. ps_issues s = map storedIssue (sort_key is_number (rp_issues snapshot)) \<and> readIssues (sd_tables db' i) = ps_issues s \<and>
    (\<forall>j. j = i \<or> sd_tables db' j = sd_tables db j) \<and> w' = fst (observed env s w) \<and>
    (case snd (observed env s w) of
       None \<Rightarrow> r = Inr s \<and> ReadProjectSnapshot i db' = Inr s \<and> pj_sync_status (ps_project s) = ''healthy''
     | Some _ \<Rightarrow> (\<exists>e. r = Inl (SupervisorError e)) \<and> map_sum id pj_sync_status (GetProject i db') = Inr ''failed'')"
proof -
  have "tablesInv (sd_tables db i)"
    using supervisor_run_inv [OF assms(1) emptyDB_inv] by (simp add: supervisorInv_def)
  then show ?thesis
    by (rule sync_cases [OF assms(2) _ assms(3-5), of w]) (rule exI, use assms(6) in \<open>auto split: option.split\<close>)
qed


subsection \<open>An example\<close>

definition demoInput :: CreateProjectInput where
  "demoInput = \<lparr>cp_owner = ''acme'', cp_repository = ''app'', cp_workflow_mode = ''delegated_v2'', cp_polling_enabled = True,
     cp_poll_interval = 300\<rparr>"

definition demoIssue :: "int \<Rightarrow> Issue" where
  "demoIssue n = \<lparr>is_github_id = 100 + n, is_number = n, is_title = ''t'', is_body = [], is_state = ''open'', is_url = [], is_author = [],
     is_created = 7, is_updated = 7, is_labels = [\<lparr>lb_name = ''b'', lb_color = [], lb_description = []\<rparr>, \<lparr>lb_name = ''a'', lb_color = [], lb_description = []\<rparr>],
     is_comments = [], is_pulls = []\<rparr>"

definition demoEnv :: "unit SyncEnv" where
  "demoEnv = \<lparr>sn_client = \<lambda>_ _. Inr \<lparr>rp_fetched = 0, rp_issues = [demoIssue 2, demoIssue 1]\<rparr>, sn_observer = None,
     sn_arrange = id, sn_started = 10, sn_fetched = 20, sn_stored = 30, sn_failed = 40\<rparr>"

definition demoDB :: SupervisorDB where
  "demoDB = fst (CreateProject 5 demoInput emptyDB)"

lemma demoDB_run: "supervisor_step\<^sup>*\<^sup>* emptyDB demoDB"
  unfolding demoDB_def by (rule r_into_rtranclp) (rule create)

lemma demo_texts: "trimSpace ''acme'' = ''acme''" "trimSpace ''app'' = ''app''" "trimSpace ''delegated_v2'' = ''delegated_v2''"
  "containsStr ''acme'' ''/'' = False" "containsStr ''app'' ''/'' = False"
  by code_simp+

lemma demoDB_eq: "demoDB = \<lparr>sd_projects = [\<lparr>pj_id = 1, pj_owner = ''acme'', pj_repository = ''app'', pj_workflow_mode = ''delegated_v2'',
    pj_polling_enabled = True, pj_poll_interval = 300, pj_sync_status = ''never'', pj_sync_error = [], pj_sync_started = None,
    pj_sync_completed = None, pj_created = 5, pj_updated = 5\<rparr>], sd_next = 2, sd_tables = \<lambda>_. emptyTables\<rparr>"
  by (simp add: demoDB_def CreateProject_def demoInput_def demo_texts emptyDB_def Let_def)

lemma demoDB_project: "\<exists>p. GetProject 1 demoDB = Inr p \<and> pj_owner p = ''acme'' \<and> pj_polling_enabled p \<and> pj_poll_interval p = 300"
  by (simp add: demoDB_eq GetProject_def row_get_def)

theorem supervisor_tables_invariant_witness:
  "map pj_id (ListProjects demoDB) = [1] \<and> supervisorInv demoDB \<and>
   supervisorInv (fst (tick 100 60 (\<lambda>_. demoEnv) demoDB ()))"
  using supervisor_tables_invariant [OF demoDB_run, of 100 60 "\<lambda>_. demoEnv" "()"] by (simp add: ListProjects_def demoDB_eq)

theorem sync_stores_github_witness:
  "\<exists>s. snd (snd (SyncProject demoEnv 1 demoDB ())) = Inr s \<and> map is_number (ps_issues s) = [1, 2] \<and>
     map is_github_id (ps_issues s) = [101, 102]"
proof -
  obtain p where p: "GetProject 1 demoDB = Inr p" using demoDB_project by blast
  obtain db' w' r where run: "SyncProject demoEnv 1 demoDB () = (db', w', r)" by (metis prod_cases3)
  have "fetchable (sd_tables demoDB 1) (rp_issues \<lparr>rp_fetched = 0, rp_issues = [demoIssue 2, demoIssue 1]\<rparr>)"
    by (simp add: fetchable_def demoDB_eq emptyTables_def demoIssue_def issuePulls_def)
  note stored = sync_stores_github [OF demoDB_run p _ _ this run]
  have "\<And>ps. mset (sn_arrange demoEnv ps) = mset ps" "sn_client demoEnv (pj_owner p) (pj_repository p) =
      Inr \<lparr>rp_fetched = 0, rp_issues = [demoIssue 2, demoIssue 1]\<rparr>" by (simp_all add: demoEnv_def)
  note stored = stored [OF this]
  have "snd (observed demoEnv s ()) = None" for s by (simp add: observed_def demoEnv_def)
  from stored [unfolded this option.case RepositorySnapshot.simps]
  obtain s where "ps_issues s = map storedIssue (sort_key is_number [demoIssue 2, demoIssue 1])" "r = Inr s" by blast
  then have "\<exists>s. ps_issues s = map storedIssue (sort_key is_number [demoIssue 2, demoIssue 1]) \<and>
      snd (snd (SyncProject demoEnv 1 demoDB ())) = Inr s" by (simp only: run snd_conv) blast
  moreover have "map is_number (map storedIssue (sort_key is_number [demoIssue 2, demoIssue 1])) = [1, 2]"
    "map is_github_id (map storedIssue (sort_key is_number [demoIssue 2, demoIssue 1])) = [101, 102]"
    by (simp_all add: storedIssue_def demoIssue_def)
  ultimately show ?thesis by metis
qed


end
