(* ===== verification/Github_Sync.thy ===== *)
theory Github_Sync
  imports Github_Facts Supervisor_Machine Workspace
begin

text \<open>
  From GitHub to the merge gate: what the summary of the checks says, the whole synchronization of a
  project with a repository that is served in pages, and what the derived route is worth then.
\<close>

subsection \<open>The summary of the checks\<close>

definition checkPassed :: "apiCheckRun \<Rightarrow> bool" where
  "checkPassed check \<longleftrightarrow> cr_status check = ''completed'' \<and> conclusionPriority (cr_conclusion check) \<le> 1"

lemma conclusionPriority_1: "conclusionPriority x = 1 \<longleftrightarrow> x = ''success''"
  by (simp add: conclusionPriority_def)

lemma conclusionPriority_bad: "1 < conclusionPriority x \<Longrightarrow> normalizeToken x \<noteq> ''success''"
proof -
  assume "1 < conclusionPriority x"
  then have "x \<in> {''failure'', ''timed_out'', ''action_required'', ''startup_failure'', ''cancelled'', ''stale'', ''neutral'', ''skipped''}"
    by (auto simp: conclusionPriority_def split: if_splits)
  moreover have "list_all (\<lambda>x. normalizeToken x \<noteq> ''success'')
      [''failure'', ''timed_out'', ''action_required'', ''startup_failure'', ''cancelled'', ''stale'', ''neutral'', ''skipped'']"
    by code_simp
  ultimately show ?thesis by (auto simp: list_all_iff)
qed

definition summarized :: "apiCheckRun list \<Rightarrow> CISummary \<times> nat \<Rightarrow> bool" where
  "summarized checks r \<longleftrightarrow>
     (if \<exists>x \<in> set checks. cr_status x \<noteq> ''completed'' then ci_status (fst r) = ''in_progress'' \<and> ci_conclusion (fst r) = []
      else ci_status (fst r) = ''completed'' \<and> (\<forall>x \<in> set checks. conclusionPriority (cr_conclusion x) \<le> snd r) \<and>
        (snd r = 0 \<or> (\<exists>x \<in> set checks. conclusionPriority (cr_conclusion x) = snd r)) \<and>
        conclusionPriority (ci_conclusion (fst r)) = max 1 (snd r))"

lemma summarizeStep_summarized:
  assumes "summarized checks (s, w)"
  shows "summarized (checks @ [x]) (summarizeStep x (s, w))"
  using assms by (auto simp: summarized_def Let_def split: if_splits)

lemma fold_summarized: "summarized [] r \<Longrightarrow> summarized checks (fold summarizeStep checks r)"
proof (induction checks rule: rev_induct)
  case (snoc x checks)
  then show ?case using summarizeStep_summarized [of checks "fst (fold summarizeStep checks r)" "snd (fold summarizeStep checks r)" x]
    by simp
qed simp

lemma orNow_fields [simp]:
  "ci_conclusion (orNow now s) = ci_conclusion s" "ci_status (orNow now s) = ci_status s" "ci_head (orNow now s) = ci_head s"
  by (simp_all add: orNow_def)

lemma summarizeCheckRuns_success: "ciSucceeded (summarizeCheckRuns now sha checks) \<longleftrightarrow> list_all checkPassed checks"
proof -
  let ?r = "fold summarizeStep checks (\<lparr>ci_head = sha, ci_status = ''completed'', ci_conclusion = ''success'', ci_source = ''check_runs'',
      ci_details = [], ci_updated = unixEpoch\<rparr>, 0)"
  have s: "summarized checks ?r" by (rule fold_summarized) (simp add: summarized_def conclusionPriority_def)
  have succ: "ciSucceeded (summarizeCheckRuns now sha checks) \<longleftrightarrow> normalizeToken (ci_conclusion (fst ?r)) = ''success''"
    by (simp add: ciSucceeded_def summarizeCheckRuns_def)
  show ?thesis
  proof (cases "\<exists>x \<in> set checks. cr_status x \<noteq> ''completed''")
    case True
    with s have "ci_conclusion (fst ?r) = []" unfolding summarized_def by (simp only: if_True)
    moreover from True have "\<not> list_all checkPassed checks" by (auto simp: list_all_iff checkPassed_def)
    ultimately show ?thesis by (simp add: succ)
  next
    case False
    with s have w: "\<forall>x \<in> set checks. conclusionPriority (cr_conclusion x) \<le> snd ?r"
      "snd ?r = 0 \<or> (\<exists>x \<in> set checks. conclusionPriority (cr_conclusion x) = snd ?r)"
      and p: "conclusionPriority (ci_conclusion (fst ?r)) = max 1 (snd ?r)"
      unfolding summarized_def if_not_P [OF False] by blast+
    have "list_all checkPassed checks \<longleftrightarrow> snd ?r \<le> 1" using False w by (fastforce simp: list_all_iff checkPassed_def)
    moreover have "normalizeToken ''success'' = ''success''" by code_simp
    then have "normalizeToken (ci_conclusion (fst ?r)) = ''success'' \<longleftrightarrow> snd ?r \<le> 1"
      using conclusionPriority_1 [of "ci_conclusion (fst ?r)"] conclusionPriority_bad [of "ci_conclusion (fst ?r)"] p
      by (cases "snd ?r \<le> 1") simp_all
    ultimately show ?thesis by (simp add: succ)
  qed
qed

lemma statusStep_conclusion: "ci_conclusion (fold statusStep sts s) = ci_conclusion s \<and> ci_head (fold statusStep sts s) = ci_head s"
  by (induction sts arbitrary: s) (simp_all add: statusStep_def Let_def)

lemma checksOf_success:
  "ciSucceeded (checksOf c now R sha) \<longleftrightarrow>
     (if limited c (rs_checks R sha) \<noteq> [] then list_all checkPassed (limited c (rs_checks R sha))
      else normalizeToken (cb_state (rs_status R sha)) = ''success'')"
  by (simp add: checksOf_def summarizeCheckRuns_success) (simp add: ciSucceeded_def summarizeStatus_def statusStep_conclusion)

subsection \<open>A repository as GitHub keeps it\<close>

text \<open>Ids are unique, numbers are unique within Issues and within pull requests, an Issue has a
  label once, and a number keeps its id.\<close>

definition uniqueIds :: "Repository \<Rightarrow> bool" where
  "uniqueIds R \<longleftrightarrow>
     distinct (map ai_id (rs_items R)) \<and> distinct (map ai_number (rs_items R)) \<and>
     (\<forall>i \<in> set (rs_items R). distinct (map al_name (ai_labels i))) \<and>
     (\<forall>ns. distinct ns \<longrightarrow> distinct (map ac_id (concat (map (rs_comments R) ns)))) \<and>
     distinct (map ap_id (rs_pulls R)) \<and> distinct (map ap_number (rs_pulls R))"

definition numbersKept :: "GithubTables \<Rightarrow> Repository \<Rightarrow> bool" where
  "numbersKept ts R \<longleftrightarrow>
     (\<forall>i \<in> set (rs_items R). \<forall>r \<in> set (gt_issues ts). is_number r = ai_number i \<longrightarrow> is_github_id r = ai_id i) \<and>
     (\<forall>p \<in> set (rs_pulls R). \<forall>r \<in> set (gt_pulls ts). pr_number r = ap_number p \<longrightarrow> pr_github_id r = ap_id p)"

lemma limited_in: "x \<in> set (limited c xs) \<Longrightarrow> x \<in> set xs"
  by (auto simp: limited_def dest: in_set_takeD)

lemma listed_in: "i \<in> set (listed c R) \<Longrightarrow> \<exists>a \<in> set (rs_items R). \<not> isPullItem a \<and> i = convertIssue a"
  by (auto simp: listed_def dest!: in_set_takeD)

lemma listed_distinct:
  assumes "uniqueIds R"
  shows "distinct (map is_github_id (listed c R))" "distinct (map is_number (listed c R))"
proof -
  have "distinct (map f (filter P (take n (rs_items R))))" if "distinct (map f (rs_items R))" for f :: "apiIssue \<Rightarrow> int" and P n
    using that by (intro distinct_map_filter) (simp add: distinct_take take_map [symmetric])
  moreover have "is_github_id (convertIssue a) = ai_id a" "is_number (convertIssue a) = ai_number a" for a
    by (simp_all add: convertIssue_def)
  ultimately show "distinct (map is_github_id (listed c R))" "distinct (map is_number (listed c R))"
    using assms by (simp_all add: listed_def take_map [symmetric] distinct_take comp_def uniqueIds_def)
qed

lemma pullsReferring_in:
  "q \<in> set (pullsReferring c now R pulls n) \<longleftrightarrow> (\<exists>p \<in> set pulls. refersTo p n \<and> q = pullOf c now R p)"
  by (auto simp: pullsReferring_def)

lemma pullOf_keys [simp]: "pr_github_id (pullOf c now R p) = ap_id p" "pr_number (pullOf c now R p) = ap_number p"
  by (simp_all add: pullOf_def convertPull_def)

lemma distinct_concat_take:
  "distinct (map f (concat (map g ns))) \<Longrightarrow> distinct (map f (concat (map (\<lambda>n. take k (g n)) ns)))"
proof (induction ns)
  case (Cons n ns)
  have sub: "set (take k (g n)) \<subseteq> set (g n)" "set (concat (map (\<lambda>n. take k (g n)) ns)) \<subseteq> set (concat (map g ns))"
    by (auto dest: in_set_takeD)
  have "f ` set (take k (g n)) \<inter> f ` set (concat (map (\<lambda>n. take k (g n)) ns)) \<subseteq> f ` set (g n) \<inter> f ` set (concat (map g ns))"
    using sub by blast
  moreover have "f ` set (g n) \<inter> f ` set (concat (map g ns)) = {}" "distinct (map f (g n))" "distinct (map f (concat (map g ns)))"
    using Cons.prems by (simp_all only: list.map concat.simps map_append distinct_append set_map)
  moreover from this(2) have "distinct (map f (take k (g n)))" by (simp add: take_map [symmetric])
  ultimately show ?case using Cons.IH by (simp only: list.map concat.simps map_append distinct_append set_map) blast
qed simp

lemma snapshot_fetchable:
  assumes u: "uniqueIds R" and k: "numbersKept ts R"
  shows "fetchable ts (map (snapshotIssue c now R) (listed c R))"
proof -
  note d = listed_distinct [OF u, of c]
  have keys: "is_github_id (snapshotIssue c now R i) = is_github_id i" "is_number (snapshotIssue c now R i) = is_number i"
    "is_labels (snapshotIssue c now R i) = is_labels i" for i by (simp_all add: snapshotIssue_def)
  have pulls: "\<exists>p \<in> set (rs_pulls R). q = pullOf c now R p" if "q \<in> issuePulls (map (snapshotIssue c now R) (listed c R))" for q
    using that limited_in by (fastforce simp: issuePulls_def snapshotIssue_def pullsReferring_in)
  have one: "p = q" if "p \<in> set (rs_pulls R)" "q \<in> set (rs_pulls R)" "ap_id p = ap_id q \<or> ap_number p = ap_number q" for p q
    using u that by (auto simp: uniqueIds_def distinct_map dest: inj_onD)
  have "distinct (map al_name (ai_labels a))" if "a \<in> set (rs_items R)" for a using u that by (simp add: uniqueIds_def)
  then have labels: "distinct (map lb_name (is_labels i))" if "i \<in> set (listed c R)" for i
    using listed_in [OF that] by (auto simp: convertIssue_def convertLabel_def comp_def)
  have "distinct (map ap_id (limited c (rs_pulls R)))" using u by (simp add: uniqueIds_def limited_def take_map [symmetric])
  then have ids: "distinct (map pr_github_id (pullsReferring c now R (limited c (rs_pulls R)) n))" for n
    by (simp add: pullsReferring_def comp_def distinct_map_filter)
  have "distinct (map ac_id (concat (map (rs_comments R) (map is_number (listed c R)))))" using u d(2) by (simp only: uniqueIds_def)
  from distinct_concat_take [OF this]
  have comments: "distinct (map cm_id (concat (map is_comments (map (snapshotIssue c now R) (listed c R)))))"
    by (simp add: snapshotIssue_def commentsOf_def limited_def map_concat comp_def convertComment_def)
  have "distinct (map pr_github_id (sort_key pr_number (pullsReferring c now R (limited c (rs_pulls R)) n)))" for n
    using ids [of n] by (simp add: distinct_map)
  then have ids': "distinct (map pr_github_id (is_pulls (snapshotIssue c now R i)))" for i by (simp add: snapshotIssue_def)
  show ?thesis unfolding fetchable_def
  proof (intro conjI ballI impI)
    fix p q assume "p \<in> issuePulls (map (snapshotIssue c now R) (listed c R))" "q \<in> issuePulls (map (snapshotIssue c now R) (listed c R))"
      "pr_github_id p = pr_github_id q \<or> pr_number p = pr_number q"
    then show "p = q" using one pulls by (metis pullOf_keys)
  next
    fix i r assume "i \<in> set (map (snapshotIssue c now R) (listed c R))" "r \<in> set (gt_issues ts)" "is_number r = is_number i"
    with k show "is_github_id r = is_github_id i"
      by (auto simp: keys numbersKept_def convertIssue_def dest!: listed_in)
  next
    fix p r assume "p \<in> issuePulls (map (snapshotIssue c now R) (listed c R))" "r \<in> set (gt_pulls ts)" "pr_number r = pr_number p"
    with k show "pr_github_id r = pr_github_id p" by (auto simp: numbersKept_def dest!: pulls)
  qed (use d ids' labels comments in \<open>auto simp: keys comp_def\<close>)
qed

subsection \<open>Synchronized from GitHub\<close>

lemma syncFailed_Inl: "\<exists>e. snd (syncFailed env i m db) = Inl e"
  by (simp add: syncFailed_def split: prod.split option.split)

lemma sync_ok_client:
  assumes "SyncProject env i db w = (db', w', Inr s)" "GetProject i db = Inr p"
  shows "\<exists>snapshot. sn_client env (pj_owner p) (pj_repository p) = Inr snapshot"
proof (rule ccontr)
  assume "\<not> ?thesis"
  then obtain m where m: "sn_client env (pj_owner p) (pj_repository p) = Inl m" by (cases "sn_client env (pj_owner p) (pj_repository p)") auto
  obtain db1 e where 1: "MarkSyncStarted (sn_started env) i db = (db1, e)" by fastforce
  from assms 1 m syncFailed_Inl [of env i "''sync '' @ pj_owner p @ ''/'' @ pj_repository p @ '': '' @ m" db1]
  show False by (cases e) (auto simp: SyncProject_def Let_def case_prod_beta)
qed

lemma synced_issues:
  assumes reach: "supervisor_step\<^sup>*\<^sup>* emptyDB db" and p: "GetProject i db = Inr p" and arrange: "\<And>ps. mset (sn_arrange env ps) = mset ps"
    and client: "sn_client env = SnapshotOf api c now fetched" "0 < gc_items c"
    and R: "serves api (trimSpace (pj_owner p)) (trimSpace (pj_repository p)) R" "uniqueIds R" "numbersKept (sd_tables db i) R"
    and run: "SyncProject env i db w = (db', w', Inr s)"
  shows "ps_issues s = map storedIssue (sort_key is_number (map (snapshotIssue c now R) (listed c R)))"
proof -
  obtain snapshot where ok: "sn_client env (pj_owner p) (pj_repository p) = Inr snapshot" using sync_ok_client [OF run p] by blast
  then have "trimSpace (pj_owner p) \<noteq> []" "trimSpace (pj_repository p) \<noteq> []" by (auto simp: client(1) SnapshotOf_def)
  from SnapshotOf_served [OF R(1) this client(2) listed_distinct(2) [OF R(2)]] ok
  have issues: "rp_issues snapshot = map (snapshotIssue c now R) (listed c R)" by (auto simp: client(1))
  have "tablesInv (sd_tables db i)"
    using supervisor_run_inv [OF reach emptyDB_inv] by (simp add: supervisorInv_def)
  moreover have "fetchable (sd_tables db i) (rp_issues snapshot)" unfolding issues by (rule snapshot_fetchable [OF R(2,3)])
  ultimately show ?thesis
    by (rule sync_cases [OF p _ arrange ok, of w]) (use run issues in \<open>auto split: option.split\<close>)
qed

lemma gate_pull:
  assumes u: "uniqueIds R" and i: "issue = storedIssue (snapshotIssue c now R i)"
    and gate: "openCandidates (is_pulls issue) = [cand]" "ciSucceeded (cd_ci cand)"
  obtains pull where "pull \<in> set (limited c (rs_pulls R))" "refersTo pull (is_number issue)" "equalFold (ap_state pull) ''open''"
    "cd_head_sha cand = ap_sha pull" "ciSucceeded (checksOf c (now pull) R (ap_sha pull))"
    "\<And>q. q \<in> set (limited c (rs_pulls R)) \<Longrightarrow> refersTo q (is_number issue) \<Longrightarrow> equalFold (ap_state q) ''open'' \<Longrightarrow> q = pull"
proof -
  have n: "is_number issue = is_number i" by (simp add: i storedIssue_def snapshotIssue_def)
  have pulls: "set (is_pulls issue) = (\<lambda>p. storedPull (pullOf c now R p)) ` {p \<in> set (limited c (rs_pulls R)). refersTo p (is_number issue)}"
    unfolding n by (auto simp: i storedIssue_def snapshotIssue_def pullsReferring_def)
  have stored: "pr_state (storedPull (pullOf c now R p)) = ap_state p" "pr_github_id (storedPull (pullOf c now R p)) = ap_id p"
    "pr_head_sha (storedPull (pullOf c now R p)) = ap_sha p" "ciSucceeded (pr_ci (storedPull (pullOf c now R p))) =
      ciSucceeded (checksOf c (now p) R (ap_sha p))" for p
    by (simp_all add: storedPull_def storedCI_def pullOf_def convertPull_def ciSucceeded_def)
  have cands: "{cand} = candidateFromSnapshot ` {q \<in> set (is_pulls issue). equalFold (pr_state q) ''open''}"
    using openCandidates_set [of "is_pulls issue"] gate(1) by simp
  then obtain q where q: "q \<in> set (is_pulls issue)" "equalFold (pr_state q) ''open''" "cand = candidateFromSnapshot q" by blast
  then obtain pull where pull: "pull \<in> set (limited c (rs_pulls R))" "refersTo pull (is_number issue)" "q = storedPull (pullOf c now R pull)"
    unfolding pulls by blast
  have one: "r = pull" if r: "r \<in> set (limited c (rs_pulls R))" "refersTo r (is_number issue)" "equalFold (ap_state r) ''open''" for r
  proof -
    have "candidateFromSnapshot (storedPull (pullOf c now R r)) \<in> {cand}"
      unfolding cands pulls using r by (auto simp: stored)
    then have "ap_id r = ap_id pull" using q(3) pull(3) by (simp add: candidateFromSnapshot_def stored)
    then show ?thesis using u limited_in [OF r(1)] limited_in [OF pull(1)] by (auto simp: uniqueIds_def distinct_map dest: inj_onD)
  qed
  show thesis
    by (rule that [OF pull(1,2)]) (use q(2,3) gate(2) pull(3) one in \<open>simp_all add: candidateFromSnapshot_def stored\<close>)
qed

text \<open>C37. The pages make the repository. Read through the interface that serves it in pages of a
  hundred, a repository becomes this snapshot: its first Issues that are not pull requests, each
  with its first comments and with the pull requests, by number, whose title or body names it, and
  every pull request with the state of the checks of its Head.\<close>

theorem snapshot_from_pages:
  assumes "serves api (trimSpace owner) (trimSpace repository) R" "trimSpace owner \<noteq> []" "trimSpace repository \<noteq> []"
    and "0 < gc_items c" and "distinct (map ai_number (rs_items R))"
  shows "SnapshotOf api c now fetched owner repository =
    Inr \<lparr>rp_fetched = fetched, rp_issues = map (snapshotIssue c now R) (listed c R)\<rparr>"
proof -
  have "distinct (map is_number (listed c R))"
    using assms(5) by (simp add: listed_def take_map [symmetric] comp_def convertIssue_def distinct_map_filter)
  from SnapshotOf_served [OF assms(1-4) this] show ?thesis .
qed

text \<open>C2. The merge gate and GitHub. If a project was just synchronized with a repository and the
  derivation opens the merge gate for one of its Issues, then among the pull requests that were
  read exactly one open one names the Issue, the gate expects its Head, and every check run of that
  Head that was read has completed with success or an unknown conclusion; without check runs the
  combined status of the Head is success.\<close>

theorem merge_gate_on_github:
  assumes "supervisor_step\<^sup>*\<^sup>* emptyDB db" "GetProject i db = Inr p" "\<And>ps. mset (sn_arrange env ps) = mset ps"
    and "sn_client env = SnapshotOf api c now fetched" "0 < gc_items c"
    and "serves api (trimSpace (pj_owner p)) (trimSpace (pj_repository p)) R" "uniqueIds R" "numbersKept (sd_tables db i) R"
    and "SyncProject env i db w = (db', w', Inr s)" "issue \<in> set (ps_issues s)"
    and "rt_action (wu_route (deriveWorkUnit project mode issue external command)) = ''merge_gate''"
  shows "\<exists>pull \<in> set (limited c (rs_pulls R)). refersTo pull (is_number issue) \<and> equalFold (ap_state pull) ''open'' \<and>
    (\<forall>q \<in> set (limited c (rs_pulls R)). refersTo q (is_number issue) \<and> equalFold (ap_state q) ''open'' \<longrightarrow> q = pull) \<and>
    rt_expected_head (wu_route (deriveWorkUnit project mode issue external command)) = ap_sha pull \<and>
    list_all checkPassed (limited c (rs_checks R (ap_sha pull))) \<and>
    (limited c (rs_checks R (ap_sha pull)) = [] \<longrightarrow> normalizeToken (cb_state (rs_status R (ap_sha pull))) = ''success'')"
proof -
  from merge_gate_unit [OF assms(11)] obtain cand where cand: "openCandidates (is_pulls issue) = [cand]" "ciSucceeded (cd_ci cand)"
    "rt_expected_head (wu_route (deriveWorkUnit project mode issue external command)) = cd_head_sha cand" by (elim conjE exE)
  obtain i where "issue = storedIssue (snapshotIssue c now R i)"
    using assms(10) unfolding synced_issues [OF assms(1-9)] by auto
  from gate_pull [OF assms(7) this cand(1,2)] obtain pull where pull: "pull \<in> set (limited c (rs_pulls R))"
    "refersTo pull (is_number issue)" "equalFold (ap_state pull) ''open''" "cd_head_sha cand = ap_sha pull"
    "ciSucceeded (checksOf c (now pull) R (ap_sha pull))"
    "\<And>q. q \<in> set (limited c (rs_pulls R)) \<Longrightarrow> refersTo q (is_number issue) \<Longrightarrow> equalFold (ap_state q) ''open'' \<Longrightarrow> q = pull" by metis
  have checks: "list_all checkPassed (limited c (rs_checks R (ap_sha pull)))"
    "limited c (rs_checks R (ap_sha pull)) = [] \<longrightarrow> normalizeToken (cb_state (rs_status R (ap_sha pull))) = ''success''"
    using pull(5) unfolding checksOf_success by (auto split: if_splits)
  show ?thesis by (intro bexI [OF _ pull(1)] conjI ballI impI pull(2,3) checks) (use pull(4,6) cand(3) in auto)
qed

subsection \<open>An example\<close>

lemma pagesOf_one:
  assumes "get 1 = Inr xs" "length xs \<le> 100" "\<And>k. 1 < k \<Longrightarrow> get k = Inr []"
  shows "pagesOf get xs"
  unfolding pagesOf_def
proof
  fix k show "get (int k + 1) = Inr (take 100 (drop (100 * k) xs))" using assms by (cases k) simp_all
qed

text \<open>The paths of different pages and of the comments of different Issues differ.\<close>

lemma pageOf_comments:
  "pageOf (commentsPath owner repository n) k = repoPath owner repository @ ''/issues/'' @ showInt n @ ''/comments?per_page=100&page='' @ showInt k"
proof -
  have "commentsPath owner repository n = (repoPath owner repository @ ''/issues/'' @ showInt n @ ''/comments'') @ ''?'' @ ''per_page=100''"
    by (simp add: commentsPath_def)
  then have "containsStr (commentsPath owner repository n) ''?''" unfolding containsStr_iff by blast
  then show ?thesis by (simp add: pageOf_def commentsPath_def)
qed

lemma pageOf_pulls:
  "pageOf (pullsPath owner repository) k = repoPath owner repository @ ''/pulls?state=all&sort=updated&direction=desc&per_page=100&page='' @ showInt k"
proof -
  have "pullsPath owner repository = (repoPath owner repository @ ''/pulls'') @ ''?'' @ ''state=all&sort=updated&direction=desc&per_page=100''"
    by (simp add: pullsPath_def)
  then have "containsStr (pullsPath owner repository) ''?''" unfolding containsStr_iff by blast
  then show ?thesis by (simp add: pageOf_def pullsPath_def)
qed

lemma showInt_before_slash: "showInt n @ CHR ''/'' # s = showInt m @ CHR ''/'' # t \<longleftrightarrow> n = m \<and> s = t"
proof -
  have no: "takeWhile (\<lambda>c. c \<noteq> CHR ''/'') (showInt k @ CHR ''/'' # u) = showInt k" for k u
  proof -
    have "digitVal CHR ''/'' = None" by code_simp
    then have "\<forall>c \<in> set (showInt k). c \<noteq> CHR ''/''" using showInt_digits by fastforce
    then show ?thesis by (simp add: takeWhile_append2)
  qed
  show ?thesis using no [of n s] no [of m t] by (metis append_same_eq list.inject same_append_eq showInt_inject)
qed

lemma comment_paths:
  "pageOf (commentsPath owner repository n) j = pageOf (commentsPath owner repository m) k \<longleftrightarrow> n = m \<and> j = k"
  unfolding pageOf_comments by (simp add: showInt_before_slash)

definition demoItem :: apiIssue where
  "demoItem = \<lparr>ai_id = 9, ai_number = 3, ai_title = ''t'', ai_body = [], ai_state = ''open'', ai_url = ''u'', ai_user = ''a'',
     ai_created = 1, ai_updated = 2, ai_labels = [], ai_pull = ''null''\<rparr>"

definition demoComment :: "int \<Rightarrow> apiComment" where
  "demoComment i = \<lparr>ac_id = i, ac_body = ''x'', ac_url = [], ac_user = ''a'', ac_created = 1, ac_updated = 5\<rparr>"

definition demoPull :: apiPullRequest where
  "demoPull = \<lparr>ap_id = 70, ap_number = 7, ap_title = ''fixes #3'', ap_body = [], ap_state = ''open'', ap_draft = False, ap_url = ''u'',
     ap_updated = 5, ap_base = ''main'', ap_head = ''f'', ap_sha = ''abc''\<rparr>"

definition demoRepository :: Repository where
  "demoRepository = \<lparr>rs_items = [demoItem], rs_comments = (\<lambda>n. if n = 3 then [demoComment 1, demoComment 2] else []), rs_pulls = [demoPull],
     rs_mergeable = (\<lambda>_. ''clean''), rs_checks = (\<lambda>_. []), rs_status = (\<lambda>_. \<lparr>cb_state = ''success'', cb_statuses = []\<rparr>)\<rparr>"

definition demoApi :: GithubApi where
  "demoApi = \<lparr>ga_issues = (\<lambda>path. Inr (if path = issuesPath ''acme'' ''app'' @ ''&page=1'' then [demoItem] else [])),
     ga_comments = (\<lambda>path. Inr (if path = pageOf (commentsPath ''acme'' ''app'' 3) 1 then [demoComment 1, demoComment 2] else [])),
     ga_pulls = (\<lambda>path. Inr (if path = pageOf (pullsPath ''acme'' ''app'') 1 then [demoPull] else [])),
     ga_mergeable = (\<lambda>_. Inr ''clean''), ga_checks = (\<lambda>_. Inr []), ga_status = (\<lambda>_. Inr \<lparr>cb_state = ''success'', cb_statuses = []\<rparr>)\<rparr>"

lemma showInt_1: "showInt k = ''1'' \<longleftrightarrow> k = 1"
proof -
  have "showInt 1 = ''1''" by code_simp
  then show ?thesis using showInt_inject [of k 1] by simp
qed

lemma demo_serves: "serves demoApi ''acme'' ''app'' demoRepository"
  unfolding serves_def
proof (intro conjI allI)
  show "pagesOf (\<lambda>page. ga_issues demoApi (issuesPath ''acme'' ''app'' @ ''&page='' @ showInt page)) (rs_items demoRepository)"
    by (rule pagesOf_one) (simp_all add: demoApi_def demoRepository_def showInt_1)
  show "pagesOf (\<lambda>page. ga_pulls demoApi (pageOf (pullsPath ''acme'' ''app'') page)) (rs_pulls demoRepository)"
    by (rule pagesOf_one) (simp_all add: demoApi_def demoRepository_def pageOf_pulls)
  show "pagesOf (\<lambda>page. ga_comments demoApi (pageOf (commentsPath ''acme'' ''app'' n) page)) (rs_comments demoRepository n)" for n
    by (rule pagesOf_one) (simp_all add: demoApi_def demoRepository_def comment_paths)
  show "pagesOf (\<lambda>page. ga_checks demoApi (checksPath ''acme'' ''app'' sha page)) (rs_checks demoRepository sha)" for sha
    by (rule pagesOf_one) (simp_all add: demoApi_def demoRepository_def)
qed (simp_all add: demoApi_def demoRepository_def)

theorem snapshot_from_pages_witness:
  "SnapshotOf demoApi (newClient 0 0) (\<lambda>_. 50) 60 ''acme'' ''app'' =
     Inr \<lparr>rp_fetched = 60, rp_issues = map (snapshotIssue (newClient 0 0) (\<lambda>_. 50) demoRepository) (listed (newClient 0 0) demoRepository)\<rparr> \<and>
   map is_number (listed (newClient 0 0) demoRepository) = [3]"
proof
  show "map is_number (listed (newClient 0 0) demoRepository) = [3]"
    by (simp add: listed_def newClient_def demoRepository_def demoItem_def isPullItem_def convertIssue_def)
qed (rule snapshot_from_pages, simp_all add: demo_texts demo_serves, simp_all add: newClient_def demoRepository_def)

definition demoGithub :: "unit SyncEnv" where
  "demoGithub = demoEnv\<lparr>sn_client := SnapshotOf demoApi (newClient 0 0) (\<lambda>_. 50) 60\<rparr>"

definition gateIssue :: Issue where
  "gateIssue = \<lparr>is_github_id = 9, is_number = 3, is_title = ''t'', is_body = [], is_state = ''open'', is_url = ''u'', is_author = ''a'',
     is_created = 1, is_updated = 2, is_labels = [], is_comments = map convertComment [demoComment 1, demoComment 2],
     is_pulls = [storedPull (pullOf (newClient 0 0) (\<lambda>_. 50) demoRepository demoPull)]\<rparr>"

lemma demo_refers: "referencedIssueNumbers (ap_title demoPull @ newline @ ap_body demoPull) = [3]"
proof -
  have t: "ap_title demoPull @ newline @ ap_body demoPull = ''fixes #3'' @ [CHR 0x0A]" by (simp add: demoPull_def newline_def)
  have "referencesFrom ''#'' (''fixes #3'' @ [CHR 0x0A]) = [''3'']" "referencesFrom ''/issues/'' (''fixes #3'' @ [CHR 0x0A]) = []"
    by (simp_all add: isDigit_def)
  moreover have "parseInt64 ''3'' = Some 3" by code_simp
  ultimately show ?thesis unfolding referencedIssueNumbers_def t by (simp add: List.map_filter_simps)
qed

lemma demo_issues:
  "map storedIssue (sort_key is_number (map (snapshotIssue (newClient 0 0) (\<lambda>_. 50) demoRepository) (listed (newClient 0 0) demoRepository))) = [gateIssue]"
proof -
  have "refersTo demoPull 3" by (simp add: refersTo_def demo_refers)
  then show ?thesis
    by (simp add: listed_def newClient_def demoRepository_def demoItem_def isPullItem_def convertIssue_def snapshotIssue_def storedIssue_def
        commentsOf_def limited_def pullsReferring_def gateIssue_def demoComment_def convertComment_def storedComment_def storedTime_def)
qed

lemma gate_opens: "rt_action (wu_route (deriveWorkUnit sampleProject ''standard'' gateIssue mergeExternal None)) = ''merge_gate''"
  by code_simp

lemma demo_unique: "uniqueIds demoRepository" "numbersKept (sd_tables demoDB 1) demoRepository"
proof -
  have "distinct (map ac_id (concat (map (rs_comments demoRepository) ns)))" if "distinct ns" for ns
  proof (cases "3 \<in> set ns")
    case True
    then obtain as bs where ns: "ns = as @ 3 # bs" by (meson split_list)
    have none: "concat (map (rs_comments demoRepository) ks) = []" if "3 \<notin> set ks" for ks
      using that by (auto simp: demoRepository_def)
    show ?thesis using that unfolding ns by (simp add: none) (simp add: demoRepository_def demoComment_def)
  next
    case False
    then have "concat (map (rs_comments demoRepository) ns) = []" by (auto simp: demoRepository_def)
    then show ?thesis by (simp del: concat_eq_Nil_conv)
  qed
  then show "uniqueIds demoRepository" by (simp add: uniqueIds_def) (simp add: demoRepository_def demoItem_def)
  show "numbersKept (sd_tables demoDB 1) demoRepository" by (simp add: numbersKept_def demoDB_eq emptyTables_def)
qed

lemma demo_github: "demoGithub = demoEnv\<lparr>sn_client := SnapshotOf demoApi (newClient 0 0) (\<lambda>_. 50) 60\<rparr>"
    "sn_client demoGithub = SnapshotOf demoApi (newClient 0 0) (\<lambda>_. 50) 60" "mset (sn_arrange demoGithub ps) = mset ps"
    "sn_observer demoGithub = None"
  by (simp_all add: demoGithub_def demoEnv_def)

lemma demo_run:
  obtains p db' w' s where "GetProject 1 demoDB = Inr p" "pj_owner p = ''acme''" "pj_repository p = ''app''"
    "SyncProject demoGithub 1 demoDB () = (db', w', Inr s)"
proof -
  obtain p where p: "GetProject 1 demoDB = Inr p" "pj_owner p = ''acme''" "pj_repository p = ''app''"
    by (simp add: demoDB_eq GetProject_def row_get_def)
  have "serves demoApi (trimSpace (pj_owner p)) (trimSpace (pj_repository p)) demoRepository" using p(2,3) demo_texts demo_serves by simp
  from SnapshotOf_served [OF this _ _ _ listed_distinct(2) [OF demo_unique(1)], of "newClient 0 0" "\<lambda>_. 50" 60]
  have ok: "sn_client demoGithub (pj_owner p) (pj_repository p) = Inr \<lparr>rp_fetched = 60,
      rp_issues = map (snapshotIssue (newClient 0 0) (\<lambda>_. 50) demoRepository) (listed (newClient 0 0) demoRepository)\<rparr>"
    using p(2,3) by (simp add: demo_github(2) demo_texts newClient_def)
  have inv: "tablesInv (sd_tables demoDB 1)" by (simp add: demoDB_eq)
  show thesis
  proof (rule sync_cases [OF p(1) inv demo_github(3) ok, of "()"])
    fix s m assume "observed demoGithub s () = (fst (snd (SyncProject demoGithub 1 demoDB ())), m)"
      "m = None \<Longrightarrow> snd (snd (SyncProject demoGithub 1 demoDB ())) = Inr s \<and> ReadProjectSnapshot 1 (fst (SyncProject demoGithub 1 demoDB ())) = Inr s"
    then have "SyncProject demoGithub 1 demoDB () = (fst (SyncProject demoGithub 1 demoDB ()), fst (snd (SyncProject demoGithub 1 demoDB ())), Inr s)"
      by (simp add: observed_def demo_github(4) prod_eq_iff)
    then show thesis by (rule that [OF p])
  qed (simp add: snapshot_fetchable [OF demo_unique])
qed

theorem merge_gate_on_github_witness:
  "rt_expected_head (wu_route (deriveWorkUnit sampleProject ''standard'' gateIssue mergeExternal None)) = ''abc'' \<and>
   normalizeToken (cb_state (rs_status demoRepository ''abc'')) = ''success''"
proof -
  obtain p db' w' s where run: "GetProject 1 demoDB = Inr p" "pj_owner p = ''acme''" "pj_repository p = ''app''"
    "SyncProject demoGithub 1 demoDB () = (db', w', Inr s)" by (rule demo_run)
  have serves: "serves demoApi (trimSpace (pj_owner p)) (trimSpace (pj_repository p)) demoRepository" using run(2,3) demo_texts demo_serves by simp
  have items: "0 < gc_items (newClient 0 0)" by (simp add: newClient_def)
  have "gateIssue \<in> set (ps_issues s)"
    unfolding synced_issues [OF demoDB_run run(1) demo_github(3,2) items serves demo_unique run(4)] demo_issues by simp
  from merge_gate_on_github [OF demoDB_run run(1) demo_github(3,2) items serves demo_unique run(4) this gate_opens]
  obtain pull where pull: "pull \<in> set (limited (newClient 0 0) (rs_pulls demoRepository))"
    "rt_expected_head (wu_route (deriveWorkUnit sampleProject ''standard'' gateIssue mergeExternal None)) = ap_sha pull"
    "limited (newClient 0 0) (rs_checks demoRepository (ap_sha pull)) = [] \<longrightarrow>
       normalizeToken (cb_state (rs_status demoRepository (ap_sha pull))) = ''success''" by blast
  from limited_in [OF pull(1)] have "ap_sha pull = ''abc''" by (simp add: demoRepository_def demoPull_def)
  moreover have "limited (newClient 0 0) (rs_checks demoRepository ''abc'') = []" by (simp add: limited_def demoRepository_def)
  ultimately show ?thesis using pull(2,3) by (simp only: simp_thms)
qed

end
