(* ===== verification/Projection.thy ===== *)
theory Projection
  imports Coordinator Binding_Machine Supervisor_Store Workspace
begin

text \<open>
  \<open>workerloop/projection.go\<close>: the execution profile of a project, the view of a work unit with its
  command, delivery, result and bindings, and the readiness of a unit for a pilot. The service
  reads the tables of the other components; the health of the planner is an argument, and so are
  the random ids and the time to live of the bindings. Health of the planner: \<open>planning/types.go\<close>.
\<close>

record ExecutionProfile =
  ep_project :: int
  ep_resource :: string
  ep_methodology :: string
  ep_protocol :: string
  ep_delivery :: string
  ep_qa :: string
  ep_auto_merge :: bool
  ep_updated :: gotime

record DeliveryEvidence =
  de_command :: string
  de_status :: string
  de_binding :: string
  de_version :: int
  de_worker :: string
  de_role :: string
  de_lane :: string
  de_reason :: string

record ResultEvidenceView =
  rv_comment :: int
  rv_role :: string
  rv_result :: string
  rv_status :: string
  rv_reason :: string
  rv_accepted :: "gotime option"

record RoleBinding =
  rb_role :: string
  rb_lane :: string
  rb_binding :: "Binding option"

record WorkUnitExecution =
  wx_project :: int
  wx_issue :: int
  wx_profile :: ExecutionProfile
  wx_command :: "WorkflowCommand option"
  wx_delivery :: "DeliveryEvidence option"
  wx_delivery_status :: string
  wx_execution_status :: string
  wx_result :: "ResultEvidenceView option"
  wx_validation_status :: string
  wx_bindings :: "RoleBinding list"
  wx_next :: string

record ReadinessCheck =
  ck_code :: string
  ck_ready :: bool
  ck_status :: string
  ck_detail :: string

record PilotReadiness =
  pl_project :: int
  pl_issue :: int
  pl_ready :: bool
  pl_status :: string
  pl_digest :: string
  pl_profile :: ExecutionProfile
  pl_checks :: "ReadinessCheck list"
  pl_warnings :: "Warning list"

record Health =
  he_enabled :: bool
  he_status :: string
  he_runtime :: string
  he_endpoint :: string
  he_provider :: string
  he_model :: string
  he_agent :: string
  he_error :: string

text \<open>The tables the service reads, and the profiles, which only it writes.\<close>

record ProjectionState =
  jn_supervisor :: SupervisorDB
  jn_coordinator :: CoordState
  jn_bindings :: Bindings
  jn_profiles :: "ExecutionProfile list"

record ProjectionEnv =
  je_fresh :: "nat \<Rightarrow> string"
  je_ttl :: int
  je_now :: gotime
  je_resources :: Package
  je_health :: Health

datatype projection_error = FromSupervisor supervisor_error | FromBindings binding_error | ProjectionError string

subsection \<open>Profiles\<close>

definition defaultProfile :: "gotime \<Rightarrow> int \<Rightarrow> ExecutionProfile" where
  "defaultProfile now projectID =
     \<lparr>ep_project = projectID, ep_resource = DefaultProfile, ep_methodology = ''cddm-minimal/v2.0'',
      ep_protocol = ''cddm-worker-result/v1'', ep_delivery = ''reviewed'', ep_qa = ''manual_fresh_binding'',
      ep_auto_merge = False, ep_updated = now\<rparr>"

definition readProfile :: "int \<Rightarrow> ProjectionState \<Rightarrow> projection_error + ExecutionProfile" where
  "readProfile projectID st =
     (case row_get ep_project projectID (jn_profiles st) of
        None \<Rightarrow> Inl (ProjectionError ''sql: no rows in result set'') | Some p \<Rightarrow> Inr p)"

definition Profile :: "gotime \<Rightarrow> int \<Rightarrow> ProjectionState \<Rightarrow> ProjectionState \<times> (projection_error + ExecutionProfile)" where
  "Profile now projectID st =
     (case GetProject projectID (jn_supervisor st) of
        Inl e \<Rightarrow> (st, Inl (FromSupervisor e))
      | Inr _ \<Rightarrow>
          (let st1 = (if row_get ep_project projectID (jn_profiles st) = None
                      then st\<lparr>jn_profiles := jn_profiles st @ [defaultProfile now projectID]\<rparr> else st)
           in (st1, readProfile projectID st1)))"

definition trimProfile :: "ExecutionProfile \<Rightarrow> ExecutionProfile" where
  "trimProfile p = p\<lparr>ep_resource := trimSpace (ep_resource p), ep_methodology := trimSpace (ep_methodology p),
     ep_protocol := trimSpace (ep_protocol p), ep_delivery := trimSpace (ep_delivery p), ep_qa := trimSpace (ep_qa p)\<rparr>"

definition UpdateProfile :: "gotime \<Rightarrow> ExecutionProfile \<Rightarrow> ProjectionState \<Rightarrow> ProjectionState \<times> (projection_error + ExecutionProfile)" where
  "UpdateProfile now profile0 st =
     (let p = trimProfile profile0 in
      if ep_project p \<le> 0 \<or> ep_resource p \<noteq> DefaultProfile \<or> ep_methodology p \<noteq> ''cddm-minimal/v2.0''
         \<or> ep_protocol p \<noteq> ''cddm-worker-result/v1''
      then (st, Inl (ProjectionError ''unsupported execution profile identity''))
      else if ep_delivery p \<noteq> ''reviewed'' \<and> ep_delivery p \<noteq> ''auto''
      then (st, Inl (ProjectionError ''delivery mode must be reviewed or auto''))
      else if ep_qa p \<noteq> ''manual_fresh_binding'' \<or> ep_auto_merge p
      then (st, Inl (ProjectionError ''qa_session_mode must be manual_fresh_binding and auto_merge must remain false''))
      else (case Profile now (ep_project p) st of
              (st1, Inl e) \<Rightarrow> (st1, Inl e)
            | (st1, Inr _) \<Rightarrow>
                (let st2 = st1\<lparr>jn_profiles := row_update (\<lambda>r. ep_project r = ep_project p)
                       (\<lambda>r. r\<lparr>ep_resource := ep_resource p, ep_methodology := ep_methodology p, ep_protocol := ep_protocol p,
                              ep_delivery := ep_delivery p, ep_qa := ep_qa p, ep_auto_merge := False, ep_updated := now\<rparr>)
                       (jn_profiles st1)\<rparr>
                 in (st2, readProfile (ep_project p) st2))))"

subsection \<open>A work unit\<close>

definition LogicalLane :: "Project \<Rightarrow> int \<Rightarrow> string \<Rightarrow> string" where
  "LogicalLane p issueNumber role =
     toLower (pj_owner p) @ ''/'' @ toLower (pj_repository p) @ ''#'' @ showInt issueNumber @ '':'' @ toLower (trimSpace role)"

definition ValidRole :: "string \<Rightarrow> bool" where
  "ValidRole role = (role = ''lead'' \<or> role = ''implementor'' \<or> role = ''qa'')"

fun projectionStep :: "WorkflowCommand option \<Rightarrow> WorkflowCommand \<Rightarrow> WorkflowCommand option" where
  "projectionStep None c = Some c"
| "projectionStep (Some latest) c =
     (if activeCommandStatus (wc_status c) \<or> \<not> activeCommandStatus (wc_status latest) then Some c else Some latest)"

definition currentProjectionCommand :: "WorkflowCommand list \<Rightarrow> WorkflowCommand option" where
  "currentProjectionCommand commands = foldl projectionStep None commands"

definition nextActionForCommand :: "string \<Rightarrow> string" where
  "nextActionForCommand status =
     (if status = ''created'' \<or> status = ''delivery_pending'' then ''deliver_prompt''
      else if status = ''awaiting_result'' then ''await_github_worker_result''
      else if status = ''ambiguous'' \<or> status = ''failed'' then ''lead_manual_attention''
      else ''derive_current_route'')"

definition deliveryForCommand :: "string \<Rightarrow> CoordState \<Rightarrow> DeliveryEvidence option" where
  "deliveryForCommand commandID0 st =
     Option.bind (row_get lk_workflow commandID0 (cd_links st)) (\<lambda>l.
       map_option (\<lambda>d. \<lparr>de_command = dc_id d, de_status = dc_status d, de_binding = dc_binding d, de_version = dc_version d,
           de_worker = dc_worker d, de_role = dc_role d, de_lane = dc_lane d, de_reason = dc_reason d\<rparr>)
         (row_get dc_id (lk_delivery l) (cd_deliveries st)))"

fun roleBindings :: "ProjectionEnv \<Rightarrow> Project \<Rightarrow> int \<Rightarrow> string list \<Rightarrow> Bindings \<Rightarrow> Bindings \<times> (projection_error + RoleBinding list)" where
  "roleBindings env p issueNumber [] st = (st, Inr [])"
| "roleBindings env p issueNumber (role # roles) st =
     (let lane = LogicalLane p issueNumber role in
      case GetBinding (je_fresh env) (je_ttl env) (je_now env) (pj_id p) lane st of
        (st1, Inl e) \<Rightarrow>
          if e = BindingNotFound
          then (case roleBindings env p issueNumber roles st1 of
                  (st2, r) \<Rightarrow> (st2, map_sum id (\<lambda>rs. \<lparr>rb_role = role, rb_lane = lane, rb_binding = None\<rparr> # rs) r))
          else (st1, Inl (FromBindings e))
      | (st1, Inr b) \<Rightarrow>
          (case roleBindings env p issueNumber roles st1 of
             (st2, r) \<Rightarrow> (st2, map_sum id (\<lambda>rs. \<lparr>rb_role = role, rb_lane = lane, rb_binding = Some b\<rparr> # rs) r)))"

definition resultView :: "WorkerResult \<Rightarrow> ResultEvidenceView" where
  "resultView r = \<lparr>rv_comment = wr_comment r, rv_role = wr_role r, rv_result = wr_result r, rv_status = wr_status r,
     rv_reason = wr_reason r, rv_accepted = wr_accepted r\<rparr>"

definition withCommand :: "int \<Rightarrow> CoordState \<Rightarrow> WorkflowCommand \<Rightarrow> WorkUnitExecution \<Rightarrow> WorkUnitExecution" where
  "withCommand projectID st current view0 =
     (let view1 = view0\<lparr>wx_command := Some current, wx_execution_status := wc_status current,
            wx_next := nextActionForCommand (wc_status current)\<rparr>;
          view2 = (case deliveryForCommand (wc_id current) st of
                     None \<Rightarrow> view1 | Some d \<Rightarrow> view1\<lparr>wx_delivery := Some d, wx_delivery_status := de_status d\<rparr>);
          results = ResultsForCommand projectID (wc_id current) (cd_loop st)
      in if results = [] then view2
         else view2\<lparr>wx_result := Some (resultView (List.last results)), wx_validation_status := wr_status (List.last results)\<rparr>)"

definition WorkUnitView :: "ProjectionEnv \<Rightarrow> int \<Rightarrow> int \<Rightarrow> ProjectionState \<Rightarrow> ProjectionState \<times> (projection_error + WorkUnitExecution)" where
  "WorkUnitView env projectID issueNumber st =
     (case GetProject projectID (jn_supervisor st) of
        Inl e \<Rightarrow> (st, Inl (FromSupervisor e))
      | Inr p \<Rightarrow>
          (case Profile (je_now env) projectID st of
             (st1, Inl e) \<Rightarrow> (st1, Inl e)
           | (st1, Inr profile) \<Rightarrow>
               (let current = currentProjectionCommand (ListCommands projectID issueNumber (cd_loop (jn_coordinator st1)))
                in case roleBindings env p issueNumber [''lead'', ''implementor'', ''qa''] (jn_bindings st1) of
                     (bindings, Inl e) \<Rightarrow> (st1\<lparr>jn_bindings := bindings\<rparr>, Inl e)
                   | (bindings, Inr roles) \<Rightarrow>
                       (let view = \<lparr>wx_project = projectID, wx_issue = issueNumber, wx_profile = profile, wx_command = None,
                              wx_delivery = None, wx_delivery_status = ''not_created'', wx_execution_status = ''not_created'',
                              wx_result = None, wx_validation_status = ''not_observed'', wx_bindings = roles,
                              wx_next = ''derive_current_route''\<rparr>
                        in (st1\<lparr>jn_bindings := bindings\<rparr>,
                            Inr (case current of None \<Rightarrow> view | Some c \<Rightarrow> withCommand projectID (jn_coordinator st1) c view))))))"

subsection \<open>Readiness\<close>

definition roleReady :: "RoleBinding list \<Rightarrow> string \<Rightarrow> bool" where
  "roleReady bindings role =
     (case find (\<lambda>item. rb_role item = role) bindings of
        Some item \<Rightarrow> (case rb_binding item of Some b \<Rightarrow> bi_enabled b \<and> bi_readiness b = ''ready'' | None \<Rightarrow> False)
      | None \<Rightarrow> False)"

definition roleStatus :: "RoleBinding list \<Rightarrow> string \<Rightarrow> string" where
  "roleStatus bindings role =
     (case find (\<lambda>item. rb_role item = role) bindings of
        Some item \<Rightarrow> (case rb_binding item of None \<Rightarrow> ''unbound'' | Some b \<Rightarrow> bi_readiness b)
      | None \<Rightarrow> ''unbound'')"

definition hasLiveWorker :: "RoleBinding list \<Rightarrow> bool" where
  "hasLiveWorker bindings =
     list_ex (\<lambda>item. case rb_binding item of None \<Rightarrow> False | Some b \<Rightarrow> bi_readiness b = ''ready'') bindings"

definition bindingStatus :: "RoleBinding list \<Rightarrow> string" where
  "bindingStatus bindings = (if hasLiveWorker bindings then ''connected'' else ''unavailable'')"

definition readinessCheck :: "string \<Rightarrow> bool \<Rightarrow> string \<Rightarrow> string \<Rightarrow> ReadinessCheck" where
  "readinessCheck code ready status detail = \<lparr>ck_code = code, ck_ready = ready, ck_status = status, ck_detail = detail\<rparr>"

definition readinessChecks :: "ProjectionEnv \<Rightarrow> Project \<Rightarrow> WorkUnitState \<Rightarrow> WorkUnitExecution \<Rightarrow> ReadinessCheck list" where
  "readinessChecks env p workUnit execution =
     (let profile = wx_profile execution; roles = wx_bindings execution; health = je_health env; resources = je_resources env in
      [readinessCheck ''github_synchronization'' (pj_sync_status p = ''healthy'') (pj_sync_status p) (pj_sync_error p),
       readinessCheck ''resource_package'' (ep_resource profile = pk_profile resources \<and> pk_digest resources \<noteq> [])
         (ep_resource profile) (pk_digest resources),
       readinessCheck ''prompt_planner'' (he_status health = ''healthy'' \<or> he_status health = ''disabled'') (he_status health)
         ''deterministic fallback remains available when OpenCode is disabled'',
       readinessCheck ''browser_worker'' (hasLiveWorker roles) (bindingStatus roles) ''at least one bound browser worker must be live'',
       readinessCheck ''lead_lane'' (roleReady roles ''lead'') (roleStatus roles ''lead'') ''bind the Lead chat for this Work Unit'',
       readinessCheck ''implementor_lane'' (roleReady roles ''implementor'') (roleStatus roles ''implementor'')
         ''bind the Implementor chat for this Work Unit'',
       readinessCheck ''qa_mode'' (ep_qa profile = ''manual_fresh_binding'') (ep_qa profile)
         ''fresh QA chat is bound only when a QA command is ready'',
       readinessCheck ''ci_observable'' (cs_current (wu_candidate workUnit) = None \<or> ci_source (wu_ci workUnit) \<noteq> [])
         (ci_status (wu_ci workUnit)) (ci_source (wu_ci workUnit)),
       readinessCheck ''marker_parser'' True ''enabled'' ''cddm-worker-result/v1'',
       readinessCheck ''protocol_errors'' (length (wu_warnings workUnit) = 0) (showNat (length (wu_warnings workUnit)) @ '' warnings'')
         ''resolve protocol warnings before pilot execution'',
       readinessCheck ''auto_merge'' (\<not> ep_auto_merge profile) ''disabled'' ''merge requires explicit Lead authority''])"

definition Readiness :: "ProjectionEnv \<Rightarrow> int \<Rightarrow> int \<Rightarrow> ProjectionState \<Rightarrow> ProjectionState \<times> (projection_error + PilotReadiness)" where
  "Readiness env projectID issueNumber st =
     (case ReadProjectSnapshot projectID (jn_supervisor st) of
        Inl e \<Rightarrow> (st, Inl (FromSupervisor e))
      | Inr snapshot \<Rightarrow>
          (case FindWorkUnit (DeriveProject (cd_cache (jn_coordinator st)) snapshot) issueNumber of
             None \<Rightarrow> (st, Inl (ProjectionError ''work unit not found''))
           | Some workUnit \<Rightarrow>
               (case WorkUnitView env projectID issueNumber st of
                  (st1, Inl e) \<Rightarrow> (st1, Inl e)
                | (st1, Inr execution) \<Rightarrow>
                    (let checks = readinessChecks env (ps_project snapshot) workUnit execution;
                         ready = list_all ck_ready checks
                     in (st1, Inr \<lparr>pl_project = projectID, pl_issue = issueNumber, pl_ready = ready,
                           pl_status = (if ready then ''pilot_ready'' else ''not_ready''), pl_digest = pk_digest (je_resources env),
                           pl_profile = wx_profile execution, pl_checks = checks, pl_warnings = wu_warnings workUnit\<rparr>)))))"

end
