(* ===== verification/Projection_Facts.thy ===== *)
theory Projection_Facts
  imports Projection
begin

text \<open>
  What the readiness of a pilot is worth, and the profiles: what is stored is supported, and what is
  stored is read back.
\<close>

subsection \<open>Bindings\<close>

text \<open>The one live session a ready binding rests on.\<close>

definition shownBy :: "int \<Rightarrow> gotime \<Rightarrow> Binding \<Rightarrow> sessions \<Rightarrow> bool" where
  "shownBy ttl now b ss \<longleftrightarrow>
     (\<exists>v. sessionsOf (bi_worker b) ss = [v] \<and> now - se_seen v \<le> ttl \<and> \<not> se_conflict v \<and>
       sameTarget (se_target v) (Some (bi_target b)) \<and> bi_session b = se_id v \<and> bi_token b = se_token v)"

lemma shownBy_pruned:
  assumes "distinct (map fst ss)" "shownBy ttl now b ss"
  shows "shownBy ttl now b (prunedSessions ttl now ss)"
  using assms by (auto simp: shownBy_def sessionsOf_pruned flagged_def aliveAt_def)

lemma get_keeps:
  assumes "GetBinding fresh ttl now p lane st = (st1, r)" "bindingInv fresh st"
  shows "bindingInv fresh st1" "bd_rows st1 = bd_rows st" "shownBy ttl now b (bd_sessions st) \<Longrightarrow> shownBy ttl now b (bd_sessions st1)"
proof -
  have ses: "sessionsInv fresh (bd_drawn st) (bd_sessions st)" using assms(2) by (simp add: bindingInv_def)
  have "st1 = st \<or> st1 = st\<lparr>bd_sessions := prunedSessions ttl now (bd_sessions st)\<rparr>"
    using assms(1) by (auto simp: GetBinding_def project_def Let_def prune_inv [OF ses] split: option.splits prod.splits)
  moreover have "distinct (map fst (bd_sessions st))" using ses by (simp add: sessionsInv_def)
  ultimately show "bindingInv fresh st1" "bd_rows st1 = bd_rows st"
    "shownBy ttl now b (bd_sessions st) \<Longrightarrow> shownBy ttl now b (bd_sessions st1)"
    using assms(2) prunedSessions_inv [OF ses, of ttl now] by (elim disjE; simp add: bindingInv_def shownBy_pruned)+
qed

lemma get_ready:
  assumes "GetBinding fresh ttl now p lane st = (st1, Inr b)" "bindingInv fresh st"
  shows "laneOf b = (p, lane)" "bi_readiness b = ''ready'' \<Longrightarrow> bi_enabled b \<and> shownBy ttl now b (bd_sessions st1)"
  using ready_binding [OF assms] by (auto simp: shownBy_def)

text \<open>The bindings of the roles as they are when all were read.\<close>

definition roleBindingOk :: "ProjectionEnv \<Rightarrow> Project \<Rightarrow> int \<Rightarrow> Bindings \<Rightarrow> RoleBinding \<Rightarrow> bool" where
  "roleBindingOk env p n st item \<longleftrightarrow> rb_lane item = LogicalLane p n (rb_role item) \<and>
     (\<forall>b. rb_binding item = Some b \<longrightarrow> laneOf b = (pj_id p, rb_lane item) \<and>
        (bi_readiness b = ''ready'' \<longrightarrow> bi_enabled b \<and> shownBy (je_ttl env) (je_now env) b (bd_sessions st)))"

lemma roleBindings_keeps:
  assumes "roleBindings env p n roles st = (st', r)" "bindingInv (je_fresh env) st"
  shows "bindingInv (je_fresh env) st' \<and> (shownBy (je_ttl env) (je_now env) b (bd_sessions st) \<longrightarrow> shownBy (je_ttl env) (je_now env) b (bd_sessions st'))"
  using assms
proof (induction roles arbitrary: st st' r)
  case (Cons role roles)
  obtain st1 g where g: "GetBinding (je_fresh env) (je_ttl env) (je_now env) (pj_id p) (LogicalLane p n role) st = (st1, g)" by fastforce
  obtain st2 r2 where 2: "roleBindings env p n roles st1 = (st2, r2)" by fastforce
  note k = get_keeps [OF g Cons.prems(2)]
  from Cons.IH [OF 2 k(1)] k show ?case
    using Cons.prems(1) by (auto simp: Let_def g 2 split: sum.splits if_splits)
qed simp

lemma roleBindings_ok:
  assumes "roleBindings env p n roles st = (st', Inr items)" "bindingInv (je_fresh env) st"
  shows "map rb_role items = roles \<and> list_all (roleBindingOk env p n st') items"
  using assms
proof (induction roles arbitrary: st items)
  case (Cons role roles)
  let ?lane = "LogicalLane p n role"
  obtain st1 g where g: "GetBinding (je_fresh env) (je_ttl env) (je_now env) (pj_id p) ?lane st = (st1, g)" by fastforce
  obtain st2 r2 where 2: "roleBindings env p n roles st1 = (st2, r2)" by fastforce
  note k = get_keeps [OF g Cons.prems(2)]
  note later = roleBindings_keeps [OF 2 k(1)]
  have st2: "st2 = st'" and ok: "g \<noteq> Inl BindingNotFound \<longrightarrow> (\<exists>b. g = Inr b)"
    using Cons.prems(1) by (auto simp: Let_def g 2 split: sum.splits if_splits)
  obtain rest where r2: "r2 = Inr rest"
    using Cons.prems(1) by (cases r2) (auto simp: Let_def g 2 split: sum.splits if_splits)
  from Cons.IH [OF 2 [unfolded r2 st2] k(1)] have IH: "map rb_role rest = roles" "list_all (roleBindingOk env p n st') rest" by simp_all
  show ?case
  proof (cases g)
    case (Inl e)
    then have "items = \<lparr>rb_role = role, rb_lane = ?lane, rb_binding = None\<rparr> # rest"
      using Cons.prems(1) ok by (simp add: Let_def g 2 r2)
    moreover have "roleBindingOk env p n st' \<lparr>rb_role = role, rb_lane = ?lane, rb_binding = None\<rparr>" by (simp add: roleBindingOk_def)
    ultimately show ?thesis using IH by simp
  next
    case (Inr b)
    have "items = \<lparr>rb_role = role, rb_lane = ?lane, rb_binding = Some b\<rparr> # rest"
      using Cons.prems(1) by (simp add: Let_def g 2 r2 Inr)
    moreover have "roleBindingOk env p n st' \<lparr>rb_role = role, rb_lane = ?lane, rb_binding = Some b\<rparr>"
      using get_ready [OF g [unfolded Inr] Cons.prems(2)] later by (simp add: roleBindingOk_def st2)
    ultimately show ?thesis using IH by simp
  qed
qed simp

text \<open>The lanes shown are the lanes the router dispatches to.\<close>

lemma LogicalLane_laneKey:
  assumes "role \<in> {''lead'', ''implementor'', ''qa''}"
  shows "LogicalLane p n role = laneKey (projectIdentity p) n role"
proof -
  have "trimSpace ''lead'' = ''lead''" "trimSpace ''implementor'' = ''implementor''" "trimSpace ''qa'' = ''qa''" by code_simp+
  with assms have "trimSpace role = role" by auto
  then show ?thesis by (simp add: LogicalLane_def laneKey_def projectIdentity_def)
qed

lemma roleReady_binding:
  assumes "list_all (roleBindingOk env p n st) items" "roleReady items role"
  obtains b where "laneOf b = (pj_id p, LogicalLane p n role)" "bi_enabled b" "shownBy (je_ttl env) (je_now env) b (bd_sessions st)"
proof -
  obtain item b where i: "find (\<lambda>item. rb_role item = role) items = Some item" "rb_binding item = Some b" "bi_enabled b" "bi_readiness b = ''ready''"
    using assms(2) by (auto simp: roleReady_def split: option.splits)
  then have "item \<in> set items" "rb_role item = role" by (auto simp: find_Some_iff)
  with assms(1) i show thesis by (intro that [of b]) (auto simp: list_all_iff roleBindingOk_def)
qed

lemma withCommand_bindings: "wx_bindings (withCommand i st c view) = wx_bindings view"
  by (simp add: withCommand_def Let_def split: option.split)


subsection \<open>An example\<close>

definition pilotWorkers :: Bindings where
  "pilotWorkers = fst (Register showNat 100 5 ((sampleRegister ''s'')\<lparr>in_worker := ''v''\<rparr>) sampleLive)"

definition pilotBindings :: Bindings where
  "pilotBindings = fst (Put showNat 100 6 1 ''nord/dash#3:implementor'' (samplePut\<lparr>pt_worker := ''v''\<rparr>)
     (fst (Put showNat 100 6 1 ''nord/dash#3:lead'' samplePut pilotWorkers)))"

lemma pilotBindings_inv: "bindingInv showNat pilotBindings"
proof -
  have 1: "bindingInv showNat pilotWorkers" unfolding pilotWorkers_def
    using run_carries [OF run_step [OF register] sampleLive_inv inj_showNat] by (simp add: carries_def)
  have put: "bindingInv showNat (fst (Put showNat 100 6 1 lane input st))" if "bindingInv showNat st" for lane input st
    using run_carries [OF Put_run that inj_showNat] by (simp add: carries_def)
  show ?thesis unfolding pilotBindings_def by (intro put 1)
qed

definition pilotProject :: Project where
  "pilotProject = \<lparr>pj_id = 1, pj_owner = ''Nord'', pj_repository = ''Dash'', pj_workflow_mode = ''standard'', pj_polling_enabled = True,
     pj_poll_interval = 60, pj_sync_status = ''healthy'', pj_sync_error = [], pj_sync_started = Some 1, pj_sync_completed = Some 2,
     pj_created = 1, pj_updated = 2\<rparr>"

definition pilotLabel :: Label where
  "pilotLabel = \<lparr>lb_name = ''ready'', lb_color = [], lb_description = []\<rparr>"

definition pilotState :: ProjectionState where
  "pilotState =
     \<lparr>jn_supervisor = \<lparr>sd_projects = [pilotProject], sd_next = 2,
        sd_tables = (\<lambda>_. emptyTables\<lparr>gt_issues := [sampleIssue [] []], gt_labels := [(9, pilotLabel)]\<rparr>)\<rparr>,
      jn_coordinator = \<lparr>cd_deliveries = [], cd_loop = \<lparr>sl_commands = [], sl_results = []\<rparr>, cd_links = [], cd_cache = Map.empty\<rparr>,
      jn_bindings = pilotBindings, jn_profiles = []\<rparr>"

definition pilotSnapshot :: ProjectSnapshot where
  "pilotSnapshot = \<lparr>ps_project = pilotProject, ps_issues = [(sampleIssue [] [])\<lparr>is_labels := [pilotLabel]\<rparr>]\<rparr>"

definition pilotEnv :: ProjectionEnv where
  "pilotEnv = \<lparr>je_fresh = showNat, je_ttl = 100, je_now = 7,
     je_resources = \<lparr>pk_profile = DefaultProfile, pk_manifest = \<lparr>mf_package = [], mf_version = [], mf_methodology = \<lparr>id_package = [], id_version = []\<rparr>,
       mf_protocol = \<lparr>id_package = [], id_version = []\<rparr>, mf_resources = []\<rparr>, pk_files = [], pk_digests = [], pk_digest = ''d''\<rparr>,
     je_health = \<lparr>he_enabled = False, he_status = ''disabled'', he_runtime = [], he_endpoint = [], he_provider = [], he_model = [],
       he_agent = [], he_error = []\<rparr>\<rparr>"

lemma pilot_read: "ReadProjectSnapshot 1 (jn_supervisor pilotState) = Inr pilotSnapshot"
  by (simp add: ReadProjectSnapshot_def GetProject_def row_get_def pilotState_def pilotProject_def pilotSnapshot_def readIssues_def
      readLabels_def readComments_def readPullRequests_def emptyTables_def sampleIssue_def)

lemma pilot_unit: "\<exists>u. FindWorkUnit (DeriveProject Map.empty pilotSnapshot) 3 = Some u \<and> wu_warnings u = [] \<and> cs_current (wu_candidate u) = None"
proof -
  have "case FindWorkUnit (DeriveProject Map.empty pilotSnapshot) 3 of None \<Rightarrow> False
    | Some u \<Rightarrow> wu_warnings u = [] \<and> cs_current (wu_candidate u) = None" by code_simp
  then show ?thesis by (cases "FindWorkUnit (DeriveProject Map.empty pilotSnapshot) 3") simp_all
qed

lemma pilot_roles:
  "\<exists>st items. roleBindings pilotEnv pilotProject 3 [''lead'', ''implementor'', ''qa''] pilotBindings = (st, Inr items) \<and>
     roleReady items ''lead'' \<and> roleReady items ''implementor'' \<and> hasLiveWorker items"
proof -
  have "case snd (roleBindings pilotEnv pilotProject 3 [''lead'', ''implementor'', ''qa''] pilotBindings) of Inl _ \<Rightarrow> False
    | Inr items \<Rightarrow> roleReady items ''lead'' \<and> roleReady items ''implementor'' \<and> hasLiveWorker items" by code_simp
  then show ?thesis
    by (cases "roleBindings pilotEnv pilotProject 3 [''lead'', ''implementor'', ''qa''] pilotBindings") (auto split: sum.splits)
qed

lemma pilot_is_ready: "\<exists>st' r. Readiness pilotEnv 1 3 pilotState = (st', Inr r) \<and> pl_ready r"
proof -
  obtain u where u: "FindWorkUnit (DeriveProject Map.empty pilotSnapshot) 3 = Some u" "wu_warnings u = []" "cs_current (wu_candidate u) = None"
    using pilot_unit by blast
  obtain st items where roles: "roleBindings pilotEnv pilotProject 3 [''lead'', ''implementor'', ''qa''] pilotBindings = (st, Inr items)"
    "roleReady items ''lead''" "roleReady items ''implementor''" "hasLiveWorker items" using pilot_roles by blast
  have get: "GetProject 1 (jn_supervisor pilotState) = Inr pilotProject"
    by (simp add: GetProject_def row_get_def pilotState_def pilotProject_def)
  have profile: "Profile (je_now pilotEnv) 1 pilotState = (pilotState\<lparr>jn_profiles := [defaultProfile 7 1]\<rparr>, Inr (defaultProfile 7 1))"
    by (simp add: Profile_def get readProfile_def row_get_def) (simp add: pilotState_def pilotEnv_def defaultProfile_def)
  have none: "ListCommands 1 3 (cd_loop (jn_coordinator pilotState)) = []" by (simp add: ListCommands_def pilotState_def)
  have parts: "cd_cache (jn_coordinator pilotState) = Map.empty" "jn_bindings pilotState = pilotBindings" by (simp_all add: pilotState_def)
  obtain x st' where x: "WorkUnitView pilotEnv 1 3 pilotState = (st', Inr x)" "wx_profile x = defaultProfile 7 1" "wx_bindings x = items"
    by (simp add: WorkUnitView_def get profile none currentProjectionCommand_def parts roles(1) Let_def del: roleBindings.simps)
  have "list_all ck_ready (readinessChecks pilotEnv pilotProject u x)"
    using u(2,3) roles(2-4)
    by (simp add: readinessChecks_def Let_def readinessCheck_def x(2,3)) (simp add: pilotEnv_def pilotProject_def defaultProfile_def)
  then show ?thesis
    by (simp add: Readiness_def pilot_read parts u(1) x(1) Let_def) (simp add: pilotSnapshot_def)
qed


end
