(* ===== verification/Spec2Isabelle.thy ===== *)
theory Spec2Isabelle
  imports Workspace Delivery_Binding Worker_Results Coordinator_Machine Context_Facts Planned_Delivery Github_Sync Projection_Facts
begin

text \<open>
  CDDM Dashboard: a verification library of its Go backend.

  The backend supervises GitHub issues that AI workers (Lead, Implementor, QA) deliver. A
  synchronization stores a snapshot of the issues (\<open>internal/supervisor\<close>); \<open>internal/workflow\<close>
  derives from the snapshot alone which worker acts next; \<open>internal/planning\<close> turns that route
  into a prompt plan and a policy decision; \<open>internal/workerloop\<close> creates a workflow command for
  an approved plan and accepts the terminal result a worker publishes as a GitHub comment;
  \<open>internal/delivery\<close> holds the confirmed prompt until the browser extension has put it into the
  chat that \<open>internal/browserbinding\<close> has bound to the worker's lane. The parts share one SQLite
  database and call each other in that direction. All paths below are under \<open>src/backend\<close>.

  Representation. A Go string is its bytes (\<open>string\<close>), an integer field that is only stored and
  compared is an \<open>int\<close>, \<open>time.Time\<close> is an \<open>int\<close> of nanoseconds since Go's zero time, a slice is a
  list, a map is a map or an association list where its order shows, a pointer that may be nil
  is an \<open>option\<close>. A table is the list of its rows; a transaction or single statement is one function
  from the state to the state and its result, so a service is a sequence of such functions. The
  clock, the random ids, SHA-256 and the collaborators behind an interface are arguments.

  Shared theories.
  \<^item> \<open>Prelude\<close>: rows and tables (locale \<open>keyed_table\<close>), status machines (locale \<open>status_machine\<close>),
    deduplication with a seen set.
  \<^item> \<open>Go_Strings\<close>: \<open>strings.TrimSpace\<close>, \<open>ToLower\<close>, \<open>Index\<close>, \<open>Split\<close>, integer parsing with its 64-bit range.
  \<^item> \<open>Go_Time\<close>: \<open>Format(time.RFC3339Nano)\<close> with the civil calendar, the text the services store.
  \<^item> \<open>Json\<close>: the reader and writer of \<open>encoding/json\<close> the backend relies on. The reader has fuel twice
    the length of its text plus two; the theory shows that more fuel changes nothing.
  \<^item> \<open>Markdown\<close>: the line scanners of \<open>workflow/parser.go\<close> and \<open>workerloop/marker.go\<close> (locale
    \<open>markdown_scanner\<close>, interpreted on both).

  Supervision, \<open>internal/supervisor\<close> and \<open>internal/githubclient\<close>.
  \<^item> \<open>Supervisor_Store\<close>, \<open>Supervisor_Facts\<close> (\<open>store.go\<close>, \<open>read.go\<close>): the registered projects and, for each of
    them, the six snapshot tables with their keys and references; replacing a snapshot and reading
    it back. Go leaves the order of a map open: the order of the pull requests is an argument.
  \<^item> \<open>Supervisor_Sync\<close>, \<open>Supervisor_Machine\<close> (\<open>service.go\<close>): one synchronization with all its ways to fail,
    the poller, the invariant of the tables, and when a project is due again.
  \<^item> \<open>Github_Client\<close>, \<open>Github_Facts\<close> (\<open>api.go\<close>, \<open>client.go\<close>): the pages of GitHub's interface, the state of
    the checks, the references to Issues; the pages put together are the repository.
  \<^item> \<open>Github_Sync\<close>: what a synchronization stores when GitHub serves a repository, and what an open
    merge gate then says of the pull request and its check runs on GitHub.

  Workflow derivation, \<open>internal/workflow\<close>.
  \<^item> \<open>Workflow_Types\<close>: \<open>types.go\<close>, \<open>external.go\<close> and the snapshot of \<open>supervisor/types.go\<close>.
  \<^item> \<open>Parser\<close> (\<open>parser.go\<close>): a comment is automatic evidence only with one live, complete envelope.
  \<^item> \<open>Evidence\<close> (\<open>derive_evidence.go\<close>): the binding of results to the current Head and the queue of blockers.
  \<^item> \<open>Snapshot\<close>, \<open>Attention\<close>, \<open>Routing\<close>, \<open>Workspace\<close> (\<open>derive_snapshot.go\<close>, \<open>derive_attention.go\<close>,
    \<open>derive_routing.go\<close>, \<open>derive_workspace.go\<close>): canonical comments, attention, the router, a work unit,
    a project and the workspace. The lemmas show what each route requires, that the order and
    repetition of comments do not matter, and that lookups and lists are complete.

  Delivery, \<open>internal/delivery\<close> and \<open>internal/browserbinding\<close>.
  \<^item> \<open>Planning_Types\<close>: the structs of \<open>planning/types.go\<close> the queue reads.
  \<^item> \<open>Delivery\<close>, \<open>Delivery_Machine\<close> (\<open>types.go\<close>, \<open>store.go\<close>, \<open>service.go\<close>): the queue of confirmed prompts as
    transactions on its table; its runs keep the invariant and follow the status machine,
    confirming and claiming are idempotent, a claim needs current authority.
  \<^item> \<open>Binding\<close>, \<open>Binding_Machine\<close> (\<open>service.go\<close>, \<open>projection.go\<close>): lane bindings with versions, browser
    sessions with presence tokens, conflicts and expiry.
  \<^item> \<open>Delivery_Binding\<close>: the resolver between both (locale \<open>binding_reader\<close>), and that a conflict in the
    browser stops the delivery of what was confirmed before it.

  Worker loop, \<open>internal/workerloop\<close>.
  \<^item> \<open>Marker\<close> (\<open>marker.go\<close>): the result marker, its strict decoding, validation and canonical text; reading
    back what is written.
  \<^item> \<open>Command_Store\<close> (\<open>types.go\<close>, \<open>store.go\<close>, \<open>result_lookup.go\<close>, \<open>result_queries.go\<close>): the two tables.
  \<^item> \<open>Worker_Service\<close> (\<open>service.go\<close>, \<open>state.go\<close>, \<open>sync_observer.go\<close>): observing a snapshot, reconciling the
    commands, projecting results and commands into the derivation.
  \<^item> \<open>Worker_Machine\<close>, \<open>Worker_Results\<close>: the runs of the store follow the status machine, an observation
    settles the commands, accepted results are genuine, and the guard against edited comments
    lasts for one observation only.
  \<^item> \<open>Resource_Pack\<close> (\<open>internal/resourcepack/package.go\<close>): the manifest of the role resources, its
    validation and the look-ups.
  \<^item> \<open>Coordinator\<close>, \<open>Coordinator_Machine\<close> (\<open>prompt.go\<close>, \<open>delivery.go\<close>, \<open>qa_binding.go\<close>): the command of an
    approved plan, the coordinator over commands, deliveries and their links, and the retirement
    of QA bindings; nothing the coordinator does changes a command that has ended, and a delivery
    is linked to its command or withdrawn.

  \<^item> \<open>Projection\<close>, \<open>Projection_Facts\<close> (\<open>projection.go\<close>): execution profiles, the view of a work unit and the
    readiness of a pilot over the tables of the other parts, and what a ready pilot means.

  Planning, \<open>internal/planning\<close>.
  \<^item> \<open>Redact\<close>, \<open>Redact_Facts\<close> (\<open>redactText\<close> of \<open>context.go\<close>): the four regular expressions with the
    leftmost-first matching of Go, and a quick test for texts that stay as they are.
  \<^item> \<open>Planning_Json\<close>, \<open>Context_Pack\<close>, \<open>Context_Facts\<close> (\<open>context.go\<close>, the tags of \<open>types.go\<close>): the bounded,
    redacted context of a unit and its canonical text; its bounds, and what is never left out.
  \<^item> \<open>Policy\<close>, \<open>Policy_Facts\<close>, \<open>Fallback\<close> (\<open>policy.go\<close>, \<open>fallback.go\<close>): the decision on a plan and the plan
    composed without a planner.
  \<^item> \<open>Plan_Text\<close>, \<open>Json_Text\<close> (\<open>plan.go\<close>): the reader of a plan and that it reads back what is written.
  \<^item> \<open>Planning_Service\<close>, \<open>Generation\<close> (\<open>service.go\<close>, \<open>store.go\<close>): a generation with its two attempts and
    the audit table; what an approved plan is worth when the unit is looked at again, and what a
    generation leaves in the table.
  \<^item> \<open>Planned_Delivery\<close>: coordinator, queue, projection and planning service wired as in
    \<open>cmd/server/main.go\<close>, and what follows for a delivery that was just created.

  Recursion. Loops over lists are structural; the Markdown and key scanners, the search for
  matches of a pattern and the truncation have the length of their text as measure, the bisection
  of \<open>FindWorkUnit\<close> its interval. The loops over pages count the pages that may still be read. The JSON reader has fuel as said above. A greedy star of a pattern
  has the rest of the text as fuel: every round but the last consumes a byte. The reader of raw
  members has the text itself as fuel: a member consumes a byte at least.

  Arguments of the model. SHA-256, the text of a float64 and its reading, the indented JSON text of a
  context, the embedded role resources, the planner (a function from a request to an answer or an
  error category), the snapshot and the projection at each moment of a generation, the answers of
  GitHub to the requests of one snapshot, and the observer of a synchronization.

  Not modelled. Database faults and the errors they become, cancellation of contexts, the
  nesting limit of \<open>encoding/json\<close> and the wording of its errors, letters outside ASCII in
  \<open>strings.ToLower\<close> and \<open>EqualFold\<close>. Outside the components above: the HTTP requests of the
  GitHub and planner clients, the HTTP handlers, configuration, migrations and the command line tool
  \<open>cmd/cddm-change\<close> (mostly I/O with processes, files and the network), the web interface and the browser
  extension (TypeScript).
\<close>

end
